(* ===== verification/Prelude.thy ===== *)
theory Prelude
  imports Main "HOL-Library.Word" "HOL-Library.AList"
begin

section \<open>Shared types, result monad and association maps\<close>

text \<open>
  What every component of the development shares.

  \<^item> A Go function with results \<open>(T, error)\<close> is a function into \<open>'e + 'a\<close>: \<open>Inl\<close> is the
    error return, \<open>Inr\<close> the value. \<open>rbind\<close> is the \<open>if err != nil { return err }\<close> idiom,
    \<open>map_err\<close> the \<open>fmt.Errorf("...: %w", err)\<close> wrapping, and \<open>mapM\<close> the loop over a slice
    that returns at the first failing element.
  \<^item> A Go map is an association list in the order the runtime happens to iterate it. Every
    theorem quantifies over the list, so over every iteration order; a key occurs once
    (\<open>distinct (map fst m)\<close>). Assignment \<open>m[k] = v\<close> is \<open>AList.update k v m\<close>, lookup is
    \<open>map_of m k\<close>.
  \<^item> A Go string is its list of bytes.
\<close>

type_synonym byte = "8 word"
type_synonym bytes = "8 word list"
type_synonym 'v gomap = "(string \<times> 'v) list"

named_theorems res_simps \<open>evaluation rules of the result monad\<close>
named_theorems res_inv \<open>inversion rules of the result monad\<close>

subsection \<open>The result monad\<close>

definition rbind :: "'e + 'a \<Rightarrow> ('a \<Rightarrow> 'e + 'b) \<Rightarrow> 'e + 'b" where
  "rbind m f = (case m of Inl e \<Rightarrow> Inl e | Inr x \<Rightarrow> f x)"

definition map_err :: "('e \<Rightarrow> 'f) \<Rightarrow> 'e + 'a \<Rightarrow> 'f + 'a" where
  "map_err g m = (case m of Inl e \<Rightarrow> Inl (g e) | Inr x \<Rightarrow> Inr x)"

fun mapM :: "('a \<Rightarrow> 'e + 'b) \<Rightarrow> 'a list \<Rightarrow> 'e + 'b list" where
  "mapM f [] = Inr []"
| "mapM f (x # xs) = rbind (f x) (\<lambda>y. rbind (mapM f xs) (\<lambda>ys. Inr (y # ys)))"

text \<open>The loop over a slice whose body also uses the index, starting at \<open>i\<close>.\<close>

definition mapMi :: "(nat \<Rightarrow> 'a \<Rightarrow> 'e + 'b) \<Rightarrow> 'a list \<Rightarrow> 'e + 'b list" where
  "mapMi f xs = mapM (\<lambda>(i, x). f i x) (zip [0..<length xs] xs)"

text \<open>The loop over a map that builds a map with the same keys.\<close>

definition mapM_vals :: "(string \<Rightarrow> 'a \<Rightarrow> 'e + 'b) \<Rightarrow> 'a gomap \<Rightarrow> 'e + 'b gomap" where
  "mapM_vals f m = mapM (\<lambda>(k, v). rbind (f k v) (\<lambda>v'. Inr (k, v'))) m"

definition map_res :: "('a \<Rightarrow> 'b) \<Rightarrow> 'e + 'a \<Rightarrow> 'e + 'b" where
  "map_res f m = rbind m (\<lambda>x. Inr (f x))"

lemma rbind_simps [simp, res_simps]:
  "rbind (Inl e) f = Inl e" "rbind (Inr x) f = f x"
  by (simp_all add: rbind_def)

lemma map_err_simps [simp, res_simps]:
  "map_err g (Inl e) = Inl (g e)" "map_err g (Inr x) = Inr x"
  by (simp_all add: map_err_def)

lemma map_res_simps [simp, res_simps]:
  "map_res f (Inl e) = Inl e" "map_res f (Inr x) = Inr (f x)"
  by (simp_all add: map_res_def)

lemma map_res_eq_Inr [res_inv]: "map_res f m = Inr y \<longleftrightarrow> (\<exists>x. m = Inr x \<and> y = f x)"
  by (cases m) auto

lemma rbind_eq_Inr [res_inv]:
  "rbind m f = Inr y \<longleftrightarrow> (\<exists>x. m = Inr x \<and> f x = Inr y)"
  by (cases m) auto

lemma rbind_eq_Inl [res_inv]:
  "rbind m f = Inl e \<longleftrightarrow> m = Inl e \<or> (\<exists>x. m = Inr x \<and> f x = Inl e)"
  by (cases m) auto

lemma map_err_eq_Inr [simp, res_inv]: "map_err g m = Inr x \<longleftrightarrow> m = Inr x"
  by (cases m) auto

lemma map_err_eq_Inl [res_inv]: "map_err g m = Inl e \<longleftrightarrow> (\<exists>e'. m = Inl e' \<and> e = g e')"
  by (cases m) auto

lemma rbind_cong [fundef_cong]:
  "m = m' \<Longrightarrow> (\<And>x. m' = Inr x \<Longrightarrow> f x = f' x) \<Longrightarrow> rbind m f = rbind m' f'"
  by (cases m') auto

lemma mapM_cong [fundef_cong]:
  "xs = ys \<Longrightarrow> (\<And>x. x \<in> set ys \<Longrightarrow> f x = g x) \<Longrightarrow> mapM f xs = mapM g ys"
  by (induction ys arbitrary: xs) auto

lemma mapMi_cong [fundef_cong]:
  assumes "xs = ys" and "\<And>i x. i < length ys \<Longrightarrow> x \<in> set ys \<Longrightarrow> f i x = g i x"
  shows "mapMi f xs = mapMi g ys"
  using assms unfolding mapMi_def
  by (intro mapM_cong) (auto dest: set_zip_leftD set_zip_rightD in_set_zipE elim!: in_set_zipE)

lemma mapM_vals_cong [fundef_cong]:
  assumes "m = m'" and "\<And>k v. (k, v) \<in> set m' \<Longrightarrow> f k v = g k v"
  shows "mapM_vals f m = mapM_vals g m'"
  using assms unfolding mapM_vals_def by (intro mapM_cong) auto

lemma mapM_Inr_conv:
  "mapM f xs = Inr ys \<longleftrightarrow> list_all2 (\<lambda>x y. f x = Inr y) xs ys"
  by (induction xs arbitrary: ys)
     (auto simp: rbind_eq_Inr list_all2_Cons1)

lemma mapM_InlD: "mapM f xs = Inl e \<Longrightarrow> \<exists>x \<in> set xs. f x = Inl e"
  by (induction xs) (auto simp: rbind_eq_Inl)

lemma mapM_total:
  assumes "\<And>x. x \<in> set xs \<Longrightarrow> \<exists>y. f x = Inr y"
  shows "\<exists>ys. mapM f xs = Inr ys"
  using assms by (cases "mapM f xs") (fastforce dest: mapM_InlD)+

lemma mapM_length: "mapM f xs = Inr ys \<Longrightarrow> length ys = length xs"
  by (simp add: mapM_Inr_conv list_all2_lengthD)

lemma mapM_map: "mapM f (map g xs) = mapM (\<lambda>x. f (g x)) xs"
  by (induction xs) auto

lemma mapM_Inr_map: "(\<And>x. x \<in> set xs \<Longrightarrow> f x = Inr (g x)) \<Longrightarrow> mapM f xs = Inr (map g xs)"
  by (induction xs) auto

lemma mapMi_Nil [simp]: "mapMi f [] = Inr []"
  by (simp add: mapMi_def)

lemma mapMi_Inr_conv:
  "mapMi f xs = Inr ys \<longleftrightarrow> length ys = length xs \<and> (\<forall>i < length xs. f i (xs ! i) = Inr (ys ! i))"
  by (auto simp: mapMi_def mapM_Inr_conv list_all2_conv_all_nth)

lemma mapMi_length: "mapMi f xs = Inr ys \<Longrightarrow> length ys = length xs"
  by (simp add: mapMi_Inr_conv)

lemma mapMi_Inr_map:
  "(\<And>i x. i < length xs \<Longrightarrow> x \<in> set xs \<Longrightarrow> f i x = Inr (g x)) \<Longrightarrow> mapMi f xs = Inr (map g xs)"
  by (simp add: mapMi_Inr_conv)

lemma mapM_vals_Nil [simp]: "mapM_vals f [] = Inr []"
  by (simp add: mapM_vals_def)

lemma mapM_vals_Cons [simp]:
  "mapM_vals f ((k, v) # m) =
     rbind (f k v) (\<lambda>v'. rbind (mapM_vals f m) (\<lambda>m'. Inr ((k, v') # m')))"
  by (cases "f k v") (simp_all add: mapM_vals_def)

lemma mapM_vals_Inr_conv:
  "mapM_vals f m = Inr m' \<longleftrightarrow>
     list_all2 (\<lambda>(k, v) (k', v'). k' = k \<and> f k v = Inr v') m m'"
  by (induction m arbitrary: m')
     (auto simp: rbind_eq_Inr list_all2_Cons1 split: prod.splits)

lemma mapM_vals_keys: "mapM_vals f m = Inr m' \<Longrightarrow> map fst m' = map fst m"
  by (induction m arbitrary: m') (auto simp: rbind_eq_Inr)

lemma mapM_vals_lookup:
  "mapM_vals f m = Inr m' \<Longrightarrow>
     (case map_of m k of None \<Rightarrow> map_of m' k = None
      | Some v \<Rightarrow> \<exists>v'. f k v = Inr v' \<and> map_of m' k = Some v')"
  by (induction m arbitrary: m') (auto simp: rbind_eq_Inr split: option.splits)

lemma mapM_vals_Inr_map:
  "(\<And>k v. (k, v) \<in> set m \<Longrightarrow> f k v = Inr (g k v)) \<Longrightarrow>
     mapM_vals f m = Inr (map (\<lambda>(k, v). (k, g k v)) m)"
  by (induction m) auto

subsection \<open>Maps\<close>

definition map_wf :: "'v gomap \<Rightarrow> bool" where
  "map_wf m \<longleftrightarrow> distinct (map fst m)"

lemma map_wf_Nil [simp]: "map_wf []"
  by (simp add: map_wf_def)

lemma map_wf_Cons [simp]: "map_wf (kv # m) \<longleftrightarrow> fst kv \<notin> fst ` set m \<and> map_wf m"
  by (simp add: map_wf_def)

lemma map_wf_update [simp]: "map_wf m \<Longrightarrow> map_wf (AList.update k v m)"
  by (simp add: map_wf_def distinct_update)

lemma map_wf_keys: "map fst m' = map fst m \<Longrightarrow> map_wf m' = map_wf m"
  by (simp add: map_wf_def)

lemma map_of_update [simp]: "map_of (AList.update k v m) = (map_of m)(k \<mapsto> v)"
  by (rule update_conv')

lemma update_new [simp]: "k \<notin> fst ` set m \<Longrightarrow> AList.update k v m = m @ [(k, v)]"
  by (induction m) auto

text \<open>Two maps are equal when they hold the same entries: Go does not order them.\<close>

definition map_eq :: "'v gomap \<Rightarrow> 'v gomap \<Rightarrow> bool" where
  "map_eq m m' \<longleftrightarrow> map_of m = map_of m'"

lemma map_eq_refl [simp]: "map_eq m m"
  by (simp add: map_eq_def)

lemma map_eq_sym: "map_eq m m' \<Longrightarrow> map_eq m' m"
  by (simp add: map_eq_def)

lemma map_eq_trans [trans]: "map_eq a b \<Longrightarrow> map_eq b c \<Longrightarrow> map_eq a c"
  by (simp add: map_eq_def)

text \<open>First match of a predicate in a slice (\<open>for i := range vs { if ... { return } }\<close>).\<close>

lemma find_SomeD: "find P xs = Some x \<Longrightarrow> x \<in> set xs \<and> P x"
  by (induction xs) (auto split: if_splits)

lemma find_None: "find P xs = None \<longleftrightarrow> (\<forall>x \<in> set xs. \<not> P x)"
  by (induction xs) auto

subsection \<open>Loops that fill a map\<close>

text \<open>\<open>build_map f acc xs\<close> is the loop \<open>for _, x := range xs { ...; out[k] = v }\<close> from the map
  \<open>acc\<close>: the body returns with an error, skips the element (\<open>continue\<close>), or assigns.\<close>

fun build_map :: "('a \<Rightarrow> 'e + (string \<times> 'b) option) \<Rightarrow> 'b gomap \<Rightarrow> 'a list \<Rightarrow> 'e + 'b gomap" where
  "build_map f acc [] = Inr acc"
| "build_map f acc (x # xs) =
     rbind (f x) (\<lambda>r. build_map f (case r of None \<Rightarrow> acc | Some (k, v) \<Rightarrow> AList.update k v acc) xs)"

lemma build_map_cong [fundef_cong]:
  "acc = acc' \<Longrightarrow> xs = ys \<Longrightarrow> (\<And>x. x \<in> set ys \<Longrightarrow> f x = g x) \<Longrightarrow> build_map f acc xs = build_map g acc' ys"
  by (induction ys arbitrary: xs acc acc') auto

lemma build_map_InlD: "build_map f acc xs = Inl e \<Longrightarrow> \<exists>x \<in> set xs. f x = Inl e"
  by (induction f acc xs rule: build_map.induct) (auto simp: rbind_eq_Inl)

lemma build_map_wf: "build_map f acc xs = Inr m \<Longrightarrow> map_wf acc \<Longrightarrow> map_wf m"
  by (induction f acc xs rule: build_map.induct) (auto simp: rbind_eq_Inr split: option.splits)

text \<open>With distinct keys the loop is a filtering map.\<close>

lemma build_map_distinct:
  assumes "\<And>x. x \<in> set xs \<Longrightarrow> f x = Inr (map_option (\<lambda>v. (key x, v)) (g x))"
    and "distinct (map fst acc @ map key xs)"
  shows "build_map f acc xs = Inr (acc @ List.map_filter (\<lambda>x. map_option (\<lambda>v. (key x, v)) (g x)) xs)"
  using assms
proof (induction xs arbitrary: acc)
  case Nil
  then show ?case by simp
next
  case (Cons x xs)
  show ?case
  proof (cases "g x")
    case None
    with Cons show ?thesis by simp
  next
    case (Some v)
    have new: "key x \<notin> fst ` set acc" using Cons.prems(2) by auto
    have "build_map f (acc @ [(key x, v)]) xs =
        Inr ((acc @ [(key x, v)]) @ List.map_filter (\<lambda>x. map_option (\<lambda>v. (key x, v)) (g x)) xs)"
      using Cons.prems by (intro Cons.IH) auto
    with Some new Cons.prems(1) [of x] show ?thesis by simp
  qed
qed

lemma map_filter_option:
  "List.map_filter (\<lambda>x. map_option (\<lambda>v. (key x, v)) (g x)) xs =
     map (\<lambda>x. (key x, the (g x))) (filter (\<lambda>x. g x \<noteq> None) xs)"
  by (induction xs) (auto simp: List.map_filter_simps split: option.splits)

lemma map_of_map_keys:
  "distinct (map key xs) \<Longrightarrow> x \<in> set xs \<Longrightarrow> map_of (map (\<lambda>x. (key x, g x)) xs) (key x) = Some (g x)"
  by (intro map_of_is_SomeI) (auto simp: comp_def)

lemma map_of_map_vals: "map_of (map (\<lambda>(k, v). (k, g k v)) m) k = map_option (g k) (map_of m k)"
  by (induction m) auto

lemma map_of_mem: "map_wf m \<Longrightarrow> (k, v) \<in> set m \<Longrightarrow> map_of m k = Some v"
  by (simp add: map_wf_def map_of_is_SomeI)

text \<open>A map copied over another, entry by entry.\<close>

lemma map_of_fold_update:
  "distinct (map fst ps) \<Longrightarrow> map_of (fold (\<lambda>(k, v) m. AList.update k v m) ps m) = map_of m ++ map_of ps"
proof (induction ps arbitrary: m)
  case (Cons p ps)
  then show ?case
    by (cases p) (simp add: update_conv' map_add_upd_left dom_map_of_conv_image_fst del: fun_upd_apply)
qed simp

lemma update_fresh: "k \<notin> fst ` set m \<Longrightarrow> AList.update k v m = m @ [(k, v)]"
  by (induction m) auto

lemma fold_update_fresh:
  "distinct (map fst (m @ ps)) \<Longrightarrow> fold (\<lambda>(k, v) m. AList.update k v m) ps m = m @ ps"
proof (induction ps arbitrary: m)
  case (Cons p ps)
  obtain k v where p: "p = (k, v)" by (cases p)
  have "fold (\<lambda>(k, v) m. AList.update k v m) ps (m @ [p]) = (m @ [p]) @ ps"
    using Cons.prems by (intro Cons.IH) auto
  moreover have "AList.update k v m = m @ [p]" using Cons.prems p by (intro update_fresh [of k m v, unfolded p [symmetric]]) auto
  ultimately show ?case by (simp add: p)
qed simp

end
