(* ===== verification/GoStrings.thy ===== *)
theory GoStrings
  imports Prelude
begin

section \<open>Strings, decimals and hex\<close>

text \<open>
  The functions of the Go standard library that the repository calls on strings, as functions
  on byte lists: \<open>strings.HasPrefix\<close>, \<open>TrimSpace\<close>, \<open>Split\<close>, \<open>Cut\<close>, \<open>SplitN\<close>,
  \<open>LastIndex\<close>, \<open>Join\<close>, \<open>strconv.FormatInt/ParseInt/ParseUint/Atoi\<close>,
  \<open>big.Int.SetString\<close> in base 10, and \<open>encoding/hex\<close>. A character is a byte, so a code
  point beyond ASCII is several characters; the functions that look at code points
  (\<open>TrimSpace\<close>) spell out their UTF-8 encodings.
\<close>

subsection \<open>Prefixes, searching, splitting\<close>

definition has_prefix :: "string \<Rightarrow> string \<Rightarrow> bool" where
  "has_prefix s p \<longleftrightarrow> take (length p) s = p"

definition has_suffix :: "string \<Rightarrow> string \<Rightarrow> bool" where
  "has_suffix s p \<longleftrightarrow> length p \<le> length s \<and> drop (length s - length p) s = p"

definition trim_suffix :: "string \<Rightarrow> string \<Rightarrow> string" where
  "trim_suffix s p = (if has_suffix s p then take (length s - length p) s else s)"

lemma has_prefix_append [simp]: "has_prefix (p @ s) p"
  by (simp add: has_prefix_def)

lemma has_prefix_iff: "has_prefix s p \<longleftrightarrow> (\<exists>r. s = p @ r)"
  unfolding has_prefix_def by (metis append_eq_conv_conj append_take_drop_id)

lemma has_suffix_append [simp]: "has_suffix (s @ p) p"
  by (simp add: has_suffix_def)

lemma trim_suffix_append [simp]: "trim_suffix (s @ p) p = s"
  by (simp add: trim_suffix_def)

text \<open>\<open>strings.Split(s, sep)\<close> for a separator of one character.\<close>

fun split_on :: "char \<Rightarrow> string \<Rightarrow> string list" where
  "split_on c [] = [[]]"
| "split_on c (x # xs) =
     (if x = c then [] # split_on c xs
      else (case split_on c xs of [] \<Rightarrow> [[x]] | p # ps \<Rightarrow> (x # p) # ps))"

text \<open>\<open>strings.Cut(s, sep)\<close>: the part before the first separator, the part after it, and
  whether there was one.\<close>

fun cut :: "char \<Rightarrow> string \<Rightarrow> string \<times> string \<times> bool" where
  "cut c [] = ([], [], False)"
| "cut c (x # xs) =
     (if x = c then ([], xs, True)
      else (case cut c xs of (a, b, f) \<Rightarrow> (x # a, b, f)))"

text \<open>\<open>strings.SplitN(s, sep, n)\<close> for positive \<open>n\<close>.\<close>

fun split_n :: "char \<Rightarrow> string \<Rightarrow> nat \<Rightarrow> string list" where
  "split_n c s 0 = []"
| "split_n c s (Suc 0) = [s]"
| "split_n c s (Suc n) =
     (case cut c s of (a, b, f) \<Rightarrow> if f then a # split_n c b n else [s])"

fun join :: "string \<Rightarrow> string list \<Rightarrow> string" where
  "join sep [] = []"
| "join sep [x] = x"
| "join sep (x # y # ys) = x @ sep @ join sep (y # ys)"

text \<open>\<open>strings.LastIndex(s, sep)\<close>; \<open>None\<close> is Go's \<open>-1\<close>.\<close>

fun last_index :: "char \<Rightarrow> string \<Rightarrow> nat option" where
  "last_index c [] = None"
| "last_index c (x # xs) =
     (case last_index c xs of Some i \<Rightarrow> Some (Suc i)
      | None \<Rightarrow> if x = c then Some 0 else None)"

lemma split_on_not_Nil [simp]: "split_on c s \<noteq> []"
  by (induction s) (auto split: list.splits)

lemma join_split_on: "join [c] (split_on c s) = s"
proof (induction s)
  case Nil
  then show ?case by simp
next
  case (Cons x xs)
  then show ?case by (cases "split_on c xs") (auto, case_tac list, auto)
qed

lemma split_on_no_sep: "p \<in> set (split_on c s) \<Longrightarrow> c \<notin> set p"
  by (induction s arbitrary: p) (auto split: if_splits list.splits)

lemma split_on_id: "c \<notin> set s \<Longrightarrow> split_on c s = [s]"
  by (induction s) auto

lemma split_on_append:
  "c \<notin> set p \<Longrightarrow> split_on c (p @ c # s) = p # split_on c s"
  by (induction p) auto

lemma split_on_join:
  "xs \<noteq> [] \<Longrightarrow> (\<And>x. x \<in> set xs \<Longrightarrow> c \<notin> set x) \<Longrightarrow> split_on c (join [c] xs) = xs"
proof (induction xs)
  case Nil
  then show ?case by simp
next
  case (Cons x xs)
  then show ?case by (cases xs) (auto simp: split_on_id split_on_append)
qed

lemma cut_no_sep: "c \<notin> set s \<Longrightarrow> cut c s = (s, [], False)"
  by (induction s) auto

lemma cut_append [simp]: "c \<notin> set p \<Longrightarrow> cut c (p @ c # s) = (p, s, True)"
  by (induction p) auto

lemma cut_True: "cut c s = (a, b, True) \<Longrightarrow> s = a @ c # b \<and> c \<notin> set a"
  by (induction s arbitrary: a b) (auto split: if_splits prod.splits)

lemma cut_False: "cut c s = (a, b, False) \<Longrightarrow> a = s \<and> b = [] \<and> c \<notin> set s"
  by (induction s arbitrary: a b) (auto split: if_splits prod.splits)

lemma last_index_None: "last_index c s = None \<longleftrightarrow> c \<notin> set s"
  by (induction s) (auto split: option.splits)

lemma last_index_append: "c \<notin> set q \<Longrightarrow> last_index c (p @ c # q) = Some (length p)"
proof (induction p)
  case Nil
  then show ?case by (simp add: last_index_None split: option.splits)
next
  case (Cons x p)
  then show ?case by simp
qed

lemma last_index_SomeD:
  "last_index c s = Some i \<Longrightarrow> i < length s \<and> s ! i = c \<and> c \<notin> set (drop (Suc i) s)"
  by (induction s arbitrary: i) (auto simp: last_index_None split: option.splits if_splits)

subsection \<open>White space\<close>

text \<open>The UTF-8 encodings of \<open>unicode.IsSpace\<close>.\<close>

definition space_encodings :: "string list" where
  "space_encodings =
     [[CHR 0x09], [CHR 0x0A], [CHR 0x0B], [CHR 0x0C], [CHR 0x0D], [CHR 0x20],
      [CHR 0xC2, CHR 0x85], [CHR 0xC2, CHR 0xA0], [CHR 0xE1, CHR 0x9A, CHR 0x80],
      [CHR 0xE2, CHR 0x80, CHR 0x80], [CHR 0xE2, CHR 0x80, CHR 0x81],
      [CHR 0xE2, CHR 0x80, CHR 0x82], [CHR 0xE2, CHR 0x80, CHR 0x83],
      [CHR 0xE2, CHR 0x80, CHR 0x84], [CHR 0xE2, CHR 0x80, CHR 0x85],
      [CHR 0xE2, CHR 0x80, CHR 0x86], [CHR 0xE2, CHR 0x80, CHR 0x87],
      [CHR 0xE2, CHR 0x80, CHR 0x88], [CHR 0xE2, CHR 0x80, CHR 0x89],
      [CHR 0xE2, CHR 0x80, CHR 0x8A], [CHR 0xE2, CHR 0x80, CHR 0xA8],
      [CHR 0xE2, CHR 0x80, CHR 0xA9], [CHR 0xE2, CHR 0x80, CHR 0xAF],
      [CHR 0xE2, CHR 0x81, CHR 0x9F], [CHR 0xE3, CHR 0x80, CHR 0x80]]"

definition first_space :: "string \<Rightarrow> string option" where
  "first_space s = find (has_prefix s) space_encodings"

definition last_space :: "string \<Rightarrow> string option" where
  "last_space s = find (has_suffix s) space_encodings"

lemma space_encodings_nonempty: "e \<in> set space_encodings \<Longrightarrow> e \<noteq> []"
  by (auto simp: space_encodings_def)

lemma first_space_nonempty: "first_space s = Some e \<Longrightarrow> e \<noteq> [] \<and> s \<noteq> []"
  using space_encodings_nonempty
  by (fastforce simp: first_space_def has_prefix_def dest!: find_SomeD)

lemma last_space_nonempty: "last_space s = Some e \<Longrightarrow> e \<noteq> [] \<and> length e \<le> length s"
  using space_encodings_nonempty
  by (fastforce simp: last_space_def has_suffix_def dest!: find_SomeD)

function trim_left :: "string \<Rightarrow> string" where
  "trim_left s =
     (case first_space s of None \<Rightarrow> s | Some e \<Rightarrow> trim_left (drop (length e) s))"
  by pat_completeness auto
termination
  by (relation "measure length") (auto dest: first_space_nonempty)

function trim_right :: "string \<Rightarrow> string" where
  "trim_right s =
     (case last_space s of None \<Rightarrow> s | Some e \<Rightarrow> trim_right (take (length s - length e) s))"
  by pat_completeness auto
termination
  by (relation "measure length") (auto dest!: last_space_nonempty intro!: diff_less)

declare trim_left.simps [simp del] trim_right.simps [simp del]

definition trim_space :: "string \<Rightarrow> string" where
  "trim_space s = trim_right (trim_left s)"

text \<open>A string is trimmed when no white space stands at either end.\<close>

definition trimmed :: "string \<Rightarrow> bool" where
  "trimmed s \<longleftrightarrow> first_space s = None \<and> last_space s = None"

lemma trim_space_id: "trimmed s \<Longrightarrow> trim_space s = s"
  by (simp add: trimmed_def trim_space_def trim_left.simps [of s] trim_right.simps [of s])

text \<open>The first and last characters of an encoding; a string that avoids them at its ends
  has nothing to trim.\<close>

definition space_chars :: "char set" where
  "space_chars = set (concat space_encodings)"

lemma first_space_None: "s = [] \<or> hd s \<notin> space_chars \<Longrightarrow> first_space s = None"
proof -
  assume h: "s = [] \<or> hd s \<notin> space_chars"
  have "\<not> has_prefix s e" if e: "e \<in> set space_encodings" for e
  proof
    assume "has_prefix s e"
    then obtain r where s: "s = e @ r" by (auto simp: has_prefix_iff)
    from e have "e \<noteq> []" by (rule space_encodings_nonempty)
    with s e h show False by (auto simp: space_chars_def hd_append)
  qed
  then show ?thesis by (simp add: first_space_def find_None)
qed

lemma last_space_None: "s = [] \<or> last s \<notin> space_chars \<Longrightarrow> last_space s = None"
proof -
  assume h: "s = [] \<or> last s \<notin> space_chars"
  have "\<not> has_suffix s e" if e: "e \<in> set space_encodings" for e
  proof
    assume suf: "has_suffix s e"
    from e have ne: "e \<noteq> []" by (rule space_encodings_nonempty)
    from suf have "s = take (length s - length e) s @ e"
      unfolding has_suffix_def by (metis append_take_drop_id)
    with ne have "last s = last e" and "s \<noteq> []" by (metis last_appendR, auto)
    with h e ne show False by (auto simp: space_chars_def)
  qed
  then show ?thesis by (simp add: last_space_def find_None)
qed

lemma trimmedI: "s = [] \<or> hd s \<notin> space_chars \<and> last s \<notin> space_chars \<Longrightarrow> trimmed s"
  by (simp add: trimmed_def) (metis first_space_None last_space_None)

lemma trim_left_first: "first_space (trim_left s) = None"
proof (induction s rule: trim_left.induct)
  case (1 s)
  show ?case
    by (cases "first_space s") (simp_all add: trim_left.simps [of s] "1.IH")
qed

lemma trim_right_last: "last_space (trim_right s) = None"
proof (induction s rule: trim_right.induct)
  case (1 s)
  show ?case
    by (cases "last_space s") (simp_all add: trim_right.simps [of s] "1.IH")
qed

lemma trim_right_prefix: "\<exists>r. s = trim_right s @ r"
proof (induction s rule: trim_right.induct)
  case (1 s)
  show ?case
  proof (cases "last_space s")
    case None
    then show ?thesis by (simp add: trim_right.simps [of s])
  next
    case (Some e)
    with "1.IH" obtain r where "take (length s - length e) s = trim_right s @ r"
      by (auto simp: trim_right.simps [of s])
    then show ?thesis by (metis append.assoc append_take_drop_id)
  qed
qed

lemma first_space_prefix: "first_space (p @ r) = None \<Longrightarrow> first_space p = None"
  unfolding first_space_def find_None has_prefix_iff by auto

lemma trimmed_trim_space: "trimmed (trim_space s)"
proof -
  obtain r where "trim_left s = trim_space s @ r"
    using trim_right_prefix [of "trim_left s"] by (auto simp: trim_space_def)
  then have "first_space (trim_space s) = None"
    using trim_left_first [of s] by (metis first_space_prefix)
  then show ?thesis by (simp add: trimmed_def trim_space_def trim_right_last)
qed

lemma trim_space_idem [simp]: "trim_space (trim_space s) = trim_space s"
  by (rule trim_space_id) (rule trimmed_trim_space)

subsection \<open>Decimals\<close>

definition is_digit :: "char \<Rightarrow> bool" where
  "is_digit c \<longleftrightarrow> 48 \<le> (of_char c :: nat) \<and> (of_char c :: nat) \<le> 57"

definition digit_val :: "char \<Rightarrow> nat" where
  "digit_val c = of_char c - 48"

definition digit_char :: "nat \<Rightarrow> char" where
  "digit_char d = char_of (48 + d)"

fun show_nat :: "nat \<Rightarrow> string" where
  "show_nat n = (if n < 10 then [digit_char n] else show_nat (n div 10) @ [digit_char (n mod 10)])"

declare show_nat.simps [simp del]

text \<open>\<open>strconv.FormatInt(n, 10)\<close>, \<open>FormatUint\<close> and \<open>big.Int.String\<close>.\<close>

definition itoa :: "int \<Rightarrow> string" where
  "itoa i = (if i < 0 then CHR ''-'' # show_nat (nat (- i)) else show_nat (nat i))"

definition read_nat :: "string \<Rightarrow> nat option" where
  "read_nat s = (if s \<noteq> [] \<and> list_all is_digit s
                 then Some (foldl (\<lambda>a c. 10 * a + digit_val c) 0 s) else None)"

text \<open>An optional sign and digits: the text \<open>strconv.ParseInt\<close> in base 10 and
  \<open>big.Int.SetString\<close> in base 10 accept.\<close>

definition read_int :: "string \<Rightarrow> int option" where
  "read_int s =
     (case s of [] \<Rightarrow> None
      | c # cs \<Rightarrow>
          if c = CHR ''-'' then map_option (\<lambda>n. - int n) (read_nat cs)
          else if c = CHR ''+'' then map_option int (read_nat cs)
          else map_option int (read_nat s))"

definition in_range :: "int \<Rightarrow> int \<Rightarrow> int \<Rightarrow> bool" where
  "in_range lo hi i \<longleftrightarrow> lo \<le> i \<and> i \<le> hi"

text \<open>\<open>strconv.ParseUint(s, 10, 64)\<close> takes no sign; \<open>ParseInt(s, 10, 64)\<close> and, on a
  64-bit machine, \<open>Atoi\<close> take one. A value out of range is an error.\<close>

definition parse_uint64 :: "string \<Rightarrow> int option" where
  "parse_uint64 s =
     (case read_nat s of None \<Rightarrow> None
      | Some n \<Rightarrow> if in_range 0 (2 ^ 64 - 1) (int n) then Some (int n) else None)"

definition parse_int64 :: "string \<Rightarrow> int option" where
  "parse_int64 s =
     (case read_int s of None \<Rightarrow> None
      | Some i \<Rightarrow> if in_range (- (2 ^ 63)) (2 ^ 63 - 1) i then Some i else None)"

lemma is_digit_digit_char: "d < 10 \<Longrightarrow> is_digit (digit_char d)"
  by (simp add: is_digit_def digit_char_def)

lemma digit_val_digit_char: "d < 10 \<Longrightarrow> digit_val (digit_char d) = d"
  by (simp add: digit_val_def digit_char_def)

lemma show_nat_not_Nil [simp]: "show_nat n \<noteq> []"
  by (subst show_nat.simps) simp

lemma show_nat_digits: "c \<in> set (show_nat n) \<Longrightarrow> is_digit c"
proof (induction n rule: show_nat.induct)
  case (1 n)
  show ?case
  proof (cases "n < 10")
    case True
    with "1.prems" show ?thesis
      by (subst (asm) show_nat.simps) (simp add: is_digit_digit_char)
  next
    case False
    with "1.prems" have "c \<in> set (show_nat (n div 10)) \<or> c = digit_char (n mod 10)"
      by (subst (asm) show_nat.simps) auto
    with False "1.IH" show ?thesis by (auto simp: is_digit_digit_char)
  qed
qed

lemma show_nat_value: "foldl (\<lambda>a c. 10 * a + digit_val c) 0 (show_nat n) = n"
proof (induction n rule: show_nat.induct)
  case (1 n)
  show ?case
  proof (cases "n < 10")
    case True
    then show ?thesis by (subst show_nat.simps) (simp add: digit_val_digit_char)
  next
    case False
    with "1.IH" show ?thesis
      by (subst show_nat.simps) (simp add: digit_val_digit_char)
  qed
qed

lemma read_nat_show_nat [simp]: "read_nat (show_nat n) = Some n"
  by (simp add: read_nat_def show_nat_value list_all_iff show_nat_digits)

lemma hd_show_nat: "is_digit (hd (show_nat n))"
  by (rule show_nat_digits [of _ n]) simp

lemma not_digit_sign: "\<not> is_digit CHR ''-''" "\<not> is_digit CHR ''+''" "\<not> is_digit CHR '',''"
  by (simp_all add: is_digit_def)

lemma read_int_itoa [simp]: "read_int (itoa i) = Some i"
proof (cases "i < 0")
  case True
  then show ?thesis by (simp add: itoa_def read_int_def)
next
  case False
  obtain c cs where s: "show_nat (nat i) = c # cs"
    using show_nat_not_Nil [of "nat i"] by (cases "show_nat (nat i)") auto
  have "is_digit c" using hd_show_nat [of "nat i"] by (simp add: s)
  then have "c \<noteq> CHR ''-''" "c \<noteq> CHR ''+''" using not_digit_sign by auto
  moreover have "read_nat (c # cs) = Some (nat i)" using read_nat_show_nat [of "nat i"] s by simp
  ultimately show ?thesis using False by (simp add: itoa_def read_int_def s)
qed

lemma read_nat_itoa: "0 \<le> i \<Longrightarrow> read_nat (itoa i) = Some (nat i)"
  by (simp add: itoa_def)

lemma itoa_inj: "itoa i = itoa j \<Longrightarrow> i = j"
  by (metis option.inject read_int_itoa)

lemma itoa_chars: "c \<in> set (itoa i) \<Longrightarrow> is_digit c \<or> c = CHR ''-''"
  by (auto simp: itoa_def dest: show_nat_digits split: if_splits)

lemma itoa_not_Nil [simp]: "itoa i \<noteq> []"
  by (simp add: itoa_def)

lemma digits_not_space: "is_digit c \<or> c = CHR ''-'' \<Longrightarrow> c \<notin> space_chars"
proof
  assume d: "is_digit c \<or> c = CHR ''-''" and "c \<in> space_chars"
  then have "(of_char c :: nat) \<in> of_char ` space_chars" by blast
  also have "of_char ` space_chars =
      {9, 10, 11, 12, 13, 32, 0xC2, 0x85, 0xA0, 0xE1, 0x9A, 0x80 :: nat} \<union>
      {0xE2, 0x81, 0x82, 0x83, 0x84, 0x85, 0x86, 0x87, 0x88, 0x89, 0x8A, 0xA8, 0xA9, 0xAF,
       0x9F, 0xE3}"
    by (simp add: space_chars_def space_encodings_def insert_commute)
  finally show False using d by (auto simp: is_digit_def)
qed

lemma trim_itoa [simp]: "trim_space (itoa i) = itoa i"
  by (intro trim_space_id trimmedI disjI2 conjI digits_not_space itoa_chars [of _ i]) simp_all

lemma parse_int64_itoa: "in_range (- (2 ^ 63)) (2 ^ 63 - 1) i \<Longrightarrow> parse_int64 (itoa i) = Some i"
  by (simp add: parse_int64_def)

lemma parse_uint64_itoa: "in_range 0 (2 ^ 64 - 1) i \<Longrightarrow> parse_uint64 (itoa i) = Some i"
  by (simp add: parse_uint64_def read_nat_itoa in_range_def)

lemma parse_uint64_range: "parse_uint64 s = Some i \<Longrightarrow> in_range 0 (2 ^ 64 - 1) i"
  by (auto simp: parse_uint64_def split: option.splits if_splits)

lemma parse_int64_range: "parse_int64 s = Some i \<Longrightarrow> in_range (- (2 ^ 63)) (2 ^ 63 - 1) i"
  by (auto simp: parse_int64_def split: option.splits if_splits)

subsection \<open>Hex\<close>

definition hex_digit :: "nat \<Rightarrow> char" where
  "hex_digit n = char_of (if n < 10 then 48 + n else 87 + n)"

definition hex_val :: "char \<Rightarrow> nat option" where
  "hex_val c =
     (let n = of_char c :: nat in
      if 48 \<le> n \<and> n \<le> 57 then Some (n - 48)
      else if 97 \<le> n \<and> n \<le> 102 then Some (n - 87)
      else if 65 \<le> n \<and> n \<le> 70 then Some (n - 55)
      else None)"

fun hex_encode :: "bytes \<Rightarrow> string" where
  "hex_encode [] = []"
| "hex_encode (b # bs) = hex_digit (unat b div 16) # hex_digit (unat b mod 16) # hex_encode bs"

text \<open>\<open>hex.DecodeString\<close>: \<open>None\<close> for an odd length or a character that is no hex digit.\<close>

fun hex_decode :: "string \<Rightarrow> bytes option" where
  "hex_decode [] = Some []"
| "hex_decode [c] = None"
| "hex_decode (a # b # s) =
     (case (hex_val a, hex_val b, hex_decode s) of
        (Some x, Some y, Some bs) \<Rightarrow> Some (word_of_nat (16 * x + y) # bs)
      | _ \<Rightarrow> None)"

lemma hex_val_digit: "n < 16 \<Longrightarrow> hex_val (hex_digit n) = Some n"
  by (auto simp: hex_val_def hex_digit_def Let_def)

lemma hex_decode_encode [simp]: "hex_decode (hex_encode bs) = Some bs"
proof (induction bs)
  case Nil
  then show ?case by simp
next
  case (Cons b bs)
  have "unat b < 256" using unsigned_less [of b] by simp
  then have "unat b div 16 < 16" and "unat b mod 16 < 16" by auto
  moreover have "word_of_nat (16 * (unat b div 16) + unat b mod 16) = b" by simp
  ultimately show ?case using Cons.IH by (simp add: hex_val_digit)
qed

lemma hex_encode_inj: "hex_encode a = hex_encode b \<Longrightarrow> a = b"
  by (metis hex_decode_encode option.inject)

lemma length_hex_encode [simp]: "length (hex_encode bs) = 2 * length bs"
  by (induction bs) auto

lemma hex_decode_length: "hex_decode s = Some bs \<Longrightarrow> length s = 2 * length bs"
  by (induction s arbitrary: bs rule: hex_decode.induct) (auto split: option.splits)

end
