(* ===== verification/Kinds.thy ===== *)
theory Kinds
  imports GoStrings
begin

section \<open>Type kinds (internal/kind)\<close>

text \<open>
  The canonical wire names of the type kinds and the splitter of parameterized type
  arguments. \<open>SplitTopLevel\<close> is the loop of kind.go: the state is the nesting depth (a Go
  \<open>int\<close>, which a stray \<open>>\<close> makes negative) and the part read so far.
\<close>

abbreviation k_uint8 :: string where "k_uint8 \<equiv> ''uint8''"
abbreviation k_uint16 :: string where "k_uint16 \<equiv> ''uint16''"
abbreviation k_uint32 :: string where "k_uint32 \<equiv> ''uint32''"
abbreviation k_uint64 :: string where "k_uint64 \<equiv> ''uint64''"
abbreviation k_uint128 :: string where "k_uint128 \<equiv> ''uint128''"
abbreviation k_int8 :: string where "k_int8 \<equiv> ''int8''"
abbreviation k_int16 :: string where "k_int16 \<equiv> ''int16''"
abbreviation k_int32 :: string where "k_int32 \<equiv> ''int32''"
abbreviation k_int64 :: string where "k_int64 \<equiv> ''int64''"
abbreviation k_int128 :: string where "k_int128 \<equiv> ''int128''"
abbreviation k_float32 :: string where "k_float32 \<equiv> ''float32''"
abbreviation k_float64 :: string where "k_float64 \<equiv> ''float64''"
abbreviation k_bool :: string where "k_bool \<equiv> ''bool''"
abbreviation k_string :: string where "k_string \<equiv> ''string''"
abbreviation k_bytes :: string where "k_bytes \<equiv> ''bytes''"
abbreviation k_struct :: string where "k_struct \<equiv> ''struct''"
abbreviation k_list :: string where "k_list \<equiv> ''list''"
abbreviation k_optional :: string where "k_optional \<equiv> ''optional''"
abbreviation k_array :: string where "k_array \<equiv> ''array''"
abbreviation k_map :: string where "k_map \<equiv> ''map''"
abbreviation k_enum :: string where "k_enum \<equiv> ''enum''"
abbreviation k_sum :: string where "k_sum \<equiv> ''sum''"

definition Scalars :: "string list" where
  "Scalars =
     [k_uint8, k_uint16, k_uint32, k_uint64, k_uint128,
      k_int8, k_int16, k_int32, k_int64, k_int128,
      k_float32, k_float64,
      k_bool, k_string, k_bytes]"

definition AllBases :: "string list" where
  "AllBases = Scalars @ [k_struct, k_optional, k_list, k_array, k_map, k_enum, k_sum]"

fun split_top :: "int \<Rightarrow> string \<Rightarrow> string \<Rightarrow> string list" where
  "split_top depth cur [] = [cur]"
| "split_top depth cur (c # cs) =
     (if c = CHR ''<'' \<or> c = CHR ''['' then split_top (depth + 1) (cur @ [c]) cs
      else if c = CHR ''>'' \<or> c = CHR '']'' then split_top (depth - 1) (cur @ [c]) cs
      else if c = CHR '','' \<and> depth = 0 then cur # split_top depth [] cs
      else split_top depth (cur @ [c]) cs)"

definition SplitTopLevel :: "string \<Rightarrow> string list" where
  "SplitTopLevel s = split_top 0 [] s"

lemma AllBases_distinct: "distinct AllBases"
  by (simp add: AllBases_def Scalars_def)

lemma split_top_not_Nil [simp]: "split_top d cur s \<noteq> []"
  by (induction d cur s rule: split_top.induct) auto

lemma join_Cons: "xs \<noteq> [] \<Longrightarrow> join sep (x # xs) = x @ sep @ join sep xs"
  by (cases xs) auto

lemma join_split_top: "join '','' (split_top d cur s) = cur @ s"
  by (induction d cur s rule: split_top.induct) (auto simp: join_Cons)

text \<open>\<open>nesting d s\<close> follows the depth through \<open>s\<close>; it is \<open>None\<close> when a comma splits at
  depth 0.\<close>

fun nesting :: "int \<Rightarrow> string \<Rightarrow> int option" where
  "nesting d [] = Some d"
| "nesting d (c # cs) =
     (if c = CHR ''<'' \<or> c = CHR ''['' then nesting (d + 1) cs
      else if c = CHR ''>'' \<or> c = CHR '']'' then nesting (d - 1) cs
      else if c = CHR '','' \<and> d = 0 then None
      else nesting d cs)"

lemma nesting_append:
  "nesting d (p @ q) = (case nesting d p of None \<Rightarrow> None | Some d' \<Rightarrow> nesting d' q)"
  by (induction d p rule: nesting.induct) auto

lemma split_top_nesting:
  "nesting d p = Some d' \<Longrightarrow> split_top d cur (p @ s) = split_top d' (cur @ p) s"
  by (induction d p arbitrary: cur rule: nesting.induct) (auto split: if_splits)

lemma split_top_part:
  "nesting 0 p = Some 0 \<Longrightarrow> split_top 0 cur (p @ '','' @ s) = (cur @ p) # split_top 0 [] s"
  by (simp add: split_top_nesting)

lemma split_top_last: "nesting 0 p = Some 0 \<Longrightarrow> split_top 0 cur p = [cur @ p]"
  using split_top_nesting [of 0 p 0 cur "[]"] by simp

lemma SplitTopLevel_join:
  "ps \<noteq> [] \<Longrightarrow> (\<And>p. p \<in> set ps \<Longrightarrow> nesting 0 p = Some 0) \<Longrightarrow> SplitTopLevel (join '','' ps) = ps"
proof (induction ps)
  case Nil
  then show ?case by simp
next
  case (Cons p ps)
  then show ?case
    by (cases ps)
       (auto simp: SplitTopLevel_def split_top_last split_top_nesting [of 0 p 0, simplified])
qed

text \<open>The parts SplitTopLevel cuts at are exactly the commas at depth 0.\<close>

lemma split_top_hd:
  "nesting d s = None \<longleftrightarrow> 2 \<le> length (split_top d cur s)"
  by (induction d s arbitrary: cur rule: nesting.induct) (auto simp: Suc_le_eq)

text \<open>A string without brackets keeps the depth; without commas, it never splits.\<close>

definition bracket_free :: "string \<Rightarrow> bool" where
  "bracket_free s \<longleftrightarrow> set s \<inter> {CHR ''<'', CHR ''['', CHR ''>'', CHR '']''} = {}"

lemma nesting_bracket_free:
  "bracket_free s \<Longrightarrow> d \<noteq> 0 \<or> CHR '','' \<notin> set s \<Longrightarrow> nesting d s = Some d"
  by (induction s) (auto simp: bracket_free_def)

lemma nesting_wrapped:
  assumes "0 \<le> d" and "bracket_free nm" and "CHR '','' \<notin> set nm"
    and "nesting (d + 1) s = Some (d + 1)"
  shows "nesting d (nm @ ''<'' @ s @ ''>'') = Some d"
  using assms by (simp add: nesting_append nesting_bracket_free)

text \<open>
  SplitTopLevel loses nothing: joining the parts it returns with commas gives the
  argument back, whatever the nesting of brackets in it.
\<close>

theorem SplitTopLevel_joins: "join '','' (SplitTopLevel s) = s"
  by (simp add: SplitTopLevel_def join_split_top)

end
