(* ===== verification/FieldTypes.thy ===== *)
theory FieldTypes
  imports Kinds
begin

section \<open>Schema types and their printed form (internal/conf/conf.go)\<close>

text \<open>
  \<open>FieldType\<close>, \<open>Field\<close> and \<open>Variant\<close> of conf.go. A Go pointer field is an option (\<open>None\<close>
  is nil), a slice a list, \<open>ArrayN\<close> an \<open>int\<close>. The struct is kept as the code has it, one
  constructor with a \<open>Base\<close> string, because the code switches on that string and
  dereferences \<open>Elem\<close> and \<open>Key\<close>: which combinations occur is the invariant \<open>wf_ft\<close>, not
  part of the type.
\<close>

datatype field_type =
  Ftype (Base: string) (Elem: "field_type option") (Key: "field_type option") (ArrayN: int)
    (Fields: "field list") (Values: "string list") (Variants: "variant list")
and field = Fld (FName: string) (FType: field_type) (FTags: "string gomap")
and variant = Vrnt (VName: string) (VType: "field_type option")

definition base_ft :: "string \<Rightarrow> field_type" where
  "base_ft b = Ftype b None None 0 [] [] []"

definition struct_ft :: "field list \<Rightarrow> field_type" where
  "struct_ft fs = Ftype k_struct None None 0 fs [] []"

definition elem_ft :: "string \<Rightarrow> field_type \<Rightarrow> field_type" where
  "elem_ft b e = Ftype b (Some e) None 0 [] [] []"

definition array_ft :: "field_type \<Rightarrow> int \<Rightarrow> field_type" where
  "array_ft e n = Ftype k_array (Some e) None n [] [] []"

definition map_ft :: "field_type \<Rightarrow> field_type \<Rightarrow> field_type" where
  "map_ft k v = Ftype k_map (Some v) (Some k) 0 [] [] []"

definition enum_ft :: "string list \<Rightarrow> field_type" where
  "enum_ft vs = Ftype k_enum None None 0 [] vs []"

definition sum_ft :: "variant list \<Rightarrow> field_type" where
  "sum_ft vs = Ftype k_sum None None 0 [] [] vs"

lemmas ft_ctor_defs =
  base_ft_def struct_ft_def elem_ft_def array_ft_def map_ft_def enum_ft_def sum_ft_def

lemma size_FType [termination_simp]:
  "f \<in> set fs \<Longrightarrow> size (FType f) < Suc (m + (size_list size fs + n))"
proof (induction fs)
  case (Cons g gs)
  then show ?case by (cases g) auto
qed simp

lemma size_VType [termination_simp]:
  "v \<in> set vs \<Longrightarrow> VType v = Some t \<Longrightarrow> size t < Suc (n + size_list size vs)"
proof (induction vs)
  case (Cons w ws)
  then show ?case by (cases w) auto
qed simp

lemma size_FType_le: "f \<in> set fs \<Longrightarrow> size (FType f) \<le> size_list size fs"
  using size_FType [of f fs 0 0] by simp

lemma size_VType_le: "v \<in> set vs \<Longrightarrow> VType v = Some t \<Longrightarrow> size t \<le> size_list size vs"
  using size_VType [of v vs t 0] by simp

text \<open>\<open>FieldType.String\<close>. \<open>fmt\<close> prints a nil \<open>*FieldType\<close> as \<open><nil>\<close>.\<close>

fun ft_string :: "field_type \<Rightarrow> string" where
  "ft_string (Ftype b e k n fs vs vrs) =
     (if b = k_optional then
        k_optional @ ''<'' @ (case e of None \<Rightarrow> ''<nil>'' | Some t \<Rightarrow> ft_string t) @ ''>''
      else if b = k_list then
        k_list @ ''<'' @ (case e of None \<Rightarrow> ''<nil>'' | Some t \<Rightarrow> ft_string t) @ ''>''
      else if b = k_array then
        k_array @ ''<'' @ (case e of None \<Rightarrow> ''<nil>'' | Some t \<Rightarrow> ft_string t) @ '','' @ itoa n @ ''>''
      else if b = k_map then
        k_map @ ''<'' @ (case k of None \<Rightarrow> ''<nil>'' | Some t \<Rightarrow> ft_string t) @ '','' @
          (case e of None \<Rightarrow> ''<nil>'' | Some t \<Rightarrow> ft_string t) @ ''>''
      else if b = k_enum then k_enum @ ''<'' @ join '','' vs @ ''>''
      else if b = k_sum then
        k_sum @ ''<'' @ join '', '' (map (\<lambda>v. case VType v of
            None \<Rightarrow> VName v
          | Some t \<Rightarrow> VName v @ '': '' @ ft_string t) vrs) @ ''>''
      else b)"

declare ft_string.simps [simp del]

lemma ft_string_ctors:
  "b \<in> set Scalars \<or> b = k_struct \<Longrightarrow> ft_string (Ftype b e k n fs vs vrs) = b"
  "ft_string (struct_ft fs) = ''struct''"
  "ft_string (elem_ft k_optional t) = ''optional<'' @ ft_string t @ ''>''"
  "ft_string (elem_ft k_list t) = ''list<'' @ ft_string t @ ''>''"
  "ft_string (array_ft t n) = ''array<'' @ ft_string t @ '','' @ itoa n @ ''>''"
  "ft_string (map_ft tk tv) = ''map<'' @ ft_string tk @ '','' @ ft_string tv @ ''>''"
  "ft_string (enum_ft es) = ''enum<'' @ join '','' es @ ''>''"
  "ft_string (sum_ft vrs) = ''sum<'' @ join '', '' (map (\<lambda>v. case VType v of
      None \<Rightarrow> VName v | Some t \<Rightarrow> VName v @ '': '' @ ft_string t) vrs) @ ''>''"
  by (auto simp: ft_string.simps ft_ctor_defs Scalars_def)

text \<open>
  The shapes the schema parser builds: a scalar or opaque struct carries nothing else, a
  parameterized type carries the pointers the code dereferences.
\<close>

function wf_ft :: "field_type \<Rightarrow> bool" where
  "wf_ft (Ftype b e k n fs vs vrs) =
     (if b \<in> set Scalars then e = None \<and> k = None \<and> n = 0 \<and> fs = [] \<and> vs = [] \<and> vrs = []
      else if b = k_struct then
        e = None \<and> k = None \<and> n = 0 \<and> vs = [] \<and> vrs = [] \<and> list_all (\<lambda>f. wf_ft (FType f)) fs
      else if b = k_optional \<or> b = k_list then
        (case e of None \<Rightarrow> False | Some t \<Rightarrow> wf_ft t) \<and>
        k = None \<and> n = 0 \<and> fs = [] \<and> vs = [] \<and> vrs = []
      else if b = k_array then
        (case e of None \<Rightarrow> False | Some t \<Rightarrow> wf_ft t) \<and> k = None \<and> fs = [] \<and> vs = [] \<and> vrs = []
      else if b = k_map then
        (case e of None \<Rightarrow> False | Some t \<Rightarrow> wf_ft t) \<and>
        (case k of None \<Rightarrow> False | Some t \<Rightarrow> wf_ft t) \<and> n = 0 \<and> fs = [] \<and> vs = [] \<and> vrs = []
      else if b = k_enum then
        vs \<noteq> [] \<and> e = None \<and> k = None \<and> n = 0 \<and> fs = [] \<and> vrs = []
      else b = k_sum \<and> vrs \<noteq> [] \<and> e = None \<and> k = None \<and> n = 0 \<and> fs = [] \<and> vs = [] \<and>
        list_all (\<lambda>v. case VType v of None \<Rightarrow> True | Some t \<Rightarrow> wf_ft t) vrs)"
  by pat_completeness auto
termination
  by (relation "measure size") (auto dest!: size_FType_le size_VType_le)

declare wf_ft.simps [simp del]

lemma wf_ft_ctors:
  "b \<in> set Scalars \<Longrightarrow> wf_ft (base_ft b)"
  "wf_ft (base_ft k_struct)"
  "wf_ft (struct_ft fs) \<longleftrightarrow> list_all (\<lambda>f. wf_ft (FType f)) fs"
  "b = k_optional \<or> b = k_list \<Longrightarrow> wf_ft (elem_ft b t) \<longleftrightarrow> wf_ft t"
  "wf_ft (array_ft t n) \<longleftrightarrow> wf_ft t"
  "wf_ft (map_ft tk tv) \<longleftrightarrow> wf_ft tk \<and> wf_ft tv"
  "wf_ft (enum_ft es) \<longleftrightarrow> es \<noteq> []"
  "wf_ft (sum_ft vrs) \<longleftrightarrow>
     vrs \<noteq> [] \<and> list_all (\<lambda>v. case VType v of None \<Rightarrow> True | Some t \<Rightarrow> wf_ft t) vrs"
  by (auto simp: wf_ft.simps ft_ctor_defs Scalars_def)

text \<open>Case analysis of a well-formed type, by the constructor the parser used.\<close>

lemma wf_ft_cases [consumes 1, case_names scalar struct optional lst array map enum sum]:
  assumes "wf_ft ft"
  obtains b where "b \<in> set Scalars" "ft = base_ft b"
  | fs where "ft = struct_ft fs" "list_all (\<lambda>f. wf_ft (FType f)) fs"
  | t where "ft = elem_ft k_optional t" "wf_ft t"
  | t where "ft = elem_ft k_list t" "wf_ft t"
  | t n where "ft = array_ft t n" "wf_ft t"
  | tk tv where "ft = map_ft tk tv" "wf_ft tk" "wf_ft tv"
  | es where "ft = enum_ft es" "es \<noteq> []"
  | vrs where "ft = sum_ft vrs" "vrs \<noteq> []"
      "list_all (\<lambda>v. case VType v of None \<Rightarrow> True | Some t \<Rightarrow> wf_ft t) vrs"
proof (cases ft)
  case (Ftype b e k n fs vs vrs)
  note w = assms [unfolded Ftype wf_ft.simps]
  consider (sc) "b \<in> set Scalars" | (st) "b \<notin> set Scalars" "b = k_struct"
    | (op) "b = k_optional" | (li) "b = k_list" | (ar) "b = k_array" | (ma) "b = k_map"
    | (en) "b = k_enum"
    | (su) "b \<notin> set Scalars" "b \<noteq> k_struct" "b \<noteq> k_optional" "b \<noteq> k_list" "b \<noteq> k_array"
        "b \<noteq> k_map" "b \<noteq> k_enum"
    by blast
  then show ?thesis
  proof cases
    case sc
    with w show ?thesis by (intro that(1) [of b]) (simp_all add: Ftype base_ft_def)
  next
    case st
    with w have "e = None \<and> k = None \<and> n = 0 \<and> vs = [] \<and> vrs = []"
      and "list_all (\<lambda>f. wf_ft (FType f)) fs" by simp_all
    with st show ?thesis by (intro that(2) [of fs]) (simp_all add: Ftype struct_ft_def)
  next
    case op
    with w obtain t where "e = Some t"
      by (cases e) (simp_all add: Scalars_def)
    with w op show ?thesis by (intro that(3) [of t]) (simp_all add: Ftype elem_ft_def Scalars_def)
  next
    case li
    with w obtain t where "e = Some t"
      by (cases e) (simp_all add: Scalars_def)
    with w li show ?thesis by (intro that(4) [of t]) (simp_all add: Ftype elem_ft_def Scalars_def)
  next
    case ar
    with w obtain t where "e = Some t"
      by (cases e) (simp_all add: Scalars_def)
    with w ar show ?thesis by (intro that(5) [of t n]) (simp_all add: Ftype array_ft_def Scalars_def)
  next
    case ma
    with w obtain t t' where "e = Some t" "k = Some t'"
      by (cases e; cases k) (simp_all add: Scalars_def)
    with w ma show ?thesis by (intro that(6) [of t' t]) (simp_all add: Ftype map_ft_def Scalars_def)
  next
    case en
    with w show ?thesis by (intro that(7) [of vs]) (simp_all add: Ftype enum_ft_def Scalars_def)
  next
    case su
    with w show ?thesis by (intro that(8) [of vrs]) (simp_all add: Ftype sum_ft_def)
  qed
qed

text \<open>A type of the schema, by induction over its parts.\<close>

lemma wf_ft_induct [consumes 1, case_names scalar struct optional lst array map enum sum]:
  assumes "wf_ft ft"
    and "\<And>b. b \<in> set Scalars \<Longrightarrow> P (base_ft b)"
    and "\<And>fs. (\<And>f. f \<in> set fs \<Longrightarrow> wf_ft (FType f) \<and> P (FType f)) \<Longrightarrow> P (struct_ft fs)"
    and "\<And>t. wf_ft t \<Longrightarrow> P t \<Longrightarrow> P (elem_ft k_optional t)"
    and "\<And>t. wf_ft t \<Longrightarrow> P t \<Longrightarrow> P (elem_ft k_list t)"
    and "\<And>t n. wf_ft t \<Longrightarrow> P t \<Longrightarrow> P (array_ft t n)"
    and "\<And>tk tv. wf_ft tk \<Longrightarrow> P tk \<Longrightarrow> wf_ft tv \<Longrightarrow> P tv \<Longrightarrow> P (map_ft tk tv)"
    and "\<And>es. es \<noteq> [] \<Longrightarrow> P (enum_ft es)"
    and "\<And>vrs. vrs \<noteq> [] \<Longrightarrow>
          (\<And>v t. v \<in> set vrs \<Longrightarrow> VType v = Some t \<Longrightarrow> wf_ft t \<and> P t) \<Longrightarrow> P (sum_ft vrs)"
  shows "P ft"
  using assms(1)
proof (induction "size ft" arbitrary: ft rule: less_induct)
  case less
  from less.prems show ?case
  proof (cases rule: wf_ft_cases)
    case (struct fs)
    have "wf_ft (FType f) \<and> P (FType f)" if "f \<in> set fs" for f
    proof -
      from struct(2) that have "wf_ft (FType f)" by (simp add: list_all_iff)
      moreover from that struct(1) have "size (FType f) < size ft"
        by (auto simp: struct_ft_def dest!: size_FType_le)
      ultimately show ?thesis using less.hyps by blast
    qed
    with struct show ?thesis by (auto intro!: assms(3))
  next
    case (sum vrs)
    have "wf_ft t \<and> P t" if "v \<in> set vrs" "VType v = Some t" for v t
    proof -
      from sum(3) that have "wf_ft t" by (auto simp: list_all_iff)
      moreover from that sum(1) have "size t < size ft"
        by (auto simp: sum_ft_def dest!: size_VType_le)
      ultimately show ?thesis using less.hyps by blast
    qed
    with sum show ?thesis by (auto intro!: assms(9))
  next
    case (scalar b)
    then show ?thesis by (simp add: assms(2))
  next
    case (optional t)
    then have "P t" by (intro less.hyps) (simp_all add: elem_ft_def)
    with optional show ?thesis by (simp add: assms(4))
  next
    case (lst t)
    then have "P t" by (intro less.hyps) (simp_all add: elem_ft_def)
    with lst show ?thesis by (simp add: assms(5))
  next
    case (array t n)
    then have "P t" by (intro less.hyps) (simp_all add: array_ft_def)
    with array show ?thesis by (simp add: assms(6))
  next
    case (map tk tv)
    then have "P tk" and "P tv" by (auto intro!: less.hyps simp: map_ft_def)
    with map show ?thesis by (simp add: assms(7))
  next
    case (enum es)
    then show ?thesis by (simp add: assms(8))
  qed
qed

end
