(* ===== verification/Resolver.thy ===== *)
theory Resolver
  imports FieldTypes
begin

section \<open>Resolution of type expressions (internal/conf/schema.go)\<close>

text \<open>
  \<open>schemaResolver\<close>: the registry of imported types (\<open>named\<close>), the memo of resolved
  structs (\<open>resolved\<close>) and the names being resolved (\<open>resolving\<close>), which detect a
  recursive type. The methods mutate the resolver, also on the error paths, so each is a
  function of the state that returns the state with the result.

  The recursion of \<open>typeOf\<close> is not guarded everywhere: a transparent type is followed
  without recording its name. The methods are therefore written over the recursive call
  \<open>rec\<close>, and \<open>type_of n\<close> is \<open>typeOf\<close> with a call depth of at most \<open>n\<close>; \<open>None\<close> is a deeper
  recursion (Go overflows its stack when no depth is enough).
\<close>

subsection \<open>Errors and state\<close>

datatype type_error =
    UnknownType string
  | RecursiveType string
  | EnumNoValues string
  | ArrayNoSize string
  | ArrayBadSize string
  | MapArity string
  | SumInline string
  | UnknownParam string
  | SumNoVariants
  | AtField string type_error
  | AtVariant string type_error
  | InType string type_error
  | IndexPanic

type_synonym raw_field = "string \<times> string"

record raw_type =
  rt_fields :: "raw_field list"
  transparent :: bool
  rt_sum :: bool

record resolver =
  named :: "raw_type gomap"
  resolved :: "field list gomap"
  resolving :: "string list"

definition newSchemaResolver :: "raw_type gomap \<Rightarrow> resolver" where
  "newSchemaResolver reg = \<lparr>named = reg, resolved = [], resolving = []\<rparr>"

text \<open>A step of the resolver: out of depth, or the new state with an error or a value.\<close>

type_synonym 'a rstep = "resolver \<Rightarrow> (resolver \<times> (type_error + 'a)) option"

definition rstep_bind :: "'a rstep \<Rightarrow> ('a \<Rightarrow> 'b rstep) \<Rightarrow> 'b rstep" where
  "rstep_bind m f r =
     (case m r of None \<Rightarrow> None
      | Some (r', Inl e) \<Rightarrow> Some (r', Inl e)
      | Some (r', Inr x) \<Rightarrow> f x r')"

definition rstep_ret :: "'a \<Rightarrow> 'a rstep" where
  "rstep_ret x r = Some (r, Inr x)"

definition rstep_err :: "type_error \<Rightarrow> 'a rstep" where
  "rstep_err e r = Some (r, Inl e)"

definition rstep_wrap :: "(type_error \<Rightarrow> type_error) \<Rightarrow> 'a rstep \<Rightarrow> 'a rstep" where
  "rstep_wrap g m r = map_option (\<lambda>(r', res). (r', map_err g res)) (m r)"

fun rstep_mapM :: "('a \<Rightarrow> 'b rstep) \<Rightarrow> 'a list \<Rightarrow> 'b list rstep" where
  "rstep_mapM f [] = rstep_ret []"
| "rstep_mapM f (x # xs) =
     rstep_bind (f x) (\<lambda>y. rstep_bind (rstep_mapM f xs) (\<lambda>ys. rstep_ret (y # ys)))"

text \<open>\<open>r.resolving[n] = true; defer delete(r.resolving, n)\<close> around a body.\<close>

definition with_resolving :: "string \<Rightarrow> 'a rstep \<Rightarrow> 'a rstep" where
  "with_resolving n m r =
     (case m (r\<lparr>resolving := n # resolving r\<rparr>) of
        None \<Rightarrow> None
      | Some (r', res) \<Rightarrow> Some (r'\<lparr>resolving := removeAll n (resolving r')\<rparr>, res))"

subsection \<open>The methods\<close>

definition scalarAliases :: "string gomap" where
  "scalarAliases = [(''float'', k_float32), (''double'', k_float64), (''boolean'', k_bool)]"

definition canonical :: "string \<Rightarrow> string" where
  "canonical s = (let e = trim_space s in case map_of scalarAliases e of None \<Rightarrow> e | Some c \<Rightarrow> c)"

definition word_char :: "char \<Rightarrow> bool" where
  "word_char c \<longleftrightarrow>
     (let n = of_char c :: nat in
      48 \<le> n \<and> n \<le> 57 \<or> 65 \<le> n \<and> n \<le> 90 \<or> n = 95 \<or> 97 \<le> n \<and> n \<le> 122)"

text \<open>\<open>typeParamRe\<close>, \<open>^(\w+)<(.+)>$\<close>: a word, \<open><\<close>, at least one character and no
  newline, and a final \<open>>\<close>.\<close>

definition type_param :: "string \<Rightarrow> (string \<times> string) option" where
  "type_param s =
     (let outer = takeWhile word_char s; rest = dropWhile word_char s in
      case rest of
        [] \<Rightarrow> None
      | c # r \<Rightarrow>
          if outer \<noteq> [] \<and> c = CHR ''<'' \<and> r \<noteq> [] \<and> last r = CHR ''>'' \<and> butlast r \<noteq> []
             \<and> CHR 0x0A \<notin> set (butlast r)
          then Some (outer, butlast r) else None)"

definition enum_values :: "string \<Rightarrow> string list" where
  "enum_values inner = filter (\<lambda>v. v \<noteq> []) (map trim_space (split_on CHR '','' inner))"

definition resolve_fields :: "(string \<Rightarrow> field_type rstep) \<Rightarrow> raw_field list \<Rightarrow> field list rstep" where
  "resolve_fields rec raw =
     rstep_mapM (\<lambda>(nm, typ).
       rstep_bind (rstep_wrap (AtField nm) (rec typ)) (\<lambda>ft. rstep_ret (Fld nm ft []))) raw"

definition namedType :: "(string \<Rightarrow> field_type rstep) \<Rightarrow> string \<Rightarrow> field list rstep" where
  "namedType rec nm r =
     (case map_of (resolved r) nm of
        Some f \<Rightarrow> Some (r, Inr f)
      | None \<Rightarrow>
          if nm \<in> set (resolving r) then Some (r, Inl (RecursiveType nm))
          else with_resolving nm
                 (rstep_bind
                    (rstep_wrap (InType nm)
                       (resolve_fields rec
                         (case map_of (named r) nm of None \<Rightarrow> [] | Some nt \<Rightarrow> rt_fields nt)))
                    (\<lambda>f r'. Some (r'\<lparr>resolved := AList.update nm f (resolved r')\<rparr>, Inr f))) r)"

definition sumType :: "(string \<Rightarrow> field_type rstep) \<Rightarrow> raw_field list \<Rightarrow> field_type rstep" where
  "sumType rec raw =
     (if raw = [] then rstep_err SumNoVariants
      else rstep_bind
        (rstep_mapM (\<lambda>(nm, typ).
           if trim_space typ = [] then rstep_ret (Vrnt nm None)
           else rstep_bind (rstep_wrap (AtVariant nm) (rec (trim_space typ)))
                  (\<lambda>pt. rstep_ret (Vrnt nm (Some pt)))) raw)
        (\<lambda>vs. rstep_ret (sum_ft vs)))"

text \<open>\<open>typeOf\<close> in its two halves: the parameterized forms, and the scalars and named types
  tried before them.\<close>

definition param_step :: "(string \<Rightarrow> field_type rstep) \<Rightarrow> string \<Rightarrow> field_type rstep" where
  "param_step rec expr r =
     (case type_param expr of
        None \<Rightarrow> Some (r, Inl (UnknownType expr))
      | Some (outer, inner) \<Rightarrow>
          if outer = k_enum then
            (let vals = enum_values inner in
             if vals = [] then Some (r, Inl (EnumNoValues expr))
             else Some (r, Inr (enum_ft vals)))
          else if outer = k_optional \<or> outer = k_list then
            rstep_bind (rec inner) (\<lambda>elem. rstep_ret (elem_ft outer elem)) r
          else if outer = k_array then
            (case last_index CHR '','' inner of
               None \<Rightarrow> Some (r, Inl (ArrayNoSize expr))
             | Some i \<Rightarrow>
                 rstep_bind (rec (take i inner))
                   (\<lambda>elem r'. case parse_int64 (trim_space (drop (Suc i) inner)) of
                        None \<Rightarrow> Some (r', Inl (ArrayBadSize expr))
                      | Some n \<Rightarrow> Some (r', Inr (array_ft elem n))) r)
          else if outer = k_map then
            (case SplitTopLevel inner of
               [k, v] \<Rightarrow>
                 rstep_bind (rec k) (\<lambda>key.
                   rstep_bind (rec (trim_space v)) (\<lambda>val. rstep_ret (map_ft key val))) r
             | _ \<Rightarrow> Some (r, Inl (MapArity expr)))
          else if outer = k_sum then Some (r, Inl (SumInline expr))
          else Some (r, Inl (UnknownParam outer)))"

definition named_step ::
  "(string \<Rightarrow> field_type rstep) \<Rightarrow> string \<Rightarrow> raw_type \<Rightarrow> field_type rstep" where
  "named_step rec expr nt r =
     (if rt_sum nt then
        if expr \<in> set (resolving r) then Some (r, Inl (RecursiveType expr))
        else with_resolving expr (sumType rec (rt_fields nt)) r
      else if transparent nt then
        (case rt_fields nt of [] \<Rightarrow> Some (r, Inl IndexPanic) | f # _ \<Rightarrow> rec (snd f) r)
      else rstep_bind (namedType rec expr) (\<lambda>f. rstep_ret (struct_ft f)) r)"

definition type_step :: "(string \<Rightarrow> field_type rstep) \<Rightarrow> string \<Rightarrow> field_type rstep" where
  "type_step rec expr0 r =
     (let expr = canonical expr0 in
      if expr \<in> set Scalars then Some (r, Inr (base_ft expr))
      else if expr = k_struct then Some (r, Inr (base_ft k_struct))
      else case map_of (named r) expr of
        Some nt \<Rightarrow> named_step rec expr nt r
      | None \<Rightarrow> param_step rec expr r)"

primrec type_of :: "nat \<Rightarrow> string \<Rightarrow> field_type rstep" where
  "type_of 0 = (\<lambda>expr r. None)"
| "type_of (Suc n) = type_step (type_of n)"

definition fields_of :: "nat \<Rightarrow> raw_field list \<Rightarrow> field list rstep" where
  "fields_of n = resolve_fields (type_of n)"

text \<open>A sum as the type under test is carried under the field \<open>value\<close>.\<close>

definition sumSchema :: "nat \<Rightarrow> raw_field list \<Rightarrow> field list rstep" where
  "sumSchema n raw =
     rstep_bind (sumType (type_of n) raw) (\<lambda>ft. rstep_ret [Fld ''value'' ft []])"

definition ParseType :: "nat \<Rightarrow> string \<Rightarrow> (type_error + field_type) option" where
  "ParseType n s = map_option snd (type_of n s (newSchemaResolver []))"

end
