(* ===== verification/ResolverFacts.thy ===== *)
theory ResolverFacts
  imports Resolver
begin

section \<open>Correctness of the type resolver\<close>

text \<open>
  A small program logic for resolver steps: \<open>spec I m Q\<close> says that a step that returns keeps
  the state invariant \<open>I\<close>, leaves the registry and the set of names being resolved as they
  were, and returns only values that satisfy \<open>Q\<close>. The recursive call of \<open>typeOf\<close> is an
  interface (locale \<open>type_call\<close>): what its clients need of it is that contract, and
  \<open>type_of n\<close> provides it for every \<open>n\<close>.
\<close>

subsection \<open>The program logic\<close>

definition same_ctx :: "resolver \<Rightarrow> resolver \<Rightarrow> bool" where
  "same_ctx r r' \<longleftrightarrow> named r' = named r \<and> resolving r' = resolving r"

definition spec :: "(resolver \<Rightarrow> bool) \<Rightarrow> 'a rstep \<Rightarrow> ('a \<Rightarrow> bool) \<Rightarrow> bool" where
  "spec I m Q \<longleftrightarrow> (\<forall>r r' res. I r \<longrightarrow> m r = Some (r', res) \<longrightarrow>
     I r' \<and> same_ctx r r' \<and> (\<forall>x. res = Inr x \<longrightarrow> Q x))"

named_theorems spec_rules \<open>rules of the resolver's program logic\<close>

lemma same_ctx_refl [simp]: "same_ctx r r"
  by (simp add: same_ctx_def)

lemma same_ctx_trans: "same_ctx a b \<Longrightarrow> same_ctx b c \<Longrightarrow> same_ctx a c"
  by (simp add: same_ctx_def)

lemma specI:
  "(\<And>r r' res. I r \<Longrightarrow> m r = Some (r', res) \<Longrightarrow>
     I r' \<and> same_ctx r r' \<and> (\<forall>x. res = Inr x \<longrightarrow> Q x)) \<Longrightarrow> spec I m Q"
  by (simp add: spec_def)

lemma specD:
  "spec I m Q \<Longrightarrow> I r \<Longrightarrow> m r = Some (r', res) \<Longrightarrow>
     I r' \<and> same_ctx r r' \<and> (\<forall>x. res = Inr x \<longrightarrow> Q x)"
  by (simp add: spec_def)

lemma spec_ret [spec_rules]: "Q x \<Longrightarrow> spec I (rstep_ret x) Q"
  by (simp add: spec_def rstep_ret_def)

lemma spec_err [spec_rules]: "spec I (rstep_err e) Q"
  by (simp add: spec_def rstep_err_def)

lemma spec_wrap [spec_rules]: "spec I m Q \<Longrightarrow> spec I (rstep_wrap g m) Q"
  unfolding spec_def rstep_wrap_def by fastforce

lemma spec_bind [spec_rules]:
  assumes m: "spec I m Q'" and f: "\<And>x. Q' x \<Longrightarrow> spec I (f x) Q"
  shows "spec I (rstep_bind m f) Q"
proof (rule specI)
  fix r r' res
  assume I: "I r" and run: "rstep_bind m f r = Some (r', res)"
  from run obtain r1 res1 where 1: "m r = Some (r1, res1)"
    by (auto simp: rstep_bind_def split: option.splits)
  from specD [OF m I 1] have 2: "I r1" "same_ctx r r1" "\<And>x. res1 = Inr x \<Longrightarrow> Q' x" by auto
  show "I r' \<and> same_ctx r r' \<and> (\<forall>x. res = Inr x \<longrightarrow> Q x)"
  proof (cases res1)
    case (Inl e)
    with run 1 2 show ?thesis by (auto simp: rstep_bind_def)
  next
    case (Inr x)
    with run 1 have "f x r1 = Some (r', res)" by (simp add: rstep_bind_def)
    with f [OF 2(3) [OF Inr]] 2 show ?thesis by (blast dest: specD intro: same_ctx_trans)
  qed
qed

lemma spec_mapM [spec_rules]:
  "(\<And>x. x \<in> set xs \<Longrightarrow> spec I (f x) Q) \<Longrightarrow>
     spec I (rstep_mapM f xs) (\<lambda>ys. list_all Q ys \<and> length ys = length xs)"
proof (induction xs)
  case Nil
  then show ?case by (simp add: spec_ret)
next
  case (Cons x xs)
  have "spec I (rstep_bind (f x) (\<lambda>y. rstep_bind (rstep_mapM f xs) (\<lambda>ys. rstep_ret (y # ys))))
          (\<lambda>ys. list_all Q ys \<and> length ys = length (x # xs))"
    by (rule spec_bind [where Q' = Q], simp add: Cons.prems,
        rule spec_bind [OF Cons.IH], simp add: Cons.prems, rule spec_ret, simp)
  then show ?case by simp
qed

lemma spec_mono: "spec I m Q \<Longrightarrow> (\<And>x. Q x \<Longrightarrow> Q' x) \<Longrightarrow> spec I m Q'"
  by (auto simp: spec_def)

text \<open>The body of a guarded name runs with the name recorded and gives the list back.\<close>

lemma with_resolving_spec:
  assumes m: "spec I m Q" and I: "I (r\<lparr>resolving := nm # resolving r\<rparr>)"
    and inv: "\<And>s L. I s \<Longrightarrow> I (s\<lparr>resolving := L\<rparr>)" and fresh: "nm \<notin> set (resolving r)"
    and run: "with_resolving nm m r = Some (r', res)"
  shows "I r' \<and> same_ctx r r' \<and> (\<forall>x. res = Inr x \<longrightarrow> Q x)"
proof -
  from run obtain r1 where 1: "m (r\<lparr>resolving := nm # resolving r\<rparr>) = Some (r1, res)"
    and r': "r' = r1\<lparr>resolving := removeAll nm (resolving r1)\<rparr>"
    by (auto simp: with_resolving_def split: option.splits)
  from specD [OF m I 1] have "I r1" "same_ctx (r\<lparr>resolving := nm # resolving r\<rparr>) r1"
    "\<forall>x. res = Inr x \<longrightarrow> Q x" by auto
  with r' inv fresh show ?thesis by (simp add: same_ctx_def)
qed

subsection \<open>The contract of the recursive call\<close>

text \<open>The memo holds well-formed fields only.\<close>

definition memo_wf :: "resolver \<Rightarrow> bool" where
  "memo_wf r \<longleftrightarrow> (\<forall>(k, fs) \<in> set (resolved r). list_all (\<lambda>f. wf_ft (FType f)) fs)"

lemma memo_wf_resolving [simp]: "memo_wf (r\<lparr>resolving := L\<rparr>) = memo_wf r"
  by (simp add: memo_wf_def)

lemma memo_wf_new [simp]: "memo_wf (newSchemaResolver reg)"
  by (simp add: memo_wf_def newSchemaResolver_def)

lemma memo_wf_lookup:
  "memo_wf r \<Longrightarrow> map_of (resolved r) k = Some fs \<Longrightarrow> list_all (\<lambda>f. wf_ft (FType f)) fs"
  by (auto simp: memo_wf_def dest: map_of_SomeD)

lemma set_update_subset: "set (AList.update k v m) \<subseteq> insert (k, v) (set m)"
  by (induction m) auto

lemma memo_wf_update:
  "memo_wf r \<Longrightarrow> list_all (\<lambda>f. wf_ft (FType f)) fs \<Longrightarrow>
     memo_wf (r\<lparr>resolved := AList.update nm fs (resolved r)\<rparr>)"
  using set_update_subset [of nm fs "resolved r"] by (fastforce simp: memo_wf_def)

locale type_call =
  fixes rec :: "string \<Rightarrow> field_type rstep"
  assumes rec_spec: "spec memo_wf (rec e) wf_ft"
begin

lemma resolve_fields_spec:
  "spec memo_wf (resolve_fields rec raw) (\<lambda>fs. list_all (\<lambda>f. wf_ft (FType f)) fs)"
  unfolding resolve_fields_def
  by (rule spec_mono, rule spec_mapM [where Q = "\<lambda>f. wf_ft (FType f)"])
     (auto intro!: spec_bind [OF spec_wrap [OF rec_spec]] spec_ret)

lemma namedType_spec: "spec memo_wf (namedType rec nm) (\<lambda>fs. list_all (\<lambda>f. wf_ft (FType f)) fs)"
proof (rule specI)
  fix r r' res
  assume I: "memo_wf r" and run: "namedType rec nm r = Some (r', res)"
  let ?P = "\<lambda>fs. list_all (\<lambda>f. wf_ft (FType f)) fs"
  let ?raw = "case map_of (named r) nm of None \<Rightarrow> [] | Some nt \<Rightarrow> rt_fields nt"
  let ?body = "rstep_bind (rstep_wrap (InType nm) (resolve_fields rec ?raw))
      (\<lambda>f r'. Some (r'\<lparr>resolved := AList.update nm f (resolved r')\<rparr>, Inr f))"
  have body: "spec memo_wf ?body ?P"
    by (rule spec_bind [OF spec_wrap [OF resolve_fields_spec]])
       (auto simp: spec_def same_ctx_def intro: memo_wf_update)
  show "memo_wf r' \<and> same_ctx r r' \<and> (\<forall>x. res = Inr x \<longrightarrow> ?P x)"
  proof (cases "map_of (resolved r) nm")
    case (Some fs)
    with run I show ?thesis by (auto simp: namedType_def intro: memo_wf_lookup)
  next
    case None
    show ?thesis
    proof (cases "nm \<in> set (resolving r)")
      case True
      with None run I show ?thesis by (auto simp: namedType_def)
    next
      case False
      with None run have "with_resolving nm ?body r = Some (r', res)" by (simp add: namedType_def)
      with body I False show ?thesis by (intro with_resolving_spec [where m = ?body]) auto
    qed
  qed
qed

lemma sumType_spec: "spec memo_wf (sumType rec raw) wf_ft"
proof (cases "raw = []")
  case True
  then show ?thesis by (simp add: sumType_def spec_err)
next
  case False
  let ?Q = "\<lambda>v. case VType v of None \<Rightarrow> True | Some t \<Rightarrow> wf_ft t"
  let ?f = "\<lambda>(nm, typ). if trim_space typ = [] then rstep_ret (Vrnt nm None)
      else rstep_bind (rstep_wrap (AtVariant nm) (rec (trim_space typ)))
             (\<lambda>pt. rstep_ret (Vrnt nm (Some pt)))"
  have "spec memo_wf (rstep_mapM ?f raw) (\<lambda>vs. list_all ?Q vs \<and> length vs = length raw)"
    by (rule spec_mapM)
       (auto intro!: spec_ret spec_bind [OF spec_wrap [OF rec_spec]])
  then have "spec memo_wf (rstep_bind (rstep_mapM ?f raw) (\<lambda>vs. rstep_ret (sum_ft vs))) wf_ft"
    by (rule spec_bind) (use False in \<open>auto intro!: spec_ret simp: wf_ft_ctors\<close>)
  with False show ?thesis by (simp add: sumType_def)
qed

lemma array_size_spec:
  "spec memo_wf (\<lambda>r'. case parse_int64 s of
      None \<Rightarrow> Some (r', Inl (ArrayBadSize ex)) | Some n \<Rightarrow> Some (r', Inr (array_ft elem n)))
    wf_ft" if "wf_ft elem"
  using that by (auto simp: spec_def wf_ft_ctors split: option.splits)

lemma param_step_spec: "spec memo_wf (param_step rec e) wf_ft"
proof (rule specI)
  fix r r' res
  assume I: "memo_wf r" and run: "param_step rec e r = Some (r', res)"
  have arr: "spec memo_wf (rstep_bind (rec inner) (\<lambda>elem r'. case parse_int64 s of
      None \<Rightarrow> Some (r', Inl (ArrayBadSize ex))
    | Some n \<Rightarrow> Some (r', Inr (array_ft elem n)))) wf_ft" for inner s ex
    by (rule spec_bind [OF rec_spec array_size_spec])
  have ell: "spec memo_wf (rstep_bind (rec inner) (\<lambda>elem. rstep_ret (elem_ft b elem))) wf_ft"
    if "b = k_optional \<or> b = k_list" for inner b
    using that by (intro spec_bind [OF rec_spec] spec_ret) (simp add: wf_ft_ctors)
  have mp: "spec memo_wf (rstep_bind (rec k) (\<lambda>key.
      rstep_bind (rec v) (\<lambda>val. rstep_ret (map_ft key val)))) wf_ft" for k v
    by (intro spec_bind [OF rec_spec] spec_ret) (simp add: wf_ft_ctors)
  show "memo_wf r' \<and> same_ctx r r' \<and> (\<forall>x. res = Inr x \<longrightarrow> wf_ft x)"
  proof (cases "type_param e")
    case None
    with run I show ?thesis by (auto simp: param_step_def)
  next
    case (Some p)
    obtain outer inner where p: "p = (outer, inner)" by fastforce
    show ?thesis
      using run Some p I arr [THEN specD, OF I] ell [THEN specD, OF _ I] mp [THEN specD, OF I]
      by (simp add: param_step_def Let_def wf_ft_ctors
          split: if_splits option.splits list.splits) (auto simp: wf_ft_ctors)
  qed
qed

lemma named_step_spec: "spec memo_wf (named_step rec e nt) wf_ft"
proof (rule specI)
  fix r r' res
  assume I: "memo_wf r" and run: "named_step rec e nt r = Some (r', res)"
  have struct: "spec memo_wf (rstep_bind (namedType rec e) (\<lambda>f. rstep_ret (struct_ft f))) wf_ft"
    by (rule spec_bind [OF namedType_spec]) (auto intro!: spec_ret simp: wf_ft_ctors)
  consider "rt_sum nt" "e \<in> set (resolving r)" | "rt_sum nt" "e \<notin> set (resolving r)"
    | "\<not> rt_sum nt" "transparent nt" | "\<not> rt_sum nt" "\<not> transparent nt" by blast
  then show "memo_wf r' \<and> same_ctx r r' \<and> (\<forall>x. res = Inr x \<longrightarrow> wf_ft x)"
  proof cases
    case 1
    with run I show ?thesis by (auto simp: named_step_def)
  next
    case 2
    with run have "with_resolving e (sumType rec (rt_fields nt)) r = Some (r', res)"
      by (simp add: named_step_def)
    with I 2 show ?thesis
      by (intro with_resolving_spec [where m = "sumType rec (rt_fields nt)"])
         (auto intro: sumType_spec)
  next
    case 3
    with run I show ?thesis
      by (cases "rt_fields nt") (auto simp: named_step_def dest: specD [OF rec_spec])
  next
    case 4
    with run specD [OF struct I] show ?thesis by (simp add: named_step_def)
  qed
qed

lemma type_step_spec: "spec memo_wf (type_step rec e) wf_ft"
proof (rule specI)
  fix r r' res
  assume I: "memo_wf r" and run: "type_step rec e r = Some (r', res)"
  then show "memo_wf r' \<and> same_ctx r r' \<and> (\<forall>x. res = Inr x \<longrightarrow> wf_ft x)"
    using specD [OF param_step_spec I] specD [OF named_step_spec I]
    by (simp add: type_step_def Let_def split: if_splits option.splits) (auto simp: wf_ft_ctors)
qed

end

lemma type_of_spec: "spec memo_wf (type_of n e) wf_ft"
proof (induction n arbitrary: e)
  case 0
  then show ?case by (simp add: spec_def)
next
  case (Suc n)
  then have "type_call (type_of n)" by unfold_locales
  then show ?case by (simp add: type_call.type_step_spec)
qed

interpretation tc: type_call "type_of n" for n
  by unfold_locales (rule type_of_spec)

subsection \<open>Termination\<close>

definition returns :: "'a rstep \<Rightarrow> resolver \<Rightarrow> bool" where
  "returns m r \<longleftrightarrow> m r \<noteq> None"

named_theorems returns_rules \<open>when a resolver step returns\<close>

lemma returns_ret [returns_rules, simp]: "returns (rstep_ret x) r"
  by (simp add: returns_def rstep_ret_def)

lemma returns_wrap [returns_rules]: "returns m r \<Longrightarrow> returns (rstep_wrap g m) r"
  by (simp add: returns_def rstep_wrap_def)

lemma returns_bind [returns_rules]:
  "returns m r \<Longrightarrow> (\<And>r' x. m r = Some (r', Inr x) \<Longrightarrow> returns (f x) r') \<Longrightarrow>
     returns (rstep_bind m f) r"
  by (auto simp: returns_def rstep_bind_def split: sum.splits)

lemma returns_mapM:
  assumes sp: "\<And>x. x \<in> set xs \<Longrightarrow> spec I (f x) (\<lambda>_. True)"
    and ret: "\<And>x r'. x \<in> set xs \<Longrightarrow> I r' \<Longrightarrow> same_ctx r r' \<Longrightarrow> returns (f x) r'"
    and I: "I r"
  shows "returns (rstep_mapM f xs) r"
  using assms
proof (induction xs arbitrary: r)
  case Nil
  then show ?case by simp
next
  case (Cons x xs)
  have "returns (rstep_mapM f xs) r'" if "f x r = Some (r', Inr y)" for r' y
  proof -
    have "I r' \<and> same_ctx r r'"
      using specD [OF Cons.prems(1) Cons.prems(3) that] by simp
    then show ?thesis
      using Cons.prems by (intro Cons.IH) (auto intro: same_ctx_trans)
  qed
  then have "returns (rstep_bind (f x) (\<lambda>y. rstep_bind (rstep_mapM f xs) (\<lambda>ys. rstep_ret (y # ys)))) r"
    using Cons.prems by (intro returns_bind) auto
  then show ?case by simp
qed

lemma returns_with_resolving:
  "returns m (r\<lparr>resolving := nm # resolving r\<rparr>) \<Longrightarrow> returns (with_resolving nm m) r"
  by (auto simp: returns_def with_resolving_def)

definition exprs_bounded :: "nat \<Rightarrow> raw_type gomap \<Rightarrow> bool" where
  "exprs_bounded M reg \<longleftrightarrow>
     list_all (\<lambda>(k, nt). list_all (\<lambda>(f, t). length t \<le> M) (rt_fields nt)) reg"

text \<open>Every transparent type is a newtype over a scalar (or an alias of one).\<close>

definition newtypes_over_scalars :: "raw_type gomap \<Rightarrow> bool" where
  "newtypes_over_scalars reg \<longleftrightarrow>
     list_all (\<lambda>(k, nt). transparent nt \<and> \<not> rt_sum nt \<longrightarrow>
       (case rt_fields nt of [] \<Rightarrow> True | f # _ \<Rightarrow> canonical (snd f) \<in> set Scalars)) reg"

text \<open>A registry whose expressions have at most \<open>M\<close> characters and whose transparent types
  are such newtypes.\<close>

definition resolvable :: "raw_type gomap \<Rightarrow> nat \<Rightarrow> bool" where
  "resolvable reg M \<longleftrightarrow> exprs_bounded M reg \<and> newtypes_over_scalars reg"

definition pending :: "raw_type gomap \<Rightarrow> string list \<Rightarrow> nat" where
  "pending reg L = card (fst ` set reg - set L)"

lemma pending_Cons:
  assumes "nm \<in> fst ` set reg" and "nm \<notin> set L"
  shows "pending reg L = Suc (pending reg (nm # L))"
proof -
  let ?A = "fst ` set reg - set (nm # L)"
  have "finite ?A" and "nm \<notin> ?A" by auto
  then have "card (insert nm ?A) = Suc (card ?A)" by (rule card_insert_disjoint)
  moreover have "insert nm ?A = fst ` set reg - set L"
    using assms by (intro set_eqI) (simp, blast)
  ultimately show ?thesis by (simp only: pending_def)
qed

lemma length_trim_left: "length (trim_left s) \<le> length s"
proof (induction s rule: trim_left.induct)
  case (1 s)
  then show ?case
    by (cases "first_space s") (fastforce simp: trim_left.simps [of s])+
qed

lemma length_trim_space: "length (trim_space s) \<le> length s"
proof -
  have "length (trim_right t) \<le> length t" for t
    using trim_right_prefix [of t] by (metis length_append le_add1)
  then show ?thesis unfolding trim_space_def using length_trim_left le_trans by blast
qed

lemma canonical_short: "canonical e \<notin> set Scalars \<Longrightarrow> length (canonical e) \<le> length e"
  using length_trim_space [of e]
  by (auto simp: canonical_def Let_def scalarAliases_def Scalars_def split: option.splits if_splits)

lemma length_takeWhile_dropWhile:
  "length (takeWhile P s) + length (dropWhile P s) = length s"
  by (metis length_append takeWhile_dropWhile_id)

lemma type_param_short: "type_param s = Some (outer, inner) \<Longrightarrow> length inner + 2 \<le> length s"
  using length_takeWhile_dropWhile [of word_char s]
  by (auto simp: type_param_def Let_def neq_Nil_conv [of "takeWhile word_char s"]
      split: list.splits if_splits)

lemma SplitTopLevel_pair_short:
  "SplitTopLevel s = [k, v] \<Longrightarrow> length k + length v < length s"
  using join_split_top [of 0 "[]" s] by (auto simp: SplitTopLevel_def)

text \<open>The recursive call as the termination proof needs it: it returns for expressions up to
  a size and for states with at most so many names left to resolve.\<close>

locale bounded_call = type_call +
  fixes n :: nat
  assumes rec_returns: "\<And>reg M e r. resolvable reg M \<Longrightarrow> named r = reg \<Longrightarrow> memo_wf r \<Longrightarrow>
      pending reg (resolving r) * (M + 2) + length e + 1 < n \<Longrightarrow> returns (rec e) r"
    and rec_scalar: "\<And>e r. canonical e \<in> set Scalars \<Longrightarrow> 0 < n \<Longrightarrow> returns (rec e) r"
begin

lemma spec_true: "spec memo_wf (rec e) (\<lambda>_. True)"
  by (rule spec_mono [OF rec_spec]) simp

lemma resolve_fields_returns:
  assumes r: "named r = reg" "memo_wf r" "resolvable reg M"
    and len: "list_all (\<lambda>(f, t). length t \<le> M) raw"
    and fuel: "pending reg (resolving r) * (M + 2) + M + 1 < n"
  shows "returns (resolve_fields rec raw) r"
  unfolding resolve_fields_def
proof (rule returns_mapM [where I = memo_wf])
  fix x r' assume x: "x \<in> set raw" and r': "memo_wf r'" "same_ctx r r'"
  obtain f t where xe: "x = (f, t)" by fastforce
  from x len xe have "length t \<le> M" by (auto simp: list_all_iff)
  with r r' fuel have "returns (rec t) r'" by (intro rec_returns [where M = M and reg = reg]) (auto simp: same_ctx_def)
  then show "returns (case x of (nm, typ) \<Rightarrow> rstep_bind (rstep_wrap (AtField nm) (rec typ))
      (\<lambda>ft. rstep_ret (Fld nm ft []))) r'"
    by (auto simp: xe intro!: returns_bind returns_wrap)
qed (use r in \<open>auto intro!: spec_bind [OF spec_wrap [OF spec_true]] spec_ret\<close>)

lemma sumType_returns:
  assumes r: "named r = reg" "memo_wf r" "resolvable reg M"
    and len: "list_all (\<lambda>(f, t). length t \<le> M) raw"
    and fuel: "pending reg (resolving r) * (M + 2) + M + 1 < n"
  shows "returns (sumType rec raw) r"
proof (cases "raw = []")
  case True
  then show ?thesis by (simp add: sumType_def returns_def rstep_err_def)
next
  case False
  let ?f = "\<lambda>(nm, typ). if trim_space typ = [] then rstep_ret (Vrnt nm None)
      else rstep_bind (rstep_wrap (AtVariant nm) (rec (trim_space typ)))
             (\<lambda>pt. rstep_ret (Vrnt nm (Some pt)))"
  have "returns (rstep_mapM ?f raw) r"
  proof (rule returns_mapM [where I = memo_wf])
    fix x r' assume x: "x \<in> set raw" and r': "memo_wf r'" "same_ctx r r'"
    obtain f t where xe: "x = (f, t)" by fastforce
    from x len xe have "length (trim_space t) \<le> M"
      using length_trim_space [of t] by (auto simp: list_all_iff)
    with r r' fuel have "returns (rec (trim_space t)) r'"
      by (intro rec_returns [where M = M and reg = reg]) (auto simp: same_ctx_def)
    then show "returns (?f x) r'"
      by (auto simp: xe intro!: returns_bind returns_wrap)
  qed (use r in \<open>auto intro!: spec_bind [OF spec_wrap [OF spec_true]] spec_ret\<close>)
  with False show ?thesis by (auto simp: sumType_def intro!: returns_bind)
qed

lemma raw_bounded:
  "resolvable reg M \<Longrightarrow> map_of reg k = Some nt \<Longrightarrow>
     list_all (\<lambda>(f, t). length t \<le> M) (rt_fields nt)"
  by (auto simp: resolvable_def exprs_bounded_def list_all_iff dest!: map_of_SomeD)

lemma named_step_returns:
  assumes r: "named r = reg" "memo_wf r" "resolvable reg M" and nt: "map_of reg e = Some nt"
    and fuel: "pending reg (resolving r) * (M + 2) + length e + 1 < Suc n"
  shows "returns (named_step rec e nt) r"
proof -
  have dom: "e \<in> fst ` set reg" using nt by (auto dest: map_of_SomeD intro: rev_image_eqI)
  let ?r = "r\<lparr>resolving := e # resolving r\<rparr>"
  have room: "pending reg (resolving ?r) * (M + 2) + M + 1 < n" if "e \<notin> set (resolving r)"
    using fuel pending_Cons [OF dom that] by (simp add: algebra_simps)
  show ?thesis
  proof (cases "rt_sum nt")
    case sum: True
    show ?thesis
    proof (cases "e \<in> set (resolving r)")
      case True
      with sum show ?thesis by (simp add: named_step_def returns_def)
    next
      case False
      have "returns (sumType rec (rt_fields nt)) ?r"
        using r raw_bounded [OF r(3) nt] room [OF False] by (intro sumType_returns) auto
      then have "returns (with_resolving e (sumType rec (rt_fields nt))) r"
        by (rule returns_with_resolving)
      with sum False show ?thesis by (simp add: named_step_def returns_def)
    qed
  next
    case nosum: False
    show ?thesis
    proof (cases "transparent nt")
      case True
      with nosum nt r(3) have nw: "case rt_fields nt of [] \<Rightarrow> True
          | f # _ \<Rightarrow> canonical (snd f) \<in> set Scalars"
        by (auto simp: resolvable_def newtypes_over_scalars_def list_all_iff dest!: map_of_SomeD)
      show ?thesis
      proof (cases "rt_fields nt")
        case Nil
        with nosum True show ?thesis by (simp add: named_step_def returns_def)
      next
        case (Cons f fs)
        with nw fuel have "returns (rec (snd f)) r" by (intro rec_scalar) auto
        with nosum True Cons show ?thesis by (simp add: named_step_def returns_def)
      qed
    next
      case False
      have "returns (namedType rec e) r"
      proof (cases "map_of (resolved r) e = None \<and> e \<notin> set (resolving r)")
        case True
        have "returns (resolve_fields rec (rt_fields nt)) ?r"
          using r raw_bounded [OF r(3) nt] room True by (intro resolve_fields_returns) auto
        then have "returns (with_resolving e (rstep_bind
            (rstep_wrap (InType e) (resolve_fields rec (rt_fields nt)))
            (\<lambda>f r'. Some (r'\<lparr>resolved := AList.update e f (resolved r')\<rparr>, Inr f)))) r"
          by (intro returns_with_resolving returns_bind returns_wrap) (auto simp: returns_def)
        with True nt r show ?thesis by (simp add: namedType_def returns_def)
      next
        case False
        then show ?thesis by (auto simp: namedType_def returns_def split: option.splits)
      qed
      then have "returns (rstep_bind (namedType rec e) (\<lambda>f. rstep_ret (struct_ft f))) r"
        by (intro returns_bind) auto
      with nosum False show ?thesis by (simp add: named_step_def returns_def)
    qed
  qed
qed

lemma param_step_returns:
  assumes r: "named r = reg" "memo_wf r" "resolvable reg M"
    and fuel: "pending reg (resolving r) * (M + 2) + length e + 1 < Suc n"
  shows "returns (param_step rec e) r"
proof (cases "type_param e")
  case None
  then show ?thesis by (simp add: param_step_def returns_def)
next
  case (Some p)
  obtain outer inner where p: "p = (outer, inner)" by fastforce
  have sub: "returns (rec t) r'" if "length t \<le> length inner" "memo_wf r'" "same_ctx r r'" for t r'
    using that fuel r type_param_short [OF Some [unfolded p]]
    by (intro rec_returns [where M = M and reg = reg]) (auto simp: same_ctx_def)
  have cont: "memo_wf r' \<and> same_ctx r r'" if "rec t r = Some (r', res)" for t r' res
    using specD [OF rec_spec r(2) that] by simp
  have sub0: "returns (rec t) r" if "length t \<le> length inner" for t
    using that r by (intro sub) auto
  have two: "returns (rstep_bind (rec k) (\<lambda>key. rstep_bind (rec (trim_space v))
      (\<lambda>val. rstep_ret (map_ft key val)))) r" if "SplitTopLevel inner = [k, v]" for k v
    using SplitTopLevel_pair_short [OF that] length_trim_space [of v] cont
    by (auto intro!: returns_bind sub0 sub)
  have arr: "returns (rstep_bind (rec (take i inner)) (\<lambda>elem r'. case parse_int64 s of
      None \<Rightarrow> Some (r', Inl (ArrayBadSize e)) | Some n \<Rightarrow> Some (r', Inr (array_ft elem n)))) r" for i s
  proof (rule returns_bind)
    show "returns (rec (take i inner)) r" by (rule sub0) simp
  qed (simp add: returns_def split: option.splits)
  have one: "returns (rstep_bind (rec inner) (\<lambda>elem. rstep_ret (elem_ft outer elem))) r"
    by (rule returns_bind) (auto intro!: sub0)
  have mp: "returns (\<lambda>r. case SplitTopLevel inner of
      [k, v] \<Rightarrow> rstep_bind (rec k) (\<lambda>key.
        rstep_bind (rec (trim_space v)) (\<lambda>val. rstep_ret (map_ft key val))) r
    | _ \<Rightarrow> Some (r, Inl (MapArity e))) r"
    using two by (simp add: returns_def split: list.splits)
  show ?thesis
    using Some p arr one mp by (simp add: param_step_def returns_def Let_def split: option.splits)
qed

lemma type_step_returns:
  assumes "resolvable reg M" and "named r = reg" "memo_wf r"
    and "pending reg (resolving r) * (M + 2) + length e + 1 < Suc n"
  shows "returns (type_step rec e) r"
proof (cases "canonical e \<in> set Scalars")
  case True
  then show ?thesis by (simp add: type_step_def returns_def)
next
  case False
  then have "pending reg (resolving r) * (M + 2) + length (canonical e) + 1 < Suc n"
    using assms(4) canonical_short [OF False] by linarith
  then show ?thesis
    using assms False
      param_step_returns [where r = r and e = "canonical e" and reg = reg and M = M]
      named_step_returns [where r = r and e = "canonical e" and reg = reg and M = M]
    by (auto simp: type_step_def Let_def returns_def split: option.splits)
qed

end

lemma type_of_bounded: "bounded_call (type_of n) n"
proof (induction n)
  case 0
  show ?case by unfold_locales auto
next
  case (Suc n)
  show ?case
  proof unfold_locales
    fix reg M and e :: string and r :: resolver
    assume "resolvable reg M" "named r = reg" "memo_wf r"
      and "pending reg (resolving r) * (M + 2) + length e + 1 < Suc n"
    then show "returns (type_of (Suc n) e) r"
      using bounded_call.type_step_returns [OF Suc] by simp
  next
    fix e :: string and r :: resolver
    assume "canonical e \<in> set Scalars"
    then show "returns (type_of (Suc n) e) r"
      by (simp add: type_step_def returns_def Let_def)
  qed
qed

interpretation bc: bounded_call "type_of n" n for n
  by (rule type_of_bounded)

subsection \<open>Properties\<close>

text \<open>
  C30. The recursion of typeOf terminates on every registry whose transparent types are
  newtypes over a scalar, recursive types and malformed expressions included: with a call
  depth above (number of registered names) * (longest expression + 2) + length of the
  expression + 1, a fresh resolver returns a type or an error.
\<close>

theorem typeOf_terminates:
  assumes "exprs_bounded M reg" and "newtypes_over_scalars reg"
    and "card (fst ` set reg) * (M + 2) + length e + 1 < n"
  shows "\<exists>r' res. type_of n e (newSchemaResolver reg) = Some (r', res)"
proof -
  have "returns (type_of n e) (newSchemaResolver reg)"
    using assms bc.rec_returns [where reg = reg and M = M and r = "newSchemaResolver reg"]
    by (simp add: resolvable_def newSchemaResolver_def pending_def memo_wf_def)
  then show ?thesis by (auto simp: returns_def)
qed

definition example_registry :: "raw_type gomap" where
  "example_registry =
     [(''money'', \<lparr>rt_fields = [(''cur'', ''string''), (''n'', ''int64'')],
         transparent = False, rt_sum = False\<rparr>),
      (''who'', \<lparr>rt_fields = [(''id'', ''double'')], transparent = True, rt_sum = False\<rparr>),
      (''chan'', \<lparr>rt_fields = [(''quiet'', []), (''pay'', ''money''), (''loop'', ''list<chan>'')],
         transparent = False, rt_sum = True\<rparr>)]"

theorem typeOf_terminates_witness:
  "\<exists>r' res. type_of 100 ''list<chan>'' (newSchemaResolver example_registry) = Some (r', res)"
proof (rule typeOf_terminates [where M = 10])
  show "newtypes_over_scalars example_registry" by code_simp
qed (simp_all add: exprs_bounded_def example_registry_def)

text \<open>
  C31. A call of typeOf that returns leaves the registry and the set of names being resolved
  exactly as it found them, on success and on every error path, keeps the memo well-formed,
  and on success returns a well-formed type: every pointer the encoders dereference is there.
\<close>

theorem typeOf_invariant:
  assumes "type_of n e r = Some (r', res)" and "memo_wf r"
  shows "named r' = named r \<and> resolving r' = resolving r \<and> memo_wf r' \<and>
     (case res of Inl _ \<Rightarrow> True | Inr ft \<Rightarrow> wf_ft ft)"
  using specD [OF tc.rec_spec assms(2,1)] by (auto simp: same_ctx_def split: sum.splits)

theorem typeOf_invariant_witness:
  "memo_wf (newSchemaResolver example_registry) \<and>
   (case type_of 9 ''map<string,who>'' (newSchemaResolver example_registry) of
      Some (r', Inr ft) \<Rightarrow> resolving r' = [] \<and> wf_ft ft | _ \<Rightarrow> False)"
proof -
  have "case type_of 9 ''map<string,who>'' (newSchemaResolver example_registry) of
      Some (r', Inr ft) \<Rightarrow> True | _ \<Rightarrow> False"
    by code_simp
  then obtain r' ft where
    run: "type_of 9 ''map<string,who>'' (newSchemaResolver example_registry) = Some (r', Inr ft)"
    by (auto split: option.splits sum.splits) (metis sum.exhaust)
  have "resolving r' = []" and "wf_ft ft"
    using typeOf_invariant [OF run memo_wf_new] by (simp_all add: newSchemaResolver_def)
  then show ?thesis by (simp only: run) simp
qed

text \<open>
  C32. A transparent type is followed without a cycle check: when the single field of a
  transparent record has that record's own name as its type, typeOf returns for no call
  depth, so the loader overflows its stack where a struct would be reported as recursive.
\<close>

theorem typeOf_transparent_cycle_diverges:
  assumes "map_of (named r) t = Some nt" and "transparent nt" and "\<not> rt_sum nt"
    and "rt_fields nt = [(f, t)]" and "canonical t = t" and "t \<notin> set Scalars" and "t \<noteq> k_struct"
  shows "type_of n t r = None"
  by (induction n) (simp_all add: type_step_def named_step_def assms)

theorem typeOf_transparent_cycle_diverges_witness:
  "type_of 1000000 ''node''
     (newSchemaResolver [(''node'', \<lparr>rt_fields = [(''inner'', ''node'')], transparent = True,
        rt_sum = False\<rparr>)]) = None"
proof (rule typeOf_transparent_cycle_diverges
        [where nt = "\<lparr>rt_fields = [(''inner'', ''node'')], transparent = True, rt_sum = False\<rparr>"
           and f = "''inner''"])
  show "canonical ''node'' = ''node''" by code_simp
qed (simp_all add: newSchemaResolver_def Scalars_def)

subsection \<open>Printing and parsing\<close>

definition enum_value_ok :: "string \<Rightarrow> bool" where
  "enum_value_ok v \<longleftrightarrow> v \<noteq> [] \<and> trimmed v \<and> CHR '','' \<notin> set v \<and> CHR 0x0A \<notin> set v \<and> bracket_free v"

text \<open>The types an expression can spell out: no struct body and no sum arms, which only
  type files declare, an array length that is an \<open>int\<close>, and plain enum values.\<close>

function printable :: "field_type \<Rightarrow> bool" where
  "printable (Ftype b e k n fs vs vrs) =
     (if b = k_enum then list_all enum_value_ok vs
      else if b = k_sum then False
      else fs = [] \<and> in_range (- (2 ^ 63)) (2 ^ 63 - 1) n \<and>
        (case e of None \<Rightarrow> True | Some t \<Rightarrow> printable t) \<and>
        (case k of None \<Rightarrow> True | Some t \<Rightarrow> printable t))"
  by pat_completeness auto
termination
  by (relation "measure size") auto

declare printable.simps [simp del]

lemma printable_ctors:
  "b \<in> set Scalars \<Longrightarrow> printable (base_ft b)"
  "printable (struct_ft fs) \<longleftrightarrow> fs = []"
  "b = k_optional \<or> b = k_list \<Longrightarrow> printable (elem_ft b t) \<longleftrightarrow> printable t"
  "printable (array_ft t n) \<longleftrightarrow> printable t \<and> in_range (- (2 ^ 63)) (2 ^ 63 - 1) n"
  "printable (map_ft tk tv) \<longleftrightarrow> printable tk \<and> printable tv"
  "printable (enum_ft es) \<longleftrightarrow> list_all enum_value_ok es"
  "\<not> printable (sum_ft vrs)"
  by (auto simp: printable.simps ft_ctor_defs Scalars_def in_range_def)

text \<open>What the printed form of such a type looks like from outside.\<close>

definition text_ok :: "string \<Rightarrow> bool" where
  "text_ok s \<longleftrightarrow> s \<noteq> [] \<and> CHR 0x0A \<notin> set s \<and> trimmed s \<and> (\<forall>d \<ge> 0. nesting d s = Some d)"

lemma not_space_char:
  "CHR ''>'' \<notin> space_chars" "(48 \<le> (of_char c :: nat) \<and> (of_char c :: nat) \<le> 122) \<Longrightarrow> c \<notin> space_chars"
proof -
  have *: "c \<notin> space_chars" if "48 \<le> (of_char c :: nat)" "(of_char c :: nat) \<le> 122" for c
  proof
    assume "c \<in> space_chars"
    then have "(of_char c :: nat) \<in> of_char ` space_chars" by blast
    also have "of_char ` space_chars =
        {9, 10, 11, 12, 13, 32, 0xC2, 0x85, 0xA0, 0xE1, 0x9A, 0x80 :: nat} \<union>
        {0xE2, 0x81, 0x82, 0x83, 0x84, 0x85, 0x86, 0x87, 0x88, 0x89, 0x8A, 0xA8, 0xA9, 0xAF,
         0x9F, 0xE3}"
      by (simp add: space_chars_def space_encodings_def insert_commute)
    finally show False using that by auto
  qed
  show "CHR ''>'' \<notin> space_chars" by (rule *) simp_all
  show "48 \<le> (of_char c :: nat) \<and> (of_char c :: nat) \<le> 122 \<Longrightarrow> c \<notin> space_chars"
    by (rule *) auto
qed

lemma word_char_not_space: "word_char c \<Longrightarrow> c \<notin> space_chars"
  by (rule not_space_char(2)) (auto simp: word_char_def Let_def)

definition kind_name :: "string \<Rightarrow> bool" where
  "kind_name b \<longleftrightarrow> b \<noteq> [] \<and> list_all word_char b"

lemma kind_names: "b \<in> set AllBases \<Longrightarrow> kind_name b"
  by (auto simp: AllBases_def Scalars_def kind_name_def word_char_def Let_def)

lemma kind_name_plain: "kind_name b \<Longrightarrow> bracket_free b \<and> CHR '','' \<notin> set b \<and> CHR 0x0A \<notin> set b"
  by (auto simp: kind_name_def list_all_iff bracket_free_def word_char_def Let_def)

lemma text_ok_kind: "kind_name b \<Longrightarrow> text_ok b"
proof -
  assume b: "kind_name b"
  then have "hd b \<notin> space_chars" "last b \<notin> space_chars" "b \<noteq> []"
    by (auto simp: kind_name_def list_all_iff intro!: word_char_not_space)
  then show ?thesis
    using kind_name_plain [OF b] by (auto simp: text_ok_def intro!: trimmedI nesting_bracket_free)
qed

lemma text_ok_wrapped:
  assumes b: "kind_name b" and s: "CHR 0x0A \<notin> set s" "\<forall>d > 0. nesting d s = Some d"
  shows "text_ok (b @ ''<'' @ s @ ''>'')"
proof -
  have "hd b \<notin> space_chars" "b \<noteq> []"
    using b by (auto simp: kind_name_def list_all_iff intro!: word_char_not_space)
  then have "trimmed (b @ ''<'' @ s @ ''>'')"
    by (intro trimmedI) (simp add: not_space_char)
  moreover have "nesting d (b @ ''<'' @ s @ ''>'') = Some d" if "0 \<le> d" for d
    using that kind_name_plain [OF b] s by (intro nesting_wrapped) auto
  ultimately show ?thesis
    using kind_name_plain [OF b] s by (auto simp: text_ok_def)
qed

lemma nesting_join:
  "0 < d \<Longrightarrow> (\<And>v. v \<in> set vs \<Longrightarrow> bracket_free v) \<Longrightarrow> nesting d (join '','' vs) = Some d"
proof (induction vs)
  case (Cons v vs)
  then show ?case by (cases vs) (auto simp: nesting_append nesting_bracket_free)
qed simp

lemma set_join: "set (join sep xs) \<subseteq> set sep \<union> \<Union> (set ` set xs)"
  by (induction sep xs rule: join.induct) auto

lemma nesting_comma: "0 < d \<Longrightarrow> nesting d (a @ '','' @ b) = (case nesting d a of
    None \<Rightarrow> None | Some d' \<Rightarrow> if d' = 0 then None else nesting d' b)"
  by (simp add: nesting_append split: option.splits)

lemma itoa_plain: "bracket_free (itoa n) \<and> CHR '','' \<notin> set (itoa n) \<and> CHR 0x0A \<notin> set (itoa n)"
  using itoa_chars [of _ n] by (fastforce simp: bracket_free_def is_digit_def)

lemma text_ok_ft_string: "wf_ft ft \<Longrightarrow> printable ft \<Longrightarrow> text_ok (ft_string ft)"
proof (induction ft rule: wf_ft_induct)
  case (scalar b)
  then show ?case
    by (simp add: base_ft_def ft_string_ctors text_ok_kind kind_names AllBases_def)
next
  case (struct fs)
  have "text_ok k_struct" by (simp add: text_ok_kind kind_names AllBases_def)
  then show ?case by (simp add: ft_string_ctors)
next
  case (optional t)
  then have "text_ok (k_optional @ ''<'' @ ft_string t @ ''>'')"
    by (intro text_ok_wrapped kind_names) (auto simp: AllBases_def text_ok_def printable_ctors)
  then show ?case by (simp add: ft_string_ctors)
next
  case (lst t)
  then have "text_ok (k_list @ ''<'' @ ft_string t @ ''>'')"
    by (intro text_ok_wrapped kind_names) (auto simp: AllBases_def text_ok_def printable_ctors)
  then show ?case by (simp add: ft_string_ctors)
next
  case (array t n)
  then have "text_ok (k_array @ ''<'' @ (ft_string t @ '','' @ itoa n) @ ''>'')"
    using itoa_plain [of n]
    by (intro text_ok_wrapped kind_names)
       (auto simp: AllBases_def text_ok_def printable_ctors nesting_append nesting_bracket_free)
  then show ?case by (simp add: ft_string_ctors)
next
  case (map tk tv)
  then have "text_ok (k_map @ ''<'' @ (ft_string tk @ '','' @ ft_string tv) @ ''>'')"
    by (intro text_ok_wrapped kind_names)
       (auto simp: AllBases_def text_ok_def printable_ctors nesting_append)
  then show ?case by (simp add: ft_string_ctors)
next
  case (enum es)
  then have ok: "\<And>v. v \<in> set es \<Longrightarrow> enum_value_ok v" by (auto simp: printable_ctors list_all_iff)
  have "CHR 0x0A \<notin> set (join '','' es)"
    using set_join [of "'',''" es] ok by (auto simp: enum_value_ok_def)
  then have "text_ok (k_enum @ ''<'' @ join '','' es @ ''>'')"
    using ok by (intro text_ok_wrapped kind_names)
      (auto simp: AllBases_def intro!: nesting_join simp: enum_value_ok_def)
  then show ?case by (simp add: ft_string_ctors)
next
  case (sum vrs)
  then show ?case by (simp add: printable_ctors)
qed

lemma type_param_wrapped:
  assumes "kind_name b" and "s \<noteq> []" and "CHR 0x0A \<notin> set s"
  shows "type_param (b @ ''<'' @ s @ ''>'') = Some (b, s)"
proof -
  have "\<not> word_char CHR ''<''" by (simp add: word_char_def)
  then have "takeWhile word_char (b @ ''<'' @ s @ ''>'') = b"
    "dropWhile word_char (b @ ''<'' @ s @ ''>'') = ''<'' @ s @ ''>''"
    using assms(1) by (simp_all add: kind_name_def list_all_iff takeWhile_append dropWhile_append)
  then show ?thesis
    using assms by (simp add: type_param_def Let_def kind_name_def)
qed

lemma enum_values_join:
  "es \<noteq> [] \<Longrightarrow> list_all enum_value_ok es \<Longrightarrow> enum_values (join '','' es) = es"
proof -
  assume es: "es \<noteq> []" "list_all enum_value_ok es"
  then have "split_on CHR '','' (join '','' es) = es"
    by (intro split_on_join) (auto simp: list_all_iff enum_value_ok_def)
  moreover have "map trim_space es = es"
    using es by (intro map_idI) (auto simp: list_all_iff enum_value_ok_def trim_space_id)
  moreover have "filter (\<lambda>v. v \<noteq> []) es = es"
    using es by (intro filter_True) (auto simp: list_all_iff enum_value_ok_def)
  ultimately show ?thesis by (simp add: enum_values_def)
qed

lemma join_not_Nil: "es \<noteq> [] \<Longrightarrow> list_all enum_value_ok es \<Longrightarrow> join '','' es \<noteq> []"
  by (cases es; cases "tl es") (auto simp: enum_value_ok_def)

text \<open>A registry none of whose names could be mistaken for a parameterized type.\<close>

definition plain_names :: "raw_type gomap \<Rightarrow> bool" where
  "plain_names reg \<longleftrightarrow> list_all (\<lambda>(k, nt). CHR ''<'' \<notin> set k) reg"

lemma plain_names_lookup: "plain_names reg \<Longrightarrow> map_of reg (b @ ''<'' @ s) = None"
  by (fastforce simp: plain_names_def list_all_iff map_of_eq_None_iff)

lemma canonical_text: "text_ok s \<Longrightarrow> s \<notin> fst ` set scalarAliases \<Longrightarrow> canonical s = s"
  by (auto simp: canonical_def Let_def text_ok_def trim_space_id
      split: option.splits dest: map_of_SomeD intro: rev_image_eqI)

lemma wrapped_not_word: "b @ ''<'' @ s \<noteq> nm" if "kind_name nm"
proof
  assume "b @ ''<'' @ s = nm"
  with that have "word_char CHR ''<''" by (auto simp: kind_name_def)
  then show False by (simp add: word_char_def)
qed

lemma type_step_wrapped:
  assumes "text_ok (b @ ''<'' @ s @ ''>'')" and "plain_names (named r)"
  shows "type_step rec (b @ ''<'' @ s @ ''>'') r = param_step rec (b @ ''<'' @ s @ ''>'') r"
proof -
  let ?e = "b @ ''<'' @ s @ ''>''"
  have nw: "?e \<noteq> nm" if "kind_name nm" for nm
    using wrapped_not_word [OF that] by blast
  have "kind_name nm" if "nm \<in> set Scalars \<or> nm = k_struct \<or> nm \<in> fst ` set scalarAliases" for nm
    using that by (auto simp: Scalars_def scalarAliases_def kind_name_def word_char_def Let_def)
  then have "?e \<notin> set Scalars" "?e \<noteq> k_struct" "?e \<notin> fst ` set scalarAliases"
    using nw by blast+
  with assms plain_names_lookup [of "named r" b "s @ ''>''"] show ?thesis
    by (simp add: type_step_def Let_def canonical_text)
qed

lemma type_of_ft_string:
  "wf_ft ft \<Longrightarrow> printable ft \<Longrightarrow> plain_names (named r) \<Longrightarrow> length (ft_string ft) \<le> n \<Longrightarrow>
     type_of (Suc n) (ft_string ft) r = Some (r, Inr ft)"
proof (induction ft arbitrary: n rule: wf_ft_induct)
  case (scalar b)
  then have "canonical b = b"
    by (intro canonical_text text_ok_kind kind_names)
       (auto simp: AllBases_def Scalars_def scalarAliases_def)
  with scalar show ?case
    by (simp add: base_ft_def ft_string_ctors type_step_def Let_def)
next
  case (struct fs)
  have "canonical k_struct = k_struct"
    by (intro canonical_text text_ok_kind kind_names) (simp_all add: AllBases_def scalarAliases_def)
  moreover have "fs = []" using struct.prems(1) by (simp add: printable_ctors)
  ultimately show ?case
    by (simp add: ft_string_ctors type_step_def Let_def Scalars_def struct_ft_def base_ft_def)
next
  case (optional t)
  let ?e = "k_optional @ ''<'' @ ft_string t @ ''>''"
  have str: "ft_string (elem_ft k_optional t) = ?e" by (simp add: ft_string_ctors)
  have t: "wf_ft t" "printable t" "text_ok (ft_string t)"
    using optional by (auto simp: printable_ctors intro!: text_ok_ft_string)
  have ok: "text_ok ?e"
    using text_ok_ft_string [of "elem_ft k_optional t"] optional str by (simp add: wf_ft_ctors)
  obtain m where "n = Suc m" "length (ft_string t) \<le> m"
    using optional.prems(3) str by (cases n) auto
  with optional.IH t optional.prems have "type_of n (ft_string t) r = Some (r, Inr t)" by simp
  moreover have "type_param ?e = Some (k_optional, ft_string t)"
    using t(3) by (intro type_param_wrapped kind_names) (auto simp: AllBases_def text_ok_def)
  ultimately show ?case
    unfolding str type_of.simps type_step_wrapped [OF ok optional.prems(2)]
    by (simp add: param_step_def rstep_bind_def rstep_ret_def)
next
  case (lst t)
  let ?e = "k_list @ ''<'' @ ft_string t @ ''>''"
  have str: "ft_string (elem_ft k_list t) = ?e" by (simp add: ft_string_ctors)
  have t: "wf_ft t" "printable t" "text_ok (ft_string t)"
    using lst by (auto simp: printable_ctors intro!: text_ok_ft_string)
  have ok: "text_ok ?e"
    using text_ok_ft_string [of "elem_ft k_list t"] lst str by (simp add: wf_ft_ctors)
  obtain m where "n = Suc m" "length (ft_string t) \<le> m"
    using lst.prems(3) str by (cases n) auto
  with lst.IH t lst.prems have "type_of n (ft_string t) r = Some (r, Inr t)" by simp
  moreover have "type_param ?e = Some (k_list, ft_string t)"
    using t(3) by (intro type_param_wrapped kind_names) (auto simp: AllBases_def text_ok_def)
  ultimately show ?case
    unfolding str type_of.simps type_step_wrapped [OF ok lst.prems(2)]
    by (simp add: param_step_def rstep_bind_def rstep_ret_def)
next
  case (array t k)
  let ?in = "ft_string t @ '','' @ itoa k"
  let ?e = "k_array @ ''<'' @ ?in @ ''>''"
  have str: "ft_string (array_ft t k) = ?e" by (simp add: ft_string_ctors)
  have t: "wf_ft t" "printable t" "text_ok (ft_string t)" and k: "in_range (- (2 ^ 63)) (2 ^ 63 - 1) k"
    using array by (auto simp: printable_ctors intro!: text_ok_ft_string)
  have ok: "text_ok ?e"
    using text_ok_ft_string [of "array_ft t k"] array str by (simp add: wf_ft_ctors)
  obtain m where "n = Suc m" "length (ft_string t) \<le> m"
    using array.prems(3) str by (cases n) auto
  with array.IH t array.prems have "type_of n (ft_string t) r = Some (r, Inr t)" by simp
  moreover have "type_param ?e = Some (k_array, ?in)"
    using t(3) itoa_plain [of k]
    by (intro type_param_wrapped kind_names) (auto simp: AllBases_def text_ok_def)
  moreover have "last_index CHR '','' ?in = Some (length (ft_string t))"
    using itoa_plain [of k] by (simp add: last_index_append)
  ultimately show ?case
    unfolding str type_of.simps type_step_wrapped [OF ok array.prems(2)]
    by (simp add: param_step_def rstep_bind_def parse_int64_itoa [OF k])
next
  case (map tk tv)
  let ?in = "ft_string tk @ '','' @ ft_string tv"
  let ?e = "k_map @ ''<'' @ ?in @ ''>''"
  have str: "ft_string (map_ft tk tv) = ?e" by (simp add: ft_string_ctors)
  have t: "printable tk" "printable tv" "text_ok (ft_string tk)" "text_ok (ft_string tv)"
    using map by (auto simp: printable_ctors intro!: text_ok_ft_string)
  have ok: "text_ok ?e"
    using text_ok_ft_string [of "map_ft tk tv"] map str by (simp add: wf_ft_ctors)
  obtain m where "n = Suc m" "length (ft_string tk) \<le> m" "length (ft_string tv) \<le> m"
    using map.prems(3) str by (cases n) auto
  with map.IH t map.prems have "type_of n (ft_string tk) r = Some (r, Inr tk)"
    "type_of n (ft_string tv) r = Some (r, Inr tv)" by simp_all
  moreover have "type_param ?e = Some (k_map, ?in)"
    using t by (intro type_param_wrapped kind_names) (auto simp: AllBases_def text_ok_def)
  moreover have "SplitTopLevel ?in = [ft_string tk, ft_string tv]"
    using t SplitTopLevel_join [of "[ft_string tk, ft_string tv]"] by (auto simp: text_ok_def)
  moreover have "trim_space (ft_string tv) = ft_string tv"
    using t(4) by (simp add: text_ok_def trim_space_id)
  ultimately show ?case
    unfolding str type_of.simps type_step_wrapped [OF ok map.prems(2)]
    by (simp add: param_step_def rstep_bind_def rstep_ret_def)
next
  case (enum es)
  let ?e = "k_enum @ ''<'' @ join '','' es @ ''>''"
  have str: "ft_string (enum_ft es) = ?e" by (simp add: ft_string_ctors)
  have es: "list_all enum_value_ok es" using enum by (simp add: printable_ctors)
  have ok: "text_ok ?e"
    using text_ok_ft_string [of "enum_ft es"] enum str by (simp add: wf_ft_ctors)
  have "CHR 0x0A \<notin> set (join '','' es)"
    using set_join [of "'',''" es] es by (auto simp: enum_value_ok_def list_all_iff)
  then have "type_param ?e = Some (k_enum, join '','' es)"
    using join_not_Nil [OF enum.hyps es]
    by (intro type_param_wrapped kind_names) (auto simp: AllBases_def)
  then show ?case
    unfolding str type_of.simps type_step_wrapped [OF ok enum.prems(2)]
    by (simp add: param_step_def enum_values_join [OF enum.hyps es] enum.hyps)
next
  case (sum vrs)
  then show ?case by (simp add: printable_ctors)
qed

text \<open>
  C33. Parsing inverts printing: the string FieldType.String writes for a type (which is what
  a worker is sent) parses back to exactly that type, whatever names are imported, for every
  type that an expression can spell out.
\<close>

theorem typeOf_String_roundtrip:
  assumes "wf_ft ft" and "printable ft" and "plain_names reg" and "length (ft_string ft) < n"
  shows "type_of n (ft_string ft) (newSchemaResolver reg) = Some (newSchemaResolver reg, Inr ft)"
  using assms type_of_ft_string [of ft "newSchemaResolver reg" "n - 1"]
  by (simp add: newSchemaResolver_def)

theorem typeOf_String_roundtrip_witness:
  "type_of 60 (ft_string (map_ft (base_ft k_string) (array_ft (enum_ft [''lo'', ''hi'']) 4)))
     (newSchemaResolver example_registry) =
   Some (newSchemaResolver example_registry,
     Inr (map_ft (base_ft k_string) (array_ft (enum_ft [''lo'', ''hi'']) 4)))"
proof (rule typeOf_String_roundtrip)
  show "plain_names example_registry" by code_simp
  show "printable (map_ft (base_ft k_string) (array_ft (enum_ft [''lo'', ''hi'']) 4))" by code_simp
  show "wf_ft (map_ft (base_ft k_string) (array_ft (enum_ft [''lo'', ''hi'']) 4))" by code_simp
  show "length (ft_string (map_ft (base_ft k_string) (array_ft (enum_ft [''lo'', ''hi'']) 4))) < 60"
    by code_simp
qed

end
