(* ===== verification/Floats.thy ===== *)
theory Floats
  imports GoStrings
begin

section \<open>IEEE-754 floats as bit patterns\<close>

text \<open>
  The code moves floats as bit patterns (\<open>math.Float32bits\<close>, \<open>Float64frombits\<close>, little-endian
  hex), so a \<open>float64\<close> is a \<open>64 word\<close> and a \<open>float32\<close> a \<open>32 word\<close>. This theory has what the
  code asks of them: the NaN test, the conversions between the two widths and from integers,
  and truncation to an integer. A format with \<open>M\<close> mantissa bits and exponent bias \<open>B\<close> is read
  through its three fields; rounding is to nearest, ties to even.
\<close>

type_synonym f64 = "64 word"
type_synonym f32 = "32 word"

subsection \<open>Fields\<close>

definition f64_neg :: "f64 \<Rightarrow> bool" where
  "f64_neg b \<longleftrightarrow> 2 ^ 63 \<le> unat b"

definition f64_exp :: "f64 \<Rightarrow> nat" where
  "f64_exp b = unat b div 2 ^ 52 mod 2 ^ 11"

definition f64_man :: "f64 \<Rightarrow> nat" where
  "f64_man b = unat b mod 2 ^ 52"

definition f32_neg :: "f32 \<Rightarrow> bool" where
  "f32_neg b \<longleftrightarrow> 2 ^ 31 \<le> unat b"

definition f32_exp :: "f32 \<Rightarrow> nat" where
  "f32_exp b = unat b div 2 ^ 23 mod 2 ^ 8"

definition f32_man :: "f32 \<Rightarrow> nat" where
  "f32_man b = unat b mod 2 ^ 23"

definition f64_pack :: "bool \<Rightarrow> nat \<Rightarrow> nat \<Rightarrow> f64" where
  "f64_pack s e m = word_of_nat ((if s then 2 ^ 63 else 0) + e * 2 ^ 52 + m)"

definition f32_pack :: "bool \<Rightarrow> nat \<Rightarrow> nat \<Rightarrow> f32" where
  "f32_pack s e m = word_of_nat ((if s then 2 ^ 31 else 0) + e * 2 ^ 23 + m)"

definition is_nan64 :: "f64 \<Rightarrow> bool" where
  "is_nan64 b \<longleftrightarrow> f64_exp b = 2047 \<and> f64_man b \<noteq> 0"

definition is_nan32 :: "f32 \<Rightarrow> bool" where
  "is_nan32 b \<longleftrightarrow> f32_exp b = 255 \<and> f32_man b \<noteq> 0"

definition is_inf64 :: "f64 \<Rightarrow> bool" where
  "is_inf64 b \<longleftrightarrow> f64_exp b = 2047 \<and> f64_man b = 0"

lemma unat_word_of_nat: "n < 2 ^ LENGTH('a) \<Longrightarrow> unat (word_of_nat n :: 'a::len word) = n"
  by (simp add: unsigned_of_nat take_bit_nat_eq_self)

lemma f64_fields_pack:
  assumes "e < 2 ^ 11" and "m < 2 ^ 52"
  shows "f64_neg (f64_pack s e m) = s" "f64_exp (f64_pack s e m) = e" "f64_man (f64_pack s e m) = m"
proof -
  let ?n = "(if s then 2 ^ 63 else 0) + e * 2 ^ 52 + m"
  have em: "e * 2 ^ 52 + m < 2 ^ 63" using assms by simp
  then have "?n < 2 ^ LENGTH(64)" by simp
  then have u: "unat (f64_pack s e m) = ?n"
    unfolding f64_pack_def by (rule unat_word_of_nat)
  show "f64_neg (f64_pack s e m) = s" using em by (simp add: f64_neg_def u)
  have n: "?n = m + ((if s then 2 ^ 11 else 0) + e) * 2 ^ 52" by simp
  have m: "?n mod 2 ^ 52 = m" unfolding n using assms(2) by (simp only: mod_mult_self1 mod_less)
  show "f64_man (f64_pack s e m) = m" unfolding f64_man_def u by (rule m)
  have d: "?n div 2 ^ 52 = (if s then 2 ^ 11 else 0) + e"
    unfolding n using assms(2) by (subst div_mult_self1) simp_all
  show "f64_exp (f64_pack s e m) = e" using assms(1) unfolding f64_exp_def u d by simp
qed

lemma f32_fields_pack:
  assumes "e < 2 ^ 8" and "m < 2 ^ 23"
  shows "f32_neg (f32_pack s e m) = s" "f32_exp (f32_pack s e m) = e" "f32_man (f32_pack s e m) = m"
proof -
  let ?n = "(if s then 2 ^ 31 else 0) + e * 2 ^ 23 + m"
  have em: "e * 2 ^ 23 + m < 2 ^ 31" using assms by simp
  then have "?n < 2 ^ LENGTH(32)" by simp
  then have u: "unat (f32_pack s e m) = ?n"
    unfolding f32_pack_def by (rule unat_word_of_nat)
  show "f32_neg (f32_pack s e m) = s" using em by (simp add: f32_neg_def u)
  have n: "?n = m + ((if s then 2 ^ 8 else 0) + e) * 2 ^ 23" by simp
  have m: "?n mod 2 ^ 23 = m" unfolding n using assms(2) by (simp only: mod_mult_self1 mod_less)
  show "f32_man (f32_pack s e m) = m" unfolding f32_man_def u by (rule m)
  have d: "?n div 2 ^ 23 = (if s then 2 ^ 8 else 0) + e"
    unfolding n using assms(2) by (subst div_mult_self1) simp_all
  show "f32_exp (f32_pack s e m) = e" using assms(1) unfolding f32_exp_def u d by simp
qed

lemma f32_pack_fields: "f32_pack (f32_neg b) (f32_exp b) (f32_man b) = b"
proof -
  define q where "q = unat b div 2 ^ 23"
  have b: "q * 2 ^ 23 + unat b mod 2 ^ 23 = unat b" by (simp add: q_def)
  have "unat b < 2 ^ 32" using unsigned_less [of b] by simp
  then have q: "q < 2 * 2 ^ 8" by (simp add: q_def less_mult_imp_div_less)
  have neg: "f32_neg b \<longleftrightarrow> 2 ^ 8 \<le> q"
    by (simp add: f32_neg_def q_def less_eq_div_iff_mult_less_eq)
  have "(if 2 ^ 8 \<le> q then 2 ^ 8 else 0) + q mod 2 ^ 8 = q"
    using q by (cases "2 ^ 8 \<le> q") (simp_all add: le_mod_geq)
  then have "(if f32_neg b then 2 ^ 31 else 0) + f32_exp b * 2 ^ 23 + f32_man b = unat b"
    unfolding neg f32_exp_def f32_man_def q_def [symmetric] by (subst b [symmetric]) (auto split: if_splits)
  then show ?thesis unfolding f32_pack_def by simp
qed

lemma f32_bounds: "f32_exp b < 256" "f32_man b < 8388608"
  by (simp_all add: f32_exp_def f32_man_def)

subsection \<open>Conversions\<close>

text \<open>\<open>rne n s\<close> is \<open>n / 2\<^sup>s\<close> rounded to the nearest integer, ties to even.\<close>

definition rne :: "nat \<Rightarrow> nat \<Rightarrow> nat" where
  "rne n s =
     (let q = n div 2 ^ s; r = n mod 2 ^ s; h = 2 ^ s in
      if h < 2 * r \<or> h = 2 * r \<and> odd q then q + 1 else q)"

fun floor_log2 :: "nat \<Rightarrow> nat" where
  "floor_log2 n = (if n < 2 then 0 else Suc (floor_log2 (n div 2)))"

declare floor_log2.simps [simp del]

text \<open>An integer as a float64. A carry out of the mantissa moves into the exponent field.\<close>

definition f64_of_nat :: "nat \<Rightarrow> nat" where
  "f64_of_nat n =
     (if n = 0 then 0
      else let k = floor_log2 n;
               m = (if k \<le> 52 then n * 2 ^ (52 - k) else rne n (k - 52))
           in min ((k + 1022) * 2 ^ 52 + m) (2047 * 2 ^ 52))"

definition f64_of_int :: "int \<Rightarrow> f64" where
  "f64_of_int i = f64_pack (i < 0) 0 (f64_of_nat (nat \<bar>i\<bar>))"

text \<open>The integer part of a finite float64; the conversion of NaN, of an infinity, or of a
  value outside the target type is left to the implementation by the Go specification.\<close>

definition f64_trunc :: "f64 \<Rightarrow> int option" where
  "f64_trunc b =
     (let e = f64_exp b; m = 2 ^ 52 + f64_man b;
          a = (if e = 0 then 0 else if 1075 \<le> e then m * 2 ^ (e - 1075) else m div 2 ^ (1075 - e))
      in if e = 2047 then None else Some (if f64_neg b then - int a else int a))"

definition f32_of_f64 :: "f64 \<Rightarrow> f32" where
  "f32_of_f64 b =
     (let s = f64_neg b; e = f64_exp b; m = f64_man b in
      if e = 2047 then
        f32_pack s 255 (if m = 0 then 0 else if m div 2 ^ 29 < 2 ^ 22 then m div 2 ^ 29 + 2 ^ 22
                        else m div 2 ^ 29)
      else if 897 \<le> e then f32_pack s 0 (min ((e - 897) * 2 ^ 23 + rne (2 ^ 52 + m) 29) (255 * 2 ^ 23))
      else if e = 0 then f32_pack s 0 0
      else f32_pack s 0 (rne (2 ^ 52 + m) (29 + (897 - e))))"

definition f64_of_f32 :: "f32 \<Rightarrow> f64" where
  "f64_of_f32 b =
     (let s = f32_neg b; e = f32_exp b; m = f32_man b in
      if e = 255 then
        f64_pack s 2047 (if m = 0 then 0 else if m < 2 ^ 22 then (m + 2 ^ 22) * 2 ^ 29 else m * 2 ^ 29)
      else if 1 \<le> e then f64_pack s (e + 896) (m * 2 ^ 29)
      else if m = 0 then f64_pack s 0 0
      else let k = floor_log2 m in f64_pack s (k + 874) (m * 2 ^ (52 - k) - 2 ^ 52))"

subsection \<open>Exactness\<close>

lemma floor_log2_bounds: "0 < n \<Longrightarrow> 2 ^ floor_log2 n \<le> n \<and> n < 2 ^ Suc (floor_log2 n)"
proof (induction n rule: floor_log2.induct)
  case (1 n)
  show ?case
  proof (cases "n < 2")
    case True
    with 1(2) show ?thesis by (simp add: floor_log2.simps)
  next
    case False
    with 1 have ih: "2 ^ floor_log2 (n div 2) \<le> n div 2" "n div 2 < 2 ^ Suc (floor_log2 (n div 2))"
      by (simp_all del: power_Suc)
    with False have "floor_log2 n = Suc (floor_log2 (n div 2))" by (simp add: floor_log2.simps [of n])
    with ih show ?thesis by (auto simp: mult.commute [of 2] less_eq_div_iff_mult_less_eq div_less_iff_less_mult)
  qed
qed

lemma f64_of_nat_exact:
  assumes "0 < n" and "n < 2 ^ 53"
  obtains k m where "k \<le> 52" "2 ^ 52 \<le> m" "m < 2 ^ 53" "m = n * 2 ^ (52 - k)"
    "f64_of_nat n = (k + 1023) * 2 ^ 52 + (m - 2 ^ 52)"
proof -
  let ?k = "floor_log2 n" and ?m = "n * 2 ^ (52 - floor_log2 n)"
  have b: "2 ^ ?k \<le> n" "n < 2 ^ Suc ?k" using floor_log2_bounds [OF assms(1)] by auto
  from b(1) assms(2) have "(2::nat) ^ ?k < 2 ^ 53" by (rule le_less_trans)
  then have k: "?k \<le> 52" by (metis nat_power_less_imp_less less_Suc_eq_le numeral_2_eq_2 zero_less_Suc
      eval_nat_numeral(3) semiring_norm(26-28))
  have "2 ^ ?k * 2 ^ (52 - ?k) \<le> ?m" using b(1) by simp
  then have lo: "2 ^ 52 \<le> ?m" using k by (simp flip: power_add)
  have "?m < 2 ^ Suc ?k * 2 ^ (52 - ?k)" using b(2) by simp
  then have hi: "?m < 2 ^ 53" using k by (simp flip: power_add add: mult.assoc)
  have "f64_of_nat n = (?k + 1022) * 2 ^ 52 + ?m"
  proof -
    have "(?k + 1022) * 2 ^ 52 + ?m \<le> 2047 * 2 ^ 52" using k hi by simp
    then show ?thesis using k assms(1) by (simp add: f64_of_nat_def Let_def min_absorb1)
  qed
  then have "f64_of_nat n = (?k + 1023) * 2 ^ 52 + (?m - 2 ^ 52)" using lo by simp
  with k lo hi show ?thesis by (intro that [of ?k ?m]) simp_all
qed

lemma f64_trunc_of_int: "\<bar>i\<bar> < 2 ^ 53 \<Longrightarrow> f64_trunc (f64_of_int i) = Some i"
proof (cases "i = 0")
  case True
  then show ?thesis by (simp add: f64_of_int_def f64_of_nat_def f64_trunc_def f64_fields_pack)
next
  case False
  assume "\<bar>i\<bar> < 2 ^ 53"
  with False have "0 < nat \<bar>i\<bar>" "nat \<bar>i\<bar> < 2 ^ 53" by simp_all
  then obtain k m where km: "k \<le> 52" "2 ^ 52 \<le> m" "m < 2 ^ 53" "m = nat \<bar>i\<bar> * 2 ^ (52 - k)"
    "f64_of_nat (nat \<bar>i\<bar>) = (k + 1023) * 2 ^ 52 + (m - 2 ^ 52)"
    by (rule f64_of_nat_exact)
  then have e: "f64_of_int i = f64_pack (i < 0) (k + 1023) (m - 2 ^ 52)"
    by (simp add: f64_of_int_def f64_pack_def)
  have b: "k + 1023 < 2 ^ 11" "m - 2 ^ 52 < 2 ^ 52" using km(1-3) by simp_all
  have "2 ^ 52 + (m - 2 ^ 52) = m" using km(2) by simp
  moreover have "m div 2 ^ (1075 - (k + 1023)) = nat \<bar>i\<bar>" using km(4) by simp
  moreover have "m * 2 ^ (k + 1023 - 1075) = nat \<bar>i\<bar>" if "1075 \<le> k + 1023" using km(1,4) that by simp
  ultimately show ?thesis using b km(1)
    unfolding e f64_trunc_def Let_def f64_fields_pack [OF b] by auto
qed

end
