(* ===== verification/Wire.thy ===== *)
theory Wire
  imports FieldTypes Floats
begin

section \<open>Values on either side of the wire\<close>

text \<open>
  \<open>gval\<close> is what the runner holds in an \<open>any\<close>: the dynamic types yaml.v3 decodes case data to
  (\<open>int\<close>, \<open>int64\<close>, \<open>uint64\<close>, \<open>float64\<close>, \<open>string\<close>, \<open>bool\<close>, \<open>nil\<close>, \<open>[]any\<close>, \<open>map[string]any\<close>),
  the \<open>*big.Int\<close> of the exact integers, and \<open>GOther\<close> for a value of a type the code never
  inspects (a timestamp, a map with other keys), which carries its type name.

  \<open>json\<close> is a JSON document as the Go decoders of both sides read it: every number goes into a
  \<open>float64\<close>, so a number is the float64 its text denotes. Strings are valid UTF-8, which YAML
  and JSON both require.
\<close>

datatype gval =
    GNil
  | GBool bool
  | GInt "64 word"
  | GI64 "64 word"
  | GU64 "64 word"
  | GBig int
  | GF64 f64
  | GF32 f32
  | GStr string
  | GList "gval list"
  | GMap "gval gomap"
  | GOther string

datatype json =
    JNull
  | JBool bool
  | JNum f64
  | JStr string
  | JArr "json list"
  | JObj "json gomap"

lemma size_gomap [termination_simp]: "(k, v) \<in> set m \<Longrightarrow> size (v::gval) < Suc (size_list (size_prod (\<lambda>x. 0) size) m)"
  by (induction m) auto

lemma size_jmap [termination_simp]: "(k, v) \<in> set m \<Longrightarrow> size (v::json) < Suc (size_list (size_prod (\<lambda>x. 0) size) m)"
  by (induction m) auto

text \<open>\<open>binary.LittleEndian.PutUint64\<close> and \<open>PutUint32\<close> (the bytes of a word, lowest first) and
  the \<open>Uint64\<close> and \<open>Uint32\<close> that read them back.\<close>

fun le_bytes :: "nat \<Rightarrow> nat \<Rightarrow> bytes" where
  "le_bytes 0 x = []"
| "le_bytes (Suc n) x = word_of_nat (x mod 256) # le_bytes n (x div 256)"

fun le_num :: "bytes \<Rightarrow> nat" where
  "le_num [] = 0"
| "le_num (b # bs) = unat b + 256 * le_num bs"

lemma length_le_bytes [simp]: "length (le_bytes n x) = n"
  by (induction n arbitrary: x) simp_all

lemma take_le_bytes: "n \<le> m \<Longrightarrow> take n (le_bytes m x) = le_bytes n x"
proof (induction n arbitrary: m x)
  case (Suc n)
  then obtain m' where "m = Suc m'" "n \<le> m'" by (cases m) auto
  with Suc.IH show ?case by simp
qed simp

lemma le_num_bytes: "x < 256 ^ n \<Longrightarrow> le_num (le_bytes n x) = x"
proof (induction n arbitrary: x)
  case (Suc n)
  have "unat (word_of_nat (x mod 256) :: byte) = x mod 256" by (rule unat_word_of_nat) simp
  moreover have "le_num (le_bytes n (x div 256)) = x div 256" using Suc by (intro Suc.IH) (simp add: div_less_iff_less_mult)
  ultimately show ?case by simp
qed simp

lemma le_num_less: "le_num bs < 256 ^ length bs"
proof (induction bs)
  case (Cons b bs)
  have "unat b < 256" using unsigned_less [of b] by simp
  with Cons show ?case by simp
qed simp

lemma le_bytes_num: "le_bytes (length bs) (le_num bs) = bs"
proof (induction bs)
  case (Cons b bs)
  have "unat b < 256" using unsigned_less [of b] by simp
  with Cons show ?case by simp
qed simp

text \<open>What the Go specification or its library leaves to the implementation, or whose text the
  components only pass on: the conversion of a NaN or out-of-range float to an integer of the
  given width, \<open>strconv.ParseFloat\<close>, the \<open>%v\<close> text of a float or container, and the JSON of a
  float32 or other value.\<close>

record go_env =
  conv_out :: "nat \<Rightarrow> bool \<Rightarrow> f64 \<Rightarrow> int"
  parse_float :: "string \<Rightarrow> f64 option"
  fmt_other :: "gval \<Rightarrow> string"
  json_other :: "gval \<Rightarrow> json option"

text \<open>A concrete instance, for evaluation: out-of-range conversions give 0, nothing but integers is
  parsed as a float, nothing else is printed.\<close>

definition plain_env :: go_env where
  "plain_env = \<lparr>conv_out = (\<lambda>_ _ _. 0), parse_float = (\<lambda>s. map_option f64_of_int (read_int s)),
     fmt_other = (\<lambda>_. []), json_other = (\<lambda>_. None)\<rparr>"

text \<open>The Go conversion of a float64 to a signed or unsigned integer type of width \<open>w\<close>.\<close>

definition int_lo :: "nat \<Rightarrow> bool \<Rightarrow> int" where
  "int_lo w sg = (if sg then - (2 ^ (w - 1)) else 0)"

definition int_hi :: "nat \<Rightarrow> bool \<Rightarrow> int" where
  "int_hi w sg = (if sg then 2 ^ (w - 1) - 1 else 2 ^ w - 1)"

definition f64_to_int :: "go_env \<Rightarrow> nat \<Rightarrow> bool \<Rightarrow> f64 \<Rightarrow> int" where
  "f64_to_int env w sg x =
     (case f64_trunc x of
        None \<Rightarrow> conv_out env w sg x
      | Some i \<Rightarrow> if in_range (int_lo w sg) (int_hi w sg) i then i else conv_out env w sg x)"

text \<open>Go's \<open>==\<close> on float64.\<close>

definition f64_eq :: "f64 \<Rightarrow> f64 \<Rightarrow> bool" where
  "f64_eq a b \<longleftrightarrow> \<not> is_nan64 a \<and> \<not> is_nan64 b \<and>
     (a = b \<or> f64_exp a = 0 \<and> f64_man a = 0 \<and> f64_exp b = 0 \<and> f64_man b = 0)"

text \<open>\<open>fmt.Sprintf("%v", v)\<close>.\<close>

fun fmt_v :: "go_env \<Rightarrow> gval \<Rightarrow> string" where
  "fmt_v env GNil = ''<nil>''"
| "fmt_v env (GBool b) = (if b then ''true'' else ''false'')"
| "fmt_v env (GInt w) = itoa (sint w)"
| "fmt_v env (GI64 w) = itoa (sint w)"
| "fmt_v env (GU64 w) = itoa (uint w)"
| "fmt_v env (GBig i) = itoa i"
| "fmt_v env (GStr s) = s"
| "fmt_v env v = fmt_other env v"

text \<open>\<open>json.Marshal\<close> of a runner value (\<open>None\<close> is its error: a NaN or infinite number), and
  \<open>json.Unmarshal\<close> into an \<open>any\<close>.\<close>

fun json_seq :: "'a option list \<Rightarrow> 'a list option" where
  "json_seq [] = Some []"
| "json_seq (x # xs) = (case x of None \<Rightarrow> None | Some y \<Rightarrow> map_option ((#) y) (json_seq xs))"

function json_of :: "go_env \<Rightarrow> gval \<Rightarrow> json option" where
  "json_of env GNil = Some JNull"
| "json_of env (GBool b) = Some (JBool b)"
| "json_of env (GInt w) = Some (JNum (f64_of_int (sint w)))"
| "json_of env (GI64 w) = Some (JNum (f64_of_int (sint w)))"
| "json_of env (GU64 w) = Some (JNum (f64_of_int (uint w)))"
| "json_of env (GBig i) = Some (JNum (f64_of_int i))"
| "json_of env (GF64 x) = (if is_nan64 x \<or> is_inf64 x then None else Some (JNum x))"
| "json_of env (GF32 x) = json_other env (GF32 x)"
| "json_of env (GStr s) = Some (JStr s)"
| "json_of env (GList vs) = map_option JArr (json_seq (map (json_of env) vs))"
| "json_of env (GMap m) =
     map_option (\<lambda>js. JObj (zip (map fst m) js)) (json_seq (map (\<lambda>(k, v). json_of env v) m))"
| "json_of env (GOther t) = json_other env (GOther t)"
  by pat_completeness auto
termination
  by (relation "measure (\<lambda>(env, v). size v)") (auto simp: less_Suc_eq_le size_list_estimation' dest: size_gomap)

fun any_of :: "json \<Rightarrow> gval" where
  "any_of JNull = GNil"
| "any_of (JBool b) = GBool b"
| "any_of (JNum x) = GF64 x"
| "any_of (JStr s) = GStr s"
| "any_of (JArr js) = GList (map any_of js)"
| "any_of (JObj m) = GMap (map (\<lambda>(k, j). (k, any_of j)) m)"

text \<open>Two JSON documents denote the same value: the entries of an object are not ordered.\<close>

function json_eq :: "json \<Rightarrow> json \<Rightarrow> bool" where
  "json_eq (JArr xs) j = (case j of JArr ys \<Rightarrow>
     length xs = length ys \<and> list_all (\<lambda>(x, y). json_eq x y) (zip xs ys) | _ \<Rightarrow> False)"
| "json_eq (JObj m) j = (case j of JObj m' \<Rightarrow>
     list_all (\<lambda>(k, v). case map_of m' k of None \<Rightarrow> False | Some v' \<Rightarrow> json_eq v v') m \<and>
     list_all (\<lambda>(k, v). k \<in> fst ` set m) m' | _ \<Rightarrow> False)"
| "json_eq JNull j = (j = JNull)"
| "json_eq (JBool b) j = (j = JBool b)"
| "json_eq (JNum x) j = (j = JNum x)"
| "json_eq (JStr s) j = (j = JStr s)"
  by pat_completeness auto

termination
  by (relation "measure (\<lambda>(j, j'). size j)")
     (auto simp: less_Suc_eq_le size_list_estimation' dest!: set_zip_leftD dest: size_jmap)

lemma json_seq_map: "(\<And>x. x \<in> set xs \<Longrightarrow> f x = Some (g x)) \<Longrightarrow> json_seq (map f xs) = Some (map g xs)"
  by (induction xs) auto

lemma json_eq_arr_map: "(\<And>x. x \<in> set xs \<Longrightarrow> json_eq x (f x)) \<Longrightarrow> json_eq (JArr xs) (JArr (map f xs))"
  by (auto simp: list_all_length)

lemma json_eq_objI:
  assumes "\<And>k v. (k, v) \<in> set m \<Longrightarrow> \<exists>v'. map_of m' k = Some v' \<and> json_eq v v'"
    and "\<And>k. k \<in> fst ` set m' \<Longrightarrow> k \<in> fst ` set m"
  shows "json_eq (JObj m) (JObj m')"
proof -
  have "list_all (\<lambda>(k, v). case map_of m' k of None \<Rightarrow> False | Some v' \<Rightarrow> json_eq v v') m"
    unfolding list_all_iff
  proof safe
    fix k v assume "(k, v) \<in> set m"
    with assms(1) obtain v' where "map_of m' k = Some v'" "json_eq v v'" by blast
    then show "case map_of m' k of None \<Rightarrow> False | Some v' \<Rightarrow> json_eq v v'" by simp
  qed
  moreover have "list_all (\<lambda>(k, v). k \<in> fst ` set m) m'"
    unfolding list_all_iff using assms(2) by force
  ultimately show ?thesis by simp
qed

lemma zip_map_fst: "zip (map fst m) (map (\<lambda>(k, v). g k v) m) = map (\<lambda>(k, v). (k, g k v)) m"
  by (induction m) auto

text \<open>The schema of the bind message. Both sides declare these two structs with the same JSON
  tags; \<open>sf_key = []\<close> and empty lists are the omitted fields.\<close>

datatype schema_field = SchemaField
    (sf_name: string) (sf_type: string) (sf_fields: "schema_field list") (sf_key: string)
    (sf_variants: "schema_variant list") (sf_tags: "string gomap")
  and schema_variant = SchemaVariant (sv_name: string) (sv_payload: "schema_field option")

end
