(* ===== verification/Proto.thy ===== *)
theory Proto
  imports Wire
begin

section \<open>The runner's half of the wire format (internal/proto)\<close>

text \<open>
  \<open>EncodeData\<close> turns the typed case data into wire-safe values by the schema, and
  \<open>SchemaFields\<close> turns the resolved schema into the bind message's. A dereference of a nil
  \<open>*FieldType\<close> is the error \<open>EncPanic\<close>.
\<close>

datatype enc_error =
    EncNotInSchema string
  | EncField string enc_error
  | EncNotFloat gval
  | EncFloatText string
  | EncByteRange nat
  | EncNotBytes gval
  | EncNotObject gval
  | EncNotList gval
  | EncArrayLen int nat
  | EncIndex nat enc_error
  | EncKey string enc_error
  | EncNotEnum gval
  | EncNotSum gval
  | EncUnknownVariant string
  | EncVariant string enc_error
  | EncPanic

subsection \<open>Conversions of dynamic values\<close>

fun toFloat64 :: "go_env \<Rightarrow> gval \<Rightarrow> enc_error + f64" where
  "toFloat64 env (GF64 x) = Inr x"
| "toFloat64 env (GF32 x) = Inr (f64_of_f32 x)"
| "toFloat64 env (GInt w) = Inr (f64_of_int (sint w))"
| "toFloat64 env (GStr s) =
     (case parse_float env s of None \<Rightarrow> Inl (EncFloatText s) | Some x \<Rightarrow> Inr x)"
| "toFloat64 env v = Inl (EncNotFloat v)"

text \<open>\<open>toInt\<close>, with a Go \<open>int\<close> read as an integer.\<close>

fun toInt :: "go_env \<Rightarrow> gval \<Rightarrow> int option" where
  "toInt env (GInt w) = Some (sint w)"
| "toInt env (GI64 w) = Some (sint w)"
| "toInt env (GU64 w) = (if 2 ^ 63 - 1 < uint w then None else Some (uint w))"
| "toInt env (GF64 x) =
     (let i = f64_to_int env 64 True x in if f64_eq x (f64_of_int i) then Some i else None)"
| "toInt env v = None"

fun toStringMap :: "gval \<Rightarrow> gval gomap option" where
  "toStringMap (GMap m) = Some m"
| "toStringMap v = None"

fun toSlice :: "gval \<Rightarrow> gval list option" where
  "toSlice (GList vs) = Some vs"
| "toSlice v = None"


definition float64Hex :: "f64 \<Rightarrow> string" where
  "float64Hex x = hex_encode (le_bytes 8 (unat x))"

definition float32Hex :: "f32 \<Rightarrow> string" where
  "float32Hex x = hex_encode (le_bytes 4 (unat x))"

definition encodeBytes :: "go_env \<Rightarrow> gval \<Rightarrow> enc_error + gval" where
  "encodeBytes env v =
     (case v of
        GStr s \<Rightarrow> Inr (GStr s)
      | GList es \<Rightarrow>
          rbind (mapMi (\<lambda>i e. case toInt env e of
                     None \<Rightarrow> Inl (EncByteRange i)
                   | Some n \<Rightarrow> if n < 0 \<or> 255 < n then Inl (EncByteRange i)
                               else Inr (word_of_int n :: byte)) es)
                (\<lambda>bs. Inr (GStr (hex_encode bs)))
      | _ \<Rightarrow> Inl (EncNotBytes v))"

text \<open>\<open>findVariant\<close>, of this package and of package conf: the first variant with the tag.\<close>

definition findVariant :: "variant list \<Rightarrow> string \<Rightarrow> variant option" where
  "findVariant vs tag = find (\<lambda>v. VName v = tag) vs"

lemma findVariant_in: "findVariant vs tag = Some v \<Longrightarrow> v \<in> set vs \<and> VName v = tag"
  by (auto simp: findVariant_def dest: find_SomeD)

lemma findVariant_size [termination_simp]:
  "findVariant vs tag = Some v \<Longrightarrow> VType v = Some t \<Longrightarrow> size t \<le> size_list size vs"
  by (auto dest: findVariant_in size_VType_le)

subsection \<open>encodeValue and EncodeData\<close>

function encodeValue :: "go_env \<Rightarrow> field_type \<Rightarrow> gval \<Rightarrow> enc_error + gval" where
  "encodeValue env (Ftype b e k n fs vs vrs) v =
     (if b = k_float32 then rbind (toFloat64 env v) (\<lambda>x. Inr (GStr (float32Hex (f32_of_f64 x))))
      else if b = k_float64 then rbind (toFloat64 env v) (\<lambda>x. Inr (GStr (float64Hex x)))
      else if b = k_uint64 \<or> b = k_int64 \<or> b = k_uint128 \<or> b = k_int128 then Inr (GStr (fmt_v env v))
      else if b = k_bytes then encodeBytes env v
      else if b = k_struct then
        (case toStringMap v of
           None \<Rightarrow> Inl (EncNotObject v)
         | Some obj \<Rightarrow>
             rbind (build_map (\<lambda>f. case map_of obj (FName f) of
                       None \<Rightarrow> Inr None
                     | Some fv \<Rightarrow> rbind (map_err (EncField (FName f)) (encodeValue env (FType f) fv))
                                    (\<lambda>x. Inr (Some (FName f, x)))) [] fs)
                   (\<lambda>m. Inr (GMap m)))
      else if b = k_optional then
        (if v = GNil then Inr GNil
         else case e of None \<Rightarrow> Inl EncPanic | Some t \<Rightarrow> encodeValue env t v)
      else if b = k_list \<or> b = k_array then
        (case toSlice v of
           None \<Rightarrow> Inl (EncNotList v)
         | Some arr \<Rightarrow>
             if b = k_array \<and> int (length arr) \<noteq> n then Inl (EncArrayLen n (length arr))
             else rbind (mapMi (\<lambda>i x. case e of None \<Rightarrow> Inl EncPanic
                          | Some t \<Rightarrow> map_err (EncIndex i) (encodeValue env t x)) arr)
                        (\<lambda>xs. Inr (GList xs)))
      else if b = k_map then
        (case toStringMap v of
           None \<Rightarrow> Inl (EncNotObject v)
         | Some obj \<Rightarrow>
             rbind (mapM_vals (\<lambda>key x. case e of None \<Rightarrow> Inl EncPanic
                          | Some t \<Rightarrow> map_err (EncKey key) (encodeValue env t x)) obj)
                   (\<lambda>m. Inr (GMap m)))
      else if b = k_enum then
        (case v of GStr s \<Rightarrow> Inr (GStr s) | _ \<Rightarrow> Inl (EncNotEnum v))
      else if b = k_sum then
        (case toStringMap v of
           Some [(tag, payload)] \<Rightarrow>
             (case findVariant vrs tag of
                None \<Rightarrow> Inl (EncUnknownVariant tag)
              | Some vr \<Rightarrow>
                  (case VType vr of
                     None \<Rightarrow> Inr (GMap [(tag, GNil)])
                   | Some t \<Rightarrow> rbind (map_err (EncVariant tag) (encodeValue env t payload))
                                 (\<lambda>x. Inr (GMap [(tag, x)]))))
         | _ \<Rightarrow> Inl (EncNotSum v))
      else Inr v)"
  by pat_completeness auto
termination
  by (relation "measure (\<lambda>(env, ft, v). size ft)")
     (auto dest!: size_FType_le findVariant_size)

declare encodeValue.simps [simp del]

text \<open>\<open>fieldTypes[f.Name] = f\<close> over the schema: the last field of a name wins.\<close>

definition field_named :: "field list \<Rightarrow> string \<Rightarrow> field option" where
  "field_named schema k = find (\<lambda>f. FName f = k) (rev schema)"

definition EncodeData :: "go_env \<Rightarrow> gval gomap \<Rightarrow> field list \<Rightarrow> enc_error + gval gomap" where
  "EncodeData env data schema =
     mapM_vals (\<lambda>k v. case field_named schema k of
         None \<Rightarrow> Inl (EncNotInSchema k)
       | Some f \<Rightarrow> map_err (EncField k) (encodeValue env (FType f) v)) data"

subsection \<open>SchemaFields\<close>

text \<open>\<open>schemaFieldOfType\<close> and \<open>SchemaFields\<close>, mutually recursive; \<open>Inl ()\<close> is the nil
  dereference of a map without a key type.\<close>

function schemaFieldOfType :: "string \<Rightarrow> field_type \<Rightarrow> unit + schema_field"
  and SchemaFields :: "field list \<Rightarrow> unit + schema_field list" where
  "schemaFieldOfType nm (Ftype b e k n fs vs vrs) =
     (if b = k_struct then
        rbind (SchemaFields fs)
          (\<lambda>gs. Inr (SchemaField nm (ft_string (Ftype b e k n fs vs vrs)) gs [] [] []))
      else if b = k_list \<or> b = k_optional then
        rbind (case e of None \<Rightarrow> Inr []
               | Some t \<Rightarrow> if Base t = k_struct then SchemaFields (Fields t) else Inr [])
          (\<lambda>gs. Inr (SchemaField nm (ft_string (Ftype b e k n fs vs vrs)) gs [] [] []))
      else if b = k_map then
        (case k of None \<Rightarrow> Inl ()
         | Some kt \<Rightarrow>
             rbind (case e of None \<Rightarrow> Inr []
                    | Some t \<Rightarrow> if Base t = k_struct then SchemaFields (Fields t) else Inr [])
               (\<lambda>gs. Inr (SchemaField nm (ft_string (Ftype b e k n fs vs vrs)) gs
                            (ft_string kt) [] [])))
      else if b = k_sum then
        rbind (mapM (\<lambda>v. case VType v of
                   None \<Rightarrow> Inr (SchemaVariant (VName v) None)
                 | Some t \<Rightarrow> rbind (schemaFieldOfType (VName v) t)
                               (\<lambda>p. Inr (SchemaVariant (VName v) (Some p)))) vrs)
          (\<lambda>svs. Inr (SchemaField nm (ft_string (Ftype b e k n fs vs vrs)) [] [] svs []))
      else Inr (SchemaField nm (ft_string (Ftype b e k n fs vs vrs)) [] [] [] []))"
| "SchemaFields fs =
     mapM (\<lambda>f. rbind (schemaFieldOfType (FName f) (FType f))
        (\<lambda>sf. Inr (SchemaField (sf_name sf) (sf_type sf) (sf_fields sf) (sf_key sf)
                     (sf_variants sf) (FTags f)))) fs"
  by pat_completeness auto
termination
proof (relation "measure (case_sum (\<lambda>(nm, ft). 2 * size ft) (\<lambda>fs. Suc (2 * size_list size fs)))",
    goal_cases)
  case (3 nm b e k n fs vs vrs t)
  then show ?case by (cases t) auto
next
  case (4 nm b e k n fs vs vrs kt t)
  then show ?case by (cases t) auto
next
  case (5 nm b e k n fs vs vrs v t)
  then show ?case by (auto dest!: size_VType_le)
next
  case (6 fs f)
  then show ?case by (auto dest!: size_FType_le)
qed auto

declare schemaFieldOfType.simps [simp del]
declare SchemaFields.simps [simp del]

end
