(* ===== verification/CaseData.thy ===== *)
theory CaseData
  imports Proto
begin

section \<open>Schema-directed decoding of case data (internal/conf/casedata.go)\<close>

text \<open>
  A case's data stays in yaml.v3 nodes until the schema is known; \<open>decodeDataValue\<close> then decodes
  each node into the type its schema entry demands. yaml.v3 is not part of the program: a node is
  a value of any type \<open>'n\<close> and the record \<open>yaml\<close> holds what the code asks of one, each decoder an
  option whose \<open>None\<close> is the library's error.
\<close>

record 'n yaml =
  y_alias :: "'n \<Rightarrow> 'n option"
  y_null :: "'n \<Rightarrow> bool"
  y_scalar :: "'n \<Rightarrow> bool"
  y_any :: "'n \<Rightarrow> gval option"
  y_seq :: "'n \<Rightarrow> 'n list option"
  y_map :: "'n \<Rightarrow> 'n gomap option"
  y_string :: "'n \<Rightarrow> string option"
  y_bigint :: "'n \<Rightarrow> int option"

datatype case_error =
    YamlError
  | NotAnInteger
  | OutOfRange int string
  | CaseUnknownVariant string
  | VariantNeedsPayload string
  | SumKeys nat
  | CaseAtField string case_error
  | CaseAtIndex nat case_error
  | CaseAtKey string case_error
  | CaseAtVariant string case_error

definition yres :: "'a option \<Rightarrow> case_error + 'a" where
  "yres x = (case x of None \<Rightarrow> Inl YamlError | Some v \<Rightarrow> Inr v)"

lemma yres_eq_Inr [res_inv]: "yres x = Inr v \<longleftrightarrow> x = Some v"
  by (cases x) (simp_all add: yres_def)

definition decodeExactInt :: "'n yaml \<Rightarrow> 'n \<Rightarrow> case_error + int" where
  "decodeExactInt y n = (case y_bigint y n of None \<Rightarrow> Inl NotAnInteger | Some i \<Rightarrow> Inr i)"

text \<open>One exact integer kind: the bounds it checks and the Go value it returns.\<close>

definition exact_int ::
  "'n yaml \<Rightarrow> string \<Rightarrow> int \<Rightarrow> int \<Rightarrow> (int \<Rightarrow> gval) \<Rightarrow> 'n \<Rightarrow> case_error + gval" where
  "exact_int y b lo hi con n =
     rbind (decodeExactInt y n) (\<lambda>i.
       if in_range lo hi i then Inr (con i) else Inl (OutOfRange i b))"

definition maxUint128 :: int where "maxUint128 = 2 ^ 128 - 1"
definition maxInt128 :: int where "maxInt128 = 2 ^ 127 - 1"
definition minInt128 :: int where "minInt128 = - (2 ^ 127)"

text \<open>\<open>byName[f.Name] = f.Type\<close>: the last field of a name wins, as in \<open>field_named\<close>.\<close>

lemma field_named_in: "field_named fs k = Some f \<Longrightarrow> f \<in> set fs \<and> FName f = k"
  by (auto simp: field_named_def dest: find_SomeD)

function decodeDataValue :: "'n yaml \<Rightarrow> field_type \<Rightarrow> 'n \<Rightarrow> case_error + gval"
  and decodeCaseData :: "'n yaml \<Rightarrow> field list \<Rightarrow> 'n gomap \<Rightarrow> case_error + gval gomap" where
  "decodeDataValue y (Ftype b e k len fs vs vrs) n0 =
     (let n = (case y_alias y n0 of None \<Rightarrow> n0 | Some a \<Rightarrow> a) in
      if y_null y n then Inr GNil
      else if b = k_uint64 then exact_int y b 0 (2 ^ 64 - 1) (\<lambda>i. GU64 (word_of_int i)) n
      else if b = k_int64 then exact_int y b (- (2 ^ 63)) (2 ^ 63 - 1) (\<lambda>i. GI64 (word_of_int i)) n
      else if b = k_uint128 then exact_int y b 0 maxUint128 GBig n
      else if b = k_int128 then exact_int y b minInt128 maxInt128 GBig n
      else if b = k_optional \<and> e \<noteq> None then
        (case e of None \<Rightarrow> yres (y_any y n) | Some t \<Rightarrow> decodeDataValue y t n)
      else if (b = k_list \<or> b = k_array) \<and> e \<noteq> None then
        rbind (yres (y_seq y n)) (\<lambda>items.
          rbind (mapMi (\<lambda>i x. case e of None \<Rightarrow> yres (y_any y n)
                     | Some t \<Rightarrow> map_err (CaseAtIndex i) (decodeDataValue y t x)) items)
            (\<lambda>out. Inr (GList out)))
      else if b = k_map \<and> e \<noteq> None then
        rbind (yres (y_map y n)) (\<lambda>m.
          rbind (mapM_vals (\<lambda>key x. case e of None \<Rightarrow> yres (y_any y n)
                     | Some t \<Rightarrow> map_err (CaseAtKey key) (decodeDataValue y t x)) m)
            (\<lambda>out. Inr (GMap out)))
      else if b = k_struct then
        rbind (yres (y_map y n)) (\<lambda>m.
          rbind (decodeCaseData y fs m) (\<lambda>out. Inr (GMap out)))
      else if b = k_sum then
        (if y_scalar y n then
           rbind (yres (y_string y n)) (\<lambda>tag.
             case findVariant vrs tag of
               None \<Rightarrow> Inl (CaseUnknownVariant tag)
             | Some v \<Rightarrow>
                 if VType v \<noteq> None then Inl (VariantNeedsPayload tag) else Inr (GMap [(tag, GNil)]))
         else
           rbind (yres (y_map y n)) (\<lambda>m.
             case m of
               [(tag, node)] \<Rightarrow>
                 (case findVariant vrs tag of
                    None \<Rightarrow> Inl (CaseUnknownVariant tag)
                  | Some v \<Rightarrow>
                      (case VType v of
                         None \<Rightarrow> Inr (GMap [(tag, GNil)])
                       | Some t \<Rightarrow>
                           rbind (map_err (CaseAtVariant tag) (decodeDataValue y t node))
                             (\<lambda>p. Inr (GMap [(tag, p)]))))
             | _ \<Rightarrow> Inl (SumKeys (length m))))
      else yres (y_any y n))"
| "decodeCaseData y schema raw =
     mapM_vals (\<lambda>key node. case field_named schema key of
         None \<Rightarrow> map_err (CaseAtField key) (yres (y_any y node))
       | Some f \<Rightarrow> map_err (CaseAtField key) (decodeDataValue y (FType f) node)) raw"
  by pat_completeness auto

termination
  by (relation "measure (case_sum (\<lambda>(y, ft, n). 2 * size ft) (\<lambda>(y, fs, m). Suc (2 * size_list size fs)))")
     (auto dest!: findVariant_size field_named_in size_FType_le)

declare decodeDataValue.simps [simp del]
declare decodeCaseData.simps [simp del]

subsection \<open>What a decoded value is\<close>

text \<open>What decoding checks of a value against its schema type, and no more: for the four 64- and 128-bit
  kinds an exact Go integer of the kind in its range, for a list or array a list, for a map or struct
  a map, for a sum a single declared variant, and the same of the elements, fields and payloads
  inside. It does not check a null, which passes for every type, nor the other scalars (the small
  integers, floats, bool, string, bytes and enums), which are whatever yaml.v3 makes of the node; nor the
  length of an array, nor that a struct has all of its fields.\<close>

function checked_shape :: "field_type \<Rightarrow> gval \<Rightarrow> bool" where
  "checked_shape (Ftype b e k n fs vs vrs) v =
     (if v = GNil then True
      else if b = k_uint64 then (case v of GU64 _ \<Rightarrow> True | _ \<Rightarrow> False)
      else if b = k_int64 then (case v of GI64 _ \<Rightarrow> True | _ \<Rightarrow> False)
      else if b = k_uint128 then (case v of GBig i \<Rightarrow> in_range 0 (2 ^ 128 - 1) i | _ \<Rightarrow> False)
      else if b = k_int128 then (case v of GBig i \<Rightarrow> in_range (- (2 ^ 127)) (2 ^ 127 - 1) i | _ \<Rightarrow> False)
      else if b = k_optional then (case e of None \<Rightarrow> True | Some t \<Rightarrow> checked_shape t v)
      else if b = k_list \<or> b = k_array then
        (case e of None \<Rightarrow> True
         | Some t \<Rightarrow> (case v of GList xs \<Rightarrow> list_all (checked_shape t) xs | _ \<Rightarrow> False))
      else if b = k_map then
        (case e of None \<Rightarrow> True
         | Some t \<Rightarrow> (case v of GMap m \<Rightarrow> list_all (\<lambda>(key, x). checked_shape t x) m | _ \<Rightarrow> False))
      else if b = k_struct then
        (case v of
           GMap m \<Rightarrow> list_all (\<lambda>(key, x). case field_named fs key of
                        None \<Rightarrow> True | Some f \<Rightarrow> checked_shape (FType f) x) m
         | _ \<Rightarrow> False)
      else if b = k_sum then
        (case v of
           GMap [(tag, p)] \<Rightarrow>
             (case findVariant vrs tag of
                None \<Rightarrow> False
              | Some vr \<Rightarrow> (case VType vr of None \<Rightarrow> p = GNil | Some t \<Rightarrow> checked_shape t p))
         | _ \<Rightarrow> False)
      else True)"
  by pat_completeness auto

termination
  by (relation "measure (\<lambda>(ft, v). size ft)")
     (auto dest!: findVariant_size field_named_in size_FType_le)

declare checked_shape.simps [simp del]

lemma typed_nil [simp]: "checked_shape ft GNil"
  by (cases ft) (simp add: checked_shape.simps)

lemma exact_int_Inr:
  "exact_int y b lo hi con n = Inr v \<Longrightarrow> \<exists>i. y_bigint y n = Some i \<and> in_range lo hi i \<and> v = con i"
  by (auto simp: exact_int_def decodeExactInt_def rbind_eq_Inr split: option.splits if_splits)

lemma base_cases [case_names exact opt seq mp st sm rest]:
  obtains "b \<in> A" | "b = ka" | "b = kb \<or> b = kc" | "b = kd" | "b = ke" | "b = kf"
  | "b \<notin> A" "b \<notin> {ka, kb, kc, kd, ke, kf}"
  by blast

lemma single_Inr:
  "(case m of [(tag, x)] \<Rightarrow> F tag x | _ \<Rightarrow> Inl e) = Inr v \<longleftrightarrow> (\<exists>tag x. m = [(tag, x)] \<and> F tag x = Inr v)"
  by (auto split: list.splits)

lemma mapM_vals_all:
  assumes "mapM_vals f m = Inr m'" and "\<And>k x x'. f k x = Inr x' \<Longrightarrow> P k x'"
  shows "list_all (\<lambda>(k, x). P k x) m'"
  using assms(1) [unfolded mapM_vals_Inr_conv]
  by (induction rule: list_all2_induct) (auto dest: assms(2))

lemma mapMi_all:
  assumes "mapMi f xs = Inr ys" and "\<And>i x y. f i x = Inr y \<Longrightarrow> P y"
  shows "list_all P ys"
  using assms by (auto simp: mapMi_Inr_conv list_all_length)

lemma decodeCaseData_typed:
  assumes "\<And>f n v. f \<in> set fs \<Longrightarrow> decodeDataValue y (FType f) n = Inr v \<Longrightarrow> checked_shape (FType f) v"
    and "decodeCaseData y fs raw = Inr m"
  shows "list_all (\<lambda>(key, x). case field_named fs key of None \<Rightarrow> True | Some f \<Rightarrow> checked_shape (FType f) x) m"
  using assms(2) unfolding decodeCaseData.simps
  by (rule mapM_vals_all) (auto dest: field_named_in assms(1) split: option.splits)

lemma decode_typed: "decodeDataValue y ft n = Inr v \<Longrightarrow> checked_shape ft v"
proof (induction "size ft" arbitrary: ft n v rule: less_induct)
  case less
  obtain b e k len fs vs vrs where ft: "ft = Ftype b e k len fs vs vrs" by (cases ft)
  have elem: "checked_shape t x" if "e = Some t" "decodeDataValue y t n' = Inr x" for t x n'
    using less.hyps [of t n' x] that by (simp add: ft)
  have fld: "checked_shape (FType f) x" if "f \<in> set fs" "decodeDataValue y (FType f) n' = Inr x" for f x n'
    using less.hyps [of "FType f" n' x] that by (auto simp: ft dest!: size_FType_le)
  have var: "checked_shape t x" if "findVariant vrs tag = Some vr" "VType vr = Some t"
    "decodeDataValue y t n' = Inr x" for tag vr t x n'
    using less.hyps [of t n' x] that by (auto simp: ft dest!: findVariant_size)
  define nd where "nd = (case y_alias y n of None \<Rightarrow> n | Some a \<Rightarrow> a)"
  note dec = less.prems [unfolded ft decodeDataValue.simps nd_def [symmetric] Let_def]
  show ?case
  proof (cases "v = GNil \<or> y_null y nd")
    case True
    then show ?thesis using dec by auto
  next
    case False
    then have nn: "\<not> y_null y nd" "v \<noteq> GNil" by simp_all
    note dec' = dec [simplified nn(1) if_False]
    show ?thesis
    proof (cases rule: base_cases [where b = b and
          A = "{k_uint64, k_int64, k_uint128, k_int128}" and ka = k_optional and kb = k_list and
          kc = k_array and kd = k_map and ke = k_struct and kf = k_sum])
      case exact
      then show ?thesis using dec' nn(2) unfolding ft checked_shape.simps
        by (elim insertE emptyE; simp) (auto dest!: exact_int_Inr simp: maxUint128_def maxInt128_def minInt128_def)
    next
      case opt
      with dec' nn(2) elem show ?thesis unfolding ft checked_shape.simps by (simp split: option.splits)
    next
      case seq
      with dec' nn(2) elem show ?thesis unfolding ft checked_shape.simps
        by (elim disjE; simp add: rbind_eq_Inr split: option.splits) (auto simp: rbind_eq_Inr elim!: mapMi_all)
    next
      case mp
      with dec' nn(2) elem show ?thesis unfolding ft checked_shape.simps
        by (simp add: rbind_eq_Inr split: option.splits) (auto simp: rbind_eq_Inr elim!: mapM_vals_all)
    next
      case st
      with dec' nn(2) fld show ?thesis unfolding ft checked_shape.simps
        by (simp add: rbind_eq_Inr) (auto intro!: decodeCaseData_typed)
    next
      case sm
      have "\<exists>tag p vr. v = GMap [(tag, p)] \<and> findVariant vrs tag = Some vr \<and>
          (case VType vr of None \<Rightarrow> p = GNil | Some t \<Rightarrow> checked_shape t p)"
      proof (cases "y_scalar y nd")
        case True
        with sm dec' obtain tag vr where "findVariant vrs tag = Some vr" "VType vr = None"
          "v = GMap [(tag, GNil)]"
          by (auto simp: rbind_eq_Inr split: option.split_asm if_split_asm)
        then show ?thesis by simp
      next
        case False
        with sm dec' obtain tag node where *: "(case findVariant vrs tag of
            None \<Rightarrow> Inl (CaseUnknownVariant tag)
          | Some vr \<Rightarrow>
              (case VType vr of None \<Rightarrow> Inr (GMap [(tag, GNil)])
               | Some t \<Rightarrow> rbind (map_err (CaseAtVariant tag) (decodeDataValue y t node))
                             (\<lambda>p. Inr (GMap [(tag, p)])))) = Inr v"
          by (auto simp: rbind_eq_Inr [where m = "yres x" for x] single_Inr)
        then obtain vr where vr: "findVariant vrs tag = Some vr"
          by (cases "findVariant vrs tag") auto
        note vr = vr * [unfolded vr option.case]
        show ?thesis
        proof (cases "VType vr")
          case None
          with vr(2) have "v = GMap [(tag, GNil)]" by simp
          with vr(1) None show ?thesis by auto
        next
          case (Some t)
          with vr var [OF vr(1) Some] show ?thesis by (auto simp: rbind_eq_Inr)
        qed
      qed
      with sm nn(2) show ?thesis unfolding ft checked_shape.simps by auto
    next
      case rest
      then show ?thesis unfolding ft checked_shape.simps by simp
    qed
  qed
qed

subsection \<open>Property\<close>

text \<open>Case data decoded by a schema type has the shape that is checked of it: null, or the exact Go
  integer of its 64- or 128-bit kind within range, or a container whose elements, fields and payloads
  have the shapes of the types the schema gives them, a sum naming exactly one declared variant.\<close>

theorem decoded_case_data_typed:
  "decodeDataValue y ft n = Inr v \<Longrightarrow> checked_shape ft v"
  by (rule decode_typed)

text \<open>A YAML library over decimal strings, for the examples.\<close>

definition decimal_yaml :: "string yaml" where
  "decimal_yaml =
     \<lparr>y_alias = (\<lambda>n. None), y_null = (\<lambda>n. n = ''null''), y_scalar = (\<lambda>n. True),
      y_any = (\<lambda>n. Some (GStr n)), y_seq = (\<lambda>n. Some (split_on CHR '','' n)), y_map = (\<lambda>n. None),
      y_string = Some, y_bigint = read_int\<rparr>"

theorem decoded_case_data_typed_witness:
  "checked_shape (elem_ft k_list (base_ft k_int128)) (GList [GBig 7, GNil, GBig (- 12)])"
proof (rule decoded_case_data_typed)
  show "decodeDataValue decimal_yaml (elem_ft k_list (base_ft k_int128)) ''7,null,-12'' =
      Inr (GList [GBig 7, GNil, GBig (- 12)])"
    by (simp add: decodeDataValue.simps decimal_yaml_def elem_ft_def base_ft_def yres_def mapMi_def
        exact_int_def decodeExactInt_def read_int_def read_nat_def is_digit_def digit_val_def
        in_range_def minInt128_def maxInt128_def)
qed

end
