(* ===== verification/Sorted.thy ===== *)
theory Sorted
  imports Prelude "HOL-Library.Char_ord" "HOL-Library.List_Lexorder"
begin

section \<open>Go's order on strings\<close>

text \<open>Go compares strings byte by byte, which is the lexicographic order of the library on lists
  over its order on characters; \<open>slices.Sorted(maps.Keys(m))\<close> is the sorted list of the keys.\<close>

definition sorted_keys :: "'v gomap \<Rightarrow> string list" where
  "sorted_keys m = sort (map fst m)"

lemma set_sorted_keys [simp]: "set (sorted_keys m) = fst ` set m"
  by (simp add: sorted_keys_def)

lemma distinct_sorted_keys: "map_wf m \<Longrightarrow> distinct (sorted_keys m)"
  by (simp add: sorted_keys_def map_wf_def)

lemma sorted_sorted_keys: "sorted (sorted_keys m)"
  by (simp add: sorted_keys_def)

text \<open>The result does not depend on the order the runtime iterates the map in.\<close>

lemma sorted_keys_perm:
  assumes "map_wf m" "map_wf m'" "fst ` set m = fst ` set m'"
  shows "sorted_keys m = sorted_keys m'"
  using assms unfolding sorted_keys_def map_wf_def
  by (intro sorted_distinct_set_unique) simp_all

end
