(* ===== verification/TypeFile.thy ===== *)
theory TypeFile
  imports ResolverFacts CaseData Sorted
begin

section \<open>Type files, suites and their configuration (internal/conf)\<close>

text \<open>
  How a directory of YAML files becomes the \<open>CasesSet\<close> a run tests: one type per file, its imports
  followed transitively, its schema resolved, its cases decoded by the schema and validated.

  The file system and yaml.v3 are not part of the program: a file is a \<open>doc\<close>, its top-level keys
  and the struct the typed decode fills (each \<open>None\<close> when yaml.v3 reports an error), and \<open>fsys\<close>
  holds the reads and the path functions of the machine. The recursion through \<open>import:\<close> takes a
  call depth, as the resolver does: \<open>None\<close> is a deeper recursion.
\<close>

subsection \<open>The loaded data\<close>

record test_case =
  tc_name :: string
  tc_description :: string
  tc_data :: "gval gomap"

record cases_file =
  cf_name :: string
  cf_formats :: "string list"
  cf_reference :: string
  cf_schema :: "field list"
  cf_cases :: "test_case list"
  cf_oracles :: "string gomap"

record cases_set =
  cs_reference :: string
  cs_types :: "cases_file list"

abbreviation OracleBytes :: string where "OracleBytes \<equiv> ''bytes''"
abbreviation OracleSemantic :: string where "OracleSemantic \<equiv> ''semantic''"

text \<open>Indexing a \<open>map[string]string\<close>: the empty string for a missing key.\<close>

definition index_str :: "string gomap \<Rightarrow> string \<Rightarrow> string" where
  "index_str m k = (case map_of m k of None \<Rightarrow> [] | Some v \<Rightarrow> v)"

definition OracleFor :: "cases_file \<Rightarrow> string \<Rightarrow> string" where
  "OracleFor cf format = index_str (cf_oracles cf) format"

definition TestIDFmt :: "string \<Rightarrow> string \<Rightarrow> string \<Rightarrow> string" where
  "TestIDFmt typeName format caseName = typeName @ ''/'' @ format @ ''/'' @ caseName"

definition suite_TestIDs :: "cases_set \<Rightarrow> string list" where
  "suite_TestIDs s =
     concat (map (\<lambda>ty. concat (map (\<lambda>tc. map (\<lambda>f. TestIDFmt (cf_name ty) f (tc_name tc)) (cf_formats ty))
                                (cf_cases ty))) (cs_types s))"

subsection \<open>YAML documents and the file system\<close>

record 'n raw_case =
  rw_name :: string
  rw_description :: string
  rw_data :: "'n gomap"

record 'n type_doc =
  td_formats :: "'n list"
  td_import :: "string list"
  td_fields :: "string gomap list"
  td_variants :: "string gomap list"
  td_cases :: "'n raw_case list"
  td_transparent :: bool

record 'n doc =
  d_keys :: "string list option"
  d_type :: "'n type_doc option"
  d_reference :: string
  d_config_formats :: "'n list"
  d_config_ok :: bool

text \<open>\<open>fs_read\<close> fails with the error of \<open>os.ReadFile\<close>, \<open>None\<close> for a file that does not exist.\<close>

record 'n fsys =
  fs_read :: "string \<Rightarrow> string option + 'n doc"
  fs_abs :: "string \<Rightarrow> string"
  fs_join :: "string \<Rightarrow> string \<Rightarrow> string"
  fs_dir :: "string \<Rightarrow> string"
  fs_base :: "string \<Rightarrow> string"
  fs_list :: "string \<Rightarrow> (string + (string \<times> bool) list)"
  fs_is_dir :: "string \<Rightarrow> string + bool"

record 'n yaml_doc = "'n yaml" +
  y_spec :: "'n \<Rightarrow> (string \<times> string) option"
  y_value :: "'n \<Rightarrow> string"

datatype load_error =
    ReadFailed string
  | NotADirectory string
  | UnknownKeys string "string list"
  | ParseFailed string
  | EntryShape "string gomap"
  | BothSections string
  | NoSections string
  | TransparentSum string
  | TransparentArity string nat
  | FieldWithoutType string string
  | SchemaFailed string type_error
  | CaseFailed string string case_error
  | FormatNoName
  | FormatNoOracle string string
  | FormatBadOracle string string string
  | FormatHasOracle string string
  | EmptyFormats string
  | EmptySchema string
  | NoFormats string
  | CaseNoName
  | FieldNotInSchema string string
  | EnumMismatch string string
  | InFile string load_error
  | NoTypesFound string

subsection \<open>One type file\<close>

definition compactFields :: "string gomap list \<Rightarrow> load_error + raw_field list" where
  "compactFields items = mapM (\<lambda>m. case m of [e] \<Rightarrow> Inr e | _ \<Rightarrow> Inl (EntryShape m)) items"

definition allowedKeys :: "string list" where
  "allowedKeys = [''cases'', ''fields'', ''formats'', ''import'', ''transparent'', ''variants'']"

definition checkKeys :: "string \<Rightarrow> 'n doc \<Rightarrow> load_error + unit" where
  "checkKeys path d =
     (case d_keys d of
        None \<Rightarrow> Inr ()
      | Some ks \<Rightarrow>
          (let unknown = filter (\<lambda>k. \<not> has_prefix k ''_'' \<and> k \<notin> set allowedKeys) ks in
           if unknown = [] then Inr () else Inl (UnknownKeys path (sort unknown))))"

definition checkSections ::
  "string \<Rightarrow> string gomap list \<Rightarrow> string gomap list \<Rightarrow> raw_field list \<Rightarrow> bool \<Rightarrow> load_error + unit" where
  "checkSections path flds variants fs isTrans =
     (if flds \<noteq> [] \<and> variants \<noteq> [] then Inl (BothSections path)
      else if flds = [] \<and> variants = [] then Inl (NoSections path)
      else if variants \<noteq> [] then (if isTrans then Inl (TransparentSum path) else Inr ())
      else if isTrans \<and> length fs \<noteq> 1 then Inl (TransparentArity path (length fs))
      else case find (\<lambda>f. trim_space (snd f) = []) fs of
             Some f \<Rightarrow> Inl (FieldWithoutType path (fst f))
           | None \<Rightarrow> Inr ())"

definition type_name :: "'n fsys \<Rightarrow> string \<Rightarrow> string" where
  "type_name F path = trim_suffix (fs_base F path) ''.yaml''"

text \<open>\<open>maps.Copy\<close>.\<close>

definition copy_into :: "'v gomap \<Rightarrow> 'v gomap \<Rightarrow> 'v gomap" where
  "copy_into dst src = fold (\<lambda>(k, v) m. AList.update k v m) src dst"

definition read_doc :: "'n fsys \<Rightarrow> string \<Rightarrow> load_error + 'n doc" where
  "read_doc F path = (case fs_read F path of Inl _ \<Rightarrow> Inl (ReadFailed path) | Inr d \<Rightarrow> Inr d)"

definition type_doc_of :: "string \<Rightarrow> 'n doc \<Rightarrow> load_error + 'n type_doc" where
  "type_doc_of path d =
     rbind (checkKeys path d) (\<lambda>_. case d_type d of None \<Rightarrow> Inl (ParseFailed path) | Some t \<Rightarrow> Inr t)"

definition doc_entries :: "'n type_doc \<Rightarrow> string gomap list" where
  "doc_entries t = (if td_variants t \<noteq> [] then td_variants t else td_fields t)"

text \<open>The loop over \<open>import:\<close>, which stops at the first error; \<open>load\<close> is the recursive call.\<close>

fun import_all ::
  "(string \<Rightarrow> string list \<Rightarrow> (string list \<times> (load_error + raw_type gomap)) option) \<Rightarrow> string list
    \<Rightarrow> raw_type gomap \<Rightarrow> string list \<Rightarrow> (string list \<times> (load_error + raw_type gomap)) option" where
  "import_all load [] out seen = Some (seen, Inr out)"
| "import_all load (p # ps) out seen =
     (case load p seen of
        None \<Rightarrow> None
      | Some (seen', Inl e) \<Rightarrow> Some (seen', Inl e)
      | Some (seen', Inr sub) \<Rightarrow> import_all load ps (copy_into out sub) seen')"

text \<open>What one importable file declares, before its own imports.\<close>

definition own_type :: "'n fsys \<Rightarrow> string \<Rightarrow> load_error + ('n type_doc \<times> raw_type gomap)" where
  "own_type F path =
     rbind (read_doc F path) (\<lambda>d.
     rbind (type_doc_of path d) (\<lambda>t.
     rbind (map_err (InFile path) (compactFields (doc_entries t))) (\<lambda>fs.
     rbind (checkSections path (td_fields t) (td_variants t) fs (td_transparent t)) (\<lambda>_.
       Inr (t, [(type_name F path, \<lparr>rt_fields = fs, transparent = td_transparent t,
                                     rt_sum = td_variants t \<noteq> []\<rparr>)])))))"

definition import_path :: "'n fsys \<Rightarrow> string \<Rightarrow> string \<Rightarrow> string" where
  "import_path F path imp = fs_join F (fs_dir F path) imp"

primrec loadImportable ::
  "nat \<Rightarrow> 'n fsys \<Rightarrow> string \<Rightarrow> string list \<Rightarrow> (string list \<times> (load_error + raw_type gomap)) option" where
  "loadImportable 0 F path seen = None"
| "loadImportable (Suc n) F path seen =
     (if fs_abs F path \<in> set seen then Some (seen, Inr [])
      else
        let seen1 = fs_abs F path # seen in
        case own_type F path of
          Inl e \<Rightarrow> Some (seen1, Inl e)
        | Inr (t, own) \<Rightarrow>
            import_all (loadImportable n F) (map (import_path F path) (td_import t)) own seen1)"

text \<open>An entry of \<open>formats:\<close>, a bare name or a mapping.\<close>

definition UnmarshalYAML :: "'n yaml_doc \<Rightarrow> 'n \<Rightarrow> load_error + (string \<times> string)" where
  "UnmarshalYAML y node =
     (if y_scalar y node then Inr (y_value y node, [])
      else case y_spec y node of
             None \<Rightarrow> Inl (ParseFailed [])
           | Some (nm, oracle) \<Rightarrow> if nm = [] then Inl FormatNoName else Inr (nm, oracle))"

definition check_format :: "string \<Rightarrow> string \<times> string \<Rightarrow> load_error + (string \<times> string)" where
  "check_format path f =
     (if snd f = [] then Inl (FormatNoOracle path (fst f))
      else if snd f \<noteq> OracleBytes \<and> snd f \<noteq> OracleSemantic then Inl (FormatBadOracle path (fst f) (snd f))
      else Inr f)"

definition validateEnum :: "field_type \<Rightarrow> gval \<Rightarrow> bool" where
  "validateEnum ft v =
     (if Base ft \<noteq> k_enum then True
      else case v of GStr s \<Rightarrow> s \<in> set (Values ft) | _ \<Rightarrow> False)"

definition validate_entry :: "cases_file \<Rightarrow> test_case \<Rightarrow> string \<times> gval \<Rightarrow> load_error + unit" where
  "validate_entry cf tc e = (case e of (k, v) \<Rightarrow>
     case field_named (cf_schema cf) k of
       None \<Rightarrow> Inl (FieldNotInSchema (tc_name tc) k)
     | Some f \<Rightarrow> if validateEnum (FType f) v then Inr () else Inl (EnumMismatch (tc_name tc) k))"

definition validate_case :: "cases_file \<Rightarrow> test_case \<Rightarrow> load_error + unit" where
  "validate_case cf tc =
     (if tc_name tc = [] then Inl CaseNoName
      else map_res (\<lambda>_. ()) (mapM (validate_entry cf tc) (tc_data tc)))"

definition validate :: "cases_file \<Rightarrow> load_error + unit" where
  "validate cf =
     (if cf_schema cf = [] then Inl (EmptySchema (cf_name cf))
      else if cf_cases cf \<noteq> [] \<and> cf_formats cf = [] then Inl (NoFormats (cf_name cf))
      else map_res (\<lambda>_. ()) (mapM (validate_case cf) (cf_cases cf)))"

definition schema_result ::
  "string \<Rightarrow> (resolver \<times> (type_error + field list)) option \<Rightarrow> (load_error + field list) option" where
  "schema_result nm r = map_option (\<lambda>(_, res). map_err (SchemaFailed nm) res) r"

definition decode_case :: "'n yaml \<Rightarrow> string \<Rightarrow> field list \<Rightarrow> 'n raw_case \<Rightarrow> load_error + test_case" where
  "decode_case y nm schema rw =
     rbind (map_err (CaseFailed nm (rw_name rw)) (decodeCaseData y schema (rw_data rw))) (\<lambda>data.
       Inr \<lparr>tc_name = rw_name rw, tc_description = rw_description rw, tc_data = data\<rparr>)"

text \<open>The second half of \<open>loadTypeFile\<close>, once the schema is resolved.\<close>

definition finish_type ::
  "'n yaml_doc \<Rightarrow> string \<Rightarrow> string \<Rightarrow> 'n type_doc \<Rightarrow> (string \<times> string) list \<Rightarrow> field list
    \<Rightarrow> load_error + cases_file" where
  "finish_type y path nm t specs schema =
     rbind (mapM (decode_case (yaml.truncate y) nm schema) (td_cases t)) (\<lambda>cases.
     rbind (mapM (check_format path) specs) (\<lambda>formats.
       let cf = \<lparr>cf_name = nm, cf_formats = map fst formats, cf_reference = [], cf_schema = schema,
                 cf_cases = cases,
                 cf_oracles = fold (\<lambda>(f, oracle) m. AList.update f oracle m) formats []\<rparr> in
       rbind (validate cf) (\<lambda>_. Inr cf)))"

definition loadTypeFile ::
  "nat \<Rightarrow> 'n fsys \<Rightarrow> 'n yaml_doc \<Rightarrow> string \<Rightarrow> (load_error + cases_file) option" where
  "loadTypeFile n F y path =
     (case rbind (read_doc F path) (type_doc_of path) of
        Inl e \<Rightarrow> Some (Inl e)
      | Inr t \<Rightarrow>
     (case map_err (\<lambda>_. ParseFailed path) (mapM (UnmarshalYAML y) (td_formats t)) of
        Inl e \<Rightarrow> Some (Inl e)
      | Inr specs \<Rightarrow>
        let nm = type_name F path; isSum = td_variants t \<noteq> [] in
     (case import_all (loadImportable n F) (map (import_path F path) (td_import t)) [] [] of
        None \<Rightarrow> None
      | Some (seen, Inl e) \<Rightarrow> Some (Inl (InFile nm e))
      | Some (seen, Inr registry) \<Rightarrow>
     (case map_err (InFile nm) (compactFields (doc_entries t)) of
        Inl e \<Rightarrow> Some (Inl e)
      | Inr raw \<Rightarrow>
     (case checkSections path (td_fields t) (td_variants t) raw (td_transparent t) of
        Inl e \<Rightarrow> Some (Inl e)
      | Inr _ \<Rightarrow>
     (case schema_result nm
             ((if isSum then sumSchema n raw else fields_of n raw) (newSchemaResolver registry)) of
        None \<Rightarrow> None
      | Some (Inl e) \<Rightarrow> Some (Inl e)
      | Some (Inr schema) \<Rightarrow> Some (finish_type y path nm t specs schema)))))))"

definition LoadCases ::
  "nat \<Rightarrow> 'n fsys \<Rightarrow> 'n yaml_doc \<Rightarrow> string \<Rightarrow> (load_error + cases_file) option" where
  "LoadCases = loadTypeFile"

subsection \<open>A suite\<close>

record suite_config =
  sc_reference :: string
  sc_formats :: "string list option"

definition suiteConfigKeys :: "string list" where
  "suiteConfigKeys = [''reference_language'', ''formats'']"

definition LoadSuiteConfig :: "'n fsys \<Rightarrow> 'n yaml_doc \<Rightarrow> string \<Rightarrow> load_error + suite_config" where
  "LoadSuiteConfig F y dir =
     (let path = fs_join F dir ''_config.yaml'' in
      case fs_read F path of
        Inl None \<Rightarrow> Inr \<lparr>sc_reference = [], sc_formats = None\<rparr>
      | Inl (Some e) \<Rightarrow> Inl (ReadFailed path)
      | Inr d \<Rightarrow>
     (case d_keys d of
        None \<Rightarrow> Inl (ParseFailed path)
      | Some ks \<Rightarrow>
     (case find (\<lambda>k. k \<notin> set suiteConfigKeys) ks of
        Some k \<Rightarrow> Inl (UnknownKeys path [k])
      | None \<Rightarrow>
          if \<not> d_config_ok d then Inl (ParseFailed path)
          else rbind (map_err (\<lambda>_. ParseFailed path) (mapM (UnmarshalYAML y) (d_config_formats d))) (\<lambda>fs.
            if ''formats'' \<in> set ks then
              (if fs = [] then Inl (EmptyFormats path)
               else rbind (mapM (\<lambda>f. if snd f \<noteq> [] then Inl (FormatHasOracle path (fst f)) else Inr (fst f)) fs)
                 (\<lambda>names. Inr \<lparr>sc_reference = d_reference d, sc_formats = Some names\<rparr>))
            else Inr \<lparr>sc_reference = d_reference d, sc_formats = None\<rparr>))))"

definition LoadFormatsRegistry ::
  "'n fsys \<Rightarrow> 'n yaml_doc \<Rightarrow> string \<Rightarrow> load_error + string list option" where
  "LoadFormatsRegistry F y dir = map_res sc_formats (LoadSuiteConfig F y dir)"

text \<open>The files of the directory that are types.\<close>

definition is_type_entry :: "string \<times> bool \<Rightarrow> bool" where
  "is_type_entry e = (case e of (nm, isdir) \<Rightarrow>
     \<not> (isdir \<or> has_prefix nm ''_'' \<or> \<not> has_suffix nm ''.yaml''))"

fun load_types ::
  "(string \<Rightarrow> (load_error + cases_file) option) \<Rightarrow> string list \<Rightarrow> (load_error + cases_file list) option" where
  "load_types load [] = Some (Inr [])"
| "load_types load (p # ps) =
     (case load p of
        None \<Rightarrow> None
      | Some (Inl e) \<Rightarrow> Some (Inl e)
      | Some (Inr cf) \<Rightarrow>
          map_option (map_res (\<lambda>rest. if cf_cases cf = [] then rest else cf # rest)) (load_types load ps))"

definition LoadSuite ::
  "nat \<Rightarrow> 'n fsys \<Rightarrow> 'n yaml_doc \<Rightarrow> string \<Rightarrow> (load_error + cases_set) option" where
  "LoadSuite n F y dir =
     (case fs_is_dir F dir of
        Inl e \<Rightarrow> Some (Inl (ReadFailed dir))
      | Inr False \<Rightarrow> Some (Inl (NotADirectory dir))
      | Inr True \<Rightarrow>
     (case fs_list F dir of
        Inl e \<Rightarrow> Some (Inl (ReadFailed dir))
      | Inr entries \<Rightarrow>
     (case load_types (loadTypeFile n F y) (map (fs_join F dir) (map fst (filter is_type_entry entries))) of
        None \<Rightarrow> None
      | Some (Inl e) \<Rightarrow> Some (Inl e)
      | Some (Inr types) \<Rightarrow>
          if types = [] then Some (Inl (NoTypesFound dir))
          else Some (rbind (LoadSuiteConfig F y dir) (\<lambda>sc.
            Inr \<lparr>cs_reference = sc_reference sc, cs_types = sort_key cf_name types\<rparr>)))))"

subsection \<open>Declared gaps\<close>

record expected_skips =
  es_types :: "string list"
  es_operations :: "string list gomap"

definition es_zero :: expected_skips where
  "es_zero = \<lparr>es_types = [], es_operations = []\<rparr>"

definition es_op :: "expected_skips \<Rightarrow> string \<Rightarrow> string list" where
  "es_op e op = (case map_of (es_operations e) op of None \<Rightarrow> [] | Some l \<Rightarrow> l)"

definition Covers :: "expected_skips \<Rightarrow> string \<Rightarrow> string \<Rightarrow> bool" where
  "Covers e typeName op \<longleftrightarrow> typeName \<in> set (es_types e) \<or> typeName \<in> set (es_op e op)"

end
