(* ===== verification/Messages.thy ===== *)
theory Messages
  imports Proto
begin

section \<open>The messages between runner and workers (internal/proto)\<close>

text \<open>
  Requests and responses, the constructors that stamp each request with its op, the JSON document a
  request is written as (struct tags with their \<open>omitempty\<close>), and what \<open>json.Unmarshal\<close> reads back
  into the structs of either side. One document is one line; the text of a document and its
  parsing belong to encoding/json.
\<close>

subsection \<open>Requests\<close>

abbreviation OpPing :: string where "OpPing \<equiv> ''ping''"
abbreviation OpBind :: string where "OpBind \<equiv> ''bind''"
abbreviation OpSerialize :: string where "OpSerialize \<equiv> ''serialize''"
abbreviation OpDeserialize :: string where "OpDeserialize \<equiv> ''deserialize''"
abbreviation OpExit :: string where "OpExit \<equiv> ''exit''"

abbreviation StatusOK :: string where "StatusOK \<equiv> ''OK''"
abbreviation StatusERROR :: string where "StatusERROR \<equiv> ''ERROR''"
abbreviation StatusSKIPPED :: string where "StatusSKIPPED \<equiv> ''SKIPPED''"

definition ProtocolVersion :: int where "ProtocolVersion = 2"

datatype request =
    PingRequest (req_op: string)
  | BindRequest (req_op: string) "schema_field list" string string bool
  | SerializeRequest (req_id: string) (req_op: string) "gval gomap"
  | DeserializeRequest (req_id: string) (req_op: string) string
  | ExitRequest (req_op: string)

definition NewPingRequest :: request where
  "NewPingRequest = PingRequest OpPing"

definition NewBindRequest :: "schema_field list \<Rightarrow> string \<Rightarrow> string \<Rightarrow> bool \<Rightarrow> request" where
  "NewBindRequest schema typ format audit = BindRequest OpBind schema typ format audit"

definition NewSerializeRequest :: "string \<Rightarrow> gval gomap \<Rightarrow> request" where
  "NewSerializeRequest i data = SerializeRequest i OpSerialize data"

definition NewDeserializeRequest :: "string \<Rightarrow> string \<Rightarrow> request" where
  "NewDeserializeRequest i hex = DeserializeRequest i OpDeserialize hex"

definition NewExitRequest :: request where
  "NewExitRequest = ExitRequest OpExit"

lemmas new_request_defs = NewPingRequest_def NewBindRequest_def NewSerializeRequest_def
  NewDeserializeRequest_def NewExitRequest_def

text \<open>The JSON of a struct: a field tagged \<open>omitempty\<close> is left out when it is empty.\<close>

definition omitempty :: "bool \<Rightarrow> string \<Rightarrow> json \<Rightarrow> json gomap" where
  "omitempty omit k j = (if omit then [] else [(k, j)])"

fun schema_json :: "schema_field \<Rightarrow> json"
  and variant_json :: "schema_variant \<Rightarrow> json" where
  "schema_json (SchemaField nm typ fs key vs tags) =
     JObj ([(''name'', JStr nm), (''type'', JStr typ)] @
       omitempty (fs = []) ''fields'' (JArr (map schema_json fs)) @
       omitempty (key = []) ''key_type'' (JStr key) @
       omitempty (vs = []) ''variants'' (JArr (map variant_json vs)) @
       omitempty (tags = []) ''tags'' (JObj (map (\<lambda>(k, v). (k, JStr v)) tags)))"
| "variant_json (SchemaVariant nm payload) =
     JObj ([(''name'', JStr nm)] @
       (case payload of None \<Rightarrow> [] | Some p \<Rightarrow> [(''payload'', schema_json p)]))"

text \<open>\<open>Writer.Write\<close> on a request; \<open>None\<close> is the error of the encoder (a NaN or infinite number in
  the data). A nil schema or data map is \<open>null\<close>: both are made, never nil, where the runner builds
  them.\<close>

definition request_json :: "go_env \<Rightarrow> request \<Rightarrow> json option" where
  "request_json env r = (case r of
     PingRequest op \<Rightarrow> Some (JObj [(''op'', JStr op)])
   | BindRequest op schema typ format audit \<Rightarrow>
       Some (JObj ([(''op'', JStr op), (''schema'', JArr (map schema_json schema))] @
         omitempty (typ = []) ''type'' (JStr typ) @
         omitempty (format = []) ''format'' (JStr format) @
         omitempty (\<not> audit) ''audit'' (JBool audit)))
   | SerializeRequest i op data \<Rightarrow>
       map_option (\<lambda>d. JObj [(''id'', JStr i), (''op'', JStr op), (''data'', d)]) (json_of env (GMap data))
   | DeserializeRequest i op hex \<Rightarrow>
       Some (JObj [(''id'', JStr i), (''op'', JStr op), (''hex'', JStr hex)])
   | ExitRequest op \<Rightarrow> Some (JObj [(''op'', JStr op)]))"

subsection \<open>Reading a struct from JSON\<close>

text \<open>\<open>json.Unmarshal\<close> matches the keys of an object to the field names after folding their case;
  the two letters outside ASCII that fold to an ASCII one are the long s (C5 BF) and the Kelvin
  sign (E2 84 AA). The last of several matching keys decides.\<close>

definition ascii_lower :: "char \<Rightarrow> char" where
  "ascii_lower c = (let n = of_char c :: nat in if 65 \<le> n \<and> n \<le> 90 then char_of (n + 32) else c)"

fun fold_name :: "string \<Rightarrow> string" where
  "fold_name [] = []"
| "fold_name (c # s) =
     (if c = CHR 0xC5 then
        (case s of [] \<Rightarrow> [c] | d # s' \<Rightarrow> if d = CHR 0xBF then CHR ''s'' # fold_name s' else c # fold_name s)
      else if c = CHR 0xE2 then
        (case s of d # e # s' \<Rightarrow> if d = CHR 0x84 \<and> e = CHR 0xAA then CHR ''k'' # fold_name s' else c # fold_name s
         | _ \<Rightarrow> c # fold_name s)
      else ascii_lower c # fold_name s)"

declare fold_name.simps [simp del]

definition jfield :: "json gomap \<Rightarrow> string \<Rightarrow> json option" where
  "jfield m k = map_option snd (find (\<lambda>(k', j). fold_name k' = k) (rev m))"

text \<open>A field of a struct: an absent or null one keeps its zero value, one of another JSON type is
  an error (\<open>Inl\<close> its name).\<close>

definition un_field :: "'a \<Rightarrow> (json \<Rightarrow> 'a option) \<Rightarrow> json gomap \<Rightarrow> string \<Rightarrow> string + 'a" where
  "un_field zero dec m k =
     (case jfield m k of
        None \<Rightarrow> Inr zero
      | Some j \<Rightarrow> if j = JNull then Inr zero else (case dec j of None \<Rightarrow> Inl k | Some x \<Rightarrow> Inr x))"

definition str_of :: "json \<Rightarrow> string option" where
  "str_of j = (case j of JStr s \<Rightarrow> Some s | _ \<Rightarrow> None)"

definition bool_of :: "json \<Rightarrow> bool option" where
  "bool_of j = (case j of JBool b \<Rightarrow> Some b | _ \<Rightarrow> None)"

definition int_of :: "json \<Rightarrow> int option" where
  "int_of j = (case j of
     JNum x \<Rightarrow> (case f64_trunc x of None \<Rightarrow> None
       | Some i \<Rightarrow> if f64_eq x (f64_of_int i) \<and> in_range (- (2 ^ 63)) (2 ^ 63 - 1) i then Some i else None)
   | _ \<Rightarrow> None)"

lemma int_of_small:
  assumes "\<bar>i\<bar> < 2 ^ 53"
  shows "int_of (JNum (f64_of_int i)) = Some i"
proof -
  have t: "f64_trunc (f64_of_int i) = Some i" using assms by (rule f64_trunc_of_int)
  then have "\<not> is_nan64 (f64_of_int i)" by (auto simp: f64_trunc_def is_nan64_def)
  moreover have "in_range (- (2 ^ 63)) (2 ^ 63 - 1) i" using assms unfolding in_range_def by simp linarith
  ultimately show ?thesis using t by (simp add: int_of_def f64_eq_def)
qed

definition strs_of :: "json \<Rightarrow> string list option" where
  "strs_of j = (case j of
     JArr js \<Rightarrow> (if list_all (\<lambda>x. x = JNull \<or> str_of x \<noteq> None) js
                then Some (map (\<lambda>x. case str_of x of None \<Rightarrow> [] | Some s \<Rightarrow> s) js) else None)
   | _ \<Rightarrow> None)"

definition obj_of :: "json \<Rightarrow> json gomap option" where
  "obj_of j = (case j of JObj m \<Rightarrow> Some m | _ \<Rightarrow> None)"

definition data_of :: "json \<Rightarrow> gval gomap option" where
  "data_of j = map_option (map (\<lambda>(k, v). (k, any_of v))) (obj_of j)"

abbreviation "un_str \<equiv> un_field [] str_of"
abbreviation "un_bool \<equiv> un_field False bool_of"
abbreviation "un_opt_bool \<equiv> un_field None (\<lambda>j. map_option Some (bool_of j))"
abbreviation "un_strs \<equiv> un_field [] strs_of"

subsection \<open>Responses\<close>

record audit_report =
  Mutations :: "string list"
  Stable :: "bool option"
  OutputZeroCopyFields :: "string list"
  ZeroCopyFields :: "string list"
  InputMutated :: bool
  DeserStable :: "bool option"

record response =
  RespID :: string
  RespOp :: string
  RespStatus :: string
  RespHex :: string
  RespData :: "gval gomap"
  RespVersion :: "int option"
  RespError :: string
  RespReason :: string
  RespAudit :: "audit_report option"

definition audit_of :: "json gomap \<Rightarrow> string + audit_report" where
  "audit_of m =
     rbind (un_strs m ''mutations'') (\<lambda>mut.
     rbind (un_opt_bool m ''stable'') (\<lambda>st.
     rbind (un_strs m ''output_zero_copy_fields'') (\<lambda>ozc.
     rbind (un_strs m ''zero_copy_fields'') (\<lambda>zc.
     rbind (un_bool m ''input_mutated'') (\<lambda>im.
     rbind (un_opt_bool m ''deser_stable'') (\<lambda>ds.
       Inr \<lparr>Mutations = mut, Stable = st, OutputZeroCopyFields = ozc, ZeroCopyFields = zc,
            InputMutated = im, DeserStable = ds\<rparr>))))))"

text \<open>The struct \<open>Response\<close> from one line; the line \<open>null\<close> leaves it zero.\<close>

definition response_of :: "json \<Rightarrow> string + response" where
  "response_of j =
     rbind (case j of JNull \<Rightarrow> Inr [] | JObj m \<Rightarrow> Inr m | _ \<Rightarrow> Inl []) (\<lambda>m.
     rbind (un_str m ''id'') (\<lambda>i.
     rbind (un_str m ''op'') (\<lambda>op.
     rbind (un_str m ''status'') (\<lambda>st.
     rbind (un_str m ''hex'') (\<lambda>hex.
     rbind (un_field [] data_of m ''data'') (\<lambda>d.
     rbind (un_field None (\<lambda>x. map_option Some (int_of x)) m ''protocol_version'') (\<lambda>pv.
     rbind (un_str m ''error'') (\<lambda>e.
     rbind (un_str m ''reason'') (\<lambda>r.
     rbind (case un_field None (\<lambda>x. map_option Some (obj_of x)) m ''audit'' of
              Inl e \<Rightarrow> Inl e | Inr None \<Rightarrow> Inr None | Inr (Some a) \<Rightarrow> map_res Some (audit_of a)) (\<lambda>au.
       Inr \<lparr>RespID = i, RespOp = op, RespStatus = st, RespHex = hex, RespData = d, RespVersion = pv,
            RespError = e, RespReason = r, RespAudit = au\<rparr>))))))))))"

subsection \<open>The schema read back\<close>

text \<open>The worker's \<open>[]SchemaField\<close>, from the JSON of a bind message. A null element is the zero
  struct, and a field of another JSON type an error.\<close>

lemma jfield_in: "jfield m k = Some j \<Longrightarrow> \<exists>k'. (k', j) \<in> set m"
  unfolding jfield_def by (cases "find (\<lambda>(k', j). fold_name k' = k) (rev m)") (auto dest!: find_SomeD)

lemma size_jobj_field: "(k', j) \<in> set m \<Longrightarrow> size j < size (JObj m)"
  by (drule size_jmap) simp

lemma jfield_size: "jfield m k = Some j \<Longrightarrow> size j < size (JObj m)"
  by (blast dest: jfield_in size_jobj_field)

lemma jfield_elem_size: "jfield m k = Some (JArr js) \<Longrightarrow> x \<in> set js \<Longrightarrow> Suc (size x) < size (JObj m)"
proof -
  assume j: "jfield m k = Some (JArr js)" and x: "x \<in> set js"
  have "Suc (size x) \<le> size (JArr js)" using x by (induction js) auto
  with jfield_size [OF j] show ?thesis by simp
qed

definition elems_of :: "json gomap \<Rightarrow> string \<Rightarrow> string + json list" where
  "elems_of m k = un_field [] (\<lambda>j. case j of JArr js \<Rightarrow> Some js | _ \<Rightarrow> None) m k"

lemma elems_of_jfield: "elems_of m k = Inr js \<Longrightarrow> js = [] \<or> jfield m k = Some (JArr js)"
  by (auto simp: elems_of_def un_field_def split: option.splits if_splits json.splits)

definition tags_of :: "json \<Rightarrow> string gomap option" where
  "tags_of j = (case j of
     JObj m \<Rightarrow> (if list_all (\<lambda>(k, x). x = JNull \<or> str_of x \<noteq> None) m
               then Some (map (\<lambda>(k, x). (k, case str_of x of None \<Rightarrow> [] | Some s \<Rightarrow> s)) m) else None)
   | _ \<Rightarrow> None)"

function un_schema :: "json \<Rightarrow> string + schema_field"
  and un_variant :: "json \<Rightarrow> string + schema_variant" where
  "un_schema j = (case j of
     JNull \<Rightarrow> Inr (SchemaField [] [] [] [] [] [])
   | JObj m \<Rightarrow>
       rbind (un_str m ''name'') (\<lambda>nm.
       rbind (un_str m ''type'') (\<lambda>typ.
       rbind (rbind (elems_of m ''fields'') (mapM un_schema)) (\<lambda>fs.
       rbind (un_str m ''key_type'') (\<lambda>key.
       rbind (rbind (elems_of m ''variants'') (mapM un_variant)) (\<lambda>vs.
       rbind (un_field [] tags_of m ''tags'') (\<lambda>tags.
         Inr (SchemaField nm typ fs key vs tags)))))))
   | _ \<Rightarrow> Inl [])"
| "un_variant j = (case j of
     JNull \<Rightarrow> Inr (SchemaVariant [] None)
   | JObj m \<Rightarrow>
       rbind (un_str m ''name'') (\<lambda>nm.
       rbind (case jfield m ''payload'' of
                None \<Rightarrow> Inr None
              | Some p \<Rightarrow> if p = JNull then Inr None else map_res Some (un_schema p)) (\<lambda>payload.
         Inr (SchemaVariant nm payload)))
   | _ \<Rightarrow> Inl [])"
  by pat_completeness auto
termination un_schema
  by (relation "measure (case_sum size size)")
     (auto dest!: elems_of_jfield dest: jfield_elem_size jfield_size)

declare un_schema.simps [simp del]
declare un_variant.simps [simp del]

definition schema_of :: "json \<Rightarrow> schema_field list option" where
  "schema_of j = (case j of
     JArr js \<Rightarrow> (case mapM un_schema js of Inl _ \<Rightarrow> None | Inr fs \<Rightarrow> Some fs)
   | _ \<Rightarrow> None)"

subsection \<open>What is written is what is read\<close>

lemma jfield_Nil [simp]: "jfield [] k = None"
  by (simp add: jfield_def)

lemma find_append: "find P (xs @ ys) = (case find P xs of None \<Rightarrow> find P ys | Some x \<Rightarrow> Some x)"
  by (induction xs) auto

lemma jfield_append [simp]:
  "jfield (m @ m') k = (case jfield m' k of None \<Rightarrow> jfield m k | Some j \<Rightarrow> Some j)"
  by (simp add: jfield_def find_append split: option.splits)

lemma jfield_single: "jfield [(k', j)] k = (if fold_name k' = k then Some j else None)"
  by (simp add: jfield_def)

lemma jfield_Cons [simp]:
  "jfield ((k', j) # m) k =
     (case jfield m k of None \<Rightarrow> if fold_name k' = k then Some j else None | Some x \<Rightarrow> Some x)"
  using jfield_append [of "[(k', j)]" m k] by (simp add: jfield_single split: option.split)

lemma jfield_omitempty [simp]:
  "jfield (omitempty b k' j) k = (if \<not> b \<and> fold_name k' = k then Some j else None)"
  by (simp add: omitempty_def jfield_single)

lemma fold_names [simp]:
  "fold_name ''id'' = ''id''" "fold_name ''op'' = ''op''" "fold_name ''status'' = ''status''"
  "fold_name ''hex'' = ''hex''" "fold_name ''data'' = ''data''" "fold_name ''error'' = ''error''"
  "fold_name ''reason'' = ''reason''" "fold_name ''audit'' = ''audit''"
  "fold_name ''protocol_version'' = ''protocol_version''"
  "fold_name ''schema'' = ''schema''" "fold_name ''type'' = ''type''" "fold_name ''format'' = ''format''"
  "fold_name ''name'' = ''name''" "fold_name ''fields'' = ''fields''" "fold_name ''key_type'' = ''key_type''"
  "fold_name ''variants'' = ''variants''" "fold_name ''tags'' = ''tags''" "fold_name ''payload'' = ''payload''"
  by code_simp+

lemma fold_names_audit [simp]:
  "fold_name ''mutations'' = ''mutations''" "fold_name ''stable'' = ''stable''"
  "fold_name ''output_zero_copy_fields'' = ''output_zero_copy_fields''"
  "fold_name ''zero_copy_fields'' = ''zero_copy_fields''"
  "fold_name ''input_mutated'' = ''input_mutated''" "fold_name ''deser_stable'' = ''deser_stable''"
  by code_simp+

lemma tags_of_written: "tags_of (JObj (map (\<lambda>(k, v). (k, JStr v)) tags)) = Some tags"
  by (simp add: tags_of_def str_of_def list_all_iff split_beta o_def)

lemma schema_json_obj [simp]: "schema_json sf \<noteq> JNull" "variant_json v \<noteq> JNull"
  by (cases sf, simp) (cases v, simp)

text \<open>A field of the struct, written unless empty, is read back.\<close>

lemma un_field_written:
  assumes "jfield m k = (if \<not> b then Some j else None)" and "b \<Longrightarrow> x = zero" and "dec j = Some x"
    and "j \<noteq> JNull"
  shows "un_field zero dec m k = Inr x"
  using assms by (simp add: un_field_def)

lemma un_schema_written:
  "un_schema (schema_json sf) = Inr sf" and un_variant_written: "un_variant (variant_json v) = Inr v"
proof (induction sf and v rule: schema_json_variant_json.induct)
  case (1 nm ty fs key vs tags)
  let ?m = "[(''name'', JStr nm), (''type'', JStr ty)] @
       omitempty (fs = []) ''fields'' (JArr (map schema_json fs)) @
       omitempty (key = []) ''key_type'' (JStr key) @
       omitempty (vs = []) ''variants'' (JArr (map variant_json vs)) @
       omitempty (tags = []) ''tags'' (JObj (map (\<lambda>(k, v). (k, JStr v)) tags))"
  have f: "mapM un_schema (map schema_json fs) = Inr fs"
    using 1(1) mapM_Inr_map [of fs "\<lambda>x. un_schema (schema_json x)" id] by (simp add: mapM_map)
  have v: "mapM un_variant (map variant_json vs) = Inr vs"
    using 1(2) mapM_Inr_map [of vs "\<lambda>x. un_variant (variant_json x)" id] by (simp add: mapM_map)
  have "un_str ?m ''name'' = Inr nm"
    by (rule un_field_written [where b = False and j = "JStr nm"]) (simp_all add: str_of_def)
  moreover have "un_str ?m ''type'' = Inr ty"
    by (rule un_field_written [where b = False and j = "JStr ty"]) (simp_all add: str_of_def)
  moreover have "elems_of ?m ''fields'' = Inr (map schema_json fs)"
    unfolding elems_of_def by (rule un_field_written [where b = "fs = []" and j = "JArr (map schema_json fs)"]) simp_all
  moreover have "un_str ?m ''key_type'' = Inr key"
    by (rule un_field_written [where b = "key = []" and j = "JStr key"]) (simp_all add: str_of_def)
  moreover have "elems_of ?m ''variants'' = Inr (map variant_json vs)"
    unfolding elems_of_def by (rule un_field_written [where b = "vs = []" and j = "JArr (map variant_json vs)"]) simp_all
  moreover have "un_field [] tags_of ?m ''tags'' = Inr tags"
    by (rule un_field_written [where b = "tags = []" and j = "JObj (map (\<lambda>(k, v). (k, JStr v)) tags)"]) (simp_all add: tags_of_written)
  ultimately show ?case
    by (subst un_schema.simps) (simp only: schema_json.simps json.case rbind_simps f v)
next
  case (2 nm payload)
  then show ?case
    by (subst un_variant.simps, cases payload) (simp_all add: un_field_def str_of_def)
qed

end
