(* ===== verification/FieldMap.thy ===== *)
theory FieldMap
  imports Wire
begin

section \<open>The worker library's FieldMap (lib/go/serify/fieldmap.go)\<close>

text \<open>
  \<open>fval\<close> is what a worker holds in an \<open>any\<close>, by dynamic type. \<open>[]byte\<close> and \<open>[]uint8\<close> are one
  type in Go, so both are \<open>FBytes\<close>; any other slice is \<open>FSlice\<close> with its element type. A pointer
  is an option, a nil \<open>any\<close> is \<open>FNil\<close>, and \<open>FOther\<close> is a value of some other type, which the
  library only stores. A \<open>FieldMap\<close> is its map of fields; the mutating methods return it.
\<close>

datatype gtype = TU8 | TU16 | TU32 | TU64 | TI8 | TI16 | TI32 | TI64 | TBig | TF32 | TF64
  | TBool | TStr | TBytes | TFM

datatype fval =
    FNil
  | FU8 "8 word"
  | FU16 "16 word"
  | FU32 "32 word"
  | FU64 "64 word"
  | FI8 "8 word"
  | FI16 "16 word"
  | FI32 "32 word"
  | FI64 "64 word"
  | FF32 f32
  | FF64 f64
  | FBool bool
  | FBig "int option"
  | FStr string
  | FBytes bytes
  | FStrPtr "string option"
  | FSlice gtype "fval list"
  | FArr gtype "fval list"
  | FFM "fval gomap option"
  | FVariant "(string \<times> fval) option"
  | FMap "fval gomap"
  | FAnys "fval list"
  | FOther string

type_synonym field_map = "fval gomap"

datatype fm_error =
    FieldNotFound string
  | FieldWrongType string
  | NilField

definition NewFieldMap :: field_map where
  "NewFieldMap = []"

text \<open>The type assertions \<open>v.(T)\<close>.\<close>

definition asU8 :: "fval \<Rightarrow> 8 word option" where
  "asU8 v = (case v of FU8 x \<Rightarrow> Some x | _ \<Rightarrow> None)"

definition asU16 :: "fval \<Rightarrow> 16 word option" where
  "asU16 v = (case v of FU16 x \<Rightarrow> Some x | _ \<Rightarrow> None)"

definition asU32 :: "fval \<Rightarrow> 32 word option" where
  "asU32 v = (case v of FU32 x \<Rightarrow> Some x | _ \<Rightarrow> None)"

definition asU64 :: "fval \<Rightarrow> 64 word option" where
  "asU64 v = (case v of FU64 x \<Rightarrow> Some x | _ \<Rightarrow> None)"

definition asI8 :: "fval \<Rightarrow> 8 word option" where
  "asI8 v = (case v of FI8 x \<Rightarrow> Some x | _ \<Rightarrow> None)"

definition asI16 :: "fval \<Rightarrow> 16 word option" where
  "asI16 v = (case v of FI16 x \<Rightarrow> Some x | _ \<Rightarrow> None)"

definition asI32 :: "fval \<Rightarrow> 32 word option" where
  "asI32 v = (case v of FI32 x \<Rightarrow> Some x | _ \<Rightarrow> None)"

definition asI64 :: "fval \<Rightarrow> 64 word option" where
  "asI64 v = (case v of FI64 x \<Rightarrow> Some x | _ \<Rightarrow> None)"

definition asF32 :: "fval \<Rightarrow> f32 option" where
  "asF32 v = (case v of FF32 x \<Rightarrow> Some x | _ \<Rightarrow> None)"

definition asF64 :: "fval \<Rightarrow> f64 option" where
  "asF64 v = (case v of FF64 x \<Rightarrow> Some x | _ \<Rightarrow> None)"

definition asBool :: "fval \<Rightarrow> bool option" where
  "asBool v = (case v of FBool x \<Rightarrow> Some x | _ \<Rightarrow> None)"

definition asBig :: "fval \<Rightarrow> int option option" where
  "asBig v = (case v of FBig x \<Rightarrow> Some x | _ \<Rightarrow> None)"

definition asStr :: "fval \<Rightarrow> string option" where
  "asStr v = (case v of FStr x \<Rightarrow> Some x | _ \<Rightarrow> None)"

definition asBytes :: "fval \<Rightarrow> bytes option" where
  "asBytes v = (case v of FBytes x \<Rightarrow> Some x | _ \<Rightarrow> None)"

text \<open>The dynamic type of a slice element, and the slice types \<open>[]T\<close>.\<close>

definition has_gtype :: "gtype \<Rightarrow> fval \<Rightarrow> bool" where
  "has_gtype t v = (case v of
     FU8 _ \<Rightarrow> t = TU8 | FU16 _ \<Rightarrow> t = TU16 | FU32 _ \<Rightarrow> t = TU32 | FU64 _ \<Rightarrow> t = TU64
   | FI8 _ \<Rightarrow> t = TI8 | FI16 _ \<Rightarrow> t = TI16 | FI32 _ \<Rightarrow> t = TI32 | FI64 _ \<Rightarrow> t = TI64
   | FBig _ \<Rightarrow> t = TBig | FF32 _ \<Rightarrow> t = TF32 | FF64 _ \<Rightarrow> t = TF64 | FBool _ \<Rightarrow> t = TBool
   | FStr _ \<Rightarrow> t = TStr | FBytes _ \<Rightarrow> t = TBytes | FFM _ \<Rightarrow> t = TFM | _ \<Rightarrow> False)"

definition mk_slice :: "gtype \<Rightarrow> fval list \<Rightarrow> fval" where
  "mk_slice t vs = (if t = TU8 then FBytes (List.map_filter asU8 vs) else FSlice t vs)"

definition as_slice :: "gtype \<Rightarrow> fval \<Rightarrow> fval list option" where
  "as_slice t v = (case v of
     FBytes bs \<Rightarrow> if t = TU8 then Some (map FU8 bs) else None
   | FSlice t' vs \<Rightarrow> if t' = t \<and> t \<noteq> TU8 then Some vs else None
   | _ \<Rightarrow> None)"

lemma has_gtype_TU8: "has_gtype TU8 v \<longleftrightarrow> (\<exists>x. v = FU8 x)"
  by (cases v) (simp_all add: has_gtype_def)

lemma as_slice_mk_slice:
  assumes "\<And>v. v \<in> set vs \<Longrightarrow> has_gtype t v"
  shows "as_slice t (mk_slice t vs) = Some vs"
proof (cases "t = TU8")
  case True
  have "map FU8 (List.map_filter asU8 vs) = vs"
    using assms unfolding True has_gtype_TU8
    by (induction vs) (force simp: asU8_def)+
  with True show ?thesis by (simp add: mk_slice_def as_slice_def)
qed (simp add: mk_slice_def as_slice_def)

subsection \<open>Typed access\<close>

definition getTyped :: "(fval \<Rightarrow> 'a option) \<Rightarrow> field_map \<Rightarrow> string \<Rightarrow> fm_error + 'a" where
  "getTyped as fm key =
     (case map_of fm key of
        None \<Rightarrow> Inl (FieldNotFound key)
      | Some v \<Rightarrow> (case as v of None \<Rightarrow> Inl (FieldWrongType key) | Some x \<Rightarrow> Inr x))"

definition set_field :: "field_map \<Rightarrow> string \<Rightarrow> fval \<Rightarrow> field_map" where
  "set_field fm key v = AList.update key v fm"

definition GetU8 :: "field_map \<Rightarrow> string \<Rightarrow> fm_error + (8 word)" where
  "GetU8 = getTyped asU8"

definition SetU8 :: "field_map \<Rightarrow> string \<Rightarrow> 8 word \<Rightarrow> field_map" where
  "SetU8 fm key x = set_field fm key (FU8 x)"

definition GetU16 :: "field_map \<Rightarrow> string \<Rightarrow> fm_error + (16 word)" where
  "GetU16 = getTyped asU16"

definition SetU16 :: "field_map \<Rightarrow> string \<Rightarrow> 16 word \<Rightarrow> field_map" where
  "SetU16 fm key x = set_field fm key (FU16 x)"

definition GetU32 :: "field_map \<Rightarrow> string \<Rightarrow> fm_error + (32 word)" where
  "GetU32 = getTyped asU32"

definition SetU32 :: "field_map \<Rightarrow> string \<Rightarrow> 32 word \<Rightarrow> field_map" where
  "SetU32 fm key x = set_field fm key (FU32 x)"

definition GetU64 :: "field_map \<Rightarrow> string \<Rightarrow> fm_error + (64 word)" where
  "GetU64 = getTyped asU64"

definition SetU64 :: "field_map \<Rightarrow> string \<Rightarrow> 64 word \<Rightarrow> field_map" where
  "SetU64 fm key x = set_field fm key (FU64 x)"

definition GetI8 :: "field_map \<Rightarrow> string \<Rightarrow> fm_error + (8 word)" where
  "GetI8 = getTyped asI8"

definition SetI8 :: "field_map \<Rightarrow> string \<Rightarrow> 8 word \<Rightarrow> field_map" where
  "SetI8 fm key x = set_field fm key (FI8 x)"

definition GetI16 :: "field_map \<Rightarrow> string \<Rightarrow> fm_error + (16 word)" where
  "GetI16 = getTyped asI16"

definition SetI16 :: "field_map \<Rightarrow> string \<Rightarrow> 16 word \<Rightarrow> field_map" where
  "SetI16 fm key x = set_field fm key (FI16 x)"

definition GetI32 :: "field_map \<Rightarrow> string \<Rightarrow> fm_error + (32 word)" where
  "GetI32 = getTyped asI32"

definition SetI32 :: "field_map \<Rightarrow> string \<Rightarrow> 32 word \<Rightarrow> field_map" where
  "SetI32 fm key x = set_field fm key (FI32 x)"

definition GetI64 :: "field_map \<Rightarrow> string \<Rightarrow> fm_error + (64 word)" where
  "GetI64 = getTyped asI64"

definition SetI64 :: "field_map \<Rightarrow> string \<Rightarrow> 64 word \<Rightarrow> field_map" where
  "SetI64 fm key x = set_field fm key (FI64 x)"

definition GetF32 :: "field_map \<Rightarrow> string \<Rightarrow> fm_error + f32" where
  "GetF32 = getTyped asF32"

definition SetF32 :: "field_map \<Rightarrow> string \<Rightarrow> f32 \<Rightarrow> field_map" where
  "SetF32 fm key x = set_field fm key (FF32 x)"

definition GetF64 :: "field_map \<Rightarrow> string \<Rightarrow> fm_error + f64" where
  "GetF64 = getTyped asF64"

definition SetF64 :: "field_map \<Rightarrow> string \<Rightarrow> f64 \<Rightarrow> field_map" where
  "SetF64 fm key x = set_field fm key (FF64 x)"

definition GetBool :: "field_map \<Rightarrow> string \<Rightarrow> fm_error + bool" where
  "GetBool = getTyped asBool"

definition SetBool :: "field_map \<Rightarrow> string \<Rightarrow> bool \<Rightarrow> field_map" where
  "SetBool fm key x = set_field fm key (FBool x)"

definition GetBig :: "field_map \<Rightarrow> string \<Rightarrow> fm_error + (int option)" where
  "GetBig = getTyped asBig"

definition SetBig :: "field_map \<Rightarrow> string \<Rightarrow> int option \<Rightarrow> field_map" where
  "SetBig fm key x = set_field fm key (FBig x)"

definition GetString :: "field_map \<Rightarrow> string \<Rightarrow> fm_error + string" where
  "GetString = getTyped asStr"

definition SetString :: "field_map \<Rightarrow> string \<Rightarrow> string \<Rightarrow> field_map" where
  "SetString fm key x = set_field fm key (FStr x)"

definition GetBytes :: "field_map \<Rightarrow> string \<Rightarrow> fm_error + bytes" where
  "GetBytes = getTyped asBytes"

definition SetBytes :: "field_map \<Rightarrow> string \<Rightarrow> bytes \<Rightarrow> field_map" where
  "SetBytes fm key x = set_field fm key (FBytes x)"

definition asFM :: "fval \<Rightarrow> field_map option option" where
  "asFM v = (case v of FFM x \<Rightarrow> Some x | _ \<Rightarrow> None)"

text \<open>A list field: the slice \<open>[]T\<close> with its elements read at \<open>T\<close>.\<close>

definition as_list :: "gtype \<Rightarrow> (fval \<Rightarrow> 'a option) \<Rightarrow> fval \<Rightarrow> 'a list option" where
  "as_list t as v = map_option (List.map_filter as) (as_slice t v)"

definition GetListU8 :: "field_map \<Rightarrow> string \<Rightarrow> fm_error + (8 word) list" where
  "GetListU8 = getTyped (as_list TU8 asU8)"

definition SetListU8 :: "field_map \<Rightarrow> string \<Rightarrow> (8 word) list \<Rightarrow> field_map" where
  "SetListU8 fm key xs = set_field fm key (mk_slice TU8 (map FU8 xs))"

definition GetListU16 :: "field_map \<Rightarrow> string \<Rightarrow> fm_error + (16 word) list" where
  "GetListU16 = getTyped (as_list TU16 asU16)"

definition SetListU16 :: "field_map \<Rightarrow> string \<Rightarrow> (16 word) list \<Rightarrow> field_map" where
  "SetListU16 fm key xs = set_field fm key (mk_slice TU16 (map FU16 xs))"

definition GetListU32 :: "field_map \<Rightarrow> string \<Rightarrow> fm_error + (32 word) list" where
  "GetListU32 = getTyped (as_list TU32 asU32)"

definition SetListU32 :: "field_map \<Rightarrow> string \<Rightarrow> (32 word) list \<Rightarrow> field_map" where
  "SetListU32 fm key xs = set_field fm key (mk_slice TU32 (map FU32 xs))"

definition GetListU64 :: "field_map \<Rightarrow> string \<Rightarrow> fm_error + (64 word) list" where
  "GetListU64 = getTyped (as_list TU64 asU64)"

definition SetListU64 :: "field_map \<Rightarrow> string \<Rightarrow> (64 word) list \<Rightarrow> field_map" where
  "SetListU64 fm key xs = set_field fm key (mk_slice TU64 (map FU64 xs))"

definition GetListI8 :: "field_map \<Rightarrow> string \<Rightarrow> fm_error + (8 word) list" where
  "GetListI8 = getTyped (as_list TI8 asI8)"

definition SetListI8 :: "field_map \<Rightarrow> string \<Rightarrow> (8 word) list \<Rightarrow> field_map" where
  "SetListI8 fm key xs = set_field fm key (mk_slice TI8 (map FI8 xs))"

definition GetListI16 :: "field_map \<Rightarrow> string \<Rightarrow> fm_error + (16 word) list" where
  "GetListI16 = getTyped (as_list TI16 asI16)"

definition SetListI16 :: "field_map \<Rightarrow> string \<Rightarrow> (16 word) list \<Rightarrow> field_map" where
  "SetListI16 fm key xs = set_field fm key (mk_slice TI16 (map FI16 xs))"

definition GetListI32 :: "field_map \<Rightarrow> string \<Rightarrow> fm_error + (32 word) list" where
  "GetListI32 = getTyped (as_list TI32 asI32)"

definition SetListI32 :: "field_map \<Rightarrow> string \<Rightarrow> (32 word) list \<Rightarrow> field_map" where
  "SetListI32 fm key xs = set_field fm key (mk_slice TI32 (map FI32 xs))"

definition GetListI64 :: "field_map \<Rightarrow> string \<Rightarrow> fm_error + (64 word) list" where
  "GetListI64 = getTyped (as_list TI64 asI64)"

definition SetListI64 :: "field_map \<Rightarrow> string \<Rightarrow> (64 word) list \<Rightarrow> field_map" where
  "SetListI64 fm key xs = set_field fm key (mk_slice TI64 (map FI64 xs))"

definition GetListF32 :: "field_map \<Rightarrow> string \<Rightarrow> fm_error + (f32) list" where
  "GetListF32 = getTyped (as_list TF32 asF32)"

definition SetListF32 :: "field_map \<Rightarrow> string \<Rightarrow> (f32) list \<Rightarrow> field_map" where
  "SetListF32 fm key xs = set_field fm key (mk_slice TF32 (map FF32 xs))"

definition GetListF64 :: "field_map \<Rightarrow> string \<Rightarrow> fm_error + (f64) list" where
  "GetListF64 = getTyped (as_list TF64 asF64)"

definition SetListF64 :: "field_map \<Rightarrow> string \<Rightarrow> (f64) list \<Rightarrow> field_map" where
  "SetListF64 fm key xs = set_field fm key (mk_slice TF64 (map FF64 xs))"

definition GetListBool :: "field_map \<Rightarrow> string \<Rightarrow> fm_error + (bool) list" where
  "GetListBool = getTyped (as_list TBool asBool)"

definition SetListBool :: "field_map \<Rightarrow> string \<Rightarrow> (bool) list \<Rightarrow> field_map" where
  "SetListBool fm key xs = set_field fm key (mk_slice TBool (map FBool xs))"

definition GetListBig :: "field_map \<Rightarrow> string \<Rightarrow> fm_error + (int option) list" where
  "GetListBig = getTyped (as_list TBig asBig)"

definition SetListBig :: "field_map \<Rightarrow> string \<Rightarrow> (int option) list \<Rightarrow> field_map" where
  "SetListBig fm key xs = set_field fm key (mk_slice TBig (map FBig xs))"

definition GetListString :: "field_map \<Rightarrow> string \<Rightarrow> fm_error + (string) list" where
  "GetListString = getTyped (as_list TStr asStr)"

definition SetListString :: "field_map \<Rightarrow> string \<Rightarrow> (string) list \<Rightarrow> field_map" where
  "SetListString fm key xs = set_field fm key (mk_slice TStr (map FStr xs))"

definition GetListBytes :: "field_map \<Rightarrow> string \<Rightarrow> fm_error + (bytes) list" where
  "GetListBytes = getTyped (as_list TBytes asBytes)"

definition SetListBytes :: "field_map \<Rightarrow> string \<Rightarrow> (bytes) list \<Rightarrow> field_map" where
  "SetListBytes fm key xs = set_field fm key (mk_slice TBytes (map FBytes xs))"

definition GetListStruct :: "field_map \<Rightarrow> string \<Rightarrow> fm_error + (field_map option) list" where
  "GetListStruct = getTyped (as_list TFM asFM)"

definition SetListStruct :: "field_map \<Rightarrow> string \<Rightarrow> (field_map option) list \<Rightarrow> field_map" where
  "SetListStruct fm key xs = set_field fm key (mk_slice TFM (map FFM xs))"

subsection \<open>Optionals, structs, sums and maps\<close>

definition GetOptionalString :: "field_map \<Rightarrow> string \<Rightarrow> fm_error + string option" where
  "GetOptionalString fm key =
     (case map_of fm key of
        None \<Rightarrow> Inl (FieldNotFound key)
      | Some FNil \<Rightarrow> Inr None
      | Some (FStr s) \<Rightarrow> Inr (Some s)
      | Some (FStrPtr p) \<Rightarrow> Inr p
      | Some _ \<Rightarrow> Inl (FieldWrongType key))"

definition SetOptionalString :: "field_map \<Rightarrow> string \<Rightarrow> string option \<Rightarrow> field_map" where
  "SetOptionalString fm key v =
     set_field fm key (case v of None \<Rightarrow> FNil | Some s \<Rightarrow> FStr s)"

definition GetStruct :: "field_map \<Rightarrow> string \<Rightarrow> fm_error + field_map option" where
  "GetStruct fm key =
     (case map_of fm key of
        None \<Rightarrow> Inl (FieldNotFound key)
      | Some FNil \<Rightarrow> Inl NilField
      | Some (FFM m) \<Rightarrow> Inr m
      | Some _ \<Rightarrow> Inl (FieldWrongType key))"

definition GetOptionalStruct :: "field_map \<Rightarrow> string \<Rightarrow> fm_error + field_map option" where
  "GetOptionalStruct = GetStruct"

definition SetStruct :: "field_map \<Rightarrow> string \<Rightarrow> field_map option \<Rightarrow> field_map" where
  "SetStruct fm key m = set_field fm key (FFM m)"

definition SetOptionalStruct :: "field_map \<Rightarrow> string \<Rightarrow> field_map option \<Rightarrow> field_map" where
  "SetOptionalStruct fm key v =
     set_field fm key (case v of None \<Rightarrow> FNil | Some m \<Rightarrow> FFM (Some m))"

definition GetVariant :: "field_map \<Rightarrow> string \<Rightarrow> fm_error + (string \<times> fval) option" where
  "GetVariant fm key =
     getTyped (\<lambda>v. case v of FVariant x \<Rightarrow> Some x | _ \<Rightarrow> None) fm key"

definition SetVariant :: "field_map \<Rightarrow> string \<Rightarrow> string \<Rightarrow> fval \<Rightarrow> field_map" where
  "SetVariant fm key tag v = set_field fm key (FVariant (Some (tag, v)))"

definition GetMap :: "field_map \<Rightarrow> string \<Rightarrow> fval gomap option" where
  "GetMap fm key = (case map_of fm key of Some (FMap m) \<Rightarrow> Some m | _ \<Rightarrow> None)"

definition SetMap :: "field_map \<Rightarrow> string \<Rightarrow> fval gomap \<Rightarrow> field_map" where
  "SetMap fm key m = set_field fm key (FMap m)"

text \<open>\<open>SetOptional[T]\<close> and \<open>GetOptional[T]\<close>, for \<open>T\<close> given by the constructor and assertion
  of its dynamic type and the assertion \<open>ptr\<close> of the pointer type.\<close>

definition SetOptional :: "('a \<Rightarrow> fval) \<Rightarrow> field_map \<Rightarrow> string \<Rightarrow> 'a option \<Rightarrow> field_map" where
  "SetOptional con fm key v = set_field fm key (case v of None \<Rightarrow> FNil | Some x \<Rightarrow> con x)"

definition GetOptional ::
  "(fval \<Rightarrow> 'a option) \<Rightarrow> (fval \<Rightarrow> 'a option option) \<Rightarrow> field_map \<Rightarrow> string \<Rightarrow> fm_error + 'a option" where
  "GetOptional as ptr fm key =
     (case map_of fm key of
        None \<Rightarrow> Inl (FieldNotFound key)
      | Some v \<Rightarrow>
          if v = FNil then Inr None
          else case as v of Some x \<Rightarrow> Inr (Some x)
          | None \<Rightarrow> (case ptr v of Some p \<Rightarrow> Inr p | None \<Rightarrow> Inl (FieldWrongType key)))"

subsection \<open>MapOf\<close>

definition is_scalar_value :: "fval \<Rightarrow> bool" where
  "is_scalar_value v = (case v of
     FU8 _ \<Rightarrow> True | FU16 _ \<Rightarrow> True | FU32 _ \<Rightarrow> True | FU64 _ \<Rightarrow> True
   | FI8 _ \<Rightarrow> True | FI16 _ \<Rightarrow> True | FI32 _ \<Rightarrow> True | FI64 _ \<Rightarrow> True
   | FF32 _ \<Rightarrow> True | FF64 _ \<Rightarrow> True | FBool _ \<Rightarrow> True | FStr _ \<Rightarrow> True
   | FBytes _ \<Rightarrow> True | FBig _ \<Rightarrow> True | _ \<Rightarrow> False)"

definition setScalar :: "field_map \<Rightarrow> string \<Rightarrow> fval \<Rightarrow> field_map \<times> bool" where
  "setScalar fm key v = (if is_scalar_value v then (set_field fm key v, True) else (fm, False))"

definition mapOf_entry :: "field_map \<Rightarrow> string \<Rightarrow> fval \<Rightarrow> field_map" where
  "mapOf_entry fm key v =
     (case setScalar fm key v of
        (fm', True) \<Rightarrow> fm'
      | (_, False) \<Rightarrow>
          (case v of
             FStrPtr p \<Rightarrow> SetOptionalString fm key p
           | FArr t vs \<Rightarrow> set_field fm key (mk_slice t vs)
           | _ \<Rightarrow> set_field fm key v))"

fun mapOf_from :: "field_map \<Rightarrow> fval list \<Rightarrow> field_map" where
  "mapOf_from fm (k # v # kvs) =
     mapOf_from (mapOf_entry fm (case k of FStr s \<Rightarrow> s | _ \<Rightarrow> []) v) kvs"
| "mapOf_from fm kvs = fm"

definition MapOf :: "fval list \<Rightarrow> field_map" where
  "MapOf kvs = mapOf_from NewFieldMap kvs"

subsection \<open>The contract of an accessor pair\<close>

text \<open>A type is stored by \<open>con\<close> and asserted by \<open>as\<close>: what every getter relies on.\<close>

locale typed_access =
  fixes con :: "'a \<Rightarrow> fval" and as :: "fval \<Rightarrow> 'a option"
  assumes as_con: "as (con x) = Some x"
begin

lemma get_set_same: "getTyped as (set_field fm k (con x)) k = Inr x"
  by (simp add: getTyped_def set_field_def as_con)

lemma get_missing: "map_of fm k = None \<Longrightarrow> getTyped as fm k = Inl (FieldNotFound k)"
  by (simp add: getTyped_def)

end

text \<open>What is common to every accessor: a field of another name is untouched.\<close>

lemma get_set_other: "k' \<noteq> k \<Longrightarrow> getTyped as (set_field fm k v) k' = getTyped as fm k'"
  by (simp add: getTyped_def set_field_def)

lemma as_list_mk:
  assumes "\<And>x. as (con x) = Some x" and "\<And>x. has_gtype t (con x)"
  shows "as_list t as (mk_slice t (map con xs)) = Some xs"
proof -
  have "as_slice t (mk_slice t (map con xs)) = Some (map con xs)"
    by (rule as_slice_mk_slice) (auto simp: assms(2))
  moreover have "List.map_filter as (map con xs) = xs"
    by (induction xs) (simp_all add: assms(1))
  ultimately show ?thesis by (simp add: as_list_def)
qed

interpretation accU8: typed_access FU8 asU8
  by unfold_locales (simp add: asU8_def)

interpretation accU16: typed_access FU16 asU16
  by unfold_locales (simp add: asU16_def)

interpretation accU32: typed_access FU32 asU32
  by unfold_locales (simp add: asU32_def)

interpretation accU64: typed_access FU64 asU64
  by unfold_locales (simp add: asU64_def)

interpretation accI8: typed_access FI8 asI8
  by unfold_locales (simp add: asI8_def)

interpretation accI16: typed_access FI16 asI16
  by unfold_locales (simp add: asI16_def)

interpretation accI32: typed_access FI32 asI32
  by unfold_locales (simp add: asI32_def)

interpretation accI64: typed_access FI64 asI64
  by unfold_locales (simp add: asI64_def)

interpretation accF32: typed_access FF32 asF32
  by unfold_locales (simp add: asF32_def)

interpretation accF64: typed_access FF64 asF64
  by unfold_locales (simp add: asF64_def)

interpretation accBool: typed_access FBool asBool
  by unfold_locales (simp add: asBool_def)

interpretation accBig: typed_access FBig asBig
  by unfold_locales (simp add: asBig_def)

interpretation accString: typed_access FStr asStr
  by unfold_locales (simp add: asStr_def)

interpretation accBytes: typed_access FBytes asBytes
  by unfold_locales (simp add: asBytes_def)

interpretation accStruct: typed_access FFM asFM
  by unfold_locales (simp add: asFM_def)

interpretation accListU8: typed_access "\<lambda>xs. mk_slice TU8 (map FU8 xs)" "as_list TU8 asU8"
  by unfold_locales (intro as_list_mk, simp_all add: asU8_def has_gtype_def)

interpretation accListU16: typed_access "\<lambda>xs. mk_slice TU16 (map FU16 xs)" "as_list TU16 asU16"
  by unfold_locales (intro as_list_mk, simp_all add: asU16_def has_gtype_def)

interpretation accListU32: typed_access "\<lambda>xs. mk_slice TU32 (map FU32 xs)" "as_list TU32 asU32"
  by unfold_locales (intro as_list_mk, simp_all add: asU32_def has_gtype_def)

interpretation accListU64: typed_access "\<lambda>xs. mk_slice TU64 (map FU64 xs)" "as_list TU64 asU64"
  by unfold_locales (intro as_list_mk, simp_all add: asU64_def has_gtype_def)

interpretation accListI8: typed_access "\<lambda>xs. mk_slice TI8 (map FI8 xs)" "as_list TI8 asI8"
  by unfold_locales (intro as_list_mk, simp_all add: asI8_def has_gtype_def)

interpretation accListI16: typed_access "\<lambda>xs. mk_slice TI16 (map FI16 xs)" "as_list TI16 asI16"
  by unfold_locales (intro as_list_mk, simp_all add: asI16_def has_gtype_def)

interpretation accListI32: typed_access "\<lambda>xs. mk_slice TI32 (map FI32 xs)" "as_list TI32 asI32"
  by unfold_locales (intro as_list_mk, simp_all add: asI32_def has_gtype_def)

interpretation accListI64: typed_access "\<lambda>xs. mk_slice TI64 (map FI64 xs)" "as_list TI64 asI64"
  by unfold_locales (intro as_list_mk, simp_all add: asI64_def has_gtype_def)

interpretation accListF32: typed_access "\<lambda>xs. mk_slice TF32 (map FF32 xs)" "as_list TF32 asF32"
  by unfold_locales (intro as_list_mk, simp_all add: asF32_def has_gtype_def)

interpretation accListF64: typed_access "\<lambda>xs. mk_slice TF64 (map FF64 xs)" "as_list TF64 asF64"
  by unfold_locales (intro as_list_mk, simp_all add: asF64_def has_gtype_def)

interpretation accListBool: typed_access "\<lambda>xs. mk_slice TBool (map FBool xs)" "as_list TBool asBool"
  by unfold_locales (intro as_list_mk, simp_all add: asBool_def has_gtype_def)

interpretation accListBig: typed_access "\<lambda>xs. mk_slice TBig (map FBig xs)" "as_list TBig asBig"
  by unfold_locales (intro as_list_mk, simp_all add: asBig_def has_gtype_def)

interpretation accListString: typed_access "\<lambda>xs. mk_slice TStr (map FStr xs)" "as_list TStr asStr"
  by unfold_locales (intro as_list_mk, simp_all add: asStr_def has_gtype_def)

interpretation accListBytes: typed_access "\<lambda>xs. mk_slice TBytes (map FBytes xs)" "as_list TBytes asBytes"
  by unfold_locales (intro as_list_mk, simp_all add: asBytes_def has_gtype_def)

interpretation accListStruct: typed_access "\<lambda>xs. mk_slice TFM (map FFM xs)" "as_list TFM asFM"
  by unfold_locales (intro as_list_mk, simp_all add: asFM_def has_gtype_def)

lemmas accessor_defs =
  GetU8_def SetU8_def GetU16_def SetU16_def GetU32_def SetU32_def GetU64_def SetU64_def GetI8_def SetI8_def GetI16_def SetI16_def GetI32_def SetI32_def GetI64_def SetI64_def GetF32_def SetF32_def GetF64_def SetF64_def GetBool_def SetBool_def GetBig_def SetBig_def GetString_def SetString_def GetBytes_def SetBytes_def
  GetListU8_def SetListU8_def GetListU16_def SetListU16_def GetListU32_def SetListU32_def GetListU64_def SetListU64_def GetListI8_def SetListI8_def GetListI16_def SetListI16_def GetListI32_def SetListI32_def GetListI64_def SetListI64_def GetListF32_def SetListF32_def GetListF64_def SetListF64_def GetListBool_def SetListBool_def GetListBig_def SetListBig_def GetListString_def SetListString_def GetListBytes_def SetListBytes_def GetListStruct_def SetListStruct_def

lemmas get_set_facts =
  accU8.get_set_same accU16.get_set_same accU32.get_set_same accU64.get_set_same accI8.get_set_same accI16.get_set_same accI32.get_set_same accI64.get_set_same accF32.get_set_same accF64.get_set_same accBool.get_set_same accBig.get_set_same accString.get_set_same accBytes.get_set_same
  accListU8.get_set_same accListU16.get_set_same accListU32.get_set_same accListU64.get_set_same accListI8.get_set_same accListI16.get_set_same accListI32.get_set_same accListI64.get_set_same accListF32.get_set_same accListF64.get_set_same accListBool.get_set_same accListBig.get_set_same accListString.get_set_same accListBytes.get_set_same accListStruct.get_set_same

subsection \<open>Properties\<close>

text \<open>What a setter stores, the getter of the same type returns, for every scalar type
  and the list of every scalar type, structs, optionals, sums and maps.\<close>

theorem FieldMap_get_set:
  "GetU8 (SetU8 fm k x0) k = Inr x0 \<and>
     GetListU8 (SetListU8 fm k l0) k = Inr l0 \<and>
     GetU16 (SetU16 fm k x1) k = Inr x1 \<and>
     GetListU16 (SetListU16 fm k l1) k = Inr l1 \<and>
     GetU32 (SetU32 fm k x2) k = Inr x2 \<and>
     GetListU32 (SetListU32 fm k l2) k = Inr l2 \<and>
     GetU64 (SetU64 fm k x3) k = Inr x3 \<and>
     GetListU64 (SetListU64 fm k l3) k = Inr l3 \<and>
     GetI8 (SetI8 fm k x4) k = Inr x4 \<and>
     GetListI8 (SetListI8 fm k l4) k = Inr l4 \<and>
     GetI16 (SetI16 fm k x5) k = Inr x5 \<and>
     GetListI16 (SetListI16 fm k l5) k = Inr l5 \<and>
     GetI32 (SetI32 fm k x6) k = Inr x6 \<and>
     GetListI32 (SetListI32 fm k l6) k = Inr l6 \<and>
     GetI64 (SetI64 fm k x7) k = Inr x7 \<and>
     GetListI64 (SetListI64 fm k l7) k = Inr l7 \<and>
     GetF32 (SetF32 fm k x8) k = Inr x8 \<and>
     GetListF32 (SetListF32 fm k l8) k = Inr l8 \<and>
     GetF64 (SetF64 fm k x9) k = Inr x9 \<and>
     GetListF64 (SetListF64 fm k l9) k = Inr l9 \<and>
     GetBool (SetBool fm k x10) k = Inr x10 \<and>
     GetListBool (SetListBool fm k l10) k = Inr l10 \<and>
     GetBig (SetBig fm k x11) k = Inr x11 \<and>
     GetListBig (SetListBig fm k l11) k = Inr l11 \<and>
     GetString (SetString fm k x12) k = Inr x12 \<and>
     GetListString (SetListString fm k l12) k = Inr l12 \<and>
     GetBytes (SetBytes fm k x13) k = Inr x13 \<and>
     GetListBytes (SetListBytes fm k l13) k = Inr l13 \<and>
     GetListStruct (SetListStruct fm k ms) k = Inr ms \<and>
     GetStruct (SetStruct fm k m) k = Inr m \<and>
     GetOptionalStruct (SetOptionalStruct fm k (Some m')) k = Inr (Some m') \<and>
     GetOptionalStruct (SetOptionalStruct fm k None) k = Inl NilField \<and>
     GetOptionalString (SetOptionalString fm k os) k = Inr os \<and>
     GetOptional asI64 ptr (SetOptional FI64 fm k oi) k = Inr oi \<and>
     GetVariant (SetVariant fm k tag pv) k = Inr (Some (tag, pv)) \<and>
     GetMap (SetMap fm k mp) k = Some mp"
  by (simp add: accessor_defs get_set_facts, intro conjI)
     (simp_all add: SetStruct_def GetStruct_def SetOptionalStruct_def GetOptionalStruct_def
        GetOptionalString_def SetOptionalString_def GetOptional_def SetOptional_def asI64_def
        GetVariant_def SetVariant_def GetMap_def SetMap_def set_field_def getTyped_def
        split: option.splits)

text \<open>The value \<open>MapOf\<close> stores for one it is given.\<close>

definition stored :: "fval \<Rightarrow> fval" where
  "stored v =
     (case v of
        FStrPtr None \<Rightarrow> FNil | FStrPtr (Some s) \<Rightarrow> FStr s
      | FArr t vs \<Rightarrow> mk_slice t vs
      | _ \<Rightarrow> v)"

lemma mapOf_entry_stored: "mapOf_entry fm k v = set_field fm k (stored v)"
  by (cases v) (simp_all add: mapOf_entry_def setScalar_def is_scalar_value_def stored_def
      SetOptionalString_def split: option.splits)

lemma mapOf_from_lookup:
  "map_of (mapOf_from fm (concat (map (\<lambda>(k, v). [FStr k, v]) kvs))) k =
     (case map_of (rev kvs) k of None \<Rightarrow> map_of fm k | Some v \<Rightarrow> Some (stored v))"
proof (induction kvs arbitrary: fm)
  case Nil
  then show ?case by simp
next
  case (Cons kv kvs)
  obtain k' v where "kv = (k', v)" by (cases kv)
  with Cons show ?case
    by (simp add: mapOf_entry_stored set_field_def map_add_def split: option.splits)
qed

text \<open>\<open>MapOf\<close> drops nothing: every key of the pairs it is given holds the last value given
  for it, with an array stored as the slice a list field has and a nil string pointer as a
  null optional, and it holds no other key.\<close>

theorem MapOf_stores:
  "map_of (MapOf (concat (map (\<lambda>(k, v). [FStr k, v]) kvs))) k =
     map_option stored (map_of (rev kvs) k)"
  by (simp add: MapOf_def mapOf_from_lookup NewFieldMap_def split: option.splits)

end
