(* ===== verification/Codec.thy ===== *)
theory Codec
  imports FieldMap Kinds
begin

section \<open>The worker library's wire codec (lib/go/serify/protocol.go)\<close>

text \<open>
  \<open>DecodeFieldMap\<close> reads a JSON data object into a FieldMap by the bind message's schema and
  \<open>EncodeFieldMap\<close> writes one back. The helpers that recurse through \<open>decodeScalar\<close> take it as
  \<open>dec\<close> (\<open>enc\<close> for the encoders), so each is a definition of its own. \<open>decodeField\<close> returns
  the value its Go namesake assigns to \<open>fm.fields[sf.Name]\<close>; \<open>DecodeFieldMap\<close> assigns it.
\<close>

datatype codec_error =
    CJson
  | CUnknownType string
  | CNumber string
  | CHex
  | CHexLen nat
  | CSumCount nat
  | CUnknownVariant string
  | CListType string
  | CElemType nat
  | CArrayNoLength string
  | CArrayLen int nat
  | CWrongType string
  | CAtField string codec_error
  | CAtIndex nat codec_error
  | CAtKey string codec_error
  | CAtVariant string codec_error
  | CPanic

definition findSchemaVariant :: "schema_variant list \<Rightarrow> string \<Rightarrow> schema_variant option" where
  "findSchemaVariant vs tag = find (\<lambda>v. sv_name v = tag) vs"

lemma findSchemaVariant_in: "findSchemaVariant vs tag = Some v \<Longrightarrow> v \<in> set vs \<and> sv_name v = tag"
  by (auto simp: findSchemaVariant_def dest: find_SomeD)

subsection \<open>Unmarshalling\<close>

text \<open>\<open>json.Unmarshal\<close> into a variable of the type: null leaves its zero value.\<close>

fun json_string :: "json \<Rightarrow> codec_error + string" where
  "json_string (JStr s) = Inr s"
| "json_string JNull = Inr []"
| "json_string _ = Inl CJson"

fun json_number :: "json \<Rightarrow> codec_error + f64" where
  "json_number (JNum x) = Inr x"
| "json_number JNull = Inr 0"
| "json_number _ = Inl CJson"

fun json_bool :: "json \<Rightarrow> codec_error + bool" where
  "json_bool (JBool b) = Inr b"
| "json_bool JNull = Inr False"
| "json_bool _ = Inl CJson"

fun json_array :: "json \<Rightarrow> codec_error + json list" where
  "json_array (JArr js) = Inr js"
| "json_array JNull = Inr []"
| "json_array _ = Inl CJson"

fun json_object :: "json \<Rightarrow> codec_error + json gomap" where
  "json_object (JObj m) = Inr m"
| "json_object JNull = Inr []"
| "json_object _ = Inl CJson"

definition numFromJSON :: "go_env \<Rightarrow> nat \<Rightarrow> bool \<Rightarrow> json \<Rightarrow> codec_error + int" where
  "numFromJSON env w sg r = rbind (json_number r) (\<lambda>x. Inr (f64_to_int env w sg x))"

definition uintFromString :: "json \<Rightarrow> codec_error + 64 word" where
  "uintFromString r =
     rbind (json_string r) (\<lambda>s.
       case parse_uint64 s of None \<Rightarrow> Inl (CNumber s) | Some i \<Rightarrow> Inr (word_of_int i))"

definition intFromString :: "json \<Rightarrow> codec_error + 64 word" where
  "intFromString r =
     rbind (json_string r) (\<lambda>s.
       case parse_int64 s of None \<Rightarrow> Inl (CNumber s) | Some i \<Rightarrow> Inr (word_of_int i))"

definition maxU128 :: int where "maxU128 = 2 ^ 128 - 1"
definition maxI128 :: int where "maxI128 = 2 ^ 127 - 1"
definition minI128 :: int where "minI128 = - (2 ^ 127)"

definition bigFromString :: "json \<Rightarrow> bool \<Rightarrow> codec_error + int" where
  "bigFromString r sg =
     rbind (json_string r) (\<lambda>s.
       case read_int s of
         None \<Rightarrow> Inl (CNumber s)
       | Some n \<Rightarrow>
           if sg then (if n < minI128 \<or> maxI128 < n then Inl (CNumber s) else Inr n)
           else if n < 0 \<or> maxU128 < n then Inl (CNumber s) else Inr n)"

definition hexBytes :: "json \<Rightarrow> nat \<Rightarrow> codec_error + bytes" where
  "hexBytes r n =
     rbind (json_string r) (\<lambda>s.
       case hex_decode s of
         None \<Rightarrow> Inl CHex
       | Some b \<Rightarrow> if length b \<noteq> n then Inl (CHexLen (length b)) else Inr b)"

definition floatHex :: "nat \<Rightarrow> nat \<Rightarrow> string" where
  "floatHex bits n = hex_encode (take n (le_bytes 8 bits))"

subsection \<open>Type strings\<close>

text \<open>\<open>typ[p:len(typ)-1]\<close>; slicing past the end panics.\<close>

definition strip_type :: "nat \<Rightarrow> string \<Rightarrow> string option" where
  "strip_type p typ = (if length typ - 1 < p then None else Some (drop p (butlast typ)))"

definition arrayElemType :: "string \<Rightarrow> string option" where
  "arrayElemType typ = map_option (\<lambda>inner.
     case last_index CHR '','' inner of None \<Rightarrow> trim_space inner | Some i \<Rightarrow> trim_space (take i inner))
     (strip_type 6 typ)"

definition arrayLen :: "string \<Rightarrow> int option" where
  "arrayLen typ =
     (case strip_type 6 typ of None \<Rightarrow> None
      | Some inner \<Rightarrow>
          (case last_index CHR '','' inner of
             None \<Rightarrow> None
           | Some i \<Rightarrow> parse_int64 (trim_space (drop (Suc i) inner))))"

definition mapValueType :: "string \<Rightarrow> string option" where
  "mapValueType typ = map_option (\<lambda>inner.
     case SplitTopLevel inner of [k, v] \<Rightarrow> trim_space v | _ \<Rightarrow> []) (strip_type 4 typ)"

text \<open>The element types a list supports, with the Go type each is stored as.\<close>

definition list_elem_types :: "gtype gomap" where
  "list_elem_types =
     [(k_uint8, TU8), (k_uint16, TU16), (k_uint32, TU32), (k_uint64, TU64),
      (k_int8, TI8), (k_int16, TI16), (k_int32, TI32), (k_int64, TI64),
      (k_uint128, TBig), (k_int128, TBig), (k_float32, TF32), (k_float64, TF64),
      (k_bool, TBool), (k_string, TStr), (k_bytes, TBytes), (k_struct, TFM)]"

subsection \<open>Decoding\<close>

text \<open>The bodies of the container decoders, over \<open>dec\<close>: \<open>decodeScalar\<close> at the element type
  with the schema's nested fields.\<close>

definition collectList ::
  "(string \<Rightarrow> json \<Rightarrow> codec_error + fval) \<Rightarrow> gtype \<Rightarrow> string \<Rightarrow> json list \<Rightarrow> codec_error + fval" where
  "collectList dec t elemType arr =
     map_res (mk_slice t) (mapMi (\<lambda>i item.
       rbind (map_err (CAtIndex i) (dec elemType item)) (\<lambda>v.
         if has_gtype t v then Inr v else Inl (CElemType i))) arr)"

definition decodeList ::
  "(string \<Rightarrow> json \<Rightarrow> codec_error + fval) \<Rightarrow> string \<Rightarrow> json \<Rightarrow> codec_error + fval" where
  "decodeList dec elemType r =
     rbind (json_array r) (\<lambda>arr.
       case map_of list_elem_types elemType of
         None \<Rightarrow> Inl (CListType elemType)
       | Some t \<Rightarrow> collectList dec t elemType arr)"

definition decodeOptional ::
  "(string \<Rightarrow> json \<Rightarrow> codec_error + fval) \<Rightarrow> string \<Rightarrow> json \<Rightarrow> codec_error + fval" where
  "decodeOptional dec elemType r =
     (if r = JNull then Inr FNil
      else if elemType = k_string then map_res FStr (json_string r)
      else dec elemType r)"

definition slice_len :: "fval \<Rightarrow> nat" where
  "slice_len v = (case v of FBytes bs \<Rightarrow> length bs | FSlice t vs \<Rightarrow> length vs | _ \<Rightarrow> 0)"

definition decodeArray ::
  "(string \<Rightarrow> json \<Rightarrow> codec_error + fval) \<Rightarrow> string \<Rightarrow> json \<Rightarrow> codec_error + fval" where
  "decodeArray dec typ r =
     (case arrayElemType typ of
        None \<Rightarrow> Inl CPanic
      | Some elemType \<Rightarrow>
          rbind (decodeList dec elemType r) (\<lambda>v.
            case arrayLen typ of
              None \<Rightarrow> Inl (CArrayNoLength typ)
            | Some want \<Rightarrow>
                if int (slice_len v) \<noteq> want then Inl (CArrayLen want (slice_len v)) else Inr v))"

definition decodeMap ::
  "(string \<Rightarrow> json \<Rightarrow> codec_error + fval) \<Rightarrow> string \<Rightarrow> json \<Rightarrow> codec_error + fval" where
  "decodeMap dec typ r =
     rbind (json_object r) (\<lambda>obj.
       case mapValueType typ of
         None \<Rightarrow> Inl CPanic
       | Some valType \<Rightarrow>
           map_res FMap (mapM_vals (\<lambda>k raw. map_err (CAtKey k) (dec valType raw)) obj))"

function decodeScalar ::
    "go_env \<Rightarrow> string \<Rightarrow> schema_field list \<Rightarrow> json \<Rightarrow> codec_error + fval"
  and decodeField :: "go_env \<Rightarrow> schema_field \<Rightarrow> json \<Rightarrow> codec_error + fval"
  and DecodeFieldMap :: "go_env \<Rightarrow> json gomap \<Rightarrow> schema_field list \<Rightarrow> codec_error + field_map" where
  "decodeScalar env typ sfs r =
     (if typ = k_uint8 then map_res (\<lambda>i. FU8 (word_of_int i)) (numFromJSON env 8 False r)
      else if typ = k_uint16 then map_res (\<lambda>i. FU16 (word_of_int i)) (numFromJSON env 16 False r)
      else if typ = k_uint32 then map_res (\<lambda>i. FU32 (word_of_int i)) (numFromJSON env 32 False r)
      else if typ = k_int8 then map_res (\<lambda>i. FI8 (word_of_int i)) (numFromJSON env 8 True r)
      else if typ = k_int16 then map_res (\<lambda>i. FI16 (word_of_int i)) (numFromJSON env 16 True r)
      else if typ = k_int32 then map_res (\<lambda>i. FI32 (word_of_int i)) (numFromJSON env 32 True r)
      else if typ = k_uint64 then map_res FU64 (uintFromString r)
      else if typ = k_int64 then map_res FI64 (intFromString r)
      else if typ = k_uint128 then map_res (\<lambda>i. FBig (Some i)) (bigFromString r False)
      else if typ = k_int128 then map_res (\<lambda>i. FBig (Some i)) (bigFromString r True)
      else if typ = k_float32 then map_res (\<lambda>b. FF32 (word_of_nat (le_num b))) (hexBytes r 4)
      else if typ = k_float64 then map_res (\<lambda>b. FF64 (word_of_nat (le_num b))) (hexBytes r 8)
      else if typ = k_bool then map_res FBool (json_bool r)
      else if typ = k_string then map_res FStr (json_string r)
      else if typ = k_bytes then
        rbind (json_string r) (\<lambda>s. case hex_decode s of None \<Rightarrow> Inl CHex | Some b \<Rightarrow> Inr (FBytes b))
      else if typ = k_struct then
        rbind (json_object r) (\<lambda>obj. map_res (\<lambda>m. FFM (Some m)) (DecodeFieldMap env obj sfs))
      else Inl (CUnknownType typ))"
| "decodeField env sf r =
     (let typ = sf_type sf in
      if has_prefix typ ''list<'' then
        (case strip_type 5 typ of None \<Rightarrow> Inl CPanic
         | Some t \<Rightarrow> decodeList (\<lambda>ty j. decodeScalar env ty (sf_fields sf) j) t r)
      else if has_prefix typ ''optional<'' then
        (case strip_type 9 typ of None \<Rightarrow> Inl CPanic
         | Some t \<Rightarrow> decodeOptional (\<lambda>ty j. decodeScalar env ty (sf_fields sf) j) t r)
      else if has_prefix typ ''array<'' then decodeArray (\<lambda>ty j. decodeScalar env ty (sf_fields sf) j) typ r
      else if has_prefix typ ''map<'' then decodeMap (\<lambda>ty j. decodeScalar env ty (sf_fields sf) j) typ r
      else if has_prefix typ ''enum<'' then map_res FStr (json_string r)
      else if has_prefix typ ''sum<'' then
        rbind (json_object r) (\<lambda>obj.
          case obj of
            [(tag, payload)] \<Rightarrow>
              (case findSchemaVariant (sf_variants sf) tag of
                 None \<Rightarrow> Inl (CUnknownVariant tag)
               | Some sv \<Rightarrow>
                   (case sv_payload sv of
                      None \<Rightarrow> Inr (FVariant (Some (tag, FNil)))
                    | Some p \<Rightarrow>
                        map_res (\<lambda>v. FVariant (Some (tag, v)))
                          (map_err (CAtVariant tag) (decodeField env p payload))))
          | _ \<Rightarrow> Inl (CSumCount (length obj)))
      else decodeScalar env typ (sf_fields sf) r)"
| "DecodeFieldMap env raw schema =
     build_map (\<lambda>sf. case map_of raw (sf_name sf) of
         None \<Rightarrow> Inr None
       | Some r \<Rightarrow> map_res (\<lambda>v. Some (sf_name sf, v))
                     (map_err (CAtField (sf_name sf)) (decodeField env sf r))) NewFieldMap schema"
  by pat_completeness auto

lemma size_sf_fields: "Suc (2 * size_list size (sf_fields sf)) < 2 * size sf"
  by (cases sf) simp

lemma size_payload: "v \<in> set (sf_variants sf) \<Longrightarrow> sv_payload v = Some p \<Longrightarrow> size p < size sf"
proof -
  assume v: "v \<in> set (sf_variants sf)" and p: "sv_payload v = Some p"
  have "size p < size v" using p by (cases v) auto
  also have "\<dots> < Suc (size_list size (sf_variants sf))" using v by (induction "sf_variants sf" arbitrary: sf) (auto simp: less_Suc_eq_le size_list_estimation')
  also have "\<dots> \<le> size sf" by (cases sf) simp
  finally show ?thesis .
qed

lemma size_payload2:
  assumes "v \<in> set (sf_variants sf)" and "sv_payload v = Some p"
  shows "Suc (size p) < size sf"
proof -
  have "Suc (size p) < size v" using assms(2) by (cases v) auto
  also have "\<dots> < Suc (size_list size (sf_variants sf))" using assms(1)
    by (induction "sf_variants sf" arbitrary: sf) (auto simp: less_Suc_eq_le size_list_estimation')
  also have "\<dots> \<le> size sf" by (cases sf) simp
  finally show ?thesis .
qed

lemma size_in_list: "x \<in> set xs \<Longrightarrow> size x < size_list size xs"
  by (induction xs) auto

termination decodeScalar
  by (relation "measure (case_sum (\<lambda>(env, typ, fs, r). Suc (2 * size_list size fs))
                          (case_sum (\<lambda>(env, sf, r). 2 * size sf)
                                    (\<lambda>(env, raw, fs). 2 * size_list size fs)))")
     (auto simp: size_sf_fields dest!: findSchemaVariant_in dest: size_payload size_in_list)

declare decodeScalar.simps [simp del]
declare decodeField.simps [simp del]
declare DecodeFieldMap.simps [simp del]

text \<open>The scalar codec, by kind.\<close>

lemma decodeScalar_kinds:
  "decodeScalar env k_uint8 sfs r = map_res (\<lambda>i. FU8 (word_of_int i)) (numFromJSON env 8 False r)"
  "decodeScalar env k_uint16 sfs r = map_res (\<lambda>i. FU16 (word_of_int i)) (numFromJSON env 16 False r)"
  "decodeScalar env k_uint32 sfs r = map_res (\<lambda>i. FU32 (word_of_int i)) (numFromJSON env 32 False r)"
  "decodeScalar env k_int8 sfs r = map_res (\<lambda>i. FI8 (word_of_int i)) (numFromJSON env 8 True r)"
  "decodeScalar env k_int16 sfs r = map_res (\<lambda>i. FI16 (word_of_int i)) (numFromJSON env 16 True r)"
  "decodeScalar env k_int32 sfs r = map_res (\<lambda>i. FI32 (word_of_int i)) (numFromJSON env 32 True r)"
  "decodeScalar env k_uint64 sfs r = map_res FU64 (uintFromString r)"
  "decodeScalar env k_int64 sfs r = map_res FI64 (intFromString r)"
  "decodeScalar env k_uint128 sfs r = map_res (\<lambda>i. FBig (Some i)) (bigFromString r False)"
  "decodeScalar env k_int128 sfs r = map_res (\<lambda>i. FBig (Some i)) (bigFromString r True)"
  "decodeScalar env k_float32 sfs r = map_res (\<lambda>b. FF32 (word_of_nat (le_num b))) (hexBytes r 4)"
  "decodeScalar env k_float64 sfs r = map_res (\<lambda>b. FF64 (word_of_nat (le_num b))) (hexBytes r 8)"
  "decodeScalar env k_bool sfs r = map_res FBool (json_bool r)"
  "decodeScalar env k_string sfs r = map_res FStr (json_string r)"
  "decodeScalar env k_bytes sfs r = rbind (json_string r) (\<lambda>s. case hex_decode s of None \<Rightarrow> Inl CHex | Some b \<Rightarrow> Inr (FBytes b))"
  "decodeScalar env k_struct sfs r = rbind (json_object r) (\<lambda>obj. map_res (\<lambda>m. FFM (Some m)) (DecodeFieldMap env obj sfs))"
  by (simp_all add: decodeScalar.simps)

lemmas decode_defs = collectList_def decodeList_def decodeOptional_def decodeArray_def decodeMap_def

subsection \<open>Encoding\<close>

text \<open>\<open>EncodeFieldMap\<close> builds the response's \<open>map[string]any\<close> of strings, \<open>nil\<close>, \<open>[]any\<close>,
  \<open>map[string]any\<close> and, for the small integers, booleans and strings, the stored value as it is.
  A dereference of a nil pointer is \<open>CPanic\<close>.\<close>

definition encodeEachList ::
  "(string \<Rightarrow> fval \<Rightarrow> codec_error + fval) \<Rightarrow> gtype \<Rightarrow> string \<Rightarrow> fval \<Rightarrow> codec_error + fval" where
  "encodeEachList enc t elemType v =
     (case as_slice t v of
        None \<Rightarrow> Inl (CWrongType elemType)
      | Some arr \<Rightarrow> map_res FAnys (mapMi (\<lambda>i x. map_err (CAtIndex i) (enc elemType x)) arr))"

definition encodeList ::
  "(string \<Rightarrow> fval \<Rightarrow> codec_error + fval) \<Rightarrow> string \<Rightarrow> fval \<Rightarrow> codec_error + fval" where
  "encodeList enc elemType v =
     (case map_of list_elem_types elemType of
        None \<Rightarrow> Inl (CListType elemType)
      | Some t \<Rightarrow> encodeEachList enc t elemType v)"

definition encodeOptional ::
  "(string \<Rightarrow> fval \<Rightarrow> codec_error + fval) \<Rightarrow> string \<Rightarrow> fval \<Rightarrow> codec_error + fval" where
  "encodeOptional enc elemType v =
     (if v = FNil then Inr FNil
      else if elemType = k_string then
        (case v of
           FStr x \<Rightarrow> Inr (FStr x)
         | FStrPtr None \<Rightarrow> Inr FNil
         | FStrPtr (Some x) \<Rightarrow> Inr (FStr x)
         | _ \<Rightarrow> Inl (CWrongType elemType))
      else enc elemType v)"

definition encodeMap ::
  "(string \<Rightarrow> fval \<Rightarrow> codec_error + fval) \<Rightarrow> string \<Rightarrow> fval \<Rightarrow> codec_error + fval" where
  "encodeMap enc typ v =
     (case v of
        FMap m \<Rightarrow>
          (case mapValueType typ of
             None \<Rightarrow> Inl CPanic
           | Some valType \<Rightarrow>
               map_res FMap (mapM_vals (\<lambda>k mv. map_err (CAtKey k) (enc valType mv)) m))
      | _ \<Rightarrow> Inl (CWrongType typ))"

definition bigToString :: "fval \<Rightarrow> codec_error + string" where
  "bigToString v =
     (case v of
        FBig None \<Rightarrow> Inr ''0''
      | FBig (Some n) \<Rightarrow> Inr (itoa n)
      | _ \<Rightarrow> Inl (CWrongType ''*big.Int''))"

function encodeScalar ::
    "string \<Rightarrow> schema_field list \<Rightarrow> fval \<Rightarrow> codec_error + fval"
  and encodeField :: "schema_field \<Rightarrow> fval \<Rightarrow> codec_error + fval"
  and EncodeFieldMap :: "field_map \<Rightarrow> schema_field list \<Rightarrow> codec_error + fval gomap" where
  "encodeScalar typ sfs v =
     (if typ \<in> {k_uint8, k_uint16, k_uint32, k_int8, k_int16, k_int32, k_bool, k_string} then Inr v
      else if typ = k_uint128 \<or> typ = k_int128 then map_res FStr (bigToString v)
      else if typ = k_uint64 then
        (case v of FU64 n \<Rightarrow> Inr (FStr (itoa (uint n))) | _ \<Rightarrow> Inl (CWrongType typ))
      else if typ = k_int64 then
        (case v of FI64 n \<Rightarrow> Inr (FStr (itoa (sint n))) | _ \<Rightarrow> Inl (CWrongType typ))
      else if typ = k_float32 then
        (case v of FF32 x \<Rightarrow> Inr (FStr (floatHex (unat x) 4)) | _ \<Rightarrow> Inl (CWrongType typ))
      else if typ = k_float64 then
        (case v of FF64 x \<Rightarrow> Inr (FStr (floatHex (unat x) 8)) | _ \<Rightarrow> Inl (CWrongType typ))
      else if typ = k_bytes then
        (case v of FBytes b \<Rightarrow> Inr (FStr (hex_encode b)) | _ \<Rightarrow> Inl (CWrongType typ))
      else if typ = k_struct then
        (case v of
           FFM None \<Rightarrow> (if sfs = [] then Inr (FMap []) else Inl CPanic)
         | FFM (Some m) \<Rightarrow> map_res FMap (EncodeFieldMap m sfs)
         | _ \<Rightarrow> Inl (CWrongType typ))
      else Inl (CUnknownType typ))"
| "encodeField sf v =
     (let typ = sf_type sf in
      if has_prefix typ ''list<'' then
        (case strip_type 5 typ of None \<Rightarrow> Inl CPanic
         | Some t \<Rightarrow> encodeList (\<lambda>ty x. encodeScalar ty (sf_fields sf) x) t v)
      else if has_prefix typ ''optional<'' then
        (case strip_type 9 typ of None \<Rightarrow> Inl CPanic
         | Some t \<Rightarrow> encodeOptional (\<lambda>ty x. encodeScalar ty (sf_fields sf) x) t v)
      else if has_prefix typ ''enum<'' then
        (case v of FStr s \<Rightarrow> Inr (FStr s) | _ \<Rightarrow> Inl (CWrongType typ))
      else if has_prefix typ ''sum<'' then
        (case v of
           FVariant None \<Rightarrow> Inl CPanic
         | FVariant (Some (tag, x)) \<Rightarrow>
             (case findSchemaVariant (sf_variants sf) tag of
                None \<Rightarrow> Inl (CUnknownVariant tag)
              | Some sv \<Rightarrow>
                  (case sv_payload sv of
                     None \<Rightarrow> Inr (FMap [(tag, FNil)])
                   | Some p \<Rightarrow>
                       map_res (\<lambda>m. FMap [(tag, case map_of m (sf_name p) of None \<Rightarrow> FNil | Some e \<Rightarrow> e)])
                         (map_err (CAtVariant tag) (EncodeFieldMap [(sf_name p, x)] [p]))))
         | _ \<Rightarrow> Inl (CWrongType typ))
      else if has_prefix typ ''array<'' then
        (case arrayElemType typ of None \<Rightarrow> Inl CPanic
         | Some t \<Rightarrow> encodeList (\<lambda>ty x. encodeScalar ty (sf_fields sf) x) t v)
      else if has_prefix typ ''map<'' then encodeMap (\<lambda>ty x. encodeScalar ty (sf_fields sf) x) typ v
      else encodeScalar typ (sf_fields sf) v)"
| "EncodeFieldMap fm schema =
     build_map (\<lambda>sf. case map_of fm (sf_name sf) of
         None \<Rightarrow> Inr None
       | Some v \<Rightarrow> map_res (\<lambda>e. Some (sf_name sf, e))
                     (map_err (CAtField (sf_name sf)) (encodeField sf v))) [] schema"
  by pat_completeness auto

termination encodeScalar
  by (relation "measure (case_sum (\<lambda>(typ, fs, v). Suc (2 * size_list size fs))
                          (case_sum (\<lambda>(sf, v). 2 * size sf)
                                    (\<lambda>(fm, fs). 2 * size_list size fs)))")
     (auto simp: size_sf_fields dest!: findSchemaVariant_in dest: size_payload2 size_in_list)

declare encodeScalar.simps [simp del]
declare encodeField.simps [simp del]
declare EncodeFieldMap.simps [simp del]

lemma encodeScalar_kinds:
  "encodeScalar k_uint8 sfs v = Inr v"
  "encodeScalar k_uint16 sfs v = Inr v"
  "encodeScalar k_uint32 sfs v = Inr v"
  "encodeScalar k_int8 sfs v = Inr v"
  "encodeScalar k_int16 sfs v = Inr v"
  "encodeScalar k_int32 sfs v = Inr v"
  "encodeScalar k_bool sfs v = Inr v"
  "encodeScalar k_string sfs v = Inr v"
  "encodeScalar k_uint128 sfs v = map_res FStr (bigToString v)"
  "encodeScalar k_int128 sfs v = map_res FStr (bigToString v)"
  "encodeScalar k_uint64 sfs v = (case v of FU64 n \<Rightarrow> Inr (FStr (itoa (uint n))) | _ \<Rightarrow> Inl (CWrongType k_uint64))"
  "encodeScalar k_int64 sfs v = (case v of FI64 n \<Rightarrow> Inr (FStr (itoa (sint n))) | _ \<Rightarrow> Inl (CWrongType k_int64))"
  "encodeScalar k_float32 sfs v = (case v of FF32 x \<Rightarrow> Inr (FStr (floatHex (unat x) 4)) | _ \<Rightarrow> Inl (CWrongType k_float32))"
  "encodeScalar k_float64 sfs v = (case v of FF64 x \<Rightarrow> Inr (FStr (floatHex (unat x) 8)) | _ \<Rightarrow> Inl (CWrongType k_float64))"
  "encodeScalar k_bytes sfs v = (case v of FBytes b \<Rightarrow> Inr (FStr (hex_encode b)) | _ \<Rightarrow> Inl (CWrongType k_bytes))"
  "encodeScalar k_struct sfs v = (case v of
           FFM None \<Rightarrow> (if sfs = [] then Inr (FMap []) else Inl CPanic)
         | FFM (Some m) \<Rightarrow> map_res FMap (EncodeFieldMap m sfs)
         | _ \<Rightarrow> Inl (CWrongType k_struct))"
  by (simp_all add: encodeScalar.simps)

lemmas encode_defs = encodeEachList_def encodeList_def encodeOptional_def encodeMap_def bigToString_def

text \<open>\<open>json.Marshal\<close> of the encoded values; \<open>other\<close> is the JSON of a value the encoders pass on
  unchecked and that is not of its field's type.\<close>

fun fval_json :: "(fval \<Rightarrow> json option) \<Rightarrow> fval \<Rightarrow> json option" where
  "fval_json other FNil = Some JNull"
| "fval_json other (FU8 w) = Some (JNum (f64_of_int (uint w)))"
| "fval_json other (FU16 w) = Some (JNum (f64_of_int (uint w)))"
| "fval_json other (FU32 w) = Some (JNum (f64_of_int (uint w)))"
| "fval_json other (FI8 w) = Some (JNum (f64_of_int (sint w)))"
| "fval_json other (FI16 w) = Some (JNum (f64_of_int (sint w)))"
| "fval_json other (FI32 w) = Some (JNum (f64_of_int (sint w)))"
| "fval_json other (FBool b) = Some (JBool b)"
| "fval_json other (FStr s) = Some (JStr s)"
| "fval_json other (FAnys vs) = map_option JArr (json_seq (map (fval_json other) vs))"
| "fval_json other (FMap m) =
     map_option (\<lambda>js. JObj (zip (map fst m) js)) (json_seq (map (\<lambda>(k, v). fval_json other v) m))"
| "fval_json other v = other v"

end
