(* ===== verification/RoundTrip.thy ===== *)
theory RoundTrip
  imports Proto Codec
begin

section \<open>The two halves of the wire format agree\<close>

text \<open>
  The contract between the runner's encoder (internal/proto) and the worker library's codec
  (lib/go/serify/protocol.go): \<open>wire_val ft j\<close> says that \<open>j\<close> is a wire value of the type, and a
  worker that decodes such a value by the bind message's schema and encodes the FieldMap again
  sends the same value back. \<open>supported\<close> delimits the types: list, optional and map elements are
  scalars or structs (the codec rejects others), array elements scalars.
\<close>

subsection \<open>Wire values of a type\<close>

definition wire_int :: "nat \<Rightarrow> bool \<Rightarrow> json \<Rightarrow> bool" where
  "wire_int w sg j =
     (case j of
        JNum x \<Rightarrow> (case f64_trunc x of
            None \<Rightarrow> False
          | Some i \<Rightarrow> in_range (int_lo w sg) (int_hi w sg) i \<and> x = f64_of_int i)
      | _ \<Rightarrow> False)"

definition wire_decimal :: "int \<Rightarrow> int \<Rightarrow> json \<Rightarrow> bool" where
  "wire_decimal lo hi j =
     (case j of
        JStr s \<Rightarrow> (case read_int s of None \<Rightarrow> False | Some i \<Rightarrow> in_range lo hi i \<and> s = itoa i)
      | _ \<Rightarrow> False)"

definition wire_hex :: "nat option \<Rightarrow> json \<Rightarrow> bool" where
  "wire_hex n j =
     (case j of
        JStr s \<Rightarrow> (case hex_decode s of
            None \<Rightarrow> False
          | Some b \<Rightarrow> hex_encode b = s \<and> (case n of None \<Rightarrow> True | Some k \<Rightarrow> length b = k))
      | _ \<Rightarrow> False)"

definition wire_scalar :: "string \<Rightarrow> json \<Rightarrow> bool" where
  "wire_scalar b j =
     (if b = k_uint8 then wire_int 8 False j
      else if b = k_uint16 then wire_int 16 False j
      else if b = k_uint32 then wire_int 32 False j
      else if b = k_int8 then wire_int 8 True j
      else if b = k_int16 then wire_int 16 True j
      else if b = k_int32 then wire_int 32 True j
      else if b = k_uint64 then wire_decimal 0 (2 ^ 64 - 1) j
      else if b = k_int64 then wire_decimal (- (2 ^ 63)) (2 ^ 63 - 1) j
      else if b = k_uint128 then wire_decimal 0 (2 ^ 128 - 1) j
      else if b = k_int128 then wire_decimal (- (2 ^ 127)) (2 ^ 127 - 1) j
      else if b = k_float32 then wire_hex (Some 4) j
      else if b = k_float64 then wire_hex (Some 8) j
      else if b = k_bool then (case j of JBool _ \<Rightarrow> True | _ \<Rightarrow> False)
      else if b = k_string then (case j of JStr _ \<Rightarrow> True | _ \<Rightarrow> False)
      else b = k_bytes \<and> wire_hex None j)"

lemma wire_scalar_kinds:
  "wire_scalar k_uint8 j = wire_int 8 False j"
  "wire_scalar k_uint16 j = wire_int 16 False j"
  "wire_scalar k_uint32 j = wire_int 32 False j"
  "wire_scalar k_int8 j = wire_int 8 True j"
  "wire_scalar k_int16 j = wire_int 16 True j"
  "wire_scalar k_int32 j = wire_int 32 True j"
  "wire_scalar k_uint64 j = wire_decimal 0 (2 ^ 64 - 1) j"
  "wire_scalar k_int64 j = wire_decimal (- (2 ^ 63)) (2 ^ 63 - 1) j"
  "wire_scalar k_uint128 j = wire_decimal 0 (2 ^ 128 - 1) j"
  "wire_scalar k_int128 j = wire_decimal (- (2 ^ 127)) (2 ^ 127 - 1) j"
  "wire_scalar k_float32 j = wire_hex (Some 4) j"
  "wire_scalar k_float64 j = wire_hex (Some 8) j"
  "wire_scalar k_bool j = (case j of JBool _ \<Rightarrow> True | _ \<Rightarrow> False)"
  "wire_scalar k_string j = (case j of JStr _ \<Rightarrow> True | _ \<Rightarrow> False)"
  "wire_scalar k_bytes j = wire_hex None j"
  by (simp_all add: wire_scalar_def)

function wire_val :: "field_type \<Rightarrow> json \<Rightarrow> bool" where
  "wire_val (Ftype b e k n fs vs vrs) j =
     (if b \<in> set Scalars then wire_scalar b j
      else if b = k_struct then
        (case j of
           JObj m \<Rightarrow> map_wf m \<and> list_all (\<lambda>(key, x). key \<in> FName ` set fs) m \<and>
             list_all (\<lambda>f. case map_of m (FName f) of None \<Rightarrow> True | Some x \<Rightarrow> wire_val (FType f) x) fs
         | _ \<Rightarrow> False)
      else if b = k_optional then
        j = JNull \<or> (case e of None \<Rightarrow> False | Some t \<Rightarrow> wire_val t j)
      else if b = k_list \<or> b = k_array then
        (case j of
           JArr js \<Rightarrow> (b = k_array \<longrightarrow> int (length js) = n) \<and>
             (case e of None \<Rightarrow> False | Some t \<Rightarrow> list_all (wire_val t) js)
         | _ \<Rightarrow> False)
      else if b = k_map then
        (case j of
           JObj m \<Rightarrow> map_wf m \<and>
             (case e of None \<Rightarrow> False | Some t \<Rightarrow> list_all (\<lambda>(key, x). wire_val t x) m)
         | _ \<Rightarrow> False)
      else if b = k_enum then (case j of JStr s \<Rightarrow> s \<in> set vs | _ \<Rightarrow> False)
      else b = k_sum \<and>
        (case j of
           JObj [(tag, p)] \<Rightarrow>
             (case findVariant vrs tag of
                None \<Rightarrow> False
              | Some v \<Rightarrow> (case VType v of None \<Rightarrow> p = JNull | Some t \<Rightarrow> wire_val t p))
         | _ \<Rightarrow> False))"
  by pat_completeness auto

termination
  by (relation "measure (\<lambda>(ft, j). size ft)") (auto dest!: size_FType_le findVariant_size)

declare wire_val.simps [simp del]

lemma wire_val_ctors:
  "b \<in> set Scalars \<Longrightarrow> wire_val (base_ft b) j = wire_scalar b j"
  "wire_val (struct_ft fs) j =
     (case j of
        JObj m \<Rightarrow> map_wf m \<and> list_all (\<lambda>(key, x). key \<in> FName ` set fs) m \<and>
          list_all (\<lambda>f. case map_of m (FName f) of None \<Rightarrow> True | Some x \<Rightarrow> wire_val (FType f) x) fs
      | _ \<Rightarrow> False)"
  "wire_val (elem_ft k_optional t) j = (j = JNull \<or> wire_val t j)"
  "wire_val (elem_ft k_list t) j = (case j of JArr js \<Rightarrow> list_all (wire_val t) js | _ \<Rightarrow> False)"
  "wire_val (array_ft t n) j =
     (case j of JArr js \<Rightarrow> int (length js) = n \<and> list_all (wire_val t) js | _ \<Rightarrow> False)"
  "wire_val (map_ft tk t) j =
     (case j of JObj m \<Rightarrow> map_wf m \<and> list_all (\<lambda>(key, x). wire_val t x) m | _ \<Rightarrow> False)"
  "wire_val (enum_ft es) j = (case j of JStr s \<Rightarrow> s \<in> set es | _ \<Rightarrow> False)"
  "wire_val (sum_ft vrs) j =
     (case j of
        JObj [(tag, p)] \<Rightarrow>
          (case findVariant vrs tag of
             None \<Rightarrow> False
           | Some v \<Rightarrow> (case VType v of None \<Rightarrow> p = JNull | Some t \<Rightarrow> wire_val t p))
      | _ \<Rightarrow> False)"
  by (simp_all add: wire_val.simps ft_ctor_defs Scalars_def cong: json.case_cong)

text \<open>The types the round trip covers. A map's value type is found by splitting the printed key
  and value at the comma, so the key is a scalar; a length is printed and read as an \<open>int\<close>.\<close>

definition flat_elem :: "field_type \<Rightarrow> bool" where
  "flat_elem t \<longleftrightarrow> Base t \<in> set Scalars \<or> Base t = k_struct"

function supported :: "field_type \<Rightarrow> bool" where
  "supported (Ftype b e k n fs vs vrs) =
     (if b \<in> set Scalars \<or> b = k_enum then True
      else if b = k_struct then
        distinct (map FName fs) \<and> list_all (\<lambda>f. supported (FType f)) fs
      else if b = k_optional \<or> b = k_list then
        (case e of None \<Rightarrow> False | Some t \<Rightarrow> flat_elem t \<and> supported t)
      else if b = k_array then
        (case e of None \<Rightarrow> False | Some t \<Rightarrow> Base t \<in> set Scalars \<and> in_range 0 (2 ^ 63 - 1) n)
      else if b = k_map then
        (case e of None \<Rightarrow> False | Some t \<Rightarrow> flat_elem t \<and> supported t) \<and>
        (case k of None \<Rightarrow> False | Some t \<Rightarrow> Base t \<in> set Scalars)
      else b = k_sum \<and>
        list_all (\<lambda>v. case VType v of None \<Rightarrow> True | Some t \<Rightarrow> supported t) vrs)"
  by pat_completeness auto

termination
  by (relation "measure size") (auto dest!: size_FType_le size_VType_le)

declare supported.simps [simp del]

lemma supported_ctors:
  "supported (struct_ft fs) \<longleftrightarrow> distinct (map FName fs) \<and> list_all (\<lambda>f. supported (FType f)) fs"
  "b = k_optional \<or> b = k_list \<Longrightarrow> supported (elem_ft b t) \<longleftrightarrow> flat_elem t \<and> supported t"
  "supported (array_ft t n) \<longleftrightarrow> Base t \<in> set Scalars \<and> in_range 0 (2 ^ 63 - 1) n"
  "supported (map_ft tk t) \<longleftrightarrow> flat_elem t \<and> supported t \<and> Base tk \<in> set Scalars"
  "supported (sum_ft vrs) \<longleftrightarrow>
     list_all (\<lambda>v. case VType v of None \<Rightarrow> True | Some t \<Rightarrow> supported t) vrs"
  by (auto simp: supported.simps ft_ctor_defs Scalars_def)

subsection \<open>Schemas of the constructors\<close>

definition nested_schema :: "field_type \<Rightarrow> unit + schema_field list" where
  "nested_schema t = (if Base t = k_struct then SchemaFields (Fields t) else Inr [])"

lemma schemaFieldOfType_ctors:
  "b \<in> set Scalars \<Longrightarrow> schemaFieldOfType nm (base_ft b) = Inr (SchemaField nm b [] [] [] [])"
  "schemaFieldOfType nm (struct_ft fs) =
     rbind (SchemaFields fs) (\<lambda>gs. Inr (SchemaField nm k_struct gs [] [] []))"
  "b = k_optional \<or> b = k_list \<Longrightarrow> schemaFieldOfType nm (elem_ft b t) =
     rbind (nested_schema t) (\<lambda>gs. Inr (SchemaField nm (ft_string (elem_ft b t)) gs [] [] []))"
  "schemaFieldOfType nm (array_ft t n) =
     Inr (SchemaField nm (ft_string (array_ft t n)) [] [] [] [])"
  "schemaFieldOfType nm (map_ft tk t) =
     rbind (nested_schema t)
       (\<lambda>gs. Inr (SchemaField nm (ft_string (map_ft tk t)) gs (ft_string tk) [] []))"
  "schemaFieldOfType nm (enum_ft es) =
     Inr (SchemaField nm (ft_string (enum_ft es)) [] [] [] [])"
  "schemaFieldOfType nm (sum_ft vrs) =
     rbind (mapM (\<lambda>v. case VType v of
                None \<Rightarrow> Inr (SchemaVariant (VName v) None)
              | Some t \<Rightarrow> rbind (schemaFieldOfType (VName v) t)
                            (\<lambda>p. Inr (SchemaVariant (VName v) (Some p)))) vrs)
       (\<lambda>svs. Inr (SchemaField nm (ft_string (sum_ft vrs)) [] [] svs []))"
  by (auto simp: schemaFieldOfType.simps nested_schema_def ft_ctor_defs Scalars_def ft_string.simps
      cong: rbind_cong)

lemma nested_schema_flat:
  "b \<in> set Scalars \<Longrightarrow> nested_schema (base_ft b) = Inr []"
  "nested_schema (struct_ft fs) = SchemaFields fs"
  by (auto simp: nested_schema_def ft_ctor_defs Scalars_def)

text \<open>A flat element type is a scalar or a struct, and its printed name is its base.\<close>

lemma flat_elem_cases:
  assumes "wf_ft t" and "flat_elem t"
  obtains b where "b \<in> set Scalars" "t = base_ft b" | fs where "t = struct_ft fs"
  using assms by (cases rule: wf_ft_cases) (auto simp: flat_elem_def ft_ctor_defs Scalars_def)

definition flat_names :: "string list" where
  "flat_names = k_struct # Scalars"

lemma flat_elem_name:
  assumes "wf_ft t" and "flat_elem t"
  shows "ft_string t \<in> set flat_names"
  using assms by (cases rule: flat_elem_cases) (auto simp: ft_string_ctors base_ft_def flat_names_def)

lemma flat_names_plain:
  assumes "b \<in> set flat_names"
  shows "\<not> has_prefix b ''list<''" "\<not> has_prefix b ''optional<''" "\<not> has_prefix b ''array<''"
    "\<not> has_prefix b ''map<''" "\<not> has_prefix b ''enum<''" "\<not> has_prefix b ''sum<''"
    "bracket_free b" "CHR '','' \<notin> set b" "trim_space b = b"
    "\<exists>t. map_of list_elem_types b = Some t"
  using assms
  by (auto simp: flat_names_def Scalars_def has_prefix_def bracket_free_def list_elem_types_def)
     code_simp+

lemma decodeField_flat:
  "sf_type sf \<in> set flat_names \<Longrightarrow> decodeField env sf r = decodeScalar env (sf_type sf) (sf_fields sf) r"
  by (simp add: decodeField.simps flat_names_plain)

lemma encodeField_flat:
  "sf_type sf \<in> set flat_names \<Longrightarrow> encodeField sf v = encodeScalar (sf_type sf) (sf_fields sf) v"
  by (simp add: encodeField.simps flat_names_plain)

text \<open>The printed forms, taken apart.\<close>

lemma strip_type_wrapped: "length p = n \<Longrightarrow> strip_type n (p @ s @ ''>'') = Some s"
  by (simp add: strip_type_def butlast_append)

lemma array_string:
  assumes "b \<in> set Scalars" and "in_range 0 (2 ^ 63 - 1) n"
  shows "arrayElemType (''array<'' @ b @ '','' @ itoa n @ ''>'') = Some b"
    and "arrayLen (''array<'' @ b @ '','' @ itoa n @ ''>'') = Some n"
proof -
  have s: "strip_type 6 (''array<'' @ b @ '','' @ itoa n @ ''>'') = Some (b @ CHR '','' # itoa n)"
    using strip_type_wrapped [of "''array<''" 6 "b @ '','' @ itoa n"] by simp
  have c: "CHR '','' \<notin> set (itoa n)" by (auto dest: itoa_chars simp: is_digit_def)
  have t: "trim_space b = b" using assms(1) by (intro flat_names_plain) (simp add: flat_names_def)
  have l: "last_index CHR '','' (b @ CHR '','' # itoa n) = Some (length b)"
    using c by (rule last_index_append)
  have r: "in_range (- (2 ^ 63)) (2 ^ 63 - 1) n" using assms(2) by (simp add: in_range_def)
  show "arrayElemType (''array<'' @ b @ '','' @ itoa n @ ''>'') = Some b"
    unfolding arrayElemType_def s by (simp add: l t)
  show "arrayLen (''array<'' @ b @ '','' @ itoa n @ ''>'') = Some n"
    unfolding arrayLen_def s by (simp add: l parse_int64_itoa [OF r])
qed

lemma map_string:
  assumes "k \<in> set Scalars" and "b \<in> set flat_names"
  shows "mapValueType (''map<'' @ k @ '','' @ b @ ''>'') = Some b"
proof -
  have s: "strip_type 4 (''map<'' @ k @ '','' @ b @ ''>'') = Some (join '','' [k, b])"
    using strip_type_wrapped [of "''map<''" 4 "k @ '','' @ b"] by simp
  have k: "k \<in> set flat_names" using assms(1) by (simp add: flat_names_def)
  have "SplitTopLevel (join '','' [k, b]) = [k, b]"
    using k assms(2) by (intro SplitTopLevel_join) (auto intro: nesting_bracket_free simp: flat_names_plain)
  with assms(2) show ?thesis unfolding mapValueType_def s by (simp add: flat_names_plain)
qed

subsection \<open>Scalars\<close>

text \<open>What the codec does with one value: it decodes to something of a known dynamic type, which
  is not nil, and encodes to the same JSON value.\<close>

definition scalar_rt ::
  "go_env \<Rightarrow> (fval \<Rightarrow> json option) \<Rightarrow> string \<Rightarrow> schema_field list \<Rightarrow> json \<Rightarrow> bool" where
  "scalar_rt env other ty sfs j \<longleftrightarrow>
     (\<exists>v w j'. decodeScalar env ty sfs j = Inr v \<and> encodeScalar ty sfs v = Inr w \<and>
        fval_json other w = Some j' \<and> json_eq j j')"

definition field_rt :: "go_env \<Rightarrow> (fval \<Rightarrow> json option) \<Rightarrow> schema_field \<Rightarrow> json \<Rightarrow> bool" where
  "field_rt env other sf j \<longleftrightarrow>
     (\<exists>v w j'. decodeField env sf j = Inr v \<and> encodeField sf v = Inr w \<and>
        fval_json other w = Some j' \<and> json_eq j j')"

lemma field_rt_flat:
  "sf_type sf \<in> set flat_names \<Longrightarrow>
     field_rt env other sf j = scalar_rt env other (sf_type sf) (sf_fields sf) j"
  by (simp add: field_rt_def scalar_rt_def decodeField_flat encodeField_flat)

lemma decodeScalar_gtype:
  assumes "map_of list_elem_types ty = Some t" and "decodeScalar env ty sfs j = Inr v"
  shows "has_gtype t v"
  using assms
  by (auto simp: list_elem_types_def decodeScalar.simps has_gtype_def res_inv
      split: if_splits option.splits)

lemma wire_intE:
  assumes "wire_int w sg j"
  obtains i where "j = JNum (f64_of_int i)" "in_range (int_lo w sg) (int_hi w sg) i"
    "\<forall>env. numFromJSON env w sg j = Inr i"
  using assms
  by (auto simp: wire_int_def numFromJSON_def f64_to_int_def split: json.splits option.splits)

lemma wire_decimalE:
  assumes "wire_decimal lo hi j"
  obtains i where "j = JStr (itoa i)" "in_range lo hi i"
  using assms by (auto simp: wire_decimal_def split: json.splits option.splits)

lemma wire_hexE:
  assumes "wire_hex n j"
  obtains b where "j = JStr (hex_encode b)" "case n of None \<Rightarrow> True | Some k \<Rightarrow> length b = k"
  using assms by (auto simp: wire_hex_def split: json.splits option.splits)

lemma floatHex_le_num:
  assumes "length b = n" and "n \<le> 8" and "8 * n \<le> LENGTH('a::len)"
  shows "floatHex (unat (word_of_nat (le_num b) :: 'a word)) n = hex_encode b"
proof -
  have "le_num b < 256 ^ n" using le_num_less [of b] assms(1) by simp
  also have "(256::nat) ^ n = 2 ^ (8 * n)" by (simp add: power_mult)
  also have "\<dots> \<le> 2 ^ LENGTH('a)" using assms(3) by (intro power_increasing) simp_all
  finally have u: "unat (word_of_nat (le_num b) :: 'a word) = le_num b" by (rule unat_word_of_nat)
  have "take n (le_bytes 8 (le_num b)) = le_bytes n (le_num b)" using assms(2) by (rule take_le_bytes)
  also have "\<dots> = b" using le_bytes_num [of b] assms(1) by simp
  finally show ?thesis by (simp add: floatHex_def u)
qed

lemma scalar_round_trip:
  assumes "b \<in> set Scalars" and "wire_scalar b j"
  shows "scalar_rt env other b sfs j"
proof -
  note kinds = wire_scalar_kinds decodeScalar_kinds encodeScalar_kinds scalar_rt_def
  note ranges = int_lo_def int_hi_def in_range_def take_bit_int_eq_self unsigned_of_int
    signed_take_bit_int_eq_self signed_of_int
  note numbers = uintFromString_def intFromString_def parse_uint64_itoa parse_int64_itoa
    bigFromString_def bigToString_def maxU128_def maxI128_def minI128_def
  show ?thesis using assms unfolding Scalars_def list.set
    by (elim insertE emptyE; simp only: kinds;
        (elim wire_intE wire_decimalE wire_hexE)?;
        simp add: ranges numbers hexBytes_def floatHex_le_num split: json.splits)
qed

subsection \<open>Containers\<close>

lemma slice_len_mk_slice:
  assumes "\<And>v. v \<in> set vs \<Longrightarrow> has_gtype t v"
  shows "slice_len (mk_slice t vs) = length vs"
proof -
  have "length (List.map_filter asU8 vs) = length vs" if "t = TU8"
    using assms unfolding that has_gtype_TU8 by (induction vs) (force simp: asU8_def)+
  then show ?thesis by (simp add: slice_len_def mk_slice_def)
qed

lemma decodeScalar_not_nil:
  assumes "b \<in> set flat_names" and "decodeScalar env b sfs j = Inr v"
  shows "v \<noteq> FNil"
  using flat_names_plain(10) [OF assms(1)] decodeScalar_gtype [OF _ assms(2)]
  by (auto simp: has_gtype_def)

lemma scalar_rtE:
  assumes "\<forall>x \<in> A. scalar_rt env other b sfs x"
  obtains v w j' where "\<forall>x \<in> A. decodeScalar env b sfs x = Inr (v x)"
    "\<forall>x \<in> A. encodeScalar b sfs (v x) = Inr (w x)"
    "\<forall>x \<in> A. fval_json other (w x) = Some (j' x)"
    "\<forall>x \<in> A. json_eq x (j' x)"
  using assms unfolding scalar_rt_def by metis

lemma list_rt:
  assumes b: "b \<in> set flat_names" and e: "\<And>x. x \<in> set js \<Longrightarrow> scalar_rt env other b sfs x"
  shows "\<exists>v w j'. decodeList (\<lambda>ty j. decodeScalar env ty sfs j) b (JArr js) = Inr v \<and>
    slice_len v = length js \<and> encodeList (\<lambda>ty x. encodeScalar ty sfs x) b v = Inr w \<and>
    fval_json other w = Some j' \<and> json_eq (JArr js) j'"
proof -
  have "\<forall>x \<in> set js. scalar_rt env other b sfs x" using e by blast
  then obtain v w j' where vw': "\<forall>x \<in> set js. decodeScalar env b sfs x = Inr (v x)"
    "\<forall>x \<in> set js. encodeScalar b sfs (v x) = Inr (w x)"
    "\<forall>x \<in> set js. fval_json other (w x) = Some (j' x)"
    "\<forall>x \<in> set js. json_eq x (j' x)" by (rule scalar_rtE)
  note vw = vw' [rule_format]
  obtain t where t: "map_of list_elem_types b = Some t" using flat_names_plain(10) [OF b] by blast
  have g: "has_gtype t (v x)" if "x \<in> set js" for x using decodeScalar_gtype [OF t vw(1)] that by simp
  have "decodeList (\<lambda>ty j. decodeScalar env ty sfs j) b (JArr js) = Inr (mk_slice t (map v js))"
    using g by (simp add: decodeList_def collectList_def t vw(1) mapMi_Inr_map [where g = v])
  moreover have "as_slice t (mk_slice t (map v js)) = Some (map v js)"
    using g by (intro as_slice_mk_slice) auto
  then have "encodeList (\<lambda>ty x. encodeScalar ty sfs x) b (mk_slice t (map v js)) = Inr (FAnys (map w js))"
    using vw(2) by (simp add: encodeList_def encodeEachList_def t map_res_eq_Inr mapMi_Inr_conv)
  moreover have "slice_len (mk_slice t (map v js)) = length js"
    using g slice_len_mk_slice [of "map v js" t] by auto
  moreover have "fval_json other (FAnys (map w js)) = Some (JArr (map j' js))"
    using json_seq_map [of js "\<lambda>x. fval_json other (w x)" j'] vw(3) by (simp add: comp_def)
  moreover have "json_eq (JArr js) (JArr (map j' js))" using vw(4) by (rule json_eq_arr_map)
  ultimately show ?thesis by blast
qed

lemma map_rt:
  assumes b: "b \<in> set flat_names" and e: "\<And>k x. (k, x) \<in> set m \<Longrightarrow> scalar_rt env other b sfs x"
    and m: "map_wf m" and ty: "mapValueType typ = Some b"
  shows "\<exists>v w j'. decodeMap (\<lambda>ty j. decodeScalar env ty sfs j) typ (JObj m) = Inr v \<and>
    encodeMap (\<lambda>ty x. encodeScalar ty sfs x) typ v = Inr w \<and>
    fval_json other w = Some j' \<and> json_eq (JObj m) j'"
proof -
  have "\<forall>x \<in> snd ` set m. scalar_rt env other b sfs x" using e by auto
  then obtain v w j' where vw': "\<forall>x \<in> snd ` set m. decodeScalar env b sfs x = Inr (v x)"
    "\<forall>x \<in> snd ` set m. encodeScalar b sfs (v x) = Inr (w x)"
    "\<forall>x \<in> snd ` set m. fval_json other (w x) = Some (j' x)"
    "\<forall>x \<in> snd ` set m. json_eq x (j' x)" by (rule scalar_rtE)
  note vw = vw' [rule_format]
  let ?v = "map (\<lambda>(k, x). (k, v x)) m" and ?w = "map (\<lambda>(k, x). (k, w x)) m"
    and ?j = "map (\<lambda>(k, x). (k, j' x)) m"
  have "decodeMap (\<lambda>ty j. decodeScalar env ty sfs j) typ (JObj m) = Inr (FMap ?v)"
    using vw(1) by (force simp: decodeMap_def ty map_res_eq_Inr intro!: mapM_vals_Inr_map [where g = "\<lambda>k. v"])
  moreover have "mapM_vals (\<lambda>k mv. map_err (CAtKey k) (encodeScalar b sfs mv)) ?v = Inr ?w"
    using vw(2) by (force simp: mapM_vals_Inr_conv list_all2_conv_all_nth split: prod.splits dest: nth_mem)
  then have "encodeMap (\<lambda>ty x. encodeScalar ty sfs x) typ (FMap ?v) = Inr (FMap ?w)"
    by (simp add: encodeMap_def ty)
  moreover have "json_seq (map (\<lambda>(k, x). fval_json other (w x)) m) = Some (map (\<lambda>(k, x). j' x) m)"
    using vw(3) by (force intro: json_seq_map)
  then have "fval_json other (FMap ?w) = Some (JObj ?j)"
    using zip_map_fst [of m "\<lambda>k. j'"] by (simp add: comp_def case_prod_unfold)
  moreover have "json_eq (JObj m) (JObj ?j)"
  proof (rule json_eq_objI)
    fix k x assume "(k, x) \<in> set m"
    with vw(4) m show "\<exists>v'. map_of ?j k = Some v' \<and> json_eq x v'"
      by (force simp: map_of_map_vals map_of_mem)
  qed force
  ultimately show ?thesis by blast
qed

text \<open>A loop over the schema that fills a map with one entry for each field that is present.\<close>

lemma build_map_present:
  assumes "distinct (map key xs)"
    and "\<And>x. x \<in> set xs \<Longrightarrow> f x = Inr (if P x then Some (key x, g x) else None)"
  shows "build_map f [] xs = Inr (map (\<lambda>x. (key x, g x)) (filter P xs))"
proof -
  have "build_map f [] xs =
      Inr ([] @ List.map_filter (\<lambda>x. map_option (\<lambda>v. (key x, v)) (if P x then Some (g x) else None)) xs)"
    using assms by (intro build_map_distinct) auto
  also have "List.map_filter (\<lambda>x. map_option (\<lambda>v. (key x, v)) (if P x then Some (g x) else None)) xs =
      map (\<lambda>x. (key x, g x)) (filter P xs)"
    by (induction xs) (auto simp: List.map_filter_simps)
  finally show ?thesis by simp
qed

lemma struct_rt:
  assumes d: "distinct (map sf_name gs)" and m: "map_wf m"
    and keys: "\<And>k. k \<in> fst ` set m \<Longrightarrow> k \<in> sf_name ` set gs"
    and f: "\<And>sf x. sf \<in> set gs \<Longrightarrow> map_of m (sf_name sf) = Some x \<Longrightarrow> field_rt env other sf x"
  shows "scalar_rt env other k_struct gs (JObj m)"
proof -
  let ?P = "\<lambda>sf. map_of m (sf_name sf) \<noteq> None" and ?x = "\<lambda>sf. the (map_of m (sf_name sf))"
  let ?ps = "filter ?P gs"
  have "\<forall>sf \<in> set ?ps. field_rt env other sf (?x sf)" using f by auto
  then obtain v w j' where r: "\<forall>sf \<in> set ?ps. decodeField env sf (?x sf) = Inr (v sf)"
    "\<forall>sf \<in> set ?ps. encodeField sf (v sf) = Inr (w sf)"
    "\<forall>sf \<in> set ?ps. fval_json other (w sf) = Some (j' sf)"
    "\<forall>sf \<in> set ?ps. json_eq (?x sf) (j' sf)"
    unfolding field_rt_def by metis
  let ?fm = "map (\<lambda>sf. (sf_name sf, v sf)) ?ps" and ?em = "map (\<lambda>sf. (sf_name sf, w sf)) ?ps"
    and ?jm = "map (\<lambda>sf. (sf_name sf, j' sf)) ?ps"
  have dp: "distinct (map sf_name ?ps)" using d by (simp add: distinct_map_filter)
  have "DecodeFieldMap env m gs = Inr ?fm"
    unfolding DecodeFieldMap.simps NewFieldMap_def using r(1)
    by (intro build_map_present [OF d]) (auto split: option.splits)
  then have dec: "decodeScalar env k_struct gs (JObj m) = Inr (FFM (Some ?fm))"
    by (simp add: decodeScalar_kinds)
  have look: "map_of ?fm (sf_name sf) = (if ?P sf then Some (v sf) else None)" if "sf \<in> set gs" for sf
    using map_of_map_keys [OF dp, of sf v] that by (auto simp: map_of_eq_None_iff image_iff)
  have "EncodeFieldMap ?fm gs = Inr ?em"
    unfolding EncodeFieldMap.simps
  proof (rule build_map_present [OF d])
    fix sf assume "sf \<in> set gs"
    with r(2) look [of sf] show "(case map_of ?fm (sf_name sf) of None \<Rightarrow> Inr None
      | Some v \<Rightarrow> map_res (\<lambda>e. Some (sf_name sf, e)) (map_err (CAtField (sf_name sf)) (encodeField sf v)))
      = Inr (if ?P sf then Some (sf_name sf, w sf) else None)" by (cases "?P sf") auto
  qed
  then have enc: "encodeScalar k_struct gs (FFM (Some ?fm)) = Inr (FMap ?em)"
    by (simp add: encodeScalar_kinds)
  have "json_seq (map (\<lambda>sf. fval_json other (w sf)) ?ps) = Some (map j' ?ps)"
    using r(3) by (intro json_seq_map) auto
  moreover have "zip (map sf_name ?ps) (map j' ?ps) = ?jm" by (simp add: zip_map_map zip_same_conv_map)
  ultimately have js: "fval_json other (FMap ?em) = Some (JObj ?jm)"
    by (simp add: comp_def)
  have "json_eq (JObj m) (JObj ?jm)"
  proof (rule json_eq_objI)
    fix k x assume kx: "(k, x) \<in> set m"
    with keys obtain sf where sf: "sf \<in> set gs" "k = sf_name sf" by force
    with kx m have "map_of m (sf_name sf) = Some x" by (simp add: map_of_mem)
    with sf r(4) map_of_map_keys [OF dp, of sf j'] show "\<exists>v'. map_of ?jm k = Some v' \<and> json_eq x v'"
      by force
  next
    fix k assume "k \<in> fst ` set ?jm"
    then obtain sf x where "k = sf_name sf" "map_of m (sf_name sf) = Some x" by auto
    then show "k \<in> fst ` set m" by (force dest: map_of_SomeD)
  qed
  with dec enc js show ?thesis unfolding scalar_rt_def by blast
qed

text \<open>The codec looks at the type, nested fields and variants of a schema field only.\<close>

lemma decodeField_shape:
  "sf_type a = sf_type b \<Longrightarrow> sf_fields a = sf_fields b \<Longrightarrow> sf_variants a = sf_variants b \<Longrightarrow>
     decodeField env a r = decodeField env b r"
  by (simp only: decodeField.simps [of env a] decodeField.simps [of env b])

lemma encodeField_shape:
  "sf_type a = sf_type b \<Longrightarrow> sf_fields a = sf_fields b \<Longrightarrow> sf_variants a = sf_variants b \<Longrightarrow>
     encodeField a v = encodeField b v"
  by (simp only: encodeField.simps [of a] encodeField.simps [of b])

lemma field_rt_shape:
  assumes "sf_type a = sf_type b" "sf_fields a = sf_fields b" "sf_variants a = sf_variants b"
  shows "field_rt env other a j = field_rt env other b j"
  unfolding field_rt_def decodeField_shape [OF assms] encodeField_shape [OF assms] ..

lemma SchemaFields_Inr:
  assumes "SchemaFields fs = Inr gs"
  shows "map sf_name gs = map FName fs"
    and "sf \<in> set gs \<Longrightarrow> \<exists>f sf'. f \<in> set fs \<and> schemaFieldOfType (FName f) (FType f) = Inr sf' \<and>
           sf_name sf = FName f \<and> sf_type sf = sf_type sf' \<and> sf_fields sf = sf_fields sf' \<and>
           sf_variants sf = sf_variants sf'"
proof -
  have nm: "schemaFieldOfType nm ft = Inr sf \<Longrightarrow> sf_name sf = nm" for nm ft sf
    by (cases ft) (auto simp: schemaFieldOfType.simps rbind_eq_Inr split: if_splits option.splits)
  have r: "list_all2 (\<lambda>f sf. \<exists>sf'. schemaFieldOfType (FName f) (FType f) = Inr sf' \<and>
      sf = SchemaField (sf_name sf') (sf_type sf') (sf_fields sf') (sf_key sf') (sf_variants sf') (FTags f)) fs gs"
    using assms [unfolded SchemaFields.simps mapM_Inr_conv]
    by (rule list_all2_mono) (auto simp: rbind_eq_Inr)
  then show "map sf_name gs = map FName fs"
    by (induction rule: list_all2_induct) (auto dest: nm)
  assume "sf \<in> set gs"
  then obtain i where i: "i < length gs" "gs ! i = sf" by (auto simp: in_set_conv_nth)
  from r i have "i < length fs" by (simp add: list_all2_lengthD)
  moreover from r i obtain sf' where "schemaFieldOfType (FName (fs ! i)) (FType (fs ! i)) = Inr sf'"
    "sf = SchemaField (sf_name sf') (sf_type sf') (sf_fields sf') (sf_key sf') (sf_variants sf') (FTags (fs ! i))"
    by (auto simp: list_all2_conv_all_nth)
  ultimately show "\<exists>f sf'. f \<in> set fs \<and> schemaFieldOfType (FName f) (FType f) = Inr sf' \<and>
           sf_name sf = FName f \<and> sf_type sf = sf_type sf' \<and> sf_fields sf = sf_fields sf' \<and>
           sf_variants sf = sf_variants sf'"
    by (intro exI [of _ "fs ! i"] exI [of _ sf']) (auto dest: nm)
qed

subsection \<open>Every supported type\<close>

text \<open>The bind message can be built: no well-formed type dereferences nil.\<close>

lemma SchemaFields_total_if:
  assumes "\<And>f nm. f \<in> set fs \<Longrightarrow> \<exists>sf. schemaFieldOfType nm (FType f) = Inr sf"
  shows "\<exists>gs. SchemaFields fs = Inr gs"
  unfolding SchemaFields.simps
proof (rule mapM_total)
  fix f assume "f \<in> set fs"
  with assms [of f "FName f"] show "\<exists>y. rbind (schemaFieldOfType (FName f) (FType f))
      (\<lambda>sf. Inr (SchemaField (sf_name sf) (sf_type sf) (sf_fields sf) (sf_key sf)
                   (sf_variants sf) (FTags f))) = Inr y" by auto
qed

lemma schemaFieldOfType_total: "wf_ft ft \<Longrightarrow> \<exists>sf. schemaFieldOfType nm ft = Inr sf"
proof (induction "size ft" arbitrary: nm ft rule: less_induct)
  case less
  have sub: "\<exists>gs. SchemaFields fs = Inr gs" if "size_list size fs < size ft" "list_all (\<lambda>f. wf_ft (FType f)) fs" for fs
    using that by (intro SchemaFields_total_if less.hyps) (auto simp: list_all_iff dest!: size_FType_le)
  have nest: "\<exists>gs. nested_schema t = Inr gs" if "wf_ft t" "size t < size ft" for t
  proof -
    have "list_all (\<lambda>f. wf_ft (FType f)) (Fields t)" if "Base t = k_struct"
      using \<open>wf_ft t\<close> that by (cases rule: wf_ft_cases) (auto simp: ft_ctor_defs Scalars_def)
    moreover have "size_list size (Fields t) < size t" by (cases t) simp
    ultimately show ?thesis unfolding nested_schema_def using that(2) sub [of "Fields t"] by auto
  qed
  from less.prems show ?case
  proof (cases rule: wf_ft_cases)
    case (sum vrs)
    have "\<exists>svs. mapM (\<lambda>v. case VType v of
                None \<Rightarrow> Inr (SchemaVariant (VName v) None)
              | Some t \<Rightarrow> rbind (schemaFieldOfType (VName v) t)
                            (\<lambda>p. Inr (SchemaVariant (VName v) (Some p)))) vrs = Inr svs"
    proof (rule mapM_total)
      fix v assume v: "v \<in> set vrs"
      show "\<exists>y. (case VType v of None \<Rightarrow> Inr (SchemaVariant (VName v) None)
              | Some t \<Rightarrow> rbind (schemaFieldOfType (VName v) t)
                            (\<lambda>p. Inr (SchemaVariant (VName v) (Some p)))) = Inr y"
      proof (cases "VType v")
        case (Some t)
        from v sum(3) Some have "wf_ft t" by (auto simp: list_all_iff)
        moreover from v sum(1) Some have "size t < size ft"
          by (auto simp: sum_ft_def dest!: size_VType_le)
        ultimately
        show ?thesis using less.hyps [of t "VName v"] Some by auto
      qed simp
    qed
    with sum show ?thesis by (auto simp: schemaFieldOfType_ctors)
  next
    case (struct fs)
    then have "size_list size fs < size ft" by (simp add: struct_ft_def)
    with struct sub [of fs] show ?thesis by (auto simp: schemaFieldOfType_ctors)
  next
    case (optional t)
    then have "size t < size ft" by (simp add: elem_ft_def)
    with optional nest [of t] show ?thesis by (auto simp: schemaFieldOfType_ctors)
  next
    case (lst t)
    then have "size t < size ft" by (simp add: elem_ft_def)
    with lst nest [of t] show ?thesis by (auto simp: schemaFieldOfType_ctors)
  next
    case (map tk tv)
    then have "size tv < size ft" by (simp add: map_ft_def)
    with map nest [of tv] show ?thesis by (auto simp: schemaFieldOfType_ctors)
  qed (simp_all add: schemaFieldOfType_ctors)
qed

lemma elem_rt:
  assumes "wf_ft t" and "flat_elem t" and "nested_schema t = Inr gs"
    and "\<And>nm sf. schemaFieldOfType nm t = Inr sf \<Longrightarrow> field_rt env other sf x"
  shows "scalar_rt env other (ft_string t) gs x"
  using assms(1,2)
proof (cases rule: flat_elem_cases)
  case (1 b)
  with assms(3,4) have "field_rt env other (SchemaField [] b gs [] [] []) x"
    by (simp add: schemaFieldOfType_ctors nested_schema_flat)
  with 1 show ?thesis by (simp add: field_rt_flat flat_names_def ft_string_ctors base_ft_def)
next
  case (2 fs)
  with assms(3,4) have "field_rt env other (SchemaField [] k_struct gs [] [] []) x"
    by (simp add: schemaFieldOfType_ctors nested_schema_flat)
  with 2 show ?thesis by (simp add: field_rt_flat flat_names_def ft_string_ctors)
qed

lemma decodeField_forms:
  "sf_type sf = ''list<'' @ s @ ''>'' \<Longrightarrow>
     decodeField env sf r = decodeList (\<lambda>ty j. decodeScalar env ty (sf_fields sf) j) s r"
  "sf_type sf = ''optional<'' @ s @ ''>'' \<Longrightarrow>
     decodeField env sf r = decodeOptional (\<lambda>ty j. decodeScalar env ty (sf_fields sf) j) s r"
  "sf_type sf = ''array<'' @ s \<Longrightarrow>
     decodeField env sf r = decodeArray (\<lambda>ty j. decodeScalar env ty (sf_fields sf) j) (sf_type sf) r"
  "sf_type sf = ''map<'' @ s \<Longrightarrow>
     decodeField env sf r = decodeMap (\<lambda>ty j. decodeScalar env ty (sf_fields sf) j) (sf_type sf) r"
  "sf_type sf = ''enum<'' @ s \<Longrightarrow> decodeField env sf r = map_res FStr (json_string r)"
  by (subst decodeField.simps, simp add: Let_def has_prefix_def strip_type_def butlast_append)+

lemma encodeField_forms:
  "sf_type sf = ''list<'' @ s @ ''>'' \<Longrightarrow>
     encodeField sf v = encodeList (\<lambda>ty x. encodeScalar ty (sf_fields sf) x) s v"
  "sf_type sf = ''optional<'' @ s @ ''>'' \<Longrightarrow>
     encodeField sf v = encodeOptional (\<lambda>ty x. encodeScalar ty (sf_fields sf) x) s v"
  "sf_type sf = ''array<'' @ s \<Longrightarrow> arrayElemType (sf_type sf) = Some b \<Longrightarrow>
     encodeField sf v = encodeList (\<lambda>ty x. encodeScalar ty (sf_fields sf) x) b v"
  "sf_type sf = ''map<'' @ s \<Longrightarrow>
     encodeField sf v = encodeMap (\<lambda>ty x. encodeScalar ty (sf_fields sf) x) (sf_type sf) v"
  "sf_type sf = ''enum<'' @ s \<Longrightarrow>
     encodeField sf (FStr x) = Inr (FStr x)"
  by (subst encodeField.simps, simp add: Let_def has_prefix_def strip_type_def butlast_append)+

lemma json_single_entry:
  "(case j of JObj [(tag, p)] \<Rightarrow> F tag p | _ \<Rightarrow> False) \<longleftrightarrow> (\<exists>tag p. j = JObj [(tag, p)] \<and> F tag p)"
  by (auto split: json.splits list.splits)

lemma sum_schema_variant:
  assumes "mapM (\<lambda>v. case VType v of
                None \<Rightarrow> Inr (SchemaVariant (VName v) None)
              | Some t \<Rightarrow> rbind (schemaFieldOfType (VName v) t)
                            (\<lambda>p. Inr (SchemaVariant (VName v) (Some p)))) vrs = Inr svs"
    and "findVariant vrs tag = Some v"
  shows "\<exists>sv. findSchemaVariant svs tag = Some sv \<and>
    (case VType v of None \<Rightarrow> sv_payload sv = None
     | Some t \<Rightarrow> \<exists>p. sv_payload sv = Some p \<and> schemaFieldOfType (VName v) t = Inr p)"
  using assms(1) [unfolded mapM_Inr_conv] assms(2)
proof (induction rule: list_all2_induct)
  case Nil
  then show ?case by (simp add: findVariant_def)
next
  case (Cons u us sv svs)
  have nm: "sv_name sv = VName u" using Cons(1) by (auto simp: rbind_eq_Inr split: option.splits)
  show ?case
  proof (cases "VName u = tag")
    case True
    then have "v = u" using Cons.prems by (simp add: findVariant_def)
    with True nm Cons(1) show ?thesis
      by (auto simp: findSchemaVariant_def rbind_eq_Inr split: option.splits)
  next
    case False
    with nm Cons show ?thesis by (simp add: findSchemaVariant_def findVariant_def)
  qed
qed

lemma encodeField_sum_payload:
  assumes "encodeField p x = Inr w"
  shows "EncodeFieldMap [(sf_name p, x)] [p] = Inr [(sf_name p, w)]"
  using assms by (simp add: EncodeFieldMap.simps)

lemma sum_rt:
  assumes ty: "sf_type sf = ''sum<'' @ s" and v: "findSchemaVariant (sf_variants sf) tag = Some sv"
    and p: "case sv_payload sv of None \<Rightarrow> x = JNull | Some p \<Rightarrow> field_rt env other p x"
  shows "field_rt env other sf (JObj [(tag, x)])"
proof (cases "sv_payload sv")
  case None
  with p have "x = JNull" by simp
  have "decodeField env sf (JObj [(tag, x)]) = Inr (FVariant (Some (tag, FNil)))"
    "encodeField sf (FVariant (Some (tag, FNil))) = Inr (FMap [(tag, FNil)])"
    by (subst decodeField.simps encodeField.simps, simp add: Let_def ty has_prefix_def v None)+
  moreover have "fval_json other (FMap [(tag, FNil)]) = Some (JObj [(tag, JNull)])" by simp
  moreover have "json_eq (JObj [(tag, x)]) (JObj [(tag, JNull)])" using \<open>x = JNull\<close> by simp
  ultimately show ?thesis unfolding field_rt_def by blast
next
  case (Some p')
  with p obtain y w j' where r: "decodeField env p' x = Inr y" "encodeField p' y = Inr w"
    "fval_json other w = Some j'" "json_eq x j'" unfolding field_rt_def by auto
  have "decodeField env sf (JObj [(tag, x)]) = Inr (FVariant (Some (tag, y)))"
    by (subst decodeField.simps) (simp add: Let_def ty has_prefix_def v Some r(1))
  moreover have "encodeField sf (FVariant (Some (tag, y))) = Inr (FMap [(tag, w)])"
    by (subst encodeField.simps) (simp add: Let_def ty has_prefix_def v Some encodeField_sum_payload [OF r(2)])
  moreover have "fval_json other (FMap [(tag, w)]) = Some (JObj [(tag, j')])" using r(3) by simp
  moreover have "json_eq (JObj [(tag, x)]) (JObj [(tag, j')])" using r(4) by simp
  ultimately show ?thesis unfolding field_rt_def by blast
qed

lemma field_round_trip:
  "wf_ft ft \<Longrightarrow> supported ft \<Longrightarrow> schemaFieldOfType nm ft = Inr sf \<Longrightarrow> wire_val ft j \<Longrightarrow>
     field_rt env other sf j"
proof (induction arbitrary: nm sf j rule: wf_ft_induct)
  case (scalar b)
  then have "sf = SchemaField nm b [] [] [] []" by (simp add: schemaFieldOfType_ctors)
  with scalar show ?case
    by (simp add: field_rt_flat flat_names_def wire_val_ctors scalar_round_trip)
next
  case (struct fs)
  then obtain gs where gs: "SchemaFields fs = Inr gs" "sf = SchemaField nm k_struct gs [] [] []"
    by (auto simp: schemaFieldOfType_ctors rbind_eq_Inr)
  from struct.prems(3) obtain m where m: "j = JObj m" "map_wf m"
    "\<And>k. k \<in> fst ` set m \<Longrightarrow> k \<in> FName ` set fs"
    "\<And>f x. f \<in> set fs \<Longrightarrow> map_of m (FName f) = Some x \<Longrightarrow> wire_val (FType f) x"
    by (fastforce simp: wire_val_ctors list_all_iff split: json.splits)
  have "scalar_rt env other k_struct gs (JObj m)"
  proof (rule struct_rt)
    show "distinct (map sf_name gs)"
      using struct.prems(1) SchemaFields_Inr(1) [OF gs(1)] by (simp add: supported_ctors)
    show "map_wf m" by fact
    show "k \<in> sf_name ` set gs" if "k \<in> fst ` set m" for k
      using m(3) [OF that] SchemaFields_Inr(1) [OF gs(1)] by (metis image_set)
    fix sf' x assume s: "sf' \<in> set gs" "map_of m (sf_name sf') = Some x"
    from SchemaFields_Inr(2) [OF gs(1) s(1)] obtain f sf'' where f: "f \<in> set fs"
      "schemaFieldOfType (FName f) (FType f) = Inr sf''" "sf_name sf' = FName f"
      "sf_type sf' = sf_type sf''" "sf_fields sf' = sf_fields sf''" "sf_variants sf' = sf_variants sf''"
      by blast
    have "supported (FType f)" using struct.prems(1) f(1) by (simp add: supported_ctors list_all_iff)
    moreover have "wire_val (FType f) x" using m(4) [OF f(1)] s(2) f(3) by simp
    ultimately have "field_rt env other sf'' x" using struct.IH [OF f(1)] f(2) by blast
    then show "field_rt env other sf' x" unfolding field_rt_shape [OF f(4-6)] .
  qed
  with gs m show ?case by (simp add: field_rt_flat flat_names_def)
next
  case (optional t)
  then obtain gs where gs: "nested_schema t = Inr gs" "sf_fields sf = gs"
    "sf_type sf = ''optional<'' @ ft_string t @ ''>''"
    by (auto simp: schemaFieldOfType_ctors rbind_eq_Inr ft_string_ctors)
  from optional.prems(1) have fl: "flat_elem t" "supported t" by (simp_all add: supported_ctors)
  show ?case
  proof (cases "j = JNull")
    case True
    then show ?thesis
      by (simp add: field_rt_def decodeField_forms(2) [OF gs(3)] encodeField_forms(2) [OF gs(3)]
          decodeOptional_def encodeOptional_def)
  next
    case False
    with optional have "wire_val t j" by (simp add: wire_val_ctors)
    with optional.hyps optional.IH fl gs have "scalar_rt env other (ft_string t) gs j"
      by (intro elem_rt) auto
    then obtain v w j' where r: "decodeScalar env (ft_string t) gs j = Inr v"
      "encodeScalar (ft_string t) gs v = Inr w" "fval_json other w = Some j'" "json_eq j j'"
      unfolding scalar_rt_def by auto
    have n: "v \<noteq> FNil" using flat_elem_name [OF optional.hyps fl(1)] r(1) by (rule decodeScalar_not_nil)
    have "decodeField env sf j = Inr v"
      using False r(1) by (cases "ft_string t = k_string")
        (simp_all add: decodeField_forms(2) [OF gs(3)] gs(2) decodeOptional_def decodeScalar_kinds)
    moreover have "encodeField sf v = Inr w"
      using n r(1,2) by (cases "ft_string t = k_string")
        (auto simp: encodeField_forms(2) [OF gs(3)] gs(2) encodeOptional_def
          decodeScalar_kinds encodeScalar_kinds map_res_eq_Inr)
    ultimately show ?thesis using r(3,4) unfolding field_rt_def by blast
  qed
next
  case (lst t)
  then obtain gs where gs: "nested_schema t = Inr gs" "sf_fields sf = gs"
    "sf_type sf = ''list<'' @ ft_string t @ ''>''"
    by (auto simp: schemaFieldOfType_ctors rbind_eq_Inr ft_string_ctors)
  from lst.prems(1) have fl: "flat_elem t" "supported t" by (simp_all add: supported_ctors)
  from lst.prems(3) obtain js where js: "j = JArr js" "\<And>x. x \<in> set js \<Longrightarrow> wire_val t x"
    by (auto simp: wire_val_ctors list_all_iff split: json.splits)
  have "scalar_rt env other (ft_string t) gs x" if "x \<in> set js" for x
    using lst.hyps lst.IH fl gs js that by (intro elem_rt) auto
  then obtain v w j' where r: "decodeList (\<lambda>ty j. decodeScalar env ty gs j) (ft_string t) (JArr js) = Inr v"
    "encodeList (\<lambda>ty x. encodeScalar ty gs x) (ft_string t) v = Inr w"
    "fval_json other w = Some j'" "json_eq (JArr js) j'"
    using list_rt [OF flat_elem_name [OF lst.hyps fl(1)], of js env other gs] by blast
  have "decodeField env sf j = Inr v" "encodeField sf v = Inr w"
    using r(1,2) by (simp_all add: decodeField_forms(1) [OF gs(3)] encodeField_forms(1) [OF gs(3)] gs(2) js(1))
  with r(3,4) js(1) show ?case unfolding field_rt_def by blast
next
  case (array t n)
  then have b: "Base t \<in> set Scalars" "in_range 0 (2 ^ 63 - 1) n" by (simp_all add: supported_ctors)
  then have flat: "flat_elem t" by (simp add: flat_elem_def)
  with array.hyps obtain b' where "t = base_ft b'"
    using b(1) by (cases rule: flat_elem_cases) (auto simp: ft_ctor_defs Scalars_def)
  then have t: "t = base_ft (Base t)" "supported t" "ft_string t = Base t"
    using b(1) by (simp_all add: base_ft_def supported.simps ft_string_ctors)
  from array.prems(2) have sf: "sf_fields sf = []" "sf_type sf = ''array<'' @ Base t @ '','' @ itoa n @ ''>''"
    by (auto simp: schemaFieldOfType_ctors ft_string_ctors t(3))
  from array.prems(3) obtain js where js: "j = JArr js" "int (length js) = n"
    "\<And>x. x \<in> set js \<Longrightarrow> wire_val t x"
    by (auto simp: wire_val_ctors list_all_iff split: json.splits)
  have ns: "nested_schema t = Inr []" using nested_schema_flat(1) [OF b(1)] t(1) by simp
  have "scalar_rt env other (Base t) [] x" if "x \<in> set js" for x
    using elem_rt [OF array.hyps flat ns, of env other x] array.IH t(2,3) js(3) that by simp
  moreover have "Base t \<in> set flat_names" using b(1) by (simp add: flat_names_def)
  ultimately obtain v w j' where r: "decodeList (\<lambda>ty j. decodeScalar env ty [] j) (Base t) (JArr js) = Inr v"
    "slice_len v = length js" "encodeList (\<lambda>ty x. encodeScalar ty [] x) (Base t) v = Inr w"
    "fval_json other w = Some j'" "json_eq (JArr js) j'"
    using list_rt [of "Base t" js env other "[]"] by blast
  note str = array_string [OF b]
  have "decodeField env sf j = Inr v"
    using r(1,2) js(1,2) str by (simp add: decodeField_forms(3) [OF sf(2)] sf(1) decodeArray_def) (simp add: sf(2) str)
  moreover have "encodeField sf v = Inr w"
    using r(3) encodeField_forms(3) [OF sf(2), of "Base t" v] str(1) sf by simp
  ultimately show ?case using r(4,5) js(1) unfolding field_rt_def by blast
next
  case (map tk tv)
  then obtain gs where gs: "nested_schema tv = Inr gs" "sf_fields sf = gs"
    "sf_type sf = ''map<'' @ ft_string tk @ '','' @ ft_string tv @ ''>''"
    by (auto simp: schemaFieldOfType_ctors rbind_eq_Inr ft_string_ctors)
  from map.prems(1) have fl: "flat_elem tv" "supported tv" "Base tk \<in> set Scalars"
    by (simp_all add: supported_ctors)
  have "ft_string tk = Base tk" using fl(3) by (cases tk) (simp add: ft_string_ctors)
  then have vt: "mapValueType (sf_type sf) = Some (ft_string tv)"
    unfolding gs(3) using map_string [OF fl(3) flat_elem_name [OF map.hyps(2) fl(1)]] by simp
  from map.prems(3) obtain m where m: "j = JObj m" "map_wf m" "\<And>k x. (k, x) \<in> set m \<Longrightarrow> wire_val tv x"
    by (auto simp: wire_val_ctors list_all_iff split: json.splits)
  have "scalar_rt env other (ft_string tv) gs x" if "(k, x) \<in> set m" for k x
    using elem_rt [OF map.hyps(2) fl(1) gs(1), of env other x] map.IH(2) fl(2) m(3) [OF that] by simp
  then obtain v w j' where r: "decodeMap (\<lambda>ty j. decodeScalar env ty gs j) (sf_type sf) (JObj m) = Inr v"
    "encodeMap (\<lambda>ty x. encodeScalar ty gs x) (sf_type sf) v = Inr w"
    "fval_json other w = Some j'" "json_eq (JObj m) j'"
    using map_rt [OF flat_elem_name [OF map.hyps(2) fl(1)] _ m(2) vt, of env other gs] by blast
  have "decodeField env sf j = Inr v" "encodeField sf v = Inr w"
    using r(1,2) decodeField_forms(4) [OF gs(3)] encodeField_forms(4) [OF gs(3)] gs(2) m(1) by simp_all
  with r(3,4) m(1) show ?case unfolding field_rt_def by blast
next
  case (enum es)
  then have sf: "sf_type sf = ''enum<'' @ join '','' es @ ''>''" by (auto simp: schemaFieldOfType_ctors ft_string_ctors)
  from enum.prems(3) obtain s where "j = JStr s" by (auto simp: wire_val_ctors split: json.splits)
  then show ?case
    by (simp add: field_rt_def decodeField_forms(5) [OF sf] encodeField_forms(5) [OF sf])
next
  case (sum vrs)
  then obtain svs where svs: "mapM (\<lambda>v. case VType v of
                None \<Rightarrow> Inr (SchemaVariant (VName v) None)
              | Some t \<Rightarrow> rbind (schemaFieldOfType (VName v) t)
                            (\<lambda>p. Inr (SchemaVariant (VName v) (Some p)))) vrs = Inr svs"
    and sf: "sf = SchemaField nm (ft_string (sum_ft vrs)) [] [] svs []"
    by (auto simp: schemaFieldOfType_ctors rbind_eq_Inr)
  from sum.prems(3) obtain tag x v where j: "j = JObj [(tag, x)]" "findVariant vrs tag = Some v"
    "case VType v of None \<Rightarrow> x = JNull | Some t \<Rightarrow> wire_val t x"
    by (auto simp: wire_val_ctors json_single_entry split: option.splits)
  from sum_schema_variant [OF svs j(2)] obtain sv where sv: "findSchemaVariant svs tag = Some sv"
    "case VType v of None \<Rightarrow> sv_payload sv = None
     | Some t \<Rightarrow> \<exists>p. sv_payload sv = Some p \<and> schemaFieldOfType (VName v) t = Inr p" by blast
  have v: "v \<in> set vrs" using j(2) by (simp add: findVariant_in)
  have "case sv_payload sv of None \<Rightarrow> x = JNull | Some p \<Rightarrow> field_rt env other p x"
  proof (cases "VType v")
    case None
    with sv(2) j(3) show ?thesis by simp
  next
    case (Some t)
    then obtain p where p: "sv_payload sv = Some p" "schemaFieldOfType (VName v) t = Inr p" using sv(2) by auto
    have "supported t" using sum.prems(1) v Some by (auto simp: supported_ctors list_all_iff split: option.splits)
    then have "field_rt env other p x" using sum.IH [OF v Some] p(2) j(3) Some by simp
    with p show ?thesis by simp
  qed
  moreover have "sf_type sf = ''sum<'' @ join '', '' (List.map (\<lambda>v. case VType v of
      None \<Rightarrow> VName v | Some t \<Rightarrow> VName v @ '': '' @ ft_string t) vrs) @ ''>''"
    by (simp add: sf ft_string_ctors)
  moreover have "findSchemaVariant (sf_variants sf) tag = Some sv" using sv(1) by (simp add: sf)
  ultimately show ?case unfolding j(1) by (intro sum_rt)
qed

subsection \<open>Properties\<close>

text \<open>The bind message can always be built: for the well-formed schemas the resolver returns,
  \<open>SchemaFields\<close> dereferences no nil pointer and keeps every field, in order.\<close>

theorem SchemaFields_never_panics:
  assumes "list_all (\<lambda>f. wf_ft (FType f)) fs"
  shows "\<exists>gs. SchemaFields fs = Inr gs \<and> map sf_name gs = map FName fs"
proof -
  have "\<exists>gs. SchemaFields fs = Inr gs"
    using assms by (intro SchemaFields_total_if schemaFieldOfType_total) (simp add: list_all_iff)
  then show ?thesis using SchemaFields_Inr(1) by blast
qed

theorem SchemaFields_never_panics_witness:
  "\<exists>gs. SchemaFields [Fld ''m'' (map_ft (base_ft k_string) (struct_ft [Fld ''x'' (base_ft k_bool) []])) []] = Inr gs \<and>
     map sf_name gs = [''m'']"
  using SchemaFields_never_panics
    [of "[Fld ''m'' (map_ft (base_ft k_string) (struct_ft [Fld ''x'' (base_ft k_bool) []])) []]"]
  by (simp add: wf_ft_ctors Scalars_def)

text \<open>C34. A worker that echoes a wire value sends the same value back: for every supported type,
  decoding by the bind message's schema field succeeds, encoding the decoded value succeeds, and
  the JSON sent back denotes the value received.\<close>

theorem worker_echo_round_trip:
  assumes "wf_ft ft" and "supported ft" and "schemaFieldOfType nm ft = Inr sf" and "wire_val ft j"
  shows "\<exists>v w j'. decodeField env sf j = Inr v \<and> encodeField sf v = Inr w \<and>
    fval_json other w = Some j' \<and> json_eq j j'"
  using field_round_trip [OF assms] unfolding field_rt_def .

theorem worker_echo_round_trip_witness:
  "\<exists>v w j'.
     decodeField plain_env (SchemaField ''a'' ''array<uint8,2>'' [] [] [] []) (JArr [JNum (f64_of_int 1), JNum (f64_of_int 255)]) = Inr v \<and>
     encodeField (SchemaField ''a'' ''array<uint8,2>'' [] [] [] []) v = Inr w \<and>
     fval_json (\<lambda>_. None) w = Some j' \<and> json_eq (JArr [JNum (f64_of_int 1), JNum (f64_of_int 255)]) j'"
proof (rule worker_echo_round_trip [where ft = "array_ft (base_ft k_uint8) 2" and nm = "''a''"])
  show "wf_ft (array_ft (base_ft k_uint8) 2)" by (simp add: wf_ft_ctors Scalars_def)
  show "supported (array_ft (base_ft k_uint8) 2)"
    by (simp add: supported_ctors base_ft_def Scalars_def in_range_def)
  show "schemaFieldOfType ''a'' (array_ft (base_ft k_uint8) 2) = Inr (SchemaField ''a'' ''array<uint8,2>'' [] [] [] [])"
  proof -
    have "itoa 2 = ''2''" by code_simp
    then show ?thesis by (simp add: schemaFieldOfType_ctors ft_string_ctors base_ft_def Scalars_def)
  qed
  show "wire_val (array_ft (base_ft k_uint8) 2) (JArr [JNum (f64_of_int 1), JNum (f64_of_int 255)])"
    by (simp add: wire_val_ctors Scalars_def wire_scalar_kinds wire_int_def f64_trunc_of_int
        in_range_def int_lo_def int_hi_def)
qed

text \<open>C35. An array of structs does not survive the wire: the bind message carries no nested fields
  for \<open>array<struct,N>\<close>, so the worker decodes every element to an empty FieldMap and echoes an
  empty object, whatever the case held.\<close>

theorem array_of_structs_loses_fields:
  "\<exists>sf v w. schemaFieldOfType nm (array_ft (struct_ft fs) 1) = Inr sf \<and>
     decodeField env sf (JArr [JObj m]) = Inr v \<and> encodeField sf v = Inr w \<and>
     fval_json other w = Some (JArr [JObj []])"
proof -
  let ?sf = "SchemaField nm (''array<'' @ k_struct @ '','' @ itoa 1 @ ''>'') [] [] [] []"
  have sf: "schemaFieldOfType nm (array_ft (struct_ft fs) 1) = Inr ?sf"
    by (simp add: schemaFieldOfType_ctors ft_string_ctors)
  have str: "arrayElemType (sf_type ?sf) = Some k_struct" "arrayLen (sf_type ?sf) = Some 1"
    by code_simp+
  have ty: "map_of list_elem_types k_struct = Some TFM" by (simp add: list_elem_types_def)
  have enc: "encodeScalar k_struct [] (FFM (Some [])) = Inr (FMap [])"
    by (simp add: encodeScalar_kinds EncodeFieldMap.simps)
  have "decodeScalar env k_struct [] (JObj m) = Inr (FFM (Some []))"
    by (simp add: decodeScalar_kinds DecodeFieldMap.simps NewFieldMap_def)
  then have dl: "decodeList (\<lambda>ty j. decodeScalar env ty [] j) k_struct (JArr [JObj m]) = Inr (FSlice TFM [FFM (Some [])])"
    by (simp add: decodeList_def collectList_def ty mapMi_def has_gtype_def mk_slice_def)
  have el: "encodeList (\<lambda>ty x. encodeScalar ty [] x) k_struct (FSlice TFM [FFM (Some [])]) = Inr (FAnys [FMap []])"
    by (simp add: encodeList_def encodeEachList_def ty as_slice_def mapMi_def enc)
  have "decodeField env ?sf (JArr [JObj m]) = Inr (FSlice TFM [FFM (Some [])])"
    using dl str by (subst decodeField_forms(3)) (simp_all add: decodeArray_def slice_len_def)
  moreover have "encodeField ?sf (FSlice TFM [FFM (Some [])]) = Inr (FAnys [FMap []])"
    using encodeField_forms(3) [of ?sf "k_struct @ '','' @ itoa 1 @ ''>''" k_struct "FSlice TFM [FFM (Some [])]"]
      str(1) el by simp
  moreover have "fval_json other (FAnys [FMap []]) = Some (JArr [JObj []])" by simp
  ultimately show ?thesis using sf by blast
qed

end
