(* ===== verification/Worker.thy ===== *)
theory Worker
  imports Messages RoundTrip
begin

section \<open>The runner's side of a worker process (internal/worker)\<close>

text \<open>
  A \<open>Worker\<close> is the runner's handle on a subprocess: it writes one request, waits for one line, and
  gives the process up for good (\<open>dead\<close>) when the stream of answers can no longer be trusted.

  The process and the clock are not part of the program. \<open>'s process\<close> is what the runner can see of
  them over a state \<open>'s\<close>: a write succeeds or fails, a wait for a line ends with a line, a read
  error, the timeout or the cancelled context, a kill takes effect. Every method of \<open>Worker\<close> runs
  under its mutex, so it is one step on the worker's state.
\<close>

subsection \<open>The process\<close>

datatype read_event =
    Line json
  | BadLine string
  | ReadError string
  | TimedOut
  | CtxDone string

record 's process =
  pr_write :: "'s \<Rightarrow> request \<Rightarrow> 's \<times> string option"
  pr_read :: "'s \<Rightarrow> 's \<times> read_event"
  pr_kill :: "'s \<Rightarrow> 's"
  pr_wait :: "'s \<Rightarrow> 's \<times> string option option"
  pr_ctx_done :: "'s \<Rightarrow> bool"

text \<open>\<open>pr_wait\<close> is the shutdown grace: \<open>None\<close> when the process did not exit within it, else the error
  of \<open>cmd.Wait\<close> if it had one. \<open>pr_ctx_done\<close> asks whether the run's context is cancelled.\<close>

datatype worker_error =
    WDead string
  | WNoType
  | WNoFormat
  | WPanic
  | WWrite string
  | WWorkerWrite string string
  | WRead string
  | WMalformed string
  | WTimeout int
  | WIDMismatch string string
  | WOpMismatch string string
  | WCancelled string
  | WReported string
  | WUnsupported string
  | WPingStatus string
  | WNoVersion
  | WVersion int
  | WEmptyCommand string
  | WStart string string
  | WPingFailed string worker_error
  | WNoExit string

text \<open>\<open>err.Error()\<close>; \<open>q\<close> is \<open>%q\<close>.\<close>

fun worker_error_text :: "(string \<Rightarrow> string) \<Rightarrow> worker_error \<Rightarrow> string" where
  "worker_error_text q (WDead r) = ''worker is dead: '' @ r"
| "worker_error_text q WNoType = ''bind requires a type''"
| "worker_error_text q WNoFormat = ''bind requires a format''"
| "worker_error_text q WPanic = ''runtime error: invalid memory address or nil pointer dereference''"
| "worker_error_text q (WWrite e) = e"
| "worker_error_text q (WWorkerWrite lang e) = lang @ '' worker write: '' @ e"
| "worker_error_text q (WRead e) = e"
| "worker_error_text q (WMalformed e) = ''malformed worker response: '' @ e"
| "worker_error_text q (WTimeout n) = ''timeout after '' @ itoa n @ ''s''"
| "worker_error_text q (WIDMismatch got want) =
     ''response id mismatch (got '' @ q got @ '', want '' @ q want @ '')''"
| "worker_error_text q (WOpMismatch got want) =
     ''response op mismatch (got '' @ q got @ '', want '' @ q want @ '')''"
| "worker_error_text q (WCancelled e) = ''context cancelled: '' @ e"
| "worker_error_text q (WReported e) = e"
| "worker_error_text q (WUnsupported r) =
     ''worker does not support this type/format'' @ (if r = [] then [] else '': '' @ r)"
| "worker_error_text q (WPingStatus st) =
     ''ping answered with status '' @ q st @ ''; only '' @ q StatusOK @ '' is valid''"
| "worker_error_text q WNoVersion = ''worker reported no protocol_version in its ping response''"
| "worker_error_text q (WVersion v) =
     ''protocol version mismatch: worker library speaks '' @ itoa v @ '', this serify needs '' @
     itoa ProtocolVersion @ [CHR 0x20, CHR 0xE2, CHR 0x80, CHR 0x94] @
     '' rebuild the worker against the appropriate library''"
| "worker_error_text q (WEmptyCommand lang) = ''empty run command for '' @ lang"
| "worker_error_text q (WStart lang e) = ''start '' @ lang @ '' worker: '' @ e"
| "worker_error_text q (WPingFailed lang e) = ''failed to ping '' @ lang @ '' worker: '' @ worker_error_text q e"
| "worker_error_text q (WNoExit lang) = ''worker '' @ lang @ '' did not exit within 5s; killed''"

record 's worker =
  w_language :: string
  w_proc :: 's
  w_dead :: bool
  w_deadReason :: string

subsection \<open>Reading one response\<close>

text \<open>\<open>Reader.Read\<close>; the other two events are those of the \<open>select\<close> around it.\<close>

definition Read :: "read_event \<Rightarrow> worker_error + response" where
  "Read ev = (case ev of
     Line j \<Rightarrow> map_err WMalformed (response_of j)
   | BadLine e \<Rightarrow> Inl (WMalformed e)
   | ReadError e \<Rightarrow> Inl (WRead e)
   | _ \<Rightarrow> Inl WPanic)"

definition readWithTimeout ::
  "'s process \<Rightarrow> string \<Rightarrow> string \<Rightarrow> int \<Rightarrow> 's worker \<Rightarrow> 's worker \<times> (worker_error + response)" where
  "readWithTimeout P expectOp expectID timeoutSec w =
     (case pr_read P (w_proc w) of (s, ev) \<Rightarrow>
        (w\<lparr>w_proc := s\<rparr>,
         case ev of
           TimedOut \<Rightarrow> Inl (WTimeout timeoutSec)
         | CtxDone e \<Rightarrow> Inl (WCancelled e)
         | _ \<Rightarrow> rbind (Read ev) (\<lambda>resp.
             if expectID \<noteq> [] \<and> RespID resp \<noteq> expectID then Inl (WIDMismatch (RespID resp) expectID)
             else if expectOp \<noteq> [] \<and> RespOp resp \<noteq> expectOp then Inl (WOpMismatch (RespOp resp) expectOp)
             else Inr resp)))"

definition killAndMark :: "'s process \<Rightarrow> string \<Rightarrow> 's worker \<Rightarrow> 's worker" where
  "killAndMark P reason w =
     (if w_dead w then w
      else w\<lparr>w_dead := True, w_deadReason := reason, w_proc := pr_kill P (w_proc w)\<rparr>)"

text \<open>The errors after which the answers and the requests no longer line up.\<close>

fun fatal :: "worker_error \<Rightarrow> bool" where
  "fatal (WTimeout n) = True"
| "fatal (WIDMismatch got want) = True"
| "fatal (WOpMismatch got want) = True"
| "fatal (WCancelled e) = True"
| "fatal e = False"

definition markFatal ::
  "'s process \<Rightarrow> (string \<Rightarrow> string) \<Rightarrow> worker_error \<Rightarrow> 's worker \<Rightarrow> 's worker" where
  "markFatal P q err w = (if fatal err then killAndMark P (worker_error_text q err) w else w)"

text \<open>A read whose error is passed to \<open>markFatal\<close>, as \<open>ping\<close>, \<open>Bind\<close> and \<open>Send\<close> all do.\<close>

definition read_marked ::
  "'s process \<Rightarrow> (string \<Rightarrow> string) \<Rightarrow> string \<Rightarrow> string \<Rightarrow> int \<Rightarrow> 's worker
    \<Rightarrow> 's worker \<times> (worker_error + response)" where
  "read_marked P q op i n w =
     (case readWithTimeout P op i n w of
        (w', Inl e) \<Rightarrow> (markFatal P q e w', Inl e)
      | (w', Inr resp) \<Rightarrow> (w', Inr resp))"

subsection \<open>Ping, Bind, Send, Stop, Start\<close>

definition ping_verdict :: "response \<Rightarrow> worker_error + unit" where
  "ping_verdict resp =
     (if RespStatus resp = StatusERROR then Inl (WReported (RespError resp))
      else if RespStatus resp \<noteq> StatusOK then Inl (WPingStatus (RespStatus resp))
      else case RespVersion resp of
             None \<Rightarrow> Inl WNoVersion
           | Some v \<Rightarrow> if v \<noteq> ProtocolVersion then Inl (WVersion v) else Inr ())"

definition ping ::
  "'s process \<Rightarrow> (string \<Rightarrow> string) \<Rightarrow> int \<Rightarrow> 's worker \<Rightarrow> 's worker \<times> (worker_error + unit)" where
  "ping P q timeoutSec w =
     (case pr_write P (w_proc w) NewPingRequest of
        (s, Some e) \<Rightarrow> (w\<lparr>w_proc := s\<rparr>, Inl (WWrite e))
      | (s, None) \<Rightarrow>
          (case read_marked P q OpPing [] timeoutSec (w\<lparr>w_proc := s\<rparr>) of
             (w', Inl e) \<Rightarrow> (w', Inl e)
           | (w', Inr resp) \<Rightarrow> (w', ping_verdict resp)))"

definition bind_verdict :: "response \<Rightarrow> worker_error + unit" where
  "bind_verdict resp =
     (if RespStatus resp = StatusERROR then Inl (WReported (RespError resp))
      else if RespStatus resp = StatusSKIPPED then Inl (WUnsupported (RespReason resp))
      else Inr ())"

definition Bind ::
  "'s process \<Rightarrow> (string \<Rightarrow> string) \<Rightarrow> field list \<Rightarrow> string \<Rightarrow> string \<Rightarrow> int \<Rightarrow> bool \<Rightarrow> 's worker
    \<Rightarrow> 's worker \<times> (worker_error + unit)" where
  "Bind P q schema typ format timeoutSec audit w =
     (if w_dead w then (w, Inl (WDead (w_deadReason w)))
      else if typ = [] then (w, Inl WNoType)
      else if format = [] then (w, Inl WNoFormat)
      else case SchemaFields schema of
        Inl _ \<Rightarrow> (w, Inl WPanic)
      | Inr sfs \<Rightarrow>
          (case pr_write P (w_proc w) (NewBindRequest sfs typ format audit) of
             (s, Some e) \<Rightarrow> (w\<lparr>w_proc := s\<rparr>, Inl (WWrite e))
           | (s, None) \<Rightarrow>
               (case read_marked P q OpBind [] timeoutSec (w\<lparr>w_proc := s\<rparr>) of
                  (w', Inl e) \<Rightarrow> (w', Inl e)
                | (w', Inr resp) \<Rightarrow> (w', bind_verdict resp))))"

definition extractOp :: "request \<Rightarrow> string" where
  "extractOp r = (case r of SerializeRequest i op d \<Rightarrow> op | DeserializeRequest i op h \<Rightarrow> op | _ \<Rightarrow> [])"

definition extractID :: "request \<Rightarrow> string" where
  "extractID r = (case r of SerializeRequest i op d \<Rightarrow> i | DeserializeRequest i op h \<Rightarrow> i | _ \<Rightarrow> [])"

definition Send ::
  "'s process \<Rightarrow> (string \<Rightarrow> string) \<Rightarrow> request \<Rightarrow> int \<Rightarrow> 's worker \<Rightarrow> 's worker \<times> (worker_error + response)" where
  "Send P q req timeoutSec w =
     (if w_dead w then (w, Inl (WDead (w_deadReason w)))
      else case pr_write P (w_proc w) req of
        (s, Some e) \<Rightarrow> (w\<lparr>w_proc := s\<rparr>, Inl (WWorkerWrite (w_language w) e))
      | (s, None) \<Rightarrow> read_marked P q (extractOp req) (extractID req) timeoutSec (w\<lparr>w_proc := s\<rparr>))"

definition Stop :: "'s process \<Rightarrow> 's worker \<Rightarrow> 's worker \<times> worker_error option" where
  "Stop P w =
     (if w_dead w then (w, None)
      else
        let w1 = w\<lparr>w_dead := True, w_deadReason := ''stopped''\<rparr>;
            s1 = fst (pr_write P (w_proc w1) NewExitRequest) in
        case pr_wait P s1 of
          (s2, Some e) \<Rightarrow> (w1\<lparr>w_proc := s2\<rparr>, map_option WRead e)
        | (s2, None) \<Rightarrow> (w1\<lparr>w_proc := pr_kill P s2\<rparr>, Some (WNoExit (w_language w))))"

text \<open>\<open>Start\<close>, from the words of the run command; \<open>launch\<close> is \<open>exec\<close>. A process that came up but failed the
  ping is stopped; the error then comes with the handle as \<open>Stop\<close> left it, which the code drops.\<close>

definition Start ::
  "'s process \<Rightarrow> (string \<Rightarrow> string) \<Rightarrow> (string list \<Rightarrow> string + 's) \<Rightarrow> string list \<Rightarrow> string \<Rightarrow> int
    \<Rightarrow> worker_error \<times> 's worker option + 's worker" where
  "Start P q launch parts lang timeoutSec =
     (if parts = [] then Inl (WEmptyCommand lang, None)
      else case launch parts of
        Inl e \<Rightarrow> Inl (WStart lang e, None)
      | Inr s \<Rightarrow>
          (case ping P q timeoutSec \<lparr>w_language = lang, w_proc = s, w_dead = False, w_deadReason = []\<rparr> of
             (w, Inl e) \<Rightarrow> Inl (WPingFailed lang e, Some (fst (Stop P w)))
           | (w, Inr _) \<Rightarrow> Inr w))"

subsection \<open>Histories of a worker\<close>

text \<open>What a run does to a worker after \<open>Start\<close>: any sequence of binds, requests and stops.\<close>

inductive worker_step :: "'s process \<Rightarrow> (string \<Rightarrow> string) \<Rightarrow> 's worker \<Rightarrow> 's worker \<Rightarrow> bool"
  for P q where
  step_Bind: "Bind P q schema ty fmt n audit w = (w', r) \<Longrightarrow> worker_step P q w w'"
| step_Send: "Send P q req n w = (w', r) \<Longrightarrow> req_op req \<noteq> OpExit \<Longrightarrow> worker_step P q w w'"
| step_Stop: "Stop P w = (w', r) \<Longrightarrow> worker_step P q w w'"

inductive_cases worker_stepE: "worker_step P q w w'"

text \<open>Every answer a read accepts carries the op and, where one is expected, the id of the request,
  and a read that fails for a fatal reason leaves the worker dead.\<close>

lemma readWithTimeout_Inr:
  assumes "readWithTimeout P op i n w = (w', Inr resp)"
  shows "(op \<noteq> [] \<longrightarrow> RespOp resp = op) \<and> (i \<noteq> [] \<longrightarrow> RespID resp = i) \<and>
    (\<exists>s j. pr_read P (w_proc w) = (s, Line j) \<and> response_of j = Inr resp \<and> w' = w\<lparr>w_proc := s\<rparr>)"
  using assms
  by (auto simp: readWithTimeout_def Read_def map_err_eq_Inr split: prod.splits read_event.splits if_splits
      simp: rbind_eq_Inr)

lemma readWithTimeout_dead: "readWithTimeout P op i n w = (w', r) \<Longrightarrow> w_dead w' = w_dead w \<and> w_language w' = w_language w"
  by (auto simp: readWithTimeout_def split: prod.splits)

lemma read_marked_Inr:
  "read_marked P q op i n w = (w', Inr resp) \<longleftrightarrow> readWithTimeout P op i n w = (w', Inr resp)"
  by (auto simp: read_marked_def split: prod.splits sum.splits)

lemma read_marked_fatal:
  assumes "read_marked P q op i n w = (w', Inl e)" and "fatal e"
  shows "w_dead w'"
  using assms by (auto simp: read_marked_def markFatal_def killAndMark_def split: prod.splits sum.splits if_splits)

lemma dead_step: "worker_step P q w w' \<Longrightarrow> w_dead w \<Longrightarrow> w' = w"
  by (auto elim!: worker_stepE simp: Bind_def Send_def Stop_def)

lemma dead_forever:
  assumes "(worker_step P q)\<^sup>*\<^sup>* w w'" and "w_dead w"
  shows "w' = w"
  using assms by (induction rule: rtranclp_induct) (auto dest: dead_step)

lemma Send_correlated:
  assumes "Send P q req n w = (w', Inr resp)"
  shows "\<not> w_dead w \<and> (extractOp req \<noteq> [] \<longrightarrow> RespOp resp = extractOp req) \<and>
    (extractID req \<noteq> [] \<longrightarrow> RespID resp = extractID req)"
proof -
  obtain s e where wr: "pr_write P (w_proc w) req = (s, e)" by (metis surj_pair)
  from assms have "\<not> w_dead w" by (auto simp: Send_def split: if_splits)
  moreover from assms wr this have "readWithTimeout P (extractOp req) (extractID req) n (w\<lparr>w_proc := s\<rparr>) = (w', Inr resp)"
    by (auto simp: Send_def read_marked_Inr split: option.splits)
  ultimately show ?thesis using readWithTimeout_Inr by metis
qed

lemma Send_fatal:
  assumes "Send P q req n w = (w', Inl e)" and "fatal e"
  shows "w_dead w'"
  using assms by (auto simp: Send_def split: if_splits prod.splits option.splits dest: read_marked_fatal)

text \<open>C15. A worker the runner has lost track of is never used again. Whatever the process does, a
  request that ends in a timeout, a cancelled context or an answer to another request leaves the
  worker dead, and from then on no sequence of binds, requests and stops changes it: nothing more
  is written to the process or read from it, and every later request fails at once.\<close>

theorem lost_worker_is_never_used:
  assumes "Send P q req n w = (w1, Inl e)" and "fatal e"
    and "(worker_step P q)\<^sup>*\<^sup>* w1 w2"
  shows "w2 = w1 \<and> Send P q req2 n2 w2 = (w2, Inl (WDead (w_deadReason w1)))"
  using dead_forever [OF assms(3)] Send_fatal [OF assms(1,2)] by (simp add: Send_def)

text \<open>A process that plays back a script: every write succeeds and is logged, every read takes the
  next event, and a worker without one stays silent.\<close>

record script =
  sc_log :: "request list"
  sc_events :: "read_event list"
  sc_killed :: bool

definition script_process :: "script process" where
  "script_process =
     \<lparr>pr_write = (\<lambda>s r. (s\<lparr>sc_log := sc_log s @ [r]\<rparr>, None)),
      pr_read = (\<lambda>s. case sc_events s of [] \<Rightarrow> (s, TimedOut) | e # es \<Rightarrow> (s\<lparr>sc_events := es\<rparr>, e)),
      pr_kill = (\<lambda>s. s\<lparr>sc_killed := True\<rparr>),
      pr_wait = (\<lambda>s. (s, Some None)),
      pr_ctx_done = (\<lambda>s. False)\<rparr>"

definition script_worker :: "string \<Rightarrow> read_event list \<Rightarrow> script worker" where
  "script_worker lang evs =
     \<lparr>w_language = lang, w_proc = \<lparr>sc_log = [], sc_events = evs, sc_killed = False\<rparr>,
      w_dead = False, w_deadReason = []\<rparr>"

theorem lost_worker_is_never_used_witness:
  "fst (Send script_process id (NewSerializeRequest ''b'' []) 1
      (fst (Send script_process id (NewSerializeRequest ''a'' []) 1
         (script_worker ''go'' [TimedOut, Line (JObj [(''id'', JStr ''a'')])])))) =
   fst (Send script_process id (NewSerializeRequest ''a'' []) 1
         (script_worker ''go'' [TimedOut, Line (JObj [(''id'', JStr ''a'')])]))"
  (is "fst (Send _ _ _ _ ?w1) = _")
proof -
  have s: "Send script_process id (NewSerializeRequest ''a'' []) 1
      (script_worker ''go'' [TimedOut, Line (JObj [(''id'', JStr ''a'')])]) = (?w1, Inl (WTimeout 1))"
    by (simp add: Send_def script_worker_def script_process_def read_marked_def readWithTimeout_def)
  show ?thesis
    using lost_worker_is_never_used [OF s, of ?w1 "NewSerializeRequest ''b'' []" 1] by simp
qed

subsection \<open>Starting a worker\<close>

lemma Stop_dead: "w_dead (fst (Stop P w))"
  by (simp add: Stop_def Let_def split: prod.split option.split)

lemma Start_failed_stopped: "Start P q launch parts lang n = Inl (e, Some w) \<Longrightarrow> w_dead w"
  by (auto simp: Start_def Stop_dead split: if_splits sum.splits prod.splits)

text \<open>\<open>Start\<close> hands out a worker only after a ping answered with status OK and exactly this
  runner's protocol version, and the worker it hands out is alive.\<close>

theorem Start_checks_protocol_version:
  assumes "Start P q launch parts lang n = Inr w"
  shows "\<not> w_dead w \<and> w_language w = lang \<and>
    (\<exists>s0 s1 s2 j resp. launch parts = Inr s0 \<and> pr_write P s0 NewPingRequest = (s1, None) \<and>
       pr_read P s1 = (s2, Line j) \<and> w_proc w = s2 \<and> response_of j = Inr resp \<and>
       RespOp resp = OpPing \<and> RespStatus resp = StatusOK \<and> RespVersion resp = Some ProtocolVersion)"
proof -
  from assms obtain s0 where s0: "launch parts = Inr s0"
    by (auto simp: Start_def split: if_splits sum.splits)
  let ?w0 = "\<lparr>w_language = lang, w_proc = s0, w_dead = False, w_deadReason = []\<rparr>"
  from assms s0 obtain u where p: "ping P q n ?w0 = (w, Inr u)"
    by (auto simp: Start_def split: if_splits prod.splits sum.splits)
  obtain s1 e where wr: "pr_write P s0 NewPingRequest = (s1, e)" by (metis surj_pair)
  from p wr have e: "e = None" by (auto simp: ping_def split: option.splits)
  let ?w1 = "\<lparr>w_language = lang, w_proc = s1, w_dead = False, w_deadReason = []\<rparr>"
  from p wr e obtain resp where r: "readWithTimeout P OpPing [] n ?w1 = (w, Inr resp)"
    and v: "ping_verdict resp = Inr u"
    by (auto simp: ping_def read_marked_Inr split: prod.splits sum.splits)
  from v have "RespStatus resp = StatusOK" "RespVersion resp = Some ProtocolVersion"
    by (auto simp: ping_verdict_def split: if_splits option.splits)
  with readWithTimeout_Inr [OF r] s0 wr e show ?thesis by auto
qed

theorem Start_checks_protocol_version_witness:
  "\<exists>w. Start script_process id
     (\<lambda>_. Inr \<lparr>sc_log = [], sc_events = [Line (JObj [(''op'', JStr ''ping''), (''status'', JStr ''OK''),
        (''protocol_version'', JNum (f64_of_int 2))])], sc_killed = False\<rparr>) [''./worker''] ''go'' 5 = Inr w \<and>
     \<not> w_dead w"
proof -
  have i: "int_of (JNum (f64_of_int 2)) = Some 2" by (rule int_of_small) simp
  have "int_of (JNum x) = Some 2 \<Longrightarrow> \<exists>w. Start script_process id
     (\<lambda>_. Inr \<lparr>sc_log = [], sc_events = [Line (JObj [(''op'', JStr ''ping''), (''status'', JStr ''OK''),
        (''protocol_version'', JNum x)])], sc_killed = False\<rparr>) [''./worker''] ''go'' 5 = Inr w" for x
    by (simp add: Start_def ping_def script_process_def read_marked_def readWithTimeout_def Read_def
        response_of_def un_field_def str_of_def ping_verdict_def ProtocolVersion_def)
  from this [OF i] show ?thesis using Start_checks_protocol_version by blast
qed

subsection \<open>What no step of a worker changes\<close>

text \<open>A property of the process that survives every write, read, kill and wait survives every history.\<close>

locale process_invariant =
  fixes P :: "'s process"
    and I :: "'s \<Rightarrow> bool"
  assumes write_keeps: "I s \<Longrightarrow> pr_write P s r = (s', e) \<Longrightarrow> I s'"
    and read_keeps: "I s \<Longrightarrow> pr_read P s = (s', ev) \<Longrightarrow> I s'"
    and kill_keeps: "I s \<Longrightarrow> I (pr_kill P s)"
    and wait_keeps: "I s \<Longrightarrow> pr_wait P s = (s', x) \<Longrightarrow> I s'"
begin

lemma marked_keeps:
  assumes "I (w_proc w)" and "read_marked P q op i n w = (w', r)"
  shows "I (w_proc w')"
proof -
  obtain s ev where rd: "pr_read P (w_proc w) = (s, ev)" by (metis surj_pair)
  from assms(1) rd have "I s" by (rule read_keeps)
  then show ?thesis using assms(2) rd kill_keeps
    by (auto simp: read_marked_def readWithTimeout_def markFatal_def killAndMark_def split: prod.splits sum.splits if_splits)
qed

lemma Send_keeps:
  assumes "I (w_proc w)" and "Send P q req n w = (w', r)"
  shows "I (w_proc w')"
proof -
  obtain s e where wr: "pr_write P (w_proc w) req = (s, e)" by (metis surj_pair)
  with assms(1) have "I s" by (rule write_keeps)
  then show ?thesis using assms wr marked_keeps [of "w\<lparr>w_proc := s\<rparr>"]
    by (auto simp: Send_def split: if_splits option.splits)
qed

lemma Bind_keeps:
  assumes "I (w_proc w)" and "Bind P q schema ty fmt n audit w = (w', r)"
  shows "I (w_proc w')"
proof (cases "SchemaFields schema")
  case (Inr sfs)
  obtain s e where wr: "pr_write P (w_proc w) (NewBindRequest sfs ty fmt audit) = (s, e)" by (metis surj_pair)
  with assms(1) have "I s" by (rule write_keeps)
  then show ?thesis using assms wr Inr marked_keeps [of "w\<lparr>w_proc := s\<rparr>"]
    by (auto simp: Bind_def split: if_splits option.splits prod.splits sum.splits)
qed (use assms in \<open>auto simp: Bind_def split: if_splits\<close>)

lemma Stop_keeps:
  assumes "I (w_proc w)" and "Stop P w = (w', r)"
  shows "I (w_proc w')"
proof -
  obtain s e where wr: "pr_write P (w_proc w) NewExitRequest = (s, e)" by (metis surj_pair)
  obtain s2 x where wt: "pr_wait P s = (s2, x)" by (metis surj_pair)
  from write_keeps [OF assms(1) wr] wait_keeps [OF _ wt] have "I s2" by blast
  then show ?thesis using assms wr wt kill_keeps
    by (auto simp: Stop_def Let_def split: if_splits option.splits)
qed

lemma steps_keep:
  assumes "(worker_step P q)\<^sup>*\<^sup>* w w'" and "I (w_proc w)"
  shows "I (w_proc w')"
  using assms
proof (induction rule: rtranclp_induct)
  case (step y z)
  from step.hyps(2) step.IH [OF step.prems] show ?case
    by (cases rule: worker_step.cases) (blast intro: Send_keeps Bind_keeps Stop_keeps)+
qed simp

lemma Start_keeps:
  assumes "Start P q launch parts lang n = Inr w" and "launch parts = Inr s0" and "I s0"
  shows "I (w_proc w)"
proof -
  obtain s e where wr: "pr_write P s0 NewPingRequest = (s, e)" by (metis surj_pair)
  with assms(3) have "I s" by (rule write_keeps)
  then show ?thesis using assms wr marked_keeps [of "\<lparr>w_language = lang, w_proc = s, w_dead = False, w_deadReason = []\<rparr>"]
    by (auto simp: Start_def ping_def split: if_splits option.splits prod.splits sum.splits)
qed

end

subsection \<open>Requests and answers stay in step\<close>

text \<open>What the runner relies on in a process: it answers its requests in the order they came, at most
  one line each, however late. \<open>owed s\<close> are the requests whose line is still to come on the stream,
  each with that line (\<open>None\<close> is a line that is no JSON), and \<open>answers s r a\<close> says that \<open>a\<close> is the
  line a process in state \<open>s\<close> gives to \<open>r\<close>. Nothing more comes on a stream that failed.\<close>

locale fifo_process =
  fixes P :: "'s process"
    and owed :: "'s \<Rightarrow> (request \<times> json option) list"
    and answers :: "'s \<Rightarrow> request \<Rightarrow> json option \<Rightarrow> bool"
  assumes written: "pr_write P s r = (s', None) \<Longrightarrow> req_op r \<noteq> OpExit \<Longrightarrow>
      owed s' = owed s \<or> (\<exists>a. owed s' = owed s @ [(r, a)] \<and> answers s r a)"
    and not_written: "pr_write P s r = (s', Some e) \<Longrightarrow> owed s' = owed s"
    and line: "pr_read P s = (s', Line j) \<Longrightarrow> \<exists>r. owed s = (r, Some j) # owed s'"
    and bad_line: "pr_read P s = (s', BadLine e) \<Longrightarrow> \<exists>r. owed s = (r, None) # owed s'"
    and failed: "pr_read P s = (s', ReadError e) \<Longrightarrow> owed s' = []"
begin

definition in_step :: "'s worker \<Rightarrow> bool" where
  "in_step w \<longleftrightarrow> w_dead w \<or> owed (w_proc w) = []"

lemma read_in_step:
  assumes "owed (w_proc w) = [] \<or> (\<exists>x. owed (w_proc w) = [x])"
    and "read_marked P q op i n w = (w', res)"
  shows "in_step w'"
proof -
  obtain s ev where rd: "pr_read P (w_proc w) = (s, ev)" by (metis surj_pair)
  have proc: "w_proc w' = s \<or> w_dead w'"
    using assms(2) rd by (auto simp: read_marked_def readWithTimeout_def markFatal_def killAndMark_def
        split: prod.splits sum.splits if_splits)
  have to: "ev = TimedOut \<or> (\<exists>e. ev = CtxDone e) \<Longrightarrow> w_dead w'"
    using assms(2) rd by (auto simp: read_marked_def readWithTimeout_def markFatal_def killAndMark_def)
  show ?thesis
  proof (cases "w_dead w'")
    case False
    with proc have p: "w_proc w' = s" by simp
    have "owed s = []"
    proof (cases ev)
      case (Line j)
      with line [of "w_proc w" s j] rd assms(1) show ?thesis by auto
    next
      case (BadLine e)
      with bad_line [of "w_proc w" s e] rd assms(1) show ?thesis by auto
    next
      case (ReadError e)
      with failed rd show ?thesis by blast
    qed (use to False in auto)
    with p show ?thesis by (simp add: in_step_def)
  qed (simp add: in_step_def)
qed

lemma write_in_step:
  assumes "in_step w" and "\<not> w_dead w" and "req_op r \<noteq> OpExit" and "pr_write P (w_proc w) r = (s, None)"
  shows "owed s = [] \<or> (\<exists>a. owed s = [(r, a)] \<and> answers (w_proc w) r a)"
  using assms written [OF assms(4,3)] by (auto simp: in_step_def)

lemma exchange_in_step:
  assumes "in_step w" and "\<not> w_dead w" and "req_op r \<noteq> OpExit" and "pr_write P (w_proc w) r = (s, None)"
    and "read_marked P q op i n (w\<lparr>w_proc := s\<rparr>) = (w', res)"
  shows "in_step w'"
  using write_in_step [OF assms(1-4)] by (intro read_in_step [OF _ assms(5)]) auto

lemma failed_write_in_step:
  assumes "in_step w" and "\<not> w_dead w" and "pr_write P (w_proc w) r = (s, Some e)"
  shows "in_step (w\<lparr>w_proc := s\<rparr>)"
  using assms not_written [OF assms(3)] by (auto simp: in_step_def)

lemma Send_in_step:
  assumes "in_step w" and "Send P q req n w = (w', r)" and "req_op req \<noteq> OpExit"
  shows "in_step w'"
proof (cases "w_dead w")
  case False
  obtain s e where wr: "pr_write P (w_proc w) req = (s, e)" by (metis surj_pair)
  show ?thesis
  proof (cases e)
    case None
    with assms(2) wr False have "read_marked P q (extractOp req) (extractID req) n (w\<lparr>w_proc := s\<rparr>) = (w', r)"
      by (simp add: Send_def)
    then show ?thesis using exchange_in_step [OF assms(1) False assms(3)] wr None by blast
  qed (use assms wr False failed_write_in_step in \<open>auto simp: Send_def\<close>)
qed (use assms in \<open>auto simp: Send_def\<close>)

lemma Bind_in_step:
  assumes "in_step w" and "Bind P q schema ty fmt n audit w = (w', r)"
  shows "in_step w'"
proof (cases "w_dead w \<or> ty = [] \<or> fmt = [] \<or> (\<exists>u. SchemaFields schema = Inl u)")
  case False
  then obtain sfs where sfs: "SchemaFields schema = Inr sfs" by (cases "SchemaFields schema") auto
  let ?r = "NewBindRequest sfs ty fmt audit"
  obtain s e where wr: "pr_write P (w_proc w) ?r = (s, e)" by (metis surj_pair)
  show ?thesis
  proof (cases e)
    case None
    then obtain r' where "read_marked P q OpBind [] n (w\<lparr>w_proc := s\<rparr>) = (w', r')"
      using assms(2) wr False sfs by (auto simp: Bind_def split: prod.splits sum.splits)
    then show ?thesis using exchange_in_step [OF assms(1) _ _ wr [unfolded None]] False
      by (simp add: NewBindRequest_def)
  qed (use assms wr False sfs failed_write_in_step in \<open>auto simp: Bind_def\<close>)
qed (use assms in \<open>auto simp: Bind_def split: if_splits\<close>)

lemma Stop_in_step: "in_step w \<Longrightarrow> Stop P w = (w', r) \<Longrightarrow> in_step w'"
  by (auto simp: Stop_def in_step_def Let_def split: if_splits prod.splits option.splits)

lemma steps_in_step:
  assumes "(worker_step P q)\<^sup>*\<^sup>* w w'" and "in_step w"
  shows "in_step w'"
  using assms
proof (induction rule: rtranclp_induct)
  case (step y z)
  from step.hyps(2) step.IH [OF step.prems] show ?case
    by (cases rule: worker_step.cases) (blast intro: Send_in_step Bind_in_step Stop_in_step)+
qed simp

lemma Start_in_step:
  assumes "Start P q launch parts lang n = Inr w" and "launch parts = Inr s0" and "owed s0 = []"
  shows "in_step w"
proof -
  let ?w0 = "\<lparr>w_language = lang, w_proc = s0, w_dead = False, w_deadReason = []\<rparr>"
  from assms obtain u where p: "ping P q n ?w0 = (w, Inr u)"
    by (auto simp: Start_def split: if_splits prod.splits sum.splits)
  obtain s e where wr: "pr_write P s0 NewPingRequest = (s, e)" by (metis surj_pair)
  with p have e: "e = None" by (auto simp: ping_def split: option.splits)
  with p wr obtain r where "read_marked P q OpPing [] n (?w0\<lparr>w_proc := s\<rparr>) = (w, r)"
    by (auto simp: ping_def split: prod.splits sum.splits)
  moreover have "in_step ?w0" using assms(3) by (simp add: in_step_def)
  ultimately show ?thesis
    using exchange_in_step [of ?w0 NewPingRequest s] wr e by (simp add: NewPingRequest_def)
qed

text \<open>Every answer \<open>Send\<close> accepts is the process's answer to that very request.\<close>

lemma Send_answered:
  assumes "in_step w0" and "(worker_step P q)\<^sup>*\<^sup>* w0 w" and "req_op req \<noteq> OpExit"
    and "Send P q req n w = (w', Inr resp)"
  shows "\<exists>j. answers (w_proc w) req (Some j) \<and> response_of j = Inr resp"
proof -
  from Send_correlated [OF assms(4)] have d: "\<not> w_dead w" by simp
  obtain s e where wr: "pr_write P (w_proc w) req = (s, e)" by (metis surj_pair)
  with assms(4) d have e: "e = None" by (auto simp: Send_def split: option.splits)
  with assms(4) d wr have "readWithTimeout P (extractOp req) (extractID req) n (w\<lparr>w_proc := s\<rparr>) = (w', Inr resp)"
    by (simp add: Send_def read_marked_Inr)
  from readWithTimeout_Inr [OF this] obtain s' j where rd: "pr_read P s = (s', Line j)"
    and j: "response_of j = Inr resp" by auto
  from line [OF rd] obtain r where o: "owed s = (r, Some j) # owed s'" by blast
  with write_in_step [OF steps_in_step [OF assms(2,1)] d assms(3) wr [unfolded e]] j show ?thesis by auto
qed

end

end
