(* ===== verification/Cmp.thy ===== *)
theory Cmp
  imports Wire Sorted
begin

section \<open>Comparison of bytes and data (internal/cmp)\<close>

text \<open>
  \<open>HexDiff\<close> compares serialized bytes and \<open>DataDiff\<close> decoded values; both return the text of a
  diff, empty when equal. \<open>github.com/google/go-cmp\<close> is not part of the program: \<open>cmp_diff\<close> is its
  \<open>Diff\<close> on two values, and \<open>quote\<close> is the text of \<open>%q\<close>.
\<close>

record cmp_env =
  cmp_diff :: "gval \<Rightarrow> gval \<Rightarrow> string"
  quote :: "string \<Rightarrow> string"

subsection \<open>DataDiff\<close>

definition isNaNHex :: "gval \<Rightarrow> bool" where
  "isNaNHex v =
     (case v of
        GStr s \<Rightarrow>
          (case hex_decode s of
             None \<Rightarrow> False
           | Some raw \<Rightarrow>
               if length raw = 4 then is_nan64 (f64_of_f32 (word_of_nat (le_num raw)))
               else if length raw = 8 then is_nan64 (word_of_nat (le_num raw))
               else False)
      | _ \<Rightarrow> False)"

definition bothNaNHex :: "gval \<Rightarrow> gval \<Rightarrow> bool" where
  "bothNaNHex a b \<longleftrightarrow> isNaNHex a \<and> isNaNHex b"

text \<open>\<open>m[k]\<close> of a \<open>map[string]any\<close>: nil for a missing key.\<close>

definition index_any :: "gval gomap \<Rightarrow> string \<Rightarrow> gval" where
  "index_any m k = (case map_of m k of None \<Rightarrow> GNil | Some v \<Rightarrow> v)"

definition field_diff ::
  "cmp_env \<Rightarrow> gval gomap \<Rightarrow> gval gomap \<Rightarrow> string list \<Rightarrow> string \<Rightarrow> string list" where
  "field_diff ce expected got floatFields k =
     (let ev = index_any expected k; gv = index_any got k in
      if k \<in> set floatFields \<and> bothNaNHex ev gv then []
      else let diff = cmp_diff ce ev gv in
        if diff \<noteq> [] then [''  field '' @ quote ce k @ '':'' @ [CHR 0x0A] @ diff] else [])"

definition DataDiff ::
  "cmp_env \<Rightarrow> gval gomap \<Rightarrow> gval gomap \<Rightarrow> string list \<Rightarrow> string list \<Rightarrow> string" where
  "DataDiff ce expected got fieldOrder0 floatFields =
     (let fieldOrder = (if fieldOrder0 = [] then sorted_keys expected else fieldOrder0);
          diffs = concat (map (field_diff ce expected got floatFields) fieldOrder);
          extra = concat (map (\<lambda>(k, v). case map_of expected k of
                     None \<Rightarrow> [''  field '' @ quote ce k @ '': unexpected (not in expected)'']
                   | Some _ \<Rightarrow> []) got)
      in join [CHR 0x0A] (diffs @ extra))"

subsection \<open>HexDiff\<close>

definition contextWindow :: int where "contextWindow = 16"
definition hexRowSize :: int where "hexRowSize = 16"
definition hexColPad :: int where "hexColPad = 3"

definition contextBounds :: "int \<Rightarrow> int \<Rightarrow> int \<Rightarrow> int \<times> int" where
  "contextBounds dv lenA lenB =
     (max (dv - contextWindow) 0, min (dv + 1 + contextWindow) (max lenA lenB))"

fun show_hex :: "nat \<Rightarrow> string" where
  "show_hex n = (if n < 16 then [hex_digit n] else show_hex (n div 16) @ [hex_digit (n mod 16)])"

declare show_hex.simps [simp del]

text \<open>\<open>%08x\<close> and \<open>%02x\<close>.\<close>

definition pad_hex :: "nat \<Rightarrow> nat \<Rightarrow> string" where
  "pad_hex w n = replicate (w - length (show_hex n)) CHR ''0'' @ show_hex n"

text \<open>\<open>strings.Repeat\<close>, which panics on a negative count.\<close>

definition repeat_string :: "string \<Rightarrow> int \<Rightarrow> string option" where
  "repeat_string s n = (if n < 0 then None else Some (concat (replicate (nat n) s)))"

definition hex_cell :: "int \<Rightarrow> int \<Rightarrow> byte \<Rightarrow> string" where
  "hex_cell dv i b = (let h = pad_hex 2 (unat b) in if i = dv then ''['' @ h @ '']'' else h)"

definition ascii_cell :: "byte \<Rightarrow> char" where
  "ascii_cell b = (if 32 \<le> unat b \<and> unat b < 127 then char_of (unat b) else CHR ''.'')"

text \<open>\<open>hexRows\<close> from \<open>rowStart\<close> on; \<open>None\<close> is a panic (an index out of range or a negative
  count).\<close>

function hexRows :: "bytes \<Rightarrow> int \<Rightarrow> int \<Rightarrow> int \<Rightarrow> string option" where
  "hexRows data rowStart stop dv =
     (if \<not> rowStart < stop then Some []
      else
        let rowWidth = min (rowStart + hexRowSize) stop - rowStart in
        if int (length data) \<le> rowStart then
          map_option (\<lambda>sp. pad_hex 8 (nat rowStart) @ ''  '' @ sp @ [CHR 0x0A])
            (repeat_string ''   '' rowWidth)
        else if rowStart < 0 then None
        else
          let rowEnd = min (rowStart + rowWidth) (int (length data));
              row = take (nat (rowEnd - rowStart)) (drop (nat rowStart) data);
              hexLine = join '' '' (map (\<lambda>(j, b). hex_cell dv (rowStart + int j) b)
                                       (zip [0..<length row] row))
          in
          case (if rowEnd - rowStart < hexRowSize
                then repeat_string '' '' ((hexRowSize - (rowEnd - rowStart)) * hexColPad)
                else Some []) of
            None \<Rightarrow> None
          | Some pad \<Rightarrow>
              map_option (\<lambda>rest.
                pad_hex 8 (nat rowStart) @ ''  '' @ hexLine @ pad @ ''  |'' @
                map ascii_cell row @ ''|'' @ [CHR 0x0A] @ rest)
                (hexRows data (rowStart + hexRowSize) stop dv))"
  by pat_completeness auto
termination
  by (relation "measure (\<lambda>(data, rowStart, stop, dv). nat (stop - rowStart))")
     (auto simp: hexRowSize_def)

declare hexRows.simps [simp del]

text \<open>The first index where the buffers differ (the length of the shorter one when it is a
  prefix of the other), \<open>None\<close> when they are equal.\<close>

fun first_mismatch :: "bytes \<Rightarrow> bytes \<Rightarrow> nat option" where
  "first_mismatch (x # xs) (y # ys) = (if x \<noteq> y then Some 0 else map_option Suc (first_mismatch xs ys))"
| "first_mismatch _ _ = None"

definition firstDiv :: "bytes \<Rightarrow> bytes \<Rightarrow> nat option" where
  "firstDiv a b =
     (case first_mismatch a b of
        Some i \<Rightarrow> Some i
      | None \<Rightarrow> if length a \<noteq> length b then Some (min (length a) (length b)) else None)"

definition hexOffsetDiff :: "bytes \<Rightarrow> bytes \<Rightarrow> string option" where
  "hexOffsetDiff a b =
     (case firstDiv a b of
        None \<Rightarrow> Some []
      | Some d \<Rightarrow>
          let (start, stop) = contextBounds (int d) (int (length a)) (int (length b)) in
          case (hexRows a start stop (int d), hexRows b start stop (int d)) of
            (Some ra, Some rb) \<Rightarrow>
              Some (''length: expected '' @ itoa (int (length a)) @ '', got '' @ itoa (int (length b)) @ [CHR 0x0A] @
                    ''first divergence at offset '' @ itoa (int d) @ '' (0x'' @ show_hex d @ '')'' @ [CHR 0x0A] @
                    [CHR 0x0A] @ ''--- expected'' @ [CHR 0x0A] @ ra @ ''+++ got'' @ [CHR 0x0A] @ rb)
          | _ \<Rightarrow> None)"

text \<open>\<open>HexDiff\<close>; \<open>err\<close> is the text of the decoder's error.\<close>

definition HexDiff :: "(string \<Rightarrow> string) \<Rightarrow> string \<Rightarrow> string \<Rightarrow> string option" where
  "HexDiff err expected got =
     (case hex_decode expected of
        None \<Rightarrow> Some (''Error decoding expected hex: '' @ err expected)
      | Some expBytes \<Rightarrow>
          (case hex_decode got of
             None \<Rightarrow> Some (''Error decoding got hex: '' @ err got)
           | Some gotBytes \<Rightarrow>
               if expected = got then Some [] else hexOffsetDiff expBytes gotBytes))"

subsection \<open>ColorizeDiff\<close>

definition reset_color :: string where
  "reset_color = [CHR 0x1B] @ ''[0m''"

definition ColorizeDiff :: "string \<Rightarrow> string \<Rightarrow> string \<Rightarrow> string" where
  "ColorizeDiff plain minusColor plusColor =
     concat (map (\<lambda>line.
       (if has_prefix line ''- '' then minusColor @ line @ reset_color
        else if has_prefix line ''+ '' then plusColor @ line @ reset_color
        else line) @ [CHR 0x0A]) (split_on CHR 0x0A plain))"

subsection \<open>Facts\<close>

lemma repeat_string_Some: "0 \<le> n \<Longrightarrow> repeat_string s n = Some (concat (replicate (nat n) s))"
  by (simp add: repeat_string_def)

lemma repeat_string_None: "repeat_string s n = None \<longleftrightarrow> n < 0"
  by (simp add: repeat_string_def)

lemma hexRows_total: "0 \<le> start \<Longrightarrow> \<exists>s. hexRows data start stop dv = Some s"
proof (induction "nat (stop - start)" arbitrary: start rule: less_induct)
  case less
  show ?case
  proof (cases "start < stop \<and> start < int (length data)")
    case True
    obtain rest where "hexRows data (start + hexRowSize) stop dv = Some rest"
      using less.hyps [of "start + hexRowSize"] less.prems True by (auto simp: hexRowSize_def)
    then show ?thesis using True less.prems
      by (subst hexRows.simps)
         (auto simp: Let_def repeat_string_None hexColPad_def split: option.splits if_splits)
  next
    case False
    then show ?thesis by (subst hexRows.simps) (auto simp: Let_def repeat_string_Some hexRowSize_def)
  qed
qed

lemma first_mismatch_None: "first_mismatch a b = None \<longleftrightarrow> (\<exists>r. a = b @ r \<or> b = a @ r)"
  by (induction a b rule: first_mismatch.induct) auto

lemma first_mismatch_Some:
  "first_mismatch a b = Some i \<Longrightarrow> i < length a \<and> i < length b \<and> take i a = take i b \<and> a ! i \<noteq> b ! i"
  by (induction a b arbitrary: i rule: first_mismatch.induct) (auto split: if_splits)

lemma first_mismatch_same [simp]: "first_mismatch a a = None"
  by (induction a) auto

lemma firstDiv_None: "firstDiv a b = None \<longleftrightarrow> a = b"
  by (auto simp: firstDiv_def first_mismatch_None split: option.splits)

lemma firstDiv_Some:
  assumes "firstDiv a b = Some d"
  shows "take d a = take d b \<and> d \<le> length a \<and> d \<le> length b \<and> d < max (length a) (length b) \<and>
    (d < length a \<and> d < length b \<longrightarrow> a ! d \<noteq> b ! d)"
proof (cases "first_mismatch a b")
  case None
  with assms have d: "length a \<noteq> length b" "d = min (length a) (length b)"
    by (auto simp: firstDiv_def split: if_splits)
  with None show ?thesis by (auto simp: first_mismatch_None)
next
  case (Some i)
  with assms first_mismatch_Some [OF Some] show ?thesis by (auto simp: firstDiv_def)
qed

lemma hexOffsetDiff_total:
  "\<exists>d. hexOffsetDiff a b = Some d \<and> (d = [] \<longleftrightarrow> a = b)"
proof (cases "firstDiv a b")
  case None
  then have "a = b" by (simp only: firstDiv_None)
  with None show ?thesis by (simp add: hexOffsetDiff_def)
next
  case (Some d)
  then have ne: "a \<noteq> b" by (metis firstDiv_None option.distinct(1))
  obtain start stop where c: "contextBounds (int d) (int (length a)) (int (length b)) = (start, stop)"
    by (cases "contextBounds (int d) (int (length a)) (int (length b))")
  then have "0 \<le> start" by (auto simp: contextBounds_def)
  then obtain ra rb where "hexRows a start stop (int d) = Some ra" "hexRows b start stop (int d) = Some rb"
    using hexRows_total by meson
  with c Some ne show ?thesis by (simp add: hexOffsetDiff_def)
qed

lemma HexDiff_spec:
  "\<exists>d. HexDiff err e g = Some d \<and>
     (d = [] \<longleftrightarrow> (\<exists>bs. hex_decode e = Some bs \<and> hex_decode g = Some bs))"
proof (cases "hex_decode e")
  case None
  then show ?thesis by (simp add: HexDiff_def)
next
  case e: (Some a)
  show ?thesis
  proof (cases "hex_decode g")
    case None
    with e show ?thesis by (simp add: HexDiff_def)
  next
    case (Some b)
    with e hexOffsetDiff_total [of a b] show ?thesis by (auto simp: HexDiff_def)
  qed
qed

text \<open>C37. \<open>HexDiff\<close> never panics, and it is empty exactly when both strings are hex of the same
  bytes, whatever the case of the digits.\<close>

theorem HexDiff_empty_iff_same_bytes:
  "\<exists>d. HexDiff err e g = Some d \<and>
     (d = [] \<longleftrightarrow> (\<exists>bs. hex_decode e = Some bs \<and> hex_decode g = Some bs))"
  by (rule HexDiff_spec)

text \<open>The offset a binary diff reports is the first divergence: the buffers agree before it,
  and differ there or one of them ends there. The context window shown around it contains the
  offset, starts inside the buffers, ends within the longer one and spans at most 33 bytes.\<close>

theorem hex_divergence_window:
  "case firstDiv a b of
     None \<Rightarrow> a = b
   | Some d \<Rightarrow>
       take d a = take d b \<and> d \<le> min (length a) (length b) \<and>
       (d = min (length a) (length b) \<or> a ! d \<noteq> b ! d) \<and>
       (let (start, stop) = contextBounds (int d) (int (length a)) (int (length b)) in
        0 \<le> start \<and> start \<le> int d \<and> int d < stop \<and>
        stop \<le> int (max (length a) (length b)) \<and> stop - start \<le> 33)"
proof (cases "firstDiv a b")
  case None
  then have "a = b" by (simp only: firstDiv_None)
  with None show ?thesis by simp
next
  case (Some d)
  with firstDiv_Some [OF Some] show ?thesis
    by (auto simp: contextBounds_def contextWindow_def Let_def)
qed

lemma join_eq_Nil: "list_all (\<lambda>x. x \<noteq> []) xs \<Longrightarrow> join sep xs = [] \<longleftrightarrow> xs = []"
  by (cases "(sep, xs)" rule: join.cases) auto

lemma field_diff_Nil:
  "field_diff ce e g fl k = [] \<longleftrightarrow>
     k \<in> set fl \<and> bothNaNHex (index_any e k) (index_any g k) \<or>
     cmp_diff ce (index_any e k) (index_any g k) = []"
  by (simp add: field_diff_def Let_def)

lemma field_diff_nonempty: "list_all (\<lambda>x. x \<noteq> []) (field_diff ce e g fl k)"
  by (simp add: field_diff_def Let_def)

text \<open>\<open>DataDiff\<close> is empty exactly when every field of the order has no difference (two
  NaN encodings of a float field count as none) and the worker sent no field the case does not
  have. A missing field is compared as nil, and the result does not depend on map order.\<close>

theorem DataDiff_empty_iff:
  "DataDiff ce e g order fl = [] \<longleftrightarrow>
     (\<forall>k \<in> (if order = [] then fst ` set e else set order).
        k \<in> set fl \<and> bothNaNHex (index_any e k) (index_any g k) \<or>
        cmp_diff ce (index_any e k) (index_any g k) = []) \<and>
     fst ` set g \<subseteq> fst ` set e"
proof -
  let ?ord = "if order = [] then sorted_keys e else order"
  let ?diffs = "concat (map (field_diff ce e g fl) ?ord)"
  let ?extra = "concat (map (\<lambda>(k, v). case map_of e k of
                     None \<Rightarrow> [''  field '' @ quote ce k @ '': unexpected (not in expected)'']
                   | Some _ \<Rightarrow> []) g)"
  have ne: "list_all (\<lambda>x. x \<noteq> []) (?diffs @ ?extra)"
    using field_diff_nonempty [of ce e g fl] unfolding list_all_append
    by (auto simp: list_all_iff split: option.splits)
  have "DataDiff ce e g order fl = [] \<longleftrightarrow> ?diffs @ ?extra = []"
    unfolding DataDiff_def Let_def by (rule join_eq_Nil [OF ne])
  also have "\<dots> \<longleftrightarrow> (\<forall>k \<in> set ?ord. field_diff ce e g fl k = []) \<and> (\<forall>(k, v) \<in> set g. map_of e k \<noteq> None)"
    by (auto split: option.splits)
  also have "(\<forall>(k, v) \<in> set g. map_of e k \<noteq> None) \<longleftrightarrow> fst ` set g \<subseteq> fst ` set e"
    by (force simp: map_of_eq_None_iff)
  also have "set ?ord = (if order = [] then fst ` set e else set order)" by simp
  finally show ?thesis unfolding field_diff_Nil .
qed

theorem hex_divergence_window_witness:
  "firstDiv [1, 2, 3] [1, 2, 4] = Some 2 \<and> [1, 2, 3 :: byte] ! 2 \<noteq> [1, 2, 4] ! 2 \<and>
     contextBounds 2 3 3 = (0, 3)"
  using hex_divergence_window [of "[1, 2, 3]" "[1, 2, 4]"]
  by (simp add: firstDiv_def contextBounds_def contextWindow_def)

theorem DataDiff_empty_iff_witness:
  "DataDiff \<lparr>cmp_diff = (\<lambda>a b. if a = b then '''' else ''differs''), quote = id\<rparr>
     [(''id'', GStr ''7''), (''x'', GStr ''0000c07f'')] [(''x'', GStr ''0100c07f''), (''id'', GStr ''7'')]
     [''id'', ''x''] [''x''] = ''''"
  by (subst DataDiff_empty_iff)
     (simp add: index_any_def bothNaNHex_def isNaNHex_def hex_val_def f64_of_f32_def
        is_nan64_def f32_exp_def f32_man_def f64_fields_pack)

end
