(* ===== verification/Csv.thy ===== *)
theory Csv
  imports GoStrings
begin

section \<open>CSV text (encoding/csv, as the report uses it)\<close>

text \<open>
  The text layer below \<open>WriteCSV\<close> and \<open>ReadCSV\<close>: \<open>csv.Writer\<close> and \<open>csv.Reader\<close> of the standard
  library with their default settings (comma, no comment character, no lazy quotes, no trimming, LF
  line ends), over byte strings. The writer quotes a field when it has to; the reader works line by
  line, as Go's does: \<open>csv_line\<close> is \<open>readLine\<close>, which turns a CR LF at the end of a line into LF also
  inside a quoted field, so what is read back is \<open>crlf_lf\<close> of what was written.
\<close>

abbreviation chLF :: char where "chLF \<equiv> CHR 0x0A"
abbreviation chCR :: char where "chCR \<equiv> CHR 0x0D"
abbreviation chQuote :: char where "chQuote \<equiv> CHR 0x22"
abbreviation chComma :: char where "chComma \<equiv> CHR 0x2C"

subsection \<open>The writer\<close>

definition fieldNeedsQuotes :: "string \<Rightarrow> bool" where
  "fieldNeedsQuotes field \<longleftrightarrow>
     field \<noteq> [] \<and>
     (field = [CHR 0x5C, CHR 0x2E] \<or> list_ex (\<lambda>c. c = chLF \<or> c = chCR \<or> c = chQuote \<or> c = chComma) field \<or>
      first_space field \<noteq> None)"

fun double_quotes :: "string \<Rightarrow> string" where
  "double_quotes [] = []"
| "double_quotes (c # s) = (if c = chQuote then [c, c] else [c]) @ double_quotes s"

definition csv_field :: "string \<Rightarrow> string" where
  "csv_field field =
     (if fieldNeedsQuotes field then chQuote # double_quotes field @ [chQuote] else field)"

definition csv_write_row :: "string list \<Rightarrow> string" where
  "csv_write_row fs = join [chComma] (map csv_field fs) @ [chLF]"

definition csv_write :: "string list list \<Rightarrow> string" where
  "csv_write rows = concat (map csv_write_row rows)"

subsection \<open>The reader\<close>

datatype csv_parse_error = BareQuote | StrayQuote | FieldCount

text \<open>\<open>readLine\<close>: the next line with its LF and what follows it; \<open>None\<close> at the end of the input. A last
  line without LF loses a trailing CR as well.\<close>

definition drop_cr :: "string \<Rightarrow> string" where
  "drop_cr l = (if l \<noteq> [] \<and> last l = chCR then butlast l else l)"

definition csv_line :: "string \<Rightarrow> (string \<times> string) option" where
  "csv_line s =
     (if s = [] then None
      else (case cut chLF s of (a, b, lf) \<Rightarrow> Some (drop_cr a @ (if lf then [chLF] else []), b)))"

definition at_line_end :: "string \<Rightarrow> bool" where
  "at_line_end l \<longleftrightarrow> l = [] \<or> l = [chLF]"

lemma cut_shorter: "cut c s = (a, b, f) \<Longrightarrow> length a + length b + (if f then 1 else 0) = length s"
  by (induction s arbitrary: a b f) (auto split: if_splits prod.splits)

lemma drop_cr_shorter: "length (drop_cr l) \<le> length l"
  by (simp add: drop_cr_def)

lemma csv_line_shorter: "csv_line s = Some (l, r) \<Longrightarrow> length l + length r \<le> length s \<and> length r < length s"
proof -
  assume h: "csv_line s = Some (l, r)"
  obtain a b f where c: "cut chLF s = (a, b, f)" by (metis surj_pair)
  have b: "length b < length s" using h c cut_shorter [OF c] cut_False [of chLF s a b]
    by (cases f) (auto simp: csv_line_def split: if_splits)
  then show ?thesis using h c cut_shorter [OF c] drop_cr_shorter [of a]
    by (auto simp: csv_line_def split: if_splits)
qed

text \<open>A quoted field from after its opening quote: its value, what is left of the line after the comma
  that ends it (\<open>None\<close> when the record ends with it), and the input after the line.\<close>

function csv_quoted :: "string \<Rightarrow> string \<Rightarrow> string \<Rightarrow> csv_parse_error + string \<times> string option \<times> string" where
  "csv_quoted [] rest acc =
     (case csv_line rest of
        None \<Rightarrow> Inl StrayQuote
      | Some (l, rest1) \<Rightarrow> csv_quoted l rest1 acc)"
| "csv_quoted (c # line) rest acc =
     (if c \<noteq> chQuote then csv_quoted line rest (acc @ [c])
      else if line \<noteq> [] \<and> hd line = chQuote then csv_quoted (tl line) rest (acc @ [chQuote])
      else if line \<noteq> [] \<and> hd line = chComma then Inr (acc, Some (tl line), rest)
      else if at_line_end line then Inr (acc, None, rest)
      else Inl StrayQuote)"
  by pat_completeness auto
termination
  by (relation "measures [\<lambda>(l, r, a). length l + length r, \<lambda>(l, r, a). length r]")
    (auto dest: csv_line_shorter)

lemma csv_quoted_shorter:
  "csv_quoted line rest acc = Inr (f, more, rest1) \<Longrightarrow>
     (case more of None \<Rightarrow> 0 | Some l \<Rightarrow> Suc (length l)) + length rest1 \<le> length line + length rest"
proof (induction line rest acc rule: csv_quoted.induct)
  case (1 rest acc)
  then show ?case by (fastforce dest: csv_line_shorter split: option.splits prod.splits)
next
  case (2 c line rest acc)
  then show ?case by (cases line) (auto split: if_splits)
qed

text \<open>The fields of the record that starts with \<open>line\<close>, and the input after it.\<close>

function csv_fields :: "string \<Rightarrow> string \<Rightarrow> csv_parse_error + string list \<times> string" where
  "csv_fields line rest =
     (if line = [] \<or> hd line \<noteq> chQuote then
        (case cut chComma line of
           (a, b, more) \<Rightarrow>
             let field = (if more then a else if a \<noteq> [] \<and> last a = chLF then butlast a else a) in
             if chQuote \<in> set field then Inl BareQuote
             else if more then
               (case csv_fields b rest of Inl e \<Rightarrow> Inl e | Inr (fs, r) \<Rightarrow> Inr (field # fs, r))
             else Inr ([field], rest))
      else
        (case csv_quoted (tl line) rest [] of
           Inl e \<Rightarrow> Inl e
         | Inr (field, None, rest1) \<Rightarrow> Inr ([field], rest1)
         | Inr (field, Some line1, rest1) \<Rightarrow>
             (case csv_fields line1 rest1 of Inl e \<Rightarrow> Inl e | Inr (fs, r) \<Rightarrow> Inr (field # fs, r))))"
  by pat_completeness auto
termination
  by (relation "measure (\<lambda>(l, r). length l + length r)") (auto dest!: cut_shorter csv_quoted_shorter cut_shorter [OF sym])

declare csv_fields.simps [simp del]

lemma csv_quoted_rest: "csv_quoted line rest acc = Inr (f, more, rest1) \<Longrightarrow> length rest1 \<le> length rest"
proof (induction line rest acc rule: csv_quoted.induct)
  case (1 rest acc)
  then show ?case by (fastforce dest: csv_line_shorter split: option.splits prod.splits)
next
  case (2 c line rest acc)
  then show ?case by (auto split: if_splits)
qed

lemma csv_fields_plain:
  assumes "line = [] \<or> hd line \<noteq> chQuote"
  shows "cut chComma line = (a, b, True) \<Longrightarrow> csv_fields line rest =
      (if chQuote \<in> set a then Inl BareQuote else map_res (\<lambda>(fs, r). (a # fs, r)) (csv_fields b rest))"
    and "cut chComma line = (a, b, False) \<Longrightarrow> csv_fields line rest =
      (let f = (if a \<noteq> [] \<and> last a = chLF then butlast a else a) in
       if chQuote \<in> set f then Inl BareQuote else Inr ([f], rest))"
proof -
  have 1: "csv_fields line rest = (case cut chComma line of (a, b, more) \<Rightarrow>
      let field = (if more then a else if a \<noteq> [] \<and> last a = chLF then butlast a else a) in
      if chQuote \<in> set field then Inl BareQuote
      else if more then
        (case csv_fields b rest of Inl e \<Rightarrow> Inl e | Inr (fs, r) \<Rightarrow> Inr (field # fs, r))
      else Inr ([field], rest))"
    using assms by (subst csv_fields.simps) (rule if_P)
  show "cut chComma line = (a, b, True) \<Longrightarrow> csv_fields line rest =
      (if chQuote \<in> set a then Inl BareQuote else map_res (\<lambda>(fs, r). (a # fs, r)) (csv_fields b rest))"
    unfolding 1 by (cases "csv_fields b rest") (auto simp: map_res_def)
  show "cut chComma line = (a, b, False) \<Longrightarrow> csv_fields line rest =
      (let f = (if a \<noteq> [] \<and> last a = chLF then butlast a else a) in
       if chQuote \<in> set f then Inl BareQuote else Inr ([f], rest))"
    unfolding 1 by (simp only: prod.case if_False)
qed

lemma csv_fields_quoted:
  "csv_fields (chQuote # line) rest =
     rbind (csv_quoted line rest []) (\<lambda>(f, more, rest1).
       case more of None \<Rightarrow> Inr ([f], rest1) | Some l \<Rightarrow> map_res (\<lambda>(fs, r). (f # fs, r)) (csv_fields l rest1))"
proof -
  have "csv_fields (chQuote # line) rest = (case csv_quoted line rest [] of
      Inl e \<Rightarrow> Inl e
    | Inr (field, None, rest1) \<Rightarrow> Inr ([field], rest1)
    | Inr (field, Some line1, rest1) \<Rightarrow>
        (case csv_fields line1 rest1 of Inl e \<Rightarrow> Inl e | Inr (fs, r) \<Rightarrow> Inr (field # fs, r)))"
    by (subst csv_fields.simps) simp
  then show ?thesis
    by (simp add: map_res_def rbind_def case_prod_unfold split: sum.split option.split)
qed

lemma csv_fields_rest: "csv_fields line rest = Inr (fs, r) \<Longrightarrow> length r \<le> length rest"
proof (induction "length line + length rest" arbitrary: line rest fs r rule: less_induct)
  case less
  show ?case
  proof (cases "line = [] \<or> hd line \<noteq> chQuote")
    case plain: True
    obtain a b more where c: "cut chComma line = (a, b, more)" by (metis surj_pair)
    show ?thesis
    proof (cases more)
      case True
      with less.prems plain c obtain fs' where "csv_fields b rest = Inr (fs', r)"
        by (auto simp: csv_fields_plain(1) map_res_eq_Inr split: if_splits)
      with less.hyps [of b rest fs' r] cut_shorter [OF c] True show ?thesis by simp
    next
      case False
      with less.prems plain c show ?thesis by (simp add: csv_fields_plain(2) Let_def split: if_splits)
    qed
  next
    case False
    then obtain l where l: "line = chQuote # l" by (cases line) auto
    with less.prems obtain f more rest1 where q: "csv_quoted l rest [] = Inr (f, more, rest1)"
      by (cases "csv_quoted l rest []") (auto simp: csv_fields_quoted)
    show ?thesis
    proof (cases more)
      case None
      with less.prems l q csv_quoted_rest [OF q] show ?thesis by (simp add: csv_fields_quoted)
    next
      case (Some l1)
      with less.prems l q obtain fs' where "csv_fields l1 rest1 = Inr (fs', r)"
        by (auto simp: csv_fields_quoted map_res_eq_Inr)
      with less.hyps [of l1 rest1 fs' r] csv_quoted_shorter [OF q] csv_quoted_rest [OF q] l Some
      show ?thesis by simp
    qed
  qed
qed

text \<open>\<open>ReadAll\<close> with \<open>FieldsPerRecord\<close> set to \<open>n\<close>: blank lines are skipped, the first error ends it.\<close>

function csv_read_all :: "nat \<Rightarrow> string \<Rightarrow> csv_parse_error + string list list" where
  "csv_read_all n s =
     (case csv_line s of
        None \<Rightarrow> Inr []
      | Some (line, rest) \<Rightarrow>
          if at_line_end line then csv_read_all n rest
          else
            (case csv_fields line rest of
               Inl e \<Rightarrow> Inl e
             | Inr (fs, rest1) \<Rightarrow>
                 if length fs \<noteq> n then Inl FieldCount else map_res ((#) fs) (csv_read_all n rest1)))"
  by pat_completeness auto
termination
  by (relation "measure (\<lambda>(n, s). length s)") (auto dest!: csv_line_shorter csv_fields_rest)

declare csv_read_all.simps [simp del]

subsection \<open>What is read back\<close>

text \<open>The one change a value goes through: every CR LF becomes LF.\<close>

fun crlf_lf :: "string \<Rightarrow> string" where
  "crlf_lf [] = []"
| "crlf_lf (c # s) = (if c = chCR \<and> s \<noteq> [] \<and> hd s = chLF then crlf_lf s else c # crlf_lf s)"

fun has_crlf :: "string \<Rightarrow> bool" where
  "has_crlf [] = False"
| "has_crlf (c # s) = (c = chCR \<and> s \<noteq> [] \<and> hd s = chLF \<or> has_crlf s)"

lemma crlf_lf_id: "crlf_lf s = s \<longleftrightarrow> \<not> has_crlf s"
proof -
  have "length (crlf_lf s) \<le> length s \<and> (crlf_lf s = s \<longleftrightarrow> \<not> has_crlf s)" for s
    by (induction s) auto
  then show ?thesis by blast
qed

text \<open>Where the reader stands when the remaining input, not yet split into lines, is \<open>s\<close>.\<close>

definition csv_at :: "string \<Rightarrow> string \<times> string" where
  "csv_at s = (case csv_line s of None \<Rightarrow> ([], []) | Some p \<Rightarrow> p)"

lemma csv_at_LF [simp]: "csv_at (chLF # s) = ([chLF], s)"
  by (simp add: csv_at_def csv_line_def drop_cr_def)

lemma csv_at_CRLF: "csv_at (chCR # chLF # s) = ([chLF], s)"
  by (simp add: csv_at_def csv_line_def drop_cr_def)

lemma csv_at_Cons:
  assumes "c \<noteq> chLF" and "s \<noteq> []" and "c \<noteq> chCR \<or> hd s \<noteq> chLF"
  shows "csv_at (c # s) = (c # fst (csv_at s), snd (csv_at s))"
proof -
  obtain a b f where c: "cut chLF s = (a, b, f)" by (metis surj_pair)
  have "a = [] \<Longrightarrow> hd s = chLF" using assms(2) c by (cases s) (auto split: if_splits prod.splits)
  then show ?thesis using assms c
    by (cases "a = []") (auto simp: csv_at_def csv_line_def drop_cr_def)
qed

lemma csv_at_plain:
  assumes "list_all (\<lambda>c. c \<noteq> chLF \<and> c \<noteq> chCR) f" and "s \<noteq> []"
  shows "csv_at (f @ s) = (f @ fst (csv_at s), snd (csv_at s))"
  using assms by (induction f) (simp_all add: csv_at_Cons)

lemma csv_line_at: "s \<noteq> [] \<Longrightarrow> csv_line s = Some (csv_at s)"
  by (simp add: csv_at_def csv_line_def split: prod.split)

text \<open>Inside a quoted field.\<close>

lemma csv_quoted_next: "s \<noteq> [] \<Longrightarrow> csv_quoted [] s acc = csv_quoted (fst (csv_at s)) (snd (csv_at s)) acc"
  by (simp add: csv_line_at split_beta)

lemma hd_double_quotes: "hd (double_quotes f @ chQuote # t) = chLF \<longleftrightarrow> f \<noteq> [] \<and> hd f = chLF"
  by (cases f) auto

lemma csv_quoted_field:
  assumes "t \<noteq> []"
  shows "csv_quoted (fst (csv_at (double_quotes f @ chQuote # t))) (snd (csv_at (double_quotes f @ chQuote # t))) acc =
    csv_quoted (chQuote # fst (csv_at t)) (snd (csv_at t)) (acc @ crlf_lf f)"
proof (induction f arbitrary: acc)
  case Nil
  then show ?case using assms by (simp add: csv_at_Cons del: csv_quoted.simps)
next
  case (Cons c f)
  let ?s = "double_quotes f @ chQuote # t"
  consider "c = chQuote" | "c = chLF" | "c = chCR" "f \<noteq> []" "hd f = chLF" | "c \<noteq> chQuote" "c \<noteq> chLF" "c = chCR \<Longrightarrow> f = [] \<or> hd f \<noteq> chLF"
    by blast
  then show ?case
  proof cases
    case 1
    then show ?thesis using Cons.IH [of "acc @ [chQuote]"] by (simp add: csv_at_Cons)
  next
    case 2
    then show ?thesis using Cons.IH [of "acc @ [chLF]"] csv_quoted_next [of ?s "acc @ [chLF]"]
      by (simp del: csv_quoted.simps(1))
  next
    case 3
    then obtain f' where f: "f = chLF # f'" by (cases f) auto
    then show ?thesis using Cons.IH [of acc] 3 by (simp add: csv_at_CRLF del: csv_quoted.simps)
  next
    case 4
    then have "csv_at (c # ?s) = (c # fst (csv_at ?s), snd (csv_at ?s))"
      using hd_double_quotes [of f t] by (intro csv_at_Cons) auto
    then show ?thesis using Cons.IH [of "acc @ [c]"] 4 by (auto simp del: csv_quoted.simps(1))
  qed
qed

lemma not_quoted:
  assumes "\<not> fieldNeedsQuotes f"
  shows "list_all (\<lambda>c. c \<noteq> chLF \<and> c \<noteq> chCR) f" and "chQuote \<notin> set f" and "chComma \<notin> set f"
    and "crlf_lf f = f"
proof -
  have all: "list_all (\<lambda>c. c \<noteq> chLF \<and> c \<noteq> chCR \<and> c \<noteq> chQuote \<and> c \<noteq> chComma) f"
    using assms by (auto simp: fieldNeedsQuotes_def list_all_iff list_ex_iff)
  then show "list_all (\<lambda>c. c \<noteq> chLF \<and> c \<noteq> chCR) f" "chQuote \<notin> set f" "chComma \<notin> set f"
    by (auto simp: list_all_iff)
  from all show "crlf_lf f = f" by (induction f) auto
qed

text \<open>One field, then the comma or the end of the row.\<close>

abbreviation read_at :: "string \<Rightarrow> csv_parse_error + string list \<times> string" where
  "read_at s \<equiv> csv_fields (fst (csv_at s)) (snd (csv_at s))"

lemma read_last_field: "read_at (csv_field f @ chLF # u) = Inr ([crlf_lf f], u)"
proof (cases "fieldNeedsQuotes f")
  case True
  then show ?thesis using csv_quoted_field [of "chLF # u" f "[]"]
    by (simp add: csv_field_def csv_at_Cons csv_fields_quoted at_line_end_def)
next
  case False
  note f = not_quoted [OF False]
  have "f = [] \<or> hd f \<noteq> chQuote" using f(2) by (cases f) auto
  then show ?thesis using False f
    by (subst csv_fields_plain(2) [where a = "f @ [chLF]" and b = "[]"])
      (auto simp: csv_field_def csv_at_plain cut_no_sep hd_append)
qed

lemma read_field:
  assumes "s \<noteq> []"
  shows "read_at (csv_field f @ chComma # s) = map_res (\<lambda>(fs, r). (crlf_lf f # fs, r)) (read_at s)"
proof (cases "fieldNeedsQuotes f")
  case True
  then show ?thesis using csv_quoted_field [of "chComma # s" f "[]"] assms
    by (simp add: csv_field_def csv_at_Cons csv_fields_quoted)
next
  case False
  note f = not_quoted [OF False]
  have "f = [] \<or> hd f \<noteq> chQuote" using f(2) by (cases f) auto
  then show ?thesis using False f assms
    by (subst csv_fields_plain(1) [where a = f and b = "fst (csv_at s)"])
      (auto simp: csv_field_def csv_at_plain csv_at_Cons hd_append)
qed

lemma read_row: "fs \<noteq> [] \<Longrightarrow> read_at (csv_write_row fs @ u) = Inr (map crlf_lf fs, u)"
proof (induction fs rule: induct_list012)
  case (2 f)
  then show ?case by (simp add: csv_write_row_def read_last_field)
next
  case (3 f g fs)
  then have "read_at (csv_write_row (g # fs) @ u) = Inr (map crlf_lf (g # fs), u)" by simp
  moreover have "csv_write_row (f # g # fs) @ u = csv_field f @ chComma # csv_write_row (g # fs) @ u"
    by (simp add: csv_write_row_def)
  ultimately show ?case
    using read_field [of "csv_write_row (g # fs) @ u" f] by (simp add: csv_write_row_def)
qed simp

text \<open>A row of two fields or more is never taken for a blank line.\<close>

lemma row_not_blank:
  assumes "2 \<le> length fs"
  shows "\<not> at_line_end (fst (csv_at (csv_write_row fs @ u)))"
proof -
  from assms obtain f g fs' where fs: "fs = f # g # fs'" by (metis Suc_le_length_iff numeral_2_eq_2)
  let ?s = "csv_write_row (g # fs') @ u"
  have row: "csv_write_row fs @ u = csv_field f @ chComma # ?s" by (simp add: fs csv_write_row_def)
  have "fst (csv_at (csv_field f @ chComma # ?s)) \<noteq> [] \<and> hd (fst (csv_at (csv_field f @ chComma # ?s))) \<noteq> chLF"
  proof (cases "fieldNeedsQuotes f")
    case True
    then show ?thesis by (simp add: csv_field_def csv_at_Cons)
  next
    case False
    have "?s \<noteq> []" by (simp add: csv_write_row_def)
    with False not_quoted(1) [OF False] show ?thesis
      by (cases f) (auto simp: csv_field_def csv_at_plain csv_at_Cons)
  qed
  then show ?thesis by (auto simp: row at_line_end_def)
qed

lemma csv_read_write:
  assumes "2 \<le> n" and "list_all (\<lambda>row. length row = n) rows"
  shows "csv_read_all n (csv_write rows) = Inr (map (map crlf_lf) rows)"
  using assms(2)
proof (induction rows)
  case Nil
  then show ?case by (simp add: csv_write_def csv_read_all.simps [of n "[]"] csv_line_def)
next
  case (Cons row rows)
  let ?s = "csv_write_row row @ csv_write rows"
  have len: "2 \<le> length row" using Cons.prems assms(1) by simp
  then have "row \<noteq> []" by auto
  have "?s \<noteq> []" by (simp add: csv_write_row_def)
  then have line: "csv_line ?s = Some (fst (csv_at ?s), snd (csv_at ?s))" by (simp add: csv_line_at)
  have "csv_read_all n ?s = map_res ((#) (map crlf_lf row)) (csv_read_all n (csv_write rows))"
    using row_not_blank [OF len, of "csv_write rows"] read_row [OF \<open>row \<noteq> []\<close>, of "csv_write rows"] Cons.prems
    by (subst csv_read_all.simps) (simp add: line split_beta)
  then show ?case using Cons by (simp add: csv_write_def)
qed

end
