(* ===== verification/Report.thy ===== *)
theory Report
  imports Csv Sorted "HOL-Library.Product_Lexorder"
begin

section \<open>The report (internal/report)\<close>

text \<open>
  \<open>Report\<close> collects one result per (test, language, operation) in a three-level map and the
  failure and warning rows in the order they came; \<open>Add\<close> runs under the report's mutex, so
  concurrent adds are some sequence of them. The printers derive the flat records, the JUnit suites,
  the CSV text and the table grid; the text layers below the others (encoding/json, encoding/xml,
  lipgloss, the terminal colours) are not modelled.
\<close>

datatype status = StatusPass | StatusFail | StatusXFail | StatusXPass | StatusSkip | StatusError
  | StatusWarn | StatusUnknown | StatusOther string

definition status_text :: "status \<Rightarrow> string" where
  "status_text s = (case s of
     StatusPass \<Rightarrow> ''PASS'' | StatusFail \<Rightarrow> ''FAIL'' | StatusXFail \<Rightarrow> ''XFAIL'' | StatusXPass \<Rightarrow> ''XPASS''
   | StatusSkip \<Rightarrow> ''SKIP'' | StatusError \<Rightarrow> ''ERROR'' | StatusWarn \<Rightarrow> ''WARN''
   | StatusUnknown \<Rightarrow> ''UNKNOWN'' | StatusOther t \<Rightarrow> t)"

abbreviation op_serialize :: string where "op_serialize \<equiv> ''serialize''"
abbreviation op_deserialize :: string where "op_deserialize \<equiv> ''deserialize''"
abbreviation op_matrix :: string where "op_matrix \<equiv> ''matrix''"
abbreviation op_audit_mutation :: string where "op_audit_mutation \<equiv> ''audit-mutation''"
abbreviation op_audit_zero_copy :: string where "op_audit_zero_copy \<equiv> ''audit-zero-copy''"
abbreviation op_audit_stability :: string where "op_audit_stability \<equiv> ''audit-stability''"
abbreviation op_audit_input_mut :: string where "op_audit_input_mut \<equiv> ''audit-input-mutation''"
abbreviation op_audit_output_zero_copy :: string where "op_audit_output_zero_copy \<equiv> ''audit-output-zero-copy''"
abbreviation op_audit_deser_stability :: string where "op_audit_deser_stability \<equiv> ''audit-deser-stability''"

record row =
  TestID :: string
  Language :: string
  Operation :: string
  Status :: status
  Detail :: string

type_synonym key = "string \<times> string \<times> string"

definition row_key :: "row \<Rightarrow> key" where
  "row_key r = (TestID r, Language r, Operation r)"

record report =
  Languages :: "string list"
  TestIDs :: "string list"
  Results :: "row gomap gomap gomap"
  Failures :: "row list"
  Warnings :: "row list"
  OutputFmt :: string

definition New :: "string list \<Rightarrow> string list \<Rightarrow> string \<Rightarrow> report" where
  "New langs testIDs fmt =
     \<lparr>Languages = langs, TestIDs = testIDs, Results = [], Failures = [], Warnings = [], OutputFmt = fmt\<rparr>"

text \<open>Indexing a Go map gives the zero value, here the nil map, for a missing key.\<close>

definition submap :: "'v gomap gomap \<Rightarrow> string \<Rightarrow> 'v gomap" where
  "submap m k = (case map_of m k of None \<Rightarrow> [] | Some x \<Rightarrow> x)"

definition find_result :: "report \<Rightarrow> key \<Rightarrow> row option" where
  "find_result r = (\<lambda>(tid, lang, op). map_of (submap (submap (Results r) tid) lang) op)"

definition insert_result :: "row gomap gomap gomap \<Rightarrow> row \<Rightarrow> row gomap gomap gomap" where
  "insert_result m res =
     (let byLang = submap m (TestID res); byOp = submap byLang (Language res) in
      AList.update (TestID res)
        (AList.update (Language res) (AList.update (Operation res) res byOp) byLang) m)"

definition Add :: "row \<Rightarrow> report \<Rightarrow> report" where
  "Add res r =
     (let r1 = r\<lparr>Results := insert_result (Results r) res\<rparr>;
          same = list_ex (\<lambda>o1. row_key o1 = row_key res) in
      if Status res = StatusFail \<or> Status res = StatusError then
        (if same (Failures r) then r1 else r1\<lparr>Failures := Failures r @ [res]\<rparr>)
      else if Status res = StatusWarn \<or> Status res = StatusXPass then
        (if same (Warnings r) then r1 else r1\<lparr>Warnings := Warnings r @ [res]\<rparr>)
      else r1)"

definition Success :: "report \<Rightarrow> bool" where
  "Success r \<longleftrightarrow> Failures r = []"

definition all_rows :: "report \<Rightarrow> row list" where
  "all_rows r = concat (map (\<lambda>(tid, byLang). concat (map (\<lambda>(l, byOp). map snd byOp) byLang)) (Results r))"

text \<open>The counts under the table: pass, fail, xfail, xpass, skip, warn, and the exit code shown.\<close>

definition tally :: "report \<Rightarrow> nat \<times> nat \<times> nat \<times> nat \<times> nat \<times> nat" where
  "tally r =
     (let count = (\<lambda>P. length (filter (\<lambda>x. P (Status x)) (all_rows r))) in
      (count (\<lambda>s. s = StatusPass), count (\<lambda>s. s = StatusFail \<or> s = StatusError),
       count (\<lambda>s. s = StatusXFail), count (\<lambda>s. s = StatusXPass),
       count (\<lambda>s. s = StatusSkip), count (\<lambda>s. s = StatusWarn)))"

definition shown_exit_code :: "report \<Rightarrow> nat" where
  "shown_exit_code r = (case tally r of (pass, failed, _) \<Rightarrow> if 0 < failed then 1 else 0)"

definition test_type :: "string \<Rightarrow> string" where
  "test_type testID = fst (cut CHR ''/'' testID)"

definition unimplementedTypes :: "report \<Rightarrow> string list" where
  "unimplementedTypes r =
     (let seen = map (\<lambda>(tid, byLang). test_type tid) (Results r);
          live = concat (map (\<lambda>(tid, byLang).
                   if list_ex (\<lambda>(l, byOp). list_ex (\<lambda>(op, res). Status res \<noteq> StatusSkip) byOp) byLang
                   then [test_type tid] else []) (Results r)) in
      sort (filter (\<lambda>t. t \<notin> set live) (remdups seen)))"

subsection \<open>Records\<close>

record record_row =
  rc_test_id :: string
  rc_type :: string
  rc_format :: string
  rc_case :: string
  rc_language :: string
  rc_operation :: string
  rc_status :: status
  rc_detail :: string

definition splitTestID3 :: "string \<Rightarrow> (string \<times> string \<times> string) option" where
  "splitTestID3 tid = (case split_n CHR ''/'' tid 3 of [a, b, c] \<Rightarrow> Some (a, b, c) | _ \<Rightarrow> None)"

definition opDisplayOrder :: "string list" where
  "opDisplayOrder =
     [op_serialize, op_deserialize, op_matrix,
      op_audit_mutation, op_audit_stability, op_audit_output_zero_copy,
      op_audit_zero_copy, op_audit_input_mut, op_audit_deser_stability]"

text \<open>\<open>rank[l] = i\<close> over a slice: the last index of a value.\<close>

fun rank_from :: "nat \<Rightarrow> string list \<Rightarrow> string \<Rightarrow> nat option" where
  "rank_from i [] s = None"
| "rank_from i (x # xs) s =
     (case rank_from (Suc i) xs s of Some j \<Rightarrow> Some j | None \<Rightarrow> if x = s then Some i else None)"

text \<open>The two comparison functions sort by these keys: the ranked first, by rank, then the others
  by name.\<close>

definition lang_key :: "string list \<Rightarrow> string \<Rightarrow> nat \<times> nat \<times> string" where
  "lang_key langs l = (case rank_from 0 langs l of Some i \<Rightarrow> (0, i, l) | None \<Rightarrow> (1, 0, l))"

definition op_key :: "string \<Rightarrow> nat \<times> nat \<times> string" where
  "op_key op = (case rank_from 0 opDisplayOrder op of Some i \<Rightarrow> (0, i, op) | None \<Rightarrow> (1, 0, op))"

definition sort_langs :: "string list \<Rightarrow> string list \<Rightarrow> string list" where
  "sort_langs langs xs = sort_key (lang_key langs) xs"

definition sort_ops :: "string list \<Rightarrow> string list" where
  "sort_ops xs = sort_key op_key xs"

definition records_of_test :: "report \<Rightarrow> string \<Rightarrow> (string \<times> string \<times> string) \<Rightarrow> record_row list" where
  "records_of_test r tid = (\<lambda>(typ, format, caseName).
     (let byLang = submap (Results r) tid in
      concat (map (\<lambda>lang.
        (let byOp = submap byLang lang in
         concat (map (\<lambda>op.
           (case map_of byOp op of
              None \<Rightarrow> []
            | Some res \<Rightarrow>
                [\<lparr>rc_test_id = tid, rc_type = typ, rc_format = format, rc_case = caseName,
                  rc_language = lang, rc_operation = op, rc_status = Status res,
                  rc_detail = Detail res\<rparr>]))
           (sort_ops (map fst byOp)))))
        (sort_langs (Languages r) (map fst byLang)))))"

definition Records :: "report \<Rightarrow> string + record_row list" where
  "Records r =
     map_res concat (mapM (\<lambda>tid. case splitTestID3 tid of
         None \<Rightarrow> Inl tid
       | Some parts \<Rightarrow> Inr (records_of_test r tid parts)) (TestIDs r))"

subsection \<open>CSV, JUnit and the table grid\<close>

definition csvHeader :: "string list" where
  "csvHeader = [''test_id'', ''type'', ''format'', ''case'', ''language'', ''operation'', ''status'', ''detail'']"

definition csv_row :: "record_row \<Rightarrow> string list" where
  "csv_row rec =
     [rc_test_id rec, rc_type rec, rc_format rec, rc_case rec,
      rc_language rec, rc_operation rec, status_text (rc_status rec), rc_detail rec]"

text \<open>The file \<open>WriteCSV\<close> writes: the header and one row each, as encoding/csv writes them.\<close>

definition WriteCSV :: "record_row list \<Rightarrow> string" where
  "WriteCSV recs = csv_write (csvHeader # map csv_row recs)"

text \<open>\<open>Status(row[6])\<close>: the named statuses are the strings of their names.\<close>

definition status_of_text :: "string \<Rightarrow> status" where
  "status_of_text t =
     (case find (\<lambda>s. status_text s = t)
        [StatusPass, StatusFail, StatusXFail, StatusXPass, StatusSkip, StatusError, StatusWarn, StatusUnknown]
      of Some s \<Rightarrow> s | None \<Rightarrow> StatusOther t)"

datatype csv_error = CsvParse csv_parse_error | CsvEmpty | CsvHeader "string list"

text \<open>\<open>ReadCSV\<close> on the contents of the file; \<open>FieldsPerRecord\<close> makes the parser refuse a row of another
  length, so the indexing of the rows stays in bounds.\<close>

definition ReadCSV :: "string \<Rightarrow> csv_error + record_row list" where
  "ReadCSV s =
     (case csv_read_all (length csvHeader) s of
        Inl e \<Rightarrow> Inl (CsvParse e)
      | Inr [] \<Rightarrow> Inl CsvEmpty
      | Inr (h # body) \<Rightarrow>
          if h \<noteq> csvHeader then Inl (CsvHeader h)
          else Inr (map (\<lambda>row.
            \<lparr>rc_test_id = row ! 0, rc_type = row ! 1, rc_format = row ! 2, rc_case = row ! 3,
             rc_language = row ! 4, rc_operation = row ! 5, rc_status = status_of_text (row ! 6),
             rc_detail = row ! 7\<rparr>) body))"

datatype junit_verdict = JNone | JFail string string | JSkipped

record junit_case =
  jc_name :: string
  jc_class :: string
  jc_verdict :: junit_verdict

record junit_suite =
  js_name :: string
  js_tests :: nat
  js_failures :: nat
  js_cases :: "junit_case list"

definition junit_verdict_of :: "row option \<Rightarrow> junit_verdict" where
  "junit_verdict_of res =
     (case res of
        None \<Rightarrow> JNone
      | Some r \<Rightarrow>
          if Status r = StatusFail \<or> Status r = StatusError then JFail (status_text (Status r)) (Detail r)
          else if Status r = StatusSkip \<or> Status r = StatusXFail then JSkipped
          else JNone)"

definition printJUnit :: "report \<Rightarrow> junit_suite list" where
  "printJUnit r =
     map (\<lambda>lang.
       (let cases = concat (map (\<lambda>tid. map (\<lambda>op.
              \<lparr>jc_name = tid @ ''/'' @ op, jc_class = lang,
               jc_verdict = junit_verdict_of (find_result r (tid, lang, op))\<rparr>)
              [op_serialize, op_deserialize]) (TestIDs r)) in
        \<lparr>js_name = lang, js_tests = length cases,
         js_failures = length (filter (\<lambda>c. case jc_verdict c of JFail _ _ \<Rightarrow> True | _ \<Rightarrow> False) cases),
         js_cases = cases\<rparr>)) (Languages r)"

text \<open>\<open>RenderTable\<close> up to the drawing: the headers and the rows, with a cell the status or \<open>-\<close>.\<close>

type_synonym gkey = "string \<times> string"

definition in_grid :: "record_row \<Rightarrow> bool" where
  "in_grid rec \<longleftrightarrow> rc_operation rec = op_serialize \<or> rc_operation rec = op_deserialize"

definition grid_key :: "record_row \<Rightarrow> gkey" where
  "grid_key rec =
     (if rc_type rec \<noteq> [] then rc_type rec @ ''/'' @ rc_case rec else rc_case rec, rc_format rec)"

text \<open>The distinct values in the order they first appear.\<close>

fun first_seen :: "'a list \<Rightarrow> 'a list" where
  "first_seen [] = []"
| "first_seen (x # xs) = x # filter (\<lambda>y. y \<noteq> x) (first_seen xs)"

text \<open>\<open>data[k][op][lang]\<close>: the last record assigned.\<close>

definition grid_cell :: "record_row list \<Rightarrow> gkey \<Rightarrow> string \<Rightarrow> string \<Rightarrow> status option" where
  "grid_cell recs k op lang =
     map_option rc_status (find (\<lambda>rec. in_grid rec \<and> grid_key rec = k \<and> rc_operation rec = op \<and>
       rc_language rec = lang) (rev recs))"

fun grid_rows :: "record_row list \<Rightarrow> string list \<Rightarrow> string option \<Rightarrow> gkey list \<Rightarrow> string list list" where
  "grid_rows recs langs prev [] = []"
| "grid_rows recs langs prev (k # ks) =
     (let cells = (\<lambda>op. map (\<lambda>l. case grid_cell recs k op l of Some st \<Rightarrow> status_text st | None \<Rightarrow> ''-'') langs) in
      ((if prev = Some (fst k) then [] else fst k) # snd k # op_serialize # cells op_serialize) #
      ([] # [] # op_deserialize # cells op_deserialize) #
      grid_rows recs langs (Some (fst k)) ks)"

definition RenderTable :: "record_row list \<Rightarrow> string list \<times> string list list" where
  "RenderTable recs =
     (let shown = filter in_grid recs;
          langs = first_seen (map rc_language shown);
          order = first_seen (map grid_key shown) in
      ([''case id'', ''format'', ''operation''] @ langs, grid_rows recs langs None order))"

end
