(* ===== verification/Orch.thy ===== *)
theory Orch
  imports TypeFile Worker Cmp Report "HOL-Library.Multiset"
begin

section \<open>The test rounds (internal/orch/orch.go)\<close>

text \<open>
  \<open>RunSuite\<close> binds every worker to each (type, format) in turn and runs the type's cases: a
  serialize round judged against the reference worker by the format's oracle, a deserialize round
  on the reference's bytes, and on demand the full matrix.

  The state is what the code shares between its goroutines: the workers and the report. The
  goroutines of one round each send one request to their own worker and add their rows; \<open>Send\<close> and
  \<open>Add\<close> run under a mutex each, and a goroutine touches only its own worker, its own entry of the
  round's maps and rows of its own key. One round is therefore the sequence of its goroutines in
  some order, the order being part of the \<open>schedule\<close>, an argument of the model.
\<close>

subsection \<open>State and environment\<close>

text \<open>\<open>enc_text\<close> and \<open>hex_err\<close> are the texts of an encoding error and of the error of
  \<open>hex.DecodeString\<close>.\<close>

record options =
  FullMatrix :: bool
  TimeoutSec :: int
  KnownFails :: "string gomap gomap"
  Audit :: bool
  Oracle :: string

record orch_env =
  oe_go :: go_env
  oe_cmp :: cmp_env
  enc_text :: "enc_error \<Rightarrow> string"
  hex_err :: "string \<Rightarrow> string"

text \<open>The order of the goroutines: of the languages in a round, of the pairs in a matrix.\<close>

record schedule =
  sch_round :: "string \<Rightarrow> string \<Rightarrow> string list \<Rightarrow> string list"
  sch_matrix :: "string \<Rightarrow> (string \<times> string) list \<Rightarrow> (string \<times> string) list"

text \<open>The goroutines of a round are all run, each once: an order that is no permutation of them is no
  schedule, and the order of the list stands for it.\<close>

definition permuted :: "'a list \<Rightarrow> 'a list \<Rightarrow> 'a list" where
  "permuted ys xs = (if mset ys = mset xs then ys else xs)"

definition round_order :: "schedule \<Rightarrow> string \<Rightarrow> string \<Rightarrow> string list \<Rightarrow> string list" where
  "round_order sch tid op langs = permuted (sch_round sch tid op langs) langs"

definition matrix_order :: "schedule \<Rightarrow> string \<Rightarrow> (string \<times> string) list \<Rightarrow> (string \<times> string) list" where
  "matrix_order sch tid pairs = permuted (sch_matrix sch tid pairs) pairs"

text \<open>A nil dereference panics and ends the whole process. \<open>rs_panicked\<close> records that one was reached: from
  then on the state means nothing, and \<open>run_suite\<close> of Command turns it into the exit of the process
  whatever the steps after it did. \<open>RunSuite_no_panic\<close> shows that no run of a loaded suite gets there.\<close>

record 's run_state =
  rs_workers :: "'s worker gomap"
  rs_rep :: report
  rs_panicked :: bool

definition mk_row :: "string \<Rightarrow> string \<Rightarrow> string \<Rightarrow> status \<Rightarrow> string \<Rightarrow> row" where
  "mk_row tid lang op st detail =
     \<lparr>TestID = tid, Language = lang, Operation = op, Status = st, Detail = detail\<rparr>"

definition add_row :: "row \<Rightarrow> 's run_state \<Rightarrow> 's run_state" where
  "add_row r st = st\<lparr>rs_rep := Add r (rs_rep st)\<rparr>"

text \<open>A call of \<open>Send\<close> on \<open>workers[lang]\<close>; on a missing worker it is a nil dereference.\<close>

definition send_to ::
  "'s process \<Rightarrow> orch_env \<Rightarrow> int \<Rightarrow> string \<Rightarrow> request \<Rightarrow> 's run_state
    \<Rightarrow> 's run_state \<times> (worker_error + response)" where
  "send_to P oe n lang req st =
     (case map_of (rs_workers st) lang of
        None \<Rightarrow> (st\<lparr>rs_panicked := True\<rparr>, Inl WPanic)
      | Some w \<Rightarrow>
          (case Send P (quote (oe_cmp oe)) req n w of
             (w', res) \<Rightarrow> (st\<lparr>rs_workers := AList.update lang w' (rs_workers st)\<rparr>, res)))"

definition ctx_cancelled :: "'s process \<Rightarrow> string \<Rightarrow> 's run_state \<Rightarrow> bool" where
  "ctx_cancelled P lang st =
     (case map_of (rs_workers st) lang of None \<Rightarrow> False | Some w \<Rightarrow> pr_ctx_done P (w_proc w))"

subsection \<open>Verdicts\<close>

definition known_reason :: "string gomap gomap \<Rightarrow> string \<Rightarrow> string \<Rightarrow> string option" where
  "known_reason kf lang tid = map_of (submap kf lang) tid"

definition xpassDetail :: "string \<Rightarrow> string" where
  "xpassDetail reason = ''expected to fail ('' @ reason @ '') but passed''"

definition verdict :: "string \<Rightarrow> string option \<Rightarrow> status \<times> string" where
  "verdict diff known =
     (if diff \<noteq> [] then
        (case known of Some reason \<Rightarrow> (StatusXFail, reason) | None \<Rightarrow> (StatusFail, diff))
      else case known of Some reason \<Rightarrow> (StatusXPass, xpassDetail reason) | None \<Rightarrow> (StatusPass, []))"

definition resp_ok :: "worker_error + response \<Rightarrow> bool" where
  "resp_ok res = (case res of Inl _ \<Rightarrow> False | Inr r \<Rightarrow> RespStatus r = StatusOK)"

definition resolveResult ::
  "orch_env \<Rightarrow> string \<Rightarrow> string \<Rightarrow> worker_error + response \<Rightarrow> string gomap gomap \<Rightarrow> status \<times> string" where
  "resolveResult oe lang tid res kf =
     (case res of
        Inl e \<Rightarrow> (StatusError, worker_error_text (quote (oe_cmp oe)) e)
      | Inr r \<Rightarrow>
          if RespStatus r = StatusOK then
            (case known_reason kf lang tid of
               Some reason \<Rightarrow> (StatusXPass, xpassDetail reason) | None \<Rightarrow> (StatusPass, []))
          else if RespStatus r = StatusSKIPPED then (StatusSkip, RespReason r)
          else if RespStatus r = StatusERROR then
            (case known_reason kf lang tid of
               Some reason \<Rightarrow> (StatusXFail, reason)
             | None \<Rightarrow> (StatusFail, ''Status: '' @ RespStatus r @ [CHR 0x0A] @ ''Error: '' @
                                  quote (oe_cmp oe) (RespError r)))
          else (StatusError, ''unexpected status '' @ quote (oe_cmp oe) (RespStatus r)))"

definition warn :: "string \<Rightarrow> string \<Rightarrow> string \<Rightarrow> string \<Rightarrow> 's run_state \<Rightarrow> 's run_state" where
  "warn tid lang op detail st = add_row (mk_row tid lang op StatusWarn detail) st"

definition warn_if :: "bool \<Rightarrow> string \<Rightarrow> string \<Rightarrow> string \<Rightarrow> string \<Rightarrow> 's run_state \<Rightarrow> 's run_state" where
  "warn_if c tid lang op detail st = (if c then warn tid lang op detail st else st)"

definition audit_in :: "options \<Rightarrow> worker_error + response \<Rightarrow> audit_report option" where
  "audit_in opts res =
     (if Audit opts then (case res of Inl _ \<Rightarrow> None | Inr r \<Rightarrow> RespAudit r) else None)"

subsection \<open>Case data\<close>

datatype encode_error = EncodeFailed enc_error | NormalizeFailed

definition jsonRoundTrip :: "go_env \<Rightarrow> gval gomap \<Rightarrow> gval gomap option" where
  "jsonRoundTrip env m =
     (case json_of env (GMap m) of None \<Rightarrow> None | Some j \<Rightarrow> data_of j)"

definition encodeCase :: "go_env \<Rightarrow> test_case \<Rightarrow> field list \<Rightarrow> encode_error + gval gomap" where
  "encodeCase env tc schema =
     (case EncodeData env (tc_data tc) schema of
        Inl e \<Rightarrow> Inl (EncodeFailed e)
      | Inr encoded \<Rightarrow>
          (case jsonRoundTrip env encoded of None \<Rightarrow> Inl NormalizeFailed | Some m \<Rightarrow> Inr m))"

definition encode_error_text :: "orch_env \<Rightarrow> encode_error \<Rightarrow> string" where
  "encode_error_text oe e = (case e of
     EncodeFailed x \<Rightarrow> ''encode: '' @ enc_text oe x
   | NormalizeFailed \<Rightarrow> ''normalize: json: unsupported value'')"

definition OrderedLangs :: "string list \<Rightarrow> string \<Rightarrow> string list" where
  "OrderedLangs workers refLang = refLang # filter (\<lambda>l. l \<noteq> refLang) (sort (remdups workers))"

text \<open>The schema's field names in order and its float fields.\<close>

definition field_names :: "field list \<Rightarrow> string list" where
  "field_names schema = map FName schema"

definition float_fields :: "field list \<Rightarrow> string list" where
  "float_fields schema =
     map FName (filter (\<lambda>f. Base (FType f) = k_float32 \<or> Base (FType f) = k_float64) schema)"

subsection \<open>Round 1: serialize\<close>

text \<open>One goroutine of the round. \<open>hex\<close> is \<open>hexResults\<close>; \<open>serializedOK\<close> has the same keys.\<close>

definition serialize_one ::
  "'s process \<Rightarrow> orch_env \<Rightarrow> options \<Rightarrow> string \<Rightarrow> string \<Rightarrow> gval gomap \<Rightarrow> string
    \<Rightarrow> 's run_state \<times> string gomap \<Rightarrow> 's run_state \<times> string gomap" where
  "serialize_one P oe opts refLang tid encoded lang sh =
     (case sh of (st, hex) \<Rightarrow>
      case send_to P oe (TimeoutSec opts) lang (NewSerializeRequest tid encoded) st of (st1, res) \<Rightarrow>
      if ctx_cancelled P lang st1 then (st1, hex)
      else
        let hex1 = (case res of Inl _ \<Rightarrow> hex
              | Inr r \<Rightarrow> if resp_ok res then AList.update lang (RespHex r) hex else hex);
            st2 = (case audit_in opts res of
                None \<Rightarrow> st1
              | Some a \<Rightarrow>
                  warn_if (OutputZeroCopyFields a \<noteq> []) tid lang op_audit_output_zero_copy
                    (''output aliases model fields: '' @ join '', '' (OutputZeroCopyFields a))
                  (warn_if (Stable a = Some False) tid lang op_audit_stability
                    ''serializer produced different output on repeat call''
                  (warn_if (Mutations a \<noteq> []) tid lang op_audit_mutation
                    (''mutated fields: '' @ join '', '' (Mutations a)) st1)))
        in if resp_ok res \<and> lang \<noteq> refLang then (st2, hex1)
           else (case resolveResult oe lang tid res (KnownFails opts) of (status, detail) \<Rightarrow>
                   (add_row (mk_row tid lang op_serialize status detail) st2, hex1)))"

definition serialize_round ::
  "'s process \<Rightarrow> orch_env \<Rightarrow> schedule \<Rightarrow> options \<Rightarrow> string \<Rightarrow> string list \<Rightarrow> string \<Rightarrow> gval gomap
    \<Rightarrow> 's run_state \<Rightarrow> 's run_state \<times> string gomap" where
  "serialize_round P oe sch opts refLang langs tid encoded st =
     fold (serialize_one P oe opts refLang tid encoded) (round_order sch tid op_serialize langs) (st, [])"

text \<open>\<open>HexDiff\<close> never panics (\<open>HexDiff_spec\<close>).\<close>

definition hex_diff :: "orch_env \<Rightarrow> string \<Rightarrow> string \<Rightarrow> string" where
  "hex_diff oe a b = (case HexDiff (hex_err oe) a b of None \<Rightarrow> ''panic'' | Some d \<Rightarrow> d)"

definition semanticSerializeDiff ::
  "'s process \<Rightarrow> orch_env \<Rightarrow> int \<Rightarrow> string \<Rightarrow> string \<Rightarrow> string \<Rightarrow> string \<Rightarrow> gval gomap \<Rightarrow> string list \<Rightarrow> string list
    \<Rightarrow> 's run_state \<Rightarrow> 's run_state \<times> string" where
  "semanticSerializeDiff P oe n refLang tid srcLang srcHex encoded fieldNames floatFields st =
     (case send_to P oe n refLang (NewDeserializeRequest (tid @ ''/semantic-'' @ srcLang) srcHex) st of
        (st1, Inl e) \<Rightarrow>
          (st1, ''reference could not deserialize '' @ srcLang @ '' output: '' @
                worker_error_text (quote (oe_cmp oe)) e)
      | (st1, Inr r) \<Rightarrow>
          if RespStatus r \<noteq> StatusOK then
            (st1, ''reference could not deserialize '' @ srcLang @ '' output'' @
                  (if RespError r \<noteq> [] then '': '' @ RespError r else []))
          else (st1, DataDiff (oe_cmp oe) encoded (RespData r) fieldNames floatFields))"

text \<open>The comparison loop of the main goroutine.\<close>

definition compare_one ::
  "'s process \<Rightarrow> orch_env \<Rightarrow> options \<Rightarrow> string \<Rightarrow> string \<Rightarrow> gval gomap \<Rightarrow> string list \<Rightarrow> string list
    \<Rightarrow> string gomap \<Rightarrow> string \<Rightarrow> 's run_state \<Rightarrow> 's run_state" where
  "compare_one P oe opts refLang tid encoded fieldNames floatFields hex lang st =
     (if lang = refLang then st
      else case map_of hex lang of
        None \<Rightarrow> st
      | Some h \<Rightarrow>
         (case map_of hex refLang of
            None \<Rightarrow> add_row (mk_row tid lang op_serialize StatusPass []) st
          | Some refHex \<Rightarrow>
             (case (if Oracle opts = OracleSemantic
                    then semanticSerializeDiff P oe (TimeoutSec opts) refLang tid lang h encoded
                           fieldNames floatFields st
                    else (st, hex_diff oe refHex h)) of
                (st1, diff) \<Rightarrow>
                  (case verdict diff (known_reason (KnownFails opts) lang tid) of
                     (status, detail) \<Rightarrow> add_row (mk_row tid lang op_serialize status detail) st1))))"

subsection \<open>Round 2: deserialize\<close>

abbreviation SkipRefSerializeFailed :: string where "SkipRefSerializeFailed \<equiv> ''reference serialize failed''"
abbreviation SkipRefUnsupported :: string where "SkipRefUnsupported \<equiv> ''reference worker does not support this type/format''"

definition deserialize_one ::
  "'s process \<Rightarrow> orch_env \<Rightarrow> options \<Rightarrow> string \<Rightarrow> gval gomap \<Rightarrow> string list \<Rightarrow> string list \<Rightarrow> string
    \<Rightarrow> string \<Rightarrow> 's run_state \<Rightarrow> 's run_state" where
  "deserialize_one P oe opts tid encoded fieldNames floatFields refHex lang st =
     (case send_to P oe (TimeoutSec opts) lang (NewDeserializeRequest tid refHex) st of (st1, res) \<Rightarrow>
      if ctx_cancelled P lang st1 then st1
      else
        case (case res of
                Inr r \<Rightarrow>
                  if RespStatus r = StatusOK then
                    verdict (DataDiff (oe_cmp oe) encoded (RespData r) fieldNames floatFields)
                      (known_reason (KnownFails opts) lang tid)
                  else resolveResult oe lang tid res (KnownFails opts)
              | Inl e \<Rightarrow> resolveResult oe lang tid res (KnownFails opts)) of
          (status, detail) \<Rightarrow>
            let st2 = add_row (mk_row tid lang op_deserialize status detail) st1 in
            (case audit_in opts res of
               None \<Rightarrow> st2
             | Some a \<Rightarrow>
                 warn_if (DeserStable a = Some False) tid lang op_audit_deser_stability
                   ''deserializer produced different result on repeat call''
                 (warn_if (InputMutated a) tid lang op_audit_input_mut
                   ''deserializer modified input buffer''
                 (warn_if (ZeroCopyFields a \<noteq> []) tid lang op_audit_zero_copy
                   (''zero-copy fields: '' @ join '', '' (ZeroCopyFields a)) st2))))"

subsection \<open>Round 3: the full matrix\<close>

definition arrow :: "string \<Rightarrow> string \<Rightarrow> string" where
  "arrow src dst = src @ [CHR 0xE2, CHR 0x86, CHR 0x92] @ dst"

definition matrix_one ::
  "'s process \<Rightarrow> orch_env \<Rightarrow> options \<Rightarrow> string \<Rightarrow> gval gomap \<Rightarrow> string list \<Rightarrow> string list
    \<Rightarrow> string gomap \<Rightarrow> string \<times> string \<Rightarrow> 's run_state \<Rightarrow> 's run_state" where
  "matrix_one P oe opts tid encoded fieldNames floatFields hex sd st =
     (case sd of (src, dst) \<Rightarrow>
      let srcHex = index_str hex src; lang = arrow src dst in
      if srcHex = [] then add_row (mk_row tid lang op_matrix StatusSkip ''source serialize failed'') st
      else
        case send_to P oe (TimeoutSec opts) dst
               (NewDeserializeRequest (tid @ ''/matrix-'' @ lang) srcHex) st of (st1, res) \<Rightarrow>
        case resolveResult oe dst tid res (KnownFails opts) of (status, detail) \<Rightarrow>
        (case res of
           Inr r \<Rightarrow>
             let diff = DataDiff (oe_cmp oe) encoded (RespData r) fieldNames floatFields in
             if status = StatusPass \<and> diff \<noteq> []
             then add_row (mk_row tid lang op_matrix StatusFail diff) st1
             else add_row (mk_row tid lang op_matrix status detail) st1
         | Inl e \<Rightarrow> add_row (mk_row tid lang op_matrix status detail) st1))"

definition runMatrix ::
  "'s process \<Rightarrow> orch_env \<Rightarrow> schedule \<Rightarrow> options \<Rightarrow> string list \<Rightarrow> string \<Rightarrow> gval gomap \<Rightarrow> string list
    \<Rightarrow> string list \<Rightarrow> string gomap \<Rightarrow> 's run_state \<Rightarrow> 's run_state" where
  "runMatrix P oe sch opts langs tid encoded fieldNames floatFields hex st =
     fold (matrix_one P oe opts tid encoded fieldNames floatFields hex)
       (matrix_order sch tid (List.product langs langs)) st"

subsection \<open>Run\<close>

text \<open>One test case. The rounds after the first run only when the reference serialized.\<close>

definition add_for :: "string list \<Rightarrow> (string \<Rightarrow> row) \<Rightarrow> 's run_state \<Rightarrow> 's run_state" where
  "add_for xs f = fold (\<lambda>x. add_row (f x)) xs"

definition run_encoded ::
  "'s process \<Rightarrow> orch_env \<Rightarrow> schedule \<Rightarrow> options \<Rightarrow> string \<Rightarrow> string list \<Rightarrow> field list \<Rightarrow> string
    \<Rightarrow> gval gomap \<Rightarrow> 's run_state \<Rightarrow> 's run_state" where
  "run_encoded P oe sch opts refLang langs schema tid encoded st =
     (let fieldNames = field_names schema; floatFields = float_fields schema in
      case serialize_round P oe sch opts refLang langs tid encoded st of (st1, hex) \<Rightarrow>
      let st2 = fold (compare_one P oe opts refLang tid encoded fieldNames floatFields hex) langs st1 in
      case map_of hex refLang of
        None \<Rightarrow> add_for langs (\<lambda>lang. mk_row tid lang op_deserialize StatusSkip SkipRefSerializeFailed) st2
      | Some refHex \<Rightarrow>
          let st3 = fold (deserialize_one P oe opts tid encoded fieldNames floatFields refHex)
                      (round_order sch tid op_deserialize langs) st2 in
          if FullMatrix opts then runMatrix P oe sch opts langs tid encoded fieldNames floatFields hex st3
          else st3)"

definition run_case ::
  "'s process \<Rightarrow> orch_env \<Rightarrow> schedule \<Rightarrow> options \<Rightarrow> string \<Rightarrow> string list \<Rightarrow> field list \<Rightarrow> test_case
    \<Rightarrow> 's run_state \<times> (string \<times> encode_error) option \<Rightarrow> 's run_state \<times> (string \<times> encode_error) option" where
  "run_case P oe sch opts refLang langs schema tc se =
     (case se of (st, firstErr) \<Rightarrow>
      case encodeCase (oe_go oe) tc schema of
        Inl e \<Rightarrow>
          (fold (\<lambda>lang. add_for [op_serialize, op_deserialize]
                  (\<lambda>op. mk_row (tc_name tc) lang op StatusError (encode_error_text oe e))) langs st,
           (case firstErr of None \<Rightarrow> Some (tc_name tc, e) | Some x \<Rightarrow> Some x))
      | Inr encoded \<Rightarrow> (run_encoded P oe sch opts refLang langs schema (tc_name tc) encoded st, firstErr))"

text \<open>\<open>avail\<close> are the keys of the \<open>workers\<close> map \<open>Run\<close> is called with.\<close>

definition Run ::
  "'s process \<Rightarrow> orch_env \<Rightarrow> schedule \<Rightarrow> options \<Rightarrow> cases_file \<Rightarrow> string list \<Rightarrow> 's run_state
    \<Rightarrow> 's run_state \<times> (string \<times> encode_error) option" where
  "Run P oe sch opts cf avail st =
     fold (run_case P oe sch opts (cf_reference cf) (OrderedLangs avail (cf_reference cf)) (cf_schema cf))
       (cf_cases cf) (st, None)"

subsection \<open>Types, formats and suites\<close>

definition namespacedCases :: "cases_file \<Rightarrow> string \<Rightarrow> test_case list" where
  "namespacedCases ty format =
     map (\<lambda>tc. tc\<lparr>tc_name := TestIDFmt (cf_name ty) format (tc_name tc)\<rparr>) (cf_cases ty)"

definition markType ::
  "string \<Rightarrow> cases_file \<Rightarrow> string \<Rightarrow> status \<Rightarrow> string \<Rightarrow> 's run_state \<Rightarrow> 's run_state" where
  "markType lang ty format st reason =
     fold (\<lambda>tc. add_for [op_serialize, op_deserialize]
       (\<lambda>op. mk_row (TestIDFmt (cf_name ty) format (tc_name tc)) lang op st reason)) (cf_cases ty)"

definition markTypeSkipped :: "string \<Rightarrow> cases_file \<Rightarrow> string \<Rightarrow> string \<Rightarrow> 's run_state \<Rightarrow> 's run_state" where
  "markTypeSkipped lang ty format reason = markType lang ty format StatusSkip reason"

definition markTypeErrored :: "string \<Rightarrow> cases_file \<Rightarrow> string \<Rightarrow> string \<Rightarrow> 's run_state \<Rightarrow> 's run_state" where
  "markTypeErrored lang ty format reason = markType lang ty format StatusError reason"

text \<open>Binding one worker; \<open>sub\<close> collects the languages that bound. The one error that is no return of
  \<open>Bind\<close> is the nil dereference in \<open>SchemaFields\<close>.\<close>

definition bind_one ::
  "'s process \<Rightarrow> orch_env \<Rightarrow> options \<Rightarrow> cases_file \<Rightarrow> string \<Rightarrow> string
    \<Rightarrow> 's run_state \<times> string list \<Rightarrow> 's run_state \<times> string list" where
  "bind_one P oe opts ty format lang ss =
     (case ss of (st, sub) \<Rightarrow>
      case map_of (rs_workers st) lang of
        None \<Rightarrow> (st, sub)
      | Some w \<Rightarrow>
      case Bind P (quote (oe_cmp oe)) (cf_schema ty) (cf_name ty) format (TimeoutSec opts) (Audit opts) w of
        (w', res) \<Rightarrow>
      let st1 = st\<lparr>rs_workers := AList.update lang w' (rs_workers st),
                   rs_panicked := (rs_panicked st \<or> res = Inl WPanic)\<rparr> in
      case res of
        Inr _ \<Rightarrow> (st1, sub @ [lang])
      | Inl e \<Rightarrow>
          let text = worker_error_text (quote (oe_cmp oe)) e in
          (case e of
             WUnsupported r \<Rightarrow> (markTypeSkipped lang ty format text st1, sub)
           | _ \<Rightarrow> (markTypeErrored lang ty format text st1, sub)))"

definition runTypeFormat ::
  "'s process \<Rightarrow> orch_env \<Rightarrow> schedule \<Rightarrow> options \<Rightarrow> string \<Rightarrow> cases_file \<Rightarrow> string \<Rightarrow> 's run_state
    \<Rightarrow> 's run_state \<times> (string \<times> string \<times> string \<times> encode_error) option" where
  "runTypeFormat P oe sch opts refLang ty format st =
     (case fold (bind_one P oe opts ty format) (map fst (rs_workers st)) (st, []) of (st1, sub) \<Rightarrow>
      if refLang \<notin> set sub then
        (fold (\<lambda>lang st. if lang \<in> set sub
                 then markTypeSkipped lang ty format SkipRefUnsupported st else st)
           (map fst (rs_workers st)) st1, None)
      else
        case Run P oe sch opts
               \<lparr>cf_name = [], cf_formats = [], cf_reference = refLang, cf_schema = cf_schema ty,
                cf_cases = namespacedCases ty format, cf_oracles = []\<rparr> sub st1 of
          (st2, err) \<Rightarrow> (st2, map_option (\<lambda>(tid, e). (cf_name ty, format, tid, e)) err))"

definition run_type_format ::
  "'s process \<Rightarrow> orch_env \<Rightarrow> schedule \<Rightarrow> options \<Rightarrow> string \<Rightarrow> cases_file \<times> string
    \<Rightarrow> 's run_state \<times> (string \<times> string \<times> string \<times> encode_error) option
    \<Rightarrow> 's run_state \<times> (string \<times> string \<times> string \<times> encode_error) option" where
  "run_type_format P oe sch opts refLang tf se =
     (case tf of (ty, format) \<Rightarrow> case se of (st, firstErr) \<Rightarrow>
      case runTypeFormat P oe sch (opts\<lparr>Oracle := OracleFor ty format\<rparr>) refLang ty format st of
        (st1, err) \<Rightarrow> (st1, case firstErr of None \<Rightarrow> err | Some x \<Rightarrow> Some x))"

definition RunSuite ::
  "'s process \<Rightarrow> orch_env \<Rightarrow> schedule \<Rightarrow> options \<Rightarrow> cases_set \<Rightarrow> 's run_state
    \<Rightarrow> 's run_state \<times> (string \<times> string \<times> string \<times> encode_error) option" where
  "RunSuite P oe sch opts suite st =
     fold (run_type_format P oe sch opts (cs_reference suite))
       (concat (map (\<lambda>ty. map (Pair ty) (cf_formats ty)) (cs_types suite))) (st, None)"

end
