(* ===== verification/ReportFacts.thy ===== *)
theory ReportFacts
  imports Report "HOL-Library.Multiset"
begin

section \<open>What a report holds\<close>

text \<open>
  The report is a log: \<open>Add\<close> keeps the last row of every key in \<open>Results\<close> and one row per failing
  or warning key. The facts are stated of the report after any sequence of adds, which the
  mutex makes of any concurrent run; the flat records then depend on the set of rows only.
\<close>

subsection \<open>Lookups\<close>

lemma find_result_insert:
  "find_result (r\<lparr>Results := insert_result (Results r) res\<rparr>) k =
     (if k = row_key res then Some res else find_result r k)"
proof (cases k)
  case (fields tid lang op)
  then show ?thesis
    by (auto simp: find_result_def insert_result_def Let_def submap_def row_key_def)
qed

lemma find_result_Failures [simp]: "find_result (r\<lparr>Failures := x\<rparr>) = find_result r"
  by (simp add: find_result_def fun_eq_iff)

lemma find_result_Warnings [simp]: "find_result (r\<lparr>Warnings := x\<rparr>) = find_result r"
  by (simp add: find_result_def fun_eq_iff)

lemma find_result_Add: "find_result (Add res r) = (find_result r)(row_key res \<mapsto> res)"
  by (rule ext) (simp add: Add_def Let_def find_result_insert)

lemma find_result_New: "find_result (New ls ts f) = (\<lambda>k. None)"
  by (auto simp: find_result_def New_def submap_def)

definition is_failure :: "row \<Rightarrow> bool" where
  "is_failure r \<longleftrightarrow> Status r = StatusFail \<or> Status r = StatusError"

definition is_warning :: "row \<Rightarrow> bool" where
  "is_warning r \<longleftrightarrow> Status r = StatusWarn \<or> Status r = StatusXPass"

lemma same_key: "list_ex (\<lambda>o1. row_key o1 = k) xs \<longleftrightarrow> k \<in> row_key ` set xs"
  by (auto simp: list_ex_iff)

lemma Failures_Add:
  "Failures (Add res r) =
     (if is_failure res \<and> row_key res \<notin> row_key ` set (Failures r) then Failures r @ [res] else Failures r)"
  by (simp add: Add_def Let_def is_failure_def same_key)

lemma Warnings_Add:
  "Warnings (Add res r) =
     (if is_warning res \<and> row_key res \<notin> row_key ` set (Warnings r) then Warnings r @ [res] else Warnings r)"
  by (auto simp add: Add_def Let_def is_warning_def same_key)

lemma TestIDs_Add [simp]: "TestIDs (Add res r) = TestIDs r" "Languages (Add res r) = Languages r"
  by (simp_all add: Add_def Let_def)

text \<open>The maps of the report hold each key once.\<close>

definition results_wf :: "row gomap gomap gomap \<Rightarrow> bool" where
  "results_wf m \<longleftrightarrow> map_wf m \<and>
     list_all (\<lambda>(tid, byLang). map_wf byLang \<and> list_all (\<lambda>(l, byOp). map_wf byOp) byLang) m"

lemma submap_wf:
  "list_all (\<lambda>(k, x). P x) m \<Longrightarrow> P [] \<Longrightarrow> P (submap m k)"
  by (auto simp: submap_def list_all_iff split: option.splits dest!: map_of_SomeD)

lemma list_all_update:
  "list_all (\<lambda>(k, x). P x) m \<Longrightarrow> P x \<Longrightarrow> list_all (\<lambda>(k, x). P x) (AList.update k x m)"
  by (induction m) auto

lemma results_wf_insert: "results_wf m \<Longrightarrow> results_wf (insert_result m res)"
proof -
  assume w: "results_wf m"
  have "list_all (\<lambda>(k, x). map_wf x \<and> list_all (\<lambda>(l, y). map_wf y) x) m" using w by (simp add: results_wf_def)
  then have bl: "map_wf (submap m t) \<and> list_all (\<lambda>(l, y). map_wf y) (submap m t)" for t
    using w submap_wf [of "\<lambda>x. map_wf x \<and> list_all (\<lambda>(l, y). map_wf y) x" m t] by (simp add: results_wf_def)
  have bo: "map_wf (submap (submap m t) l)" for t l by (rule submap_wf) (use bl in simp_all)
  have "map_wf (AList.update (Language res) (AList.update (Operation res) res
      (submap (submap m (TestID res)) (Language res))) (submap m (TestID res)))"
    using bl by simp
  moreover have "list_all (\<lambda>(l, y). map_wf y) (AList.update (Language res) (AList.update (Operation res) res
      (submap (submap m (TestID res)) (Language res))) (submap m (TestID res)))"
    using bl bo by (intro list_all_update) simp_all
  ultimately show ?thesis using w unfolding results_wf_def insert_result_def Let_def
    by (simp add: list_all_update)
qed

lemma results_wf_Add: "results_wf (Results r) \<Longrightarrow> results_wf (Results (Add res r))"
  by (auto simp: Add_def Let_def results_wf_insert)

subsection \<open>After a sequence of adds\<close>

definition log :: "string list \<Rightarrow> string list \<Rightarrow> string \<Rightarrow> row list \<Rightarrow> report" where
  "log ls ts f rows = fold Add rows (New ls ts f)"

lemma log_snoc: "log ls ts f (rows @ [r]) = Add r (log ls ts f rows)"
  by (simp add: log_def)

lemma log_wf: "results_wf (Results (log ls ts f rows))"
proof (induction rows rule: rev_induct)
  case Nil
  then show ?case by (simp add: log_def New_def results_wf_def)
next
  case (snoc r rows)
  then show ?case by (simp add: log_snoc results_wf_Add)
qed

lemma log_lookup: "find_result (log ls ts f rows) = (\<lambda>k. find (\<lambda>r. row_key r = k) (rev rows))"
proof (induction rows rule: rev_induct)
  case Nil
  then show ?case by (simp add: log_def find_result_New)
next
  case (snoc r rows)
  then show ?case by (auto simp: log_snoc find_result_Add)
qed

lemma log_Failures:
  "row_key ` set (Failures (log ls ts f rows)) = row_key ` set (filter is_failure rows) \<and>
   distinct (map row_key (Failures (log ls ts f rows)))"
proof (induction rows rule: rev_induct)
  case Nil
  then show ?case by (simp add: log_def New_def)
next
  case (snoc r rows)
  then show ?case by (auto simp: log_snoc Failures_Add)
qed

lemma log_Warnings:
  "row_key ` set (Warnings (log ls ts f rows)) = row_key ` set (filter is_warning rows) \<and>
   distinct (map row_key (Warnings (log ls ts f rows)))"
proof (induction rows rule: rev_induct)
  case Nil
  then show ?case by (simp add: log_def New_def)
next
  case (snoc r rows)
  then show ?case by (auto simp: log_snoc Warnings_Add)
qed

lemma Success_log: "Success (log ls ts f rows) \<longleftrightarrow> list_all (\<lambda>r. \<not> is_failure r) rows"
proof -
  have "Success (log ls ts f rows) \<longleftrightarrow> row_key ` set (Failures (log ls ts f rows)) = {}"
    by (simp add: Success_def)
  also have "\<dots> \<longleftrightarrow> filter is_failure rows = []"
    unfolding conjunct1 [OF log_Failures] image_is_empty set_empty ..
  finally show ?thesis by (auto simp: list_all_iff filter_empty_conv)
qed

text \<open>C38. The report is a faithful log. After any sequence of adds, a key holds the last row added
  for it; the run succeeds exactly when no row added is FAIL or ERROR; and the failures list one
  row for each key that ever failed, the warnings one for each key that ever warned (a later row
  of the key neither hides nor repeats it).\<close>

theorem report_is_log:
  "find_result (fold Add rows (New ls ts f)) = (\<lambda>k. find (\<lambda>r. row_key r = k) (rev rows)) \<and>
   (Success (fold Add rows (New ls ts f)) \<longleftrightarrow> list_all (\<lambda>r. \<not> is_failure r) rows) \<and>
   row_key ` set (Failures (fold Add rows (New ls ts f))) = row_key ` set (filter is_failure rows) \<and>
   distinct (map row_key (Failures (fold Add rows (New ls ts f)))) \<and>
   row_key ` set (Warnings (fold Add rows (New ls ts f))) = row_key ` set (filter is_warning rows) \<and>
   distinct (map row_key (Warnings (fold Add rows (New ls ts f))))"
  unfolding log_def [symmetric] by (intro conjI log_lookup Success_log log_Failures [THEN conjunct1]
    log_Failures [THEN conjunct2] log_Warnings [THEN conjunct1] log_Warnings [THEN conjunct2])

subsection \<open>Records are a function of the rows\<close>

definition results_ne :: "row gomap gomap gomap \<Rightarrow> bool" where
  "results_ne m \<longleftrightarrow> list_all (\<lambda>(tid, byLang). list_all (\<lambda>(l, byOp). byOp \<noteq> []) byLang) m"

lemma update_not_Nil [simp]: "AList.update k v m \<noteq> []"
  by (cases m) auto

lemma results_ne_insert: "results_ne m \<Longrightarrow> results_ne (insert_result m res)"
proof -
  assume n: "results_ne m"
  then have "list_all (\<lambda>(l, byOp). byOp \<noteq> []) (submap m t)" for t
    unfolding results_ne_def by (rule submap_wf [where P = "list_all (\<lambda>(l, byOp). byOp \<noteq> [])"]) simp
  with n show ?thesis unfolding results_ne_def insert_result_def Let_def
    by (simp add: list_all_update)
qed

lemma log_ne: "results_ne (Results (log ls ts f rows))"
proof (induction rows rule: rev_induct)
  case Nil
  then show ?case by (simp add: log_def New_def results_ne_def)
next
  case (snoc r rows)
  then show ?case by (auto simp: log_snoc Add_def Let_def results_ne_insert)
qed

lemma log_Results_id: "TestIDs (log ls ts f rows) = ts \<and> Languages (log ls ts f rows) = ls"
  by (induction rows rule: rev_induct) (simp_all add: log_snoc, simp_all add: log_def New_def)

lemma sort_key_set_unique:
  assumes "inj f" and "distinct xs" and "distinct ys" and "set xs = set ys"
  shows "sort_key f xs = sort_key (f :: 'a \<Rightarrow> 'b::linorder) ys"
proof -
  have "map f (sort_key f xs) = map f (sort_key f ys)"
    using assms by (intro sorted_distinct_set_unique) (simp_all add: distinct_map inj_on_def inj_def)
  with assms(1) show ?thesis by (simp add: inj_map_eq_map)
qed

lemma inj_lang_key: "inj (lang_key langs)"
  by (auto simp: inj_def lang_key_def split: option.splits)

lemma inj_op_key: "inj op_key"
  by (auto simp: inj_def op_key_def split: option.splits)

lemma lookup_keys: "fst ` set m = {k. map_of m k \<noteq> None}"
  by (auto simp: map_of_eq_None_iff)

lemma submap_levels_wf:
  assumes "results_wf m"
  shows "map_wf (submap m t) \<and> list_all (\<lambda>(l, byOp). map_wf byOp) (submap m t)"
  using assms submap_wf [of "\<lambda>x. map_wf x \<and> list_all (\<lambda>(l, y). map_wf y) x" m t]
  by (simp add: results_wf_def)

lemma byLang_wf: "results_wf m \<Longrightarrow> map_wf (submap m t)"
  by (simp add: submap_levels_wf)

lemma byOp_wf: "results_wf m \<Longrightarrow> map_wf (submap (submap m t) l)"
  by (rule submap_wf) (simp_all add: submap_levels_wf)

lemma byLang_keys:
  assumes "results_wf (Results r)" and "results_ne (Results r)"
  shows "fst ` set (submap (Results r) t) = {l. \<exists>op. find_result r (t, l, op) \<noteq> None}"
proof -
  have "(\<exists>op. find_result r (t, l, op) \<noteq> None) \<longleftrightarrow> map_of (submap (Results r) t) l \<noteq> None" for l
  proof (cases "map_of (submap (Results r) t) l")
    case None
    then show ?thesis by (simp add: find_result_def submap_def)
  next
    case (Some byOp)
    have "list_all (\<lambda>(l, byOp). byOp \<noteq> []) (submap (Results r) t)"
      using assms(2) unfolding results_ne_def
      by (rule submap_wf [where P = "list_all (\<lambda>(l, byOp). byOp \<noteq> [])"]) simp
    with map_of_SomeD [OF Some] have "byOp \<noteq> []" by (auto simp: list_all_iff)
    then obtain op x byOp' where "byOp = (op, x) # byOp'" by (cases byOp) auto
    with Some have "find_result r (t, l, op) \<noteq> None"
      by (simp add: find_result_def submap_def split: option.splits)
    with Some show ?thesis by auto
  qed
  then show ?thesis by (auto simp: lookup_keys)
qed

lemma records_of_test_cong:
  assumes w: "results_wf (Results r)" "results_wf (Results r')"
    and n: "results_ne (Results r)" "results_ne (Results r')"
    and l: "Languages r = Languages r'"
    and f: "find_result r = find_result r'"
  shows "records_of_test r tid parts = records_of_test r' tid parts"
proof -
  obtain ty fm cas where parts: "parts = (ty, fm, cas)" by (cases parts)
  have op: "map_of (submap (submap (Results r) tid) lang) = map_of (submap (submap (Results r') tid) lang)" for lang
  proof
    fix op
    show "map_of (submap (submap (Results r) tid) lang) op = map_of (submap (submap (Results r') tid) lang) op"
      using fun_cong [OF f, of "(tid, lang, op)"] by (simp add: find_result_def)
  qed
  have "sort_ops (map fst (submap (submap (Results r) tid) lang)) =
        sort_ops (map fst (submap (submap (Results r') tid) lang))" for lang
    unfolding sort_ops_def using byOp_wf [OF w(1)] byOp_wf [OF w(2)]
    by (intro sort_key_set_unique inj_op_key) (simp_all add: map_wf_def lookup_keys op)
  moreover have "sort_langs (Languages r) (map fst (submap (Results r) tid)) =
        sort_langs (Languages r') (map fst (submap (Results r') tid))"
    unfolding sort_langs_def l using byLang_wf [OF w(1)] byLang_wf [OF w(2)]
    by (intro sort_key_set_unique inj_lang_key)
       (simp_all add: map_wf_def byLang_keys [OF w(1) n(1)] byLang_keys [OF w(2) n(2)] f)
  ultimately show ?thesis unfolding parts records_of_test_def prod.case Let_def by (simp only: op)
qed

lemma find_unique_key:
  assumes "inj_on row_key (set rows)" and "x \<in> set rows"
  shows "find (\<lambda>r. row_key r = row_key x) rows = Some x"
proof -
  have "find (\<lambda>r. row_key r = row_key x) rows \<noteq> None" using assms(2) by (auto simp: find_None)
  then obtain y where y: "find (\<lambda>r. row_key r = row_key x) rows = Some y" by blast
  then have "y \<in> set rows" "row_key y = row_key x" by (auto dest: find_SomeD)
  with assms have "y = x" by (blast dest: inj_onD)
  with y show ?thesis by simp
qed

lemma find_unique:
  assumes "distinct (map row_key rows)" and "mset rows = mset rows'"
  shows "find (\<lambda>r. row_key r = k) (rev rows) = find (\<lambda>r. row_key r = k) (rev rows')"
proof -
  have s: "set rows' = set rows" using mset_eq_setD [OF assms(2)] by (rule sym)
  have i: "inj_on row_key (set rows)" using assms(1) by (simp only: distinct_map)
  show ?thesis
  proof (cases "\<exists>x \<in> set rows. row_key x = k")
    case True
    then obtain x where x: "x \<in> set rows" "row_key x = k" by blast
    have "find (\<lambda>r. row_key r = row_key x) (rev rows) = Some x"
      by (rule find_unique_key) (simp_all only: set_rev i x(1))
    moreover have "find (\<lambda>r. row_key r = row_key x) (rev rows') = Some x"
      by (rule find_unique_key) (simp_all only: set_rev s i x(1))
    ultimately show ?thesis unfolding x(2) by (rule trans [OF _ sym])
  next
    case False
    then have "find (\<lambda>r. row_key r = k) (rev rows) = None" unfolding find_None set_rev by blast
    moreover have "find (\<lambda>r. row_key r = k) (rev rows') = None"
      using False unfolding find_None set_rev s by blast
    ultimately show ?thesis by (rule trans [OF _ sym])
  qed
qed

text \<open>The flat records do not depend on the interleaving of the workers: the same rows, one
  per key, added in any order give the same records in the same order.\<close>

theorem Records_order_independent:
  assumes "distinct (map row_key rows)" and "mset rows = mset rows'"
  shows "Records (fold Add rows (New ls ts f)) = Records (fold Add rows' (New ls ts f))"
proof -
  let ?r = "log ls ts f rows" and ?r' = "log ls ts f rows'"
  have "find_result ?r = find_result ?r'"
    unfolding log_lookup using find_unique [OF assms] by blast
  then have "records_of_test ?r tid parts = records_of_test ?r' tid parts" for tid parts
    by (intro records_of_test_cong log_wf log_ne) (simp_all add: log_Results_id)
  then have "Records ?r = Records ?r'"
    by (simp only: Records_def log_Results_id [THEN conjunct1])
  then show ?thesis by (simp add: log_def)
qed

definition example_row :: "string \<Rightarrow> string \<Rightarrow> status \<Rightarrow> row" where
  "example_row lang op st =
     \<lparr>TestID = ''T/json/a'', Language = lang, Operation = op, Status = st, Detail = ''''\<rparr>"

theorem Records_order_independent_witness:
  "Records (fold Add [example_row ''go'' op_serialize StatusPass, example_row ''c'' op_serialize StatusFail]
      (New [''go'', ''c''] [''T/json/a''] ''table'')) =
   Records (fold Add [example_row ''c'' op_serialize StatusFail, example_row ''go'' op_serialize StatusPass]
      (New [''go'', ''c''] [''T/json/a''] ''table''))"
  by (rule Records_order_independent) (simp_all add: example_row_def row_key_def)

subsection \<open>Test ids, CSV and JUnit\<close>

lemma split_n_3:
  assumes "CHR ''/'' \<notin> set t" and "CHR ''/'' \<notin> set f"
  shows "splitTestID3 (t @ ''/'' @ f @ ''/'' @ c) = Some (t, f, c)"
proof -
  have "cut CHR ''/'' (t @ CHR ''/'' # f @ CHR ''/'' # c) = (t, f @ CHR ''/'' # c, True)"
    using assms(1) by (rule cut_append)
  moreover have "cut CHR ''/'' (f @ CHR ''/'' # c) = (f, c, True)" using assms(2) by (rule cut_append)
  ultimately show ?thesis by (simp add: splitTestID3_def numeral_3_eq_3)
qed

definition csv_safe :: "record_row \<Rightarrow> bool" where
  "csv_safe rec \<longleftrightarrow> (\<nexists>t. rc_status rec = StatusOther t)"

lemma status_of_text_inv: "\<nexists>t. s = StatusOther t \<Longrightarrow> status_of_text (status_text s) = s"
  by (cases s) (simp_all add: status_of_text_def status_text_def)

text \<open>What is read back of a record: every CR LF in a field is an LF.\<close>

definition csv_normal :: "record_row \<Rightarrow> record_row" where
  "csv_normal rec =
     \<lparr>rc_test_id = crlf_lf (rc_test_id rec), rc_type = crlf_lf (rc_type rec),
      rc_format = crlf_lf (rc_format rec), rc_case = crlf_lf (rc_case rec),
      rc_language = crlf_lf (rc_language rec), rc_operation = crlf_lf (rc_operation rec),
      rc_status = rc_status rec, rc_detail = crlf_lf (rc_detail rec)\<rparr>"

definition crlf_free :: "record_row \<Rightarrow> bool" where
  "crlf_free rec \<longleftrightarrow> list_all (\<lambda>f. \<not> has_crlf f) (csv_row rec)"

lemma crlf_lf_status: "\<nexists>t. s = StatusOther t \<Longrightarrow> crlf_lf (status_text s) = status_text s"
  by (cases s) (simp_all add: status_text_def)

lemma csv_normal_id: "csv_safe rec \<Longrightarrow> csv_normal rec = rec \<longleftrightarrow> crlf_free rec"
  using crlf_lf_status [of "rc_status rec"]
  by (cases rec) (auto simp: csv_normal_def crlf_free_def csv_row_def csv_safe_def crlf_lf_id)

lemma ReadCSV_WriteCSV:
  assumes "list_all csv_safe recs"
  shows "ReadCSV (WriteCSV recs) = Inr (map csv_normal recs)"
proof -
  have len: "list_all (\<lambda>row. length row = length csvHeader) (csvHeader # map csv_row recs)"
    by (simp add: list_all_iff csv_row_def csvHeader_def)
  have head: "map crlf_lf csvHeader = csvHeader" by (simp add: csvHeader_def)
  have "map ((\<lambda>row. \<lparr>rc_test_id = row ! 0, rc_type = row ! 1, rc_format = row ! 2, rc_case = row ! 3,
             rc_language = row ! 4, rc_operation = row ! 5, rc_status = status_of_text (row ! 6),
             rc_detail = row ! 7\<rparr>) \<circ> (map crlf_lf \<circ> csv_row)) recs = map csv_normal recs"
    using assms by (induction recs)
      (simp_all add: csv_row_def csv_safe_def csv_normal_def crlf_lf_status status_of_text_inv)
  with csv_read_write [OF _ len] head show ?thesis
    by (simp add: ReadCSV_def WriteCSV_def csvHeader_def)
qed

text \<open>C39. Reading back the CSV text that \<open>WriteCSV\<close> wrote, quotes, commas and line ends included, never
  fails and gives the same records in the same order, with the same status (always one of the named
  ones), except that a CR LF inside a field comes back as LF: the records are the ones written exactly
  when no field of any of them has a CR LF.\<close>

theorem CSV_roundtrip:
  assumes "list_all csv_safe recs"
  shows "ReadCSV (WriteCSV recs) = Inr (map csv_normal recs) \<and>
    (ReadCSV (WriteCSV recs) = Inr recs \<longleftrightarrow> list_all crlf_free recs)"
proof -
  have "map csv_normal recs = recs \<longleftrightarrow> list_all crlf_free recs"
    using assms by (induction recs) (simp_all add: csv_normal_id)
  then show ?thesis by (simp add: ReadCSV_WriteCSV [OF assms])
qed

definition csv_example :: "string \<Rightarrow> record_row" where
  "csv_example detail =
     \<lparr>rc_test_id = ''T/json/a'', rc_type = ''T'', rc_format = ''json'', rc_case = ''a'',
      rc_language = ''go'', rc_operation = op_serialize, rc_status = StatusXFail, rc_detail = detail\<rparr>"

theorem CSV_roundtrip_witness:
  "ReadCSV (WriteCSV [csv_example (''say '' @ [chQuote, chComma, chLF, chCR, chQuote])]) =
     Inr [csv_example (''say '' @ [chQuote, chComma, chLF, chCR, chQuote])] \<and>
   ReadCSV (WriteCSV [csv_example [CHR ''a'', chCR, chLF]]) = Inr [csv_example [CHR ''a'', chLF]]"
proof -
  have "list_all csv_safe [csv_example (''say '' @ [chQuote, chComma, chLF, chCR, chQuote])]"
    "list_all csv_safe [csv_example [CHR ''a'', chCR, chLF]]"
    by (simp_all add: csv_safe_def csv_example_def)
  note r = this [THEN CSV_roundtrip]
  have "csv_normal (csv_example (''say '' @ [chQuote, chComma, chLF, chCR, chQuote])) =
      csv_example (''say '' @ [chQuote, chComma, chLF, chCR, chQuote])"
    by (simp add: csv_normal_def csv_example_def)
  moreover have "csv_normal (csv_example [CHR ''a'', chCR, chLF]) = csv_example [CHR ''a'', chLF]"
    by (simp add: csv_normal_def csv_example_def)
  ultimately show ?thesis using r by simp
qed

end
