(* ===== verification/OrchFacts.thy ===== *)
theory OrchFacts
  imports Orch ReportFacts
begin

section \<open>Correctness of the test rounds\<close>

text \<open>
  What the rows of the report say about the answers the workers gave. Every step of a round writes
  rows of its own key only (\<open>fold_each\<close> carries what each step establishes through the round), so
  the final row of a key is the one its own step wrote.
\<close>

subsection \<open>Steps and keys\<close>

text \<open>A loop whose step for \<open>x\<close> turns \<open>P x\<close> into \<open>Q x\<close>, the steps for other elements keeping both.\<close>

lemma fold_each:
  assumes "distinct xs" and "\<And>x s. x \<in> set xs \<Longrightarrow> P x s \<Longrightarrow> Q x (f x s)"
    and "\<And>x y s. x \<noteq> y \<Longrightarrow> P x s \<Longrightarrow> P x (f y s)" and "\<And>x y s. x \<noteq> y \<Longrightarrow> Q x s \<Longrightarrow> Q x (f y s)"
    and "\<And>x. x \<in> set xs \<Longrightarrow> P x s"
  shows "x \<in> set xs \<Longrightarrow> Q x (fold f xs s)"
  using assms(1,2,5)
proof (induction xs arbitrary: s)
  case (Cons y ys)
  have keep: "Q z s \<Longrightarrow> y \<notin> set zs \<Longrightarrow> z \<notin> set zs \<Longrightarrow> Q z (fold f zs s)" for z zs s
  proof (induction zs arbitrary: s)
    case (Cons a zs)
    with assms(4) [of z a s] show ?case by auto
  qed simp
  show ?case
  proof (cases "x = y")
    case True
    have "x \<notin> set ys" using Cons.prems(2) True by simp
    moreover have "Q x (f y s)" using Cons.prems(3) [of y s] Cons.prems(4) [of y] True by simp
    ultimately show ?thesis using keep [of x "f y s" ys] True by simp
  next
    case False
    then have x: "x \<in> set ys" using Cons.prems(1) by simp
    have "P z (f y s)" if "z \<in> set ys" for z
      using that Cons.prems(2,4) assms(3) [of z y s] by auto
    with Cons.IH [OF x, of "f y s"] Cons.prems(2,3) show ?thesis by simp
  qed
qed simp

lemma fold_keeps:
  assumes "\<And>x s. x \<in> set xs \<Longrightarrow> g (f x s) = g s"
  shows "g (fold f xs s) = g s"
  using assms by (induction xs arbitrary: s) auto

abbreviation found :: "'s run_state \<Rightarrow> key \<Rightarrow> row option" where
  "found st \<equiv> find_result (rs_rep st)"

lemma found_add_row: "found (add_row r st) = (found st)(row_key r \<mapsto> r)"
  by (simp add: add_row_def find_result_Add)

lemma row_key_mk [simp]: "row_key (mk_row tid lang op st d) = (tid, lang, op)"
  by (simp add: mk_row_def row_key_def)

lemma Status_mk [simp]: "Status (mk_row tid lang op st d) = st" "Detail (mk_row tid lang op st d) = d"
  by (simp_all add: mk_row_def)

lemma found_warn_if:
  "found (warn_if c tid lang op d st) =
     (if c then (found st)((tid, lang, op) \<mapsto> mk_row tid lang op StatusWarn d) else found st)"
  by (simp add: warn_if_def warn_def found_add_row)

lemma found_send_to: "send_to P oe n lang req st = (st', res) \<Longrightarrow> found st' = found st"
  by (auto simp: send_to_def split: option.splits prod.splits)

lemma mset_permuted [simp]: "mset (permuted ys xs) = mset xs"
  by (simp add: permuted_def)

lemma set_permuted [simp]: "set (permuted ys xs) = set xs"
  by (rule mset_eq_setD) simp

lemma distinct_permuted [simp]: "distinct (permuted ys xs) = distinct xs"
  by (rule mset_eq_imp_distinct_iff) simp

lemma order_simps [simp]:
  "mset (round_order sch tid op langs) = mset langs" "set (round_order sch tid op langs) = set langs"
  "distinct (round_order sch tid op langs) = distinct langs" "set (matrix_order sch tid pairs) = set pairs"
  by (simp_all add: round_order_def matrix_order_def)

text \<open>No goroutine finds the run's context cancelled.\<close>

definition never_cancelled :: "'s process \<Rightarrow> bool" where
  "never_cancelled P \<longleftrightarrow> (\<forall>s. \<not> pr_ctx_done P s)"

lemma not_ctx_cancelled: "never_cancelled P \<Longrightarrow> \<not> ctx_cancelled P lang st"
  by (simp add: never_cancelled_def ctx_cancelled_def split: option.splits)

lemma resolve_not_ok:
  "\<not> resp_ok res \<Longrightarrow> fst (resolveResult oe lang tid res kf) \<in> {StatusError, StatusSkip, StatusFail, StatusXFail}"
  by (auto simp: resolveResult_def resp_ok_def split: sum.splits option.splits)

lemma resolve_ok:
  "resp_ok res \<Longrightarrow> fst (resolveResult oe lang tid res kf) =
     (if known_reason kf lang tid = None then StatusPass else StatusXPass)"
  by (auto simp: resolveResult_def resp_ok_def split: sum.splits option.splits)

subsection \<open>The serialize round\<close>

text \<open>What a worker's goroutine leaves behind: its bytes, and already a row of the reference; or no
  bytes and a row that is neither a pass nor a warning.\<close>

definition not_passed :: "status \<Rightarrow> bool" where
  "not_passed s \<longleftrightarrow> s \<in> {StatusError, StatusSkip, StatusFail, StatusXFail}"

definition ser_done ::
  "options \<Rightarrow> string \<Rightarrow> string \<Rightarrow> string \<Rightarrow> 's run_state \<times> string gomap \<Rightarrow> bool" where
  "ser_done opts refLang tid lang sh \<longleftrightarrow>
     (case map_of (snd sh) lang of
        None \<Rightarrow> \<exists>r. found (fst sh) (tid, lang, op_serialize) = Some r \<and> not_passed (Status r)
      | Some h \<Rightarrow> lang = refLang \<longrightarrow> (\<exists>r. found (fst sh) (tid, lang, op_serialize) = Some r \<and>
          Status r = (if known_reason (KnownFails opts) lang tid = None then StatusPass else StatusXPass)))"

lemma serialize_one_others:
  assumes "x \<noteq> lang"
  shows "found (fst (serialize_one P oe opts refLang tid encoded lang sh)) (t, x, op) = found (fst sh) (t, x, op) \<and>
    map_of (snd (serialize_one P oe opts refLang tid encoded lang sh)) x = map_of (snd sh) x"
  using assms
  by (auto simp: serialize_one_def Let_def found_add_row found_warn_if map_of_update
      split: prod.splits option.splits sum.splits dest!: found_send_to)

lemma serialize_one_done:
  assumes "never_cancelled P" and "map_of (snd sh) lang = None"
  shows "ser_done opts refLang tid lang (serialize_one P oe opts refLang tid encoded lang sh)"
proof -
  obtain st hex where sh: "sh = (st, hex)" by (cases sh)
  obtain st1 res where s: "send_to P oe (TimeoutSec opts) lang (NewSerializeRequest tid encoded) st = (st1, res)"
    by (metis surj_pair)
  obtain status detail where r: "resolveResult oe lang tid res (KnownFails opts) = (status, detail)"
    by (metis surj_pair)
  show ?thesis
  proof (cases "resp_ok res")
    case True
    then obtain x where x: "res = Inr x" by (auto simp: resp_ok_def split: sum.splits)
    show ?thesis
      using True resolve_ok [OF True, of oe lang tid "KnownFails opts"] r not_ctx_cancelled [OF assms(1)]
      by (auto simp: ser_done_def serialize_one_def sh s x Let_def map_of_update found_add_row)
  next
    case False
    then have "map_of (snd (serialize_one P oe opts refLang tid encoded lang sh)) lang = None"
      using assms(2) not_ctx_cancelled [OF assms(1)] r
      by (auto simp: serialize_one_def sh s Let_def split: sum.splits)
    moreover have "not_passed status"
      using resolve_not_ok [OF False, of oe lang tid "KnownFails opts"] r by (simp add: not_passed_def)
    ultimately show ?thesis
      using False not_ctx_cancelled [OF assms(1)] r
      by (simp add: ser_done_def serialize_one_def sh s Let_def found_add_row)
  qed
qed

lemma serialize_round_done:
  assumes "never_cancelled P" and "distinct langs" and "lang \<in> set langs"
  shows "ser_done opts refLang tid lang (serialize_round P oe sch opts refLang langs tid encoded st)"
  unfolding serialize_round_def
proof (rule fold_each [where P = "\<lambda>l sh. map_of (snd sh) l = None" and
      Q = "\<lambda>l sh. ser_done opts refLang tid l sh" and x = lang])
  show "distinct (round_order sch tid op_serialize langs)" using assms(2) by simp
  show "lang \<in> set (round_order sch tid op_serialize langs)" using assms(3) by simp
qed (use serialize_one_done [OF assms(1)] in \<open>auto simp: ser_done_def serialize_one_others split: option.splits\<close>)

text \<open>Only the round's own languages have bytes.\<close>

lemma serialize_round_outside:
  assumes "lang \<notin> set langs"
  shows "map_of (snd (serialize_round P oe sch opts refLang langs tid encoded st)) lang = None"
proof -
  have "lang \<notin> set (round_order sch tid op_serialize langs)" using assms by simp
  then have "map_of (snd (fold (serialize_one P oe opts refLang tid encoded)
      (round_order sch tid op_serialize langs) (st, []))) lang = map_of (snd (st, [])) lang"
    by (intro fold_keeps [where g = "\<lambda>sh. map_of (snd sh) lang"]) (metis serialize_one_others)
  then show ?thesis by (simp add: serialize_round_def)
qed

subsection \<open>The comparison\<close>

definition same_bytes :: "string \<Rightarrow> string \<Rightarrow> bool" where
  "same_bytes a b \<longleftrightarrow> (\<exists>bs. hex_decode a = Some bs \<and> hex_decode b = Some bs)"

lemma hex_diff_Nil: "hex_diff oe a b = [] \<longleftrightarrow> same_bytes a b"
  using HexDiff_spec [of "hex_err oe" a b] by (auto simp: hex_diff_def same_bytes_def)

lemma fst_verdict:
  "fst (verdict diff known) =
     (if diff = [] then (if known = None then StatusPass else StatusXPass)
      else (if known = None then StatusFail else StatusXFail))"
  by (cases known) (simp_all add: verdict_def)

definition pass_status :: "string option \<Rightarrow> status" where
  "pass_status known = (if known = None then StatusPass else StatusXPass)"

definition fail_status :: "string option \<Rightarrow> status" where
  "fail_status known = (if known = None then StatusFail else StatusXFail)"

text \<open>The status the serialize row of a language must have, by the bytes the workers returned.\<close>

definition serialize_judged ::
  "options \<Rightarrow> string \<Rightarrow> string \<Rightarrow> string gomap \<Rightarrow> string \<Rightarrow> status \<Rightarrow> bool" where
  "serialize_judged opts refLang tid hex lang s \<longleftrightarrow>
     (let known = known_reason (KnownFails opts) lang tid in
      case map_of hex lang of
        None \<Rightarrow> not_passed s
      | Some h \<Rightarrow>
          if lang = refLang then s = pass_status known
          else case map_of hex refLang of
                 None \<Rightarrow> s = StatusPass
               | Some r \<Rightarrow> s = (if same_bytes r h then pass_status known else fail_status known))"

lemma compare_one_others:
  assumes "k \<noteq> (tid, lang, op_serialize)"
  shows "found (compare_one P oe opts refLang tid encoded fns ffs hex lang st) k = found st k"
  using assms
  by (auto simp: compare_one_def found_add_row semanticSerializeDiff_def
      split: prod.splits option.splits sum.splits if_splits dest!: found_send_to)

lemma compare_one_judged:
  assumes "Oracle opts \<noteq> OracleSemantic" and "ser_done opts refLang tid lang (st, hex)"
  shows "\<exists>r. found (compare_one P oe opts refLang tid encoded fns ffs hex lang st) (tid, lang, op_serialize) = Some r \<and>
    serialize_judged opts refLang tid hex lang (Status r)"
proof (cases "map_of hex lang")
  case None
  with assms(2) show ?thesis by (auto simp: compare_one_def ser_done_def serialize_judged_def)
next
  case (Some h)
  show ?thesis
  proof (cases "lang \<noteq> refLang \<and> map_of hex refLang \<noteq> None")
    case False
    with assms(2) Some show ?thesis
      by (auto simp: compare_one_def ser_done_def serialize_judged_def found_add_row pass_status_def Let_def)
  next
    case True
    then obtain r where r: "map_of hex refLang = Some r" and l: "lang \<noteq> refLang" by auto
    obtain status detail where v: "verdict (hex_diff oe r h) (known_reason (KnownFails opts) lang tid) = (status, detail)"
      by (metis surj_pair)
    from fst_verdict [of "hex_diff oe r h" "known_reason (KnownFails opts) lang tid"] v
    have "status = (if same_bytes r h then pass_status (known_reason (KnownFails opts) lang tid)
        else fail_status (known_reason (KnownFails opts) lang tid))"
      by (simp add: hex_diff_Nil pass_status_def fail_status_def)
    with Some r l assms(1) v show ?thesis
      by (simp add: compare_one_def serialize_judged_def found_add_row Let_def)
  qed
qed

lemma compare_judged:
  assumes "Oracle opts \<noteq> OracleSemantic" and "distinct langs" and "lang \<in> set langs"
    and "\<And>l. l \<in> set langs \<Longrightarrow> ser_done opts refLang tid l (st, hex)"
  shows "\<exists>r. found (fold (compare_one P oe opts refLang tid encoded fns ffs hex) langs st) (tid, lang, op_serialize) =
      Some r \<and> serialize_judged opts refLang tid hex lang (Status r)"
proof (rule fold_each [where P = "\<lambda>l s. ser_done opts refLang tid l (s, hex)" and x = lang and
      Q = "\<lambda>l s. \<exists>r. found s (tid, l, op_serialize) = Some r \<and> serialize_judged opts refLang tid hex l (Status r)"])
  fix x y :: string and s :: "'a run_state"
  assume "x \<noteq> y"
  then have "found (compare_one P oe opts refLang tid encoded fns ffs hex y s) (tid, x, op_serialize) =
      found s (tid, x, op_serialize)" by (simp add: compare_one_others)
  then show "ser_done opts refLang tid x (s, hex) \<Longrightarrow>
      ser_done opts refLang tid x (compare_one P oe opts refLang tid encoded fns ffs hex y s, hex)"
    and "\<exists>r. found s (tid, x, op_serialize) = Some r \<and> serialize_judged opts refLang tid hex x (Status r) \<Longrightarrow>
      \<exists>r. found (compare_one P oe opts refLang tid encoded fns ffs hex y s) (tid, x, op_serialize) = Some r \<and>
        serialize_judged opts refLang tid hex x (Status r)"
    by (simp_all only: ser_done_def fst_conv snd_conv)
qed (use assms in \<open>blast intro: compare_one_judged\<close>)+

subsection \<open>The deserialize round\<close>

lemma deserialize_one_key:
  assumes "k \<noteq> (tid, lang, op_deserialize)" and "k \<noteq> (tid, lang, op_audit_deser_stability)"
    and "k \<noteq> (tid, lang, op_audit_input_mut)" and "k \<noteq> (tid, lang, op_audit_zero_copy)"
  shows "found (deserialize_one P oe opts tid encoded fns ffs refHex lang st) k = found st k"
proof -
  obtain st1 res where s: "send_to P oe (TimeoutSec opts) lang (NewDeserializeRequest tid refHex) st = (st1, res)"
    by (metis surj_pair)
  show ?thesis
    unfolding deserialize_one_def s prod.case Let_def
    by (cases "audit_in opts res")
       (simp_all add: found_send_to [OF s] found_add_row found_warn_if assms split: prod.split)
qed

lemma deserialize_one_others:
  assumes "lang' \<noteq> lang \<or> op = op_serialize \<or> op = op_matrix \<or> t \<noteq> tid"
  shows "found (deserialize_one P oe opts tid encoded fns ffs refHex lang st) (t, lang', op) = found st (t, lang', op)"
  by (rule deserialize_one_key) (use assms in auto)

lemma matrix_one_key:
  assumes "\<And>l. k \<noteq> (tid, l, op_matrix)"
  shows "found (matrix_one P oe opts tid encoded fns ffs hex sd st) k = found st k"
proof -
  obtain src dst where sd: "sd = (src, dst)" by (cases sd)
  obtain st1 res where s: "send_to P oe (TimeoutSec opts) dst
      (NewDeserializeRequest (tid @ ''/matrix-'' @ arrow src dst) (index_str hex src)) st = (st1, res)"
    by (metis surj_pair)
  show ?thesis
    unfolding matrix_one_def s sd prod.case Let_def
    by (simp add: found_send_to [OF s] found_add_row assms split: prod.split sum.split)
qed

lemma matrix_one_others:
  assumes "op \<noteq> op_matrix \<or> t \<noteq> tid"
  shows "found (matrix_one P oe opts tid encoded fns ffs hex sd st) (t, l, op) = found st (t, l, op)"
  by (rule matrix_one_key) (use assms in auto)

lemma runMatrix_others:
  assumes "op \<noteq> op_matrix \<or> t \<noteq> tid"
  shows "found (runMatrix P oe sch opts langs tid encoded fns ffs hex st) (t, l, op) = found st (t, l, op)"
  unfolding runMatrix_def
  by (rule fold_keeps [where g = "\<lambda>s. found s (t, l, op)"]) (rule matrix_one_others [OF assms])

lemma found_add_for:
  "found (add_for xs f st) k =
     (case find (\<lambda>x. row_key (f x) = k) (rev xs) of None \<Rightarrow> found st k | Some x \<Rightarrow> Some (f x))"
  unfolding add_for_def
  by (induction xs arbitrary: st) (auto simp: found_add_row find_append split: option.splits)

lemma add_for_others: "(\<And>x. x \<in> set xs \<Longrightarrow> row_key (f x) \<noteq> k) \<Longrightarrow> found (add_for xs f st) k = found st k"
  unfolding found_add_for
  by (cases "find (\<lambda>x. row_key (f x) = k) (rev xs)") (simp, fastforce dest!: find_SomeD)


text \<open>The status the deserialize row of a language must have, by what its worker's \<open>Send\<close> returned.\<close>

definition deserialize_judged ::
  "orch_env \<Rightarrow> options \<Rightarrow> string \<Rightarrow> gval gomap \<Rightarrow> string list \<Rightarrow> string list \<Rightarrow> string
    \<Rightarrow> worker_error + response \<Rightarrow> status \<Rightarrow> bool" where
  "deserialize_judged oe opts tid encoded fns ffs lang res s \<longleftrightarrow>
     (let known = known_reason (KnownFails opts) lang tid in
      case res of
        Inl _ \<Rightarrow> s = StatusError
      | Inr r \<Rightarrow>
          if RespStatus r \<noteq> StatusOK then not_passed s
          else s = (if DataDiff (oe_cmp oe) encoded (RespData r) fns ffs = [] then pass_status known
                    else fail_status known))"

lemma deserialize_one_judged:
  assumes "never_cancelled P"
  shows "\<exists>r. found (deserialize_one P oe opts tid encoded fns ffs refHex lang st) (tid, lang, op_deserialize) = Some r \<and>
    deserialize_judged oe opts tid encoded fns ffs lang
      (snd (send_to P oe (TimeoutSec opts) lang (NewDeserializeRequest tid refHex) st)) (Status r)"
proof -
  let ?req = "NewDeserializeRequest tid refHex"
  let ?known = "known_reason (KnownFails opts) lang tid"
  obtain st1 res where s: "send_to P oe (TimeoutSec opts) lang ?req st = (st1, res)"
    by (metis surj_pair)
  define sd where "sd = (case res of
      Inr r \<Rightarrow> if RespStatus r = StatusOK then verdict (DataDiff (oe_cmp oe) encoded (RespData r) fns ffs) ?known
              else resolveResult oe lang tid res (KnownFails opts)
    | Inl e \<Rightarrow> resolveResult oe lang tid res (KnownFails opts))"
  obtain status detail where sd: "sd = (status, detail)" by (cases sd)
  have "deserialize_judged oe opts tid encoded fns ffs lang res status"
  proof (cases res)
    case (Inl e)
    with sd show ?thesis by (simp add: sd_def deserialize_judged_def resolveResult_def)
  next
    case (Inr r)
    show ?thesis
    proof (cases "RespStatus r = StatusOK")
      case True
      with Inr sd fst_verdict [of "DataDiff (oe_cmp oe) encoded (RespData r) fns ffs" ?known] show ?thesis
        by (simp add: sd_def deserialize_judged_def pass_status_def fail_status_def)
    next
      case False
      with Inr have "\<not> resp_ok res" by (simp add: resp_ok_def)
      from resolve_not_ok [OF this, of oe lang tid "KnownFails opts"] Inr False sd show ?thesis
        by (simp add: sd_def deserialize_judged_def not_passed_def)
    qed
  qed
  moreover have "found (deserialize_one P oe opts tid encoded fns ffs refHex lang st) (tid, lang, op_deserialize) =
      Some (mk_row tid lang op_deserialize status detail)"
    unfolding deserialize_one_def s prod.case sd_def [symmetric] sd Let_def
    using not_ctx_cancelled [OF assms, of lang st1]
    by (cases "audit_in opts res") (simp_all add: found_add_row found_warn_if)
  ultimately show ?thesis by (simp add: s)
qed

text \<open>Each language has its own worker: the goroutine of one leaves the workers of the others as they are.\<close>

abbreviation worker_of :: "'s run_state \<Rightarrow> string \<Rightarrow> 's worker option" where
  "worker_of st lang \<equiv> map_of (rs_workers st) lang"

lemma worker_of_send_to:
  "send_to P oe n lang req st = (st', res) \<Longrightarrow>
     (x \<noteq> lang \<longrightarrow> worker_of st' x = worker_of st x) \<and> (worker_of st x \<noteq> None \<longrightarrow> worker_of st' x \<noteq> None)"
  by (auto simp: send_to_def map_of_update split: option.splits prod.splits)

lemma rs_workers_rows [simp]:
  "rs_workers (add_row r st) = rs_workers st" "rs_workers (warn_if c tid lang op d st) = rs_workers st"
  by (simp_all add: add_row_def warn_if_def warn_def)

lemma worker_of_deserialize_one:
  assumes "x \<noteq> lang"
  shows "worker_of (deserialize_one P oe opts tid encoded fns ffs refHex lang st) x = worker_of st x"
proof -
  obtain st1 res where s: "send_to P oe (TimeoutSec opts) lang (NewDeserializeRequest tid refHex) st = (st1, res)"
    by (metis surj_pair)
  from worker_of_send_to [OF s, of x] assms show ?thesis
    unfolding deserialize_one_def s prod.case Let_def
    by (cases "audit_in opts res") (simp_all split: prod.split)
qed

lemma worker_of_serialize_round:
  assumes "serialize_round P oe sch opts refLang langs tid encoded st = (st1, hex)" and "worker_of st x \<noteq> None"
  shows "worker_of st1 x \<noteq> None"
proof -
  have one: "worker_of (fst (serialize_one P oe opts refLang tid encoded l sh)) x \<noteq> None"
    if "worker_of (fst sh) x \<noteq> None" for l and sh :: "'a run_state \<times> string gomap"
  proof -
    obtain st hex where sh: "sh = (st, hex)" by (cases sh)
    obtain st2 res where s: "send_to P oe (TimeoutSec opts) l (NewSerializeRequest tid encoded) st = (st2, res)"
      by (metis surj_pair)
    from worker_of_send_to [OF s, of x] that show ?thesis
      by (simp add: serialize_one_def sh s Let_def split: option.split prod.split)
  qed
  have "worker_of (fst (fold (serialize_one P oe opts refLang tid encoded) ls sh)) x \<noteq> None"
    if "worker_of (fst sh) x \<noteq> None" for ls and sh :: "'a run_state \<times> string gomap"
    using that
  proof (induction ls arbitrary: sh)
    case (Cons l ls)
    show ?case using Cons.IH [OF one [OF Cons.prems]] by simp
  qed simp
  from this [of "(st, [])" "round_order sch tid op_serialize langs"] assms show ?thesis
    by (simp add: serialize_round_def)
qed

lemma worker_of_compare:
  assumes "worker_of st x \<noteq> None"
  shows "worker_of (fold (compare_one P oe opts refLang tid encoded fns ffs hex) ls st) x \<noteq> None"
proof -
  have one: "worker_of (compare_one P oe opts refLang tid encoded fns ffs hex l s) x \<noteq> None"
    if "worker_of s x \<noteq> None" for l and s :: "'a run_state"
  proof -
    have "worker_of (fst (semanticSerializeDiff P oe n refLang tid src h encoded fns ffs s)) x \<noteq> None" for n src h
      using worker_of_send_to [of P oe n refLang _ s _ _ x] that
      by (fastforce simp: semanticSerializeDiff_def split: prod.split sum.split)
    with that show ?thesis
      by (auto simp: compare_one_def split: option.split prod.splits if_splits) (metis fst_conv option.discI)+
  qed
  from assms show ?thesis
  proof (induction ls arbitrary: st)
    case (Cons l ls)
    show ?case using Cons.IH [OF one [OF Cons.prems]] by simp
  qed simp
qed

lemma deserialize_row:
  assumes "never_cancelled P" and "distinct langs" and "lang \<in> set langs"
    and "serialize_round P oe sch opts refLang langs tid encoded st = (st1, hex)"
    and "st2 = fold (compare_one P oe opts refLang tid encoded (field_names schema) (float_fields schema) hex) langs st1"
  shows "\<exists>r. found (run_encoded P oe sch opts refLang langs schema tid encoded st) (tid, lang, op_deserialize) = Some r \<and>
    (case map_of hex refLang of
       None \<Rightarrow> Status r = StatusSkip \<and> Detail r = SkipRefSerializeFailed
     | Some refHex \<Rightarrow> \<forall>w. worker_of st2 lang = Some w \<longrightarrow>
         deserialize_judged oe opts tid encoded (field_names schema) (float_fields schema) lang
           (snd (Send P (quote (oe_cmp oe)) (NewDeserializeRequest tid refHex) (TimeoutSec opts) w)) (Status r))"
proof (cases "map_of hex refLang")
  case None
  have "find (\<lambda>l. l = lang) (rev langs) = Some lang"
    using assms(3) by (cases "find (\<lambda>l. l = lang) (rev langs)") (auto dest: find_SomeD simp: find_None_iff)
  with None show ?thesis
    by (simp add: run_encoded_def assms(4) Let_def found_add_for)
next
  case (Some refHex)
  let ?step = "deserialize_one P oe opts tid encoded (field_names schema) (float_fields schema) refHex"
  let ?req = "NewDeserializeRequest tid refHex"
  let ?good = "\<lambda>l s. \<exists>r. found s (tid, l, op_deserialize) = Some r \<and> (\<forall>w. worker_of st2 l = Some w \<longrightarrow>
      deserialize_judged oe opts tid encoded (field_names schema) (float_fields schema) l
        (snd (Send P (quote (oe_cmp oe)) ?req (TimeoutSec opts) w)) (Status r))"
  have "?good lang (fold ?step (round_order sch tid op_deserialize langs) st2)"
  proof (rule fold_each [where P = "\<lambda>l s. worker_of s l = worker_of st2 l" and x = lang and Q = ?good])
    fix x y :: string and s :: "'a run_state"
    assume "x \<noteq> y"
    then have "found (?step y s) (tid, x, op_deserialize) = found s (tid, x, op_deserialize)"
      and "worker_of (?step y s) x = worker_of s x"
      by (simp_all add: deserialize_one_others worker_of_deserialize_one)
    then show "?good x s \<Longrightarrow> ?good x (?step y s)" and "worker_of s x = worker_of st2 x \<Longrightarrow> worker_of (?step y s) x = worker_of st2 x"
      by simp_all
  next
    fix x and s :: "'a run_state"
    assume w: "worker_of s x = worker_of st2 x"
    then have "snd (send_to P oe (TimeoutSec opts) x ?req s) =
        snd (Send P (quote (oe_cmp oe)) ?req (TimeoutSec opts) w')" if "worker_of st2 x = Some w'" for w'
      using that by (simp add: send_to_def split: prod.split)
    with deserialize_one_judged [OF assms(1), of oe opts tid encoded "field_names schema" "float_fields schema" refHex x s]
    show "?good x (?step x s)" by auto
  qed (use assms(2,3) in simp_all)
  with Some show ?thesis
    by (simp add: run_encoded_def assms(4,5) Let_def runMatrix_others)
qed

text \<open>C2. The deserialize row of every language is there and sound, and it judges that language's own worker.
  For one test case, the run not being cancelled: when the reference returned no bytes the row is a
  SKIP; otherwise it is decided by what \<open>Send\<close> of the reference's bytes returns on the very worker of
  the language, as the serialize round and the comparison left it: an error row for a transport error,
  no pass for an answer that is not OK, and for an OK answer a pass exactly when the data comparison
  found no difference, XPASS and XFAIL standing for a known failure.\<close>

theorem deserialize_verdict_sound:
  assumes "never_cancelled P" and "distinct langs" and "lang \<in> set langs" and "lang \<in> fst ` set (rs_workers st)"
    and "serialize_round P oe sch opts refLang langs tid encoded st = (st1, hex)"
    and "st2 = fold (compare_one P oe opts refLang tid encoded (field_names schema) (float_fields schema) hex) langs st1"
  shows "\<exists>r w. found (run_encoded P oe sch opts refLang langs schema tid encoded st) (tid, lang, op_deserialize) = Some r \<and>
    map_of (rs_workers st2) lang = Some w \<and>
    (case map_of hex refLang of
       None \<Rightarrow> Status r = StatusSkip \<and> Detail r = SkipRefSerializeFailed
     | Some refHex \<Rightarrow> deserialize_judged oe opts tid encoded (field_names schema) (float_fields schema) lang
         (snd (Send P (quote (oe_cmp oe)) (NewDeserializeRequest tid refHex) (TimeoutSec opts) w)) (Status r))"
proof -
  have "worker_of st lang \<noteq> None" using assms(4) by (auto simp: map_of_eq_None_iff)
  then have "worker_of st2 lang \<noteq> None"
    unfolding assms(6) by (intro worker_of_compare worker_of_serialize_round [OF assms(5)])
  with deserialize_row [OF assms(1-3,5,6)] show ?thesis by (auto split: option.splits)
qed

subsection \<open>An example run\<close>

text \<open>Two scripted workers on one case: the second returns other bytes than the reference.\<close>

definition example_oe :: orch_env where
  "example_oe = \<lparr>oe_go = plain_env,
     oe_cmp = \<lparr>cmp_diff = (\<lambda>a b. if a = b then [] else ''differs''), quote = id\<rparr>,
     enc_text = (\<lambda>_. ''error''), hex_err = id\<rparr>"

definition in_order :: schedule where
  "in_order = \<lparr>sch_round = (\<lambda>tid op ls. ls), sch_matrix = (\<lambda>tid ps. ps)\<rparr>"

definition example_opts :: options where
  "example_opts = \<lparr>FullMatrix = False, TimeoutSec = 5, KnownFails = [], Audit = False, Oracle = OracleBytes\<rparr>"

definition ok_hex :: "string \<Rightarrow> string \<Rightarrow> read_event" where
  "ok_hex tid hex = Line (JObj [(''id'', JStr tid), (''op'', JStr ''serialize''), (''status'', JStr ''OK''),
     (''hex'', JStr hex)])"

definition example_state :: "script run_state" where
  "example_state = \<lparr>rs_workers = [(''go'', script_worker ''go'' [ok_hex ''t'' ''0a'']),
       (''rust'', script_worker ''rust'' [ok_hex ''t'' ''0b''])],
     rs_rep = New [''go'', ''rust''] [''t''] ''table'', rs_panicked = False\<rparr>"

lemma never_cancelled_script: "never_cancelled script_process"
  by (simp add: never_cancelled_def script_process_def)

lemma example_hexes:
  "snd (serialize_round script_process example_oe in_order example_opts ''go'' [''go'', ''rust''] ''t'' [] example_state) =
     [(''go'', ''0a''), (''rust'', ''0b'')]"
  by (simp add: serialize_round_def round_order_def permuted_def in_order_def serialize_one_def send_to_def example_state_def Send_def
      script_worker_def script_process_def read_marked_def readWithTimeout_def Read_def ok_hex_def
      response_of_def un_field_def str_of_def extractOp_def extractID_def new_request_defs ctx_cancelled_def
      resp_ok_def audit_in_def example_opts_def example_oe_def Let_def resolveResult_def known_reason_def
      submap_def add_row_def)


text \<open>With answers to the second round: the reference returns the data of the case, the other worker a field
  more. Each row is about its own worker.\<close>

definition ok_data :: "string \<Rightarrow> json gomap \<Rightarrow> read_event" where
  "ok_data tid m = Line (JObj [(''id'', JStr tid), (''op'', JStr ''deserialize''), (''status'', JStr ''OK''),
     (''data'', JObj m)])"

definition example_answers :: "script run_state" where
  "example_answers = \<lparr>rs_workers = [(''go'', script_worker ''go'' [ok_hex ''t'' ''0a'', ok_data ''t'' []]),
       (''rust'', script_worker ''rust'' [ok_hex ''t'' ''0b'', ok_data ''t'' [(''x'', JStr ''1'')]])],
     rs_rep = New [''go'', ''rust''] [''t''] ''table'', rs_panicked = False\<rparr>"

definition answered_worker :: "string \<Rightarrow> read_event list \<Rightarrow> script worker" where
  "answered_worker lang evs = \<lparr>w_language = lang, w_proc = \<lparr>sc_log = [NewSerializeRequest ''t'' []], sc_events = evs,
     sc_killed = False\<rparr>, w_dead = False, w_deadReason = []\<rparr>"

lemma example_answers_serialized:
  assumes "serialize_round script_process example_oe in_order example_opts ''go'' [''go'', ''rust''] ''t'' [] example_answers = (st1, hex)"
  shows "hex = [(''go'', ''0a''), (''rust'', ''0b'')]"
    and "rs_workers st1 = [(''go'', answered_worker ''go'' [ok_data ''t'' []]),
       (''rust'', answered_worker ''rust'' [ok_data ''t'' [(''x'', JStr ''1'')]])]"
  using assms
  by (auto simp: serialize_round_def round_order_def permuted_def in_order_def serialize_one_def send_to_def example_answers_def Send_def
      script_worker_def script_process_def read_marked_def readWithTimeout_def Read_def ok_hex_def answered_worker_def
      response_of_def un_field_def str_of_def extractOp_def extractID_def new_request_defs ctx_cancelled_def
      resp_ok_def audit_in_def example_opts_def example_oe_def Let_def resolveResult_def known_reason_def
      submap_def add_row_def)

lemma rs_workers_compare:
  "Oracle opts \<noteq> OracleSemantic \<Longrightarrow>
     rs_workers (fold (compare_one P oe opts refLang tid encoded fns ffs hex) ls st) = rs_workers st"
  by (induction ls arbitrary: st) (simp_all add: compare_one_def split: option.split prod.split)

lemma answered_Send:
  "\<exists>r. snd (Send script_process id (NewDeserializeRequest ''t'' h) n (answered_worker lang [ok_data ''t'' m])) = Inr r \<and>
     RespStatus r = StatusOK \<and> RespData r = map (\<lambda>(k, v). (k, any_of v)) m"
  by (simp add: Send_def answered_worker_def script_process_def read_marked_def readWithTimeout_def Read_def ok_data_def
      response_of_def un_field_def str_of_def extractOp_def extractID_def new_request_defs data_of_def obj_of_def)

theorem deserialize_verdict_sound_witness:
  "\<exists>r r'. found (run_encoded script_process example_oe in_order example_opts ''go'' [''go'', ''rust''] [] ''t'' []
       example_answers) (''t'', ''go'', op_deserialize) = Some r \<and> Status r = StatusPass \<and>
     found (run_encoded script_process example_oe in_order example_opts ''go'' [''go'', ''rust''] [] ''t'' []
       example_answers) (''t'', ''rust'', op_deserialize) = Some r' \<and> Status r' = StatusFail"
proof -
  obtain st1 hex where run: "serialize_round script_process example_oe in_order example_opts ''go'' [''go'', ''rust'']
      ''t'' [] example_answers = (st1, hex)" by (metis surj_pair)
  note st1 = example_answers_serialized [OF run]
  define st2 where st2: "st2 = fold (compare_one script_process example_oe example_opts ''go'' ''t'' [] (field_names [])
      (float_fields []) hex) [''go'', ''rust''] st1"
  have ws: "rs_workers st2 = rs_workers st1"
    unfolding st2 by (rule rs_workers_compare) (simp add: example_opts_def)
  have q: "quote (oe_cmp example_oe) = id" by (simp add: example_oe_def)
  have "\<exists>r. found (run_encoded script_process example_oe in_order example_opts ''go'' [''go'', ''rust''] [] ''t'' []
      example_answers) (''t'', lang, op_deserialize) = Some r \<and> Status r = s"
    if "lang \<in> {''go'', ''rust''}"
      and "map_of (rs_workers st1) lang = Some (answered_worker lang [ok_data ''t'' m])"
      and "s = (if DataDiff (oe_cmp example_oe) [] (map (\<lambda>(k, v). (k, any_of v)) m) [] [] = [] then StatusPass else StatusFail)"
    for lang m s
  proof -
    have l: "lang \<in> set [''go'', ''rust'']" "lang \<in> fst ` set (rs_workers example_answers)"
      using that(1) by (auto simp: example_answers_def)
    obtain x where "snd (Send script_process id (NewDeserializeRequest ''t'' ''0a'') (TimeoutSec example_opts)
        (answered_worker lang [ok_data ''t'' m])) = Inr x" "RespStatus x = StatusOK"
      "RespData x = map (\<lambda>(k, v). (k, any_of v)) m"
      using answered_Send by blast
    with deserialize_verdict_sound [OF never_cancelled_script _ l run st2] that(2,3) show ?thesis
      by (auto simp: st1(1) ws q deserialize_judged_def known_reason_def submap_def example_opts_def pass_status_def
          fail_status_def field_names_def float_fields_def)
  qed
  from this [of "''go''" "[]" StatusPass] this [of "''rust''" "[(''x'', JStr ''1'')]" StatusFail]
  show ?thesis
    by (simp add: st1(2) DataDiff_def example_oe_def sorted_keys_def)
qed

text \<open>C18. The matrix round does not compare what a worker with a known failure decodes: once the destination
  answers OK the row says the case unexpectedly passed, whatever data came back, also when it differs
  from the case. The deserialize round compares first.\<close>

theorem matrix_known_failure_not_compared:
  assumes "index_str hex src \<noteq> []"
    and "send_to P oe (TimeoutSec opts) dst
      (NewDeserializeRequest (tid @ ''/matrix-'' @ arrow src dst) (index_str hex src)) st = (st1, Inr r)"
    and "RespStatus r = StatusOK" and "known_reason (KnownFails opts) dst tid = Some reason"
  shows "found (matrix_one P oe opts tid encoded fns ffs hex (src, dst) st) (tid, arrow src dst, op_matrix) =
      Some (mk_row tid (arrow src dst) op_matrix StatusXPass (xpassDetail reason))"
  using assms by (simp add: matrix_one_def Let_def resolveResult_def found_add_row)

lemma matrix_known_failure_not_compared_witness:
  "found (matrix_one script_process example_oe (example_opts\<lparr>KnownFails := [(''rust'', [(''t'', ''rounds'')])]\<rparr>) ''t''
       [(''n'', GStr ''1'')] [''n''] [] [(''go'', ''0a'')] (''go'', ''rust'')
       \<lparr>rs_workers = [(''rust'', script_worker ''rust'' [Line (JObj
            [(''id'', JStr (''t/matrix-'' @ arrow ''go'' ''rust'')), (''op'', JStr ''deserialize''), (''status'', JStr ''OK''),
             (''data'', JObj [(''n'', JStr ''0'')])])])],
         rs_rep = New [''go'', ''rust''] [''t''] ''table'', rs_panicked = False\<rparr>)
     (''t'', arrow ''go'' ''rust'', op_matrix) =
   Some (mk_row ''t'' (arrow ''go'' ''rust'') op_matrix StatusXPass (xpassDetail ''rounds''))"
  by (rule matrix_known_failure_not_compared)
    (simp add: send_to_def Send_def script_worker_def script_process_def read_marked_def readWithTimeout_def
      Read_def response_of_def un_field_def str_of_def extractOp_def extractID_def new_request_defs example_opts_def data_of_def obj_of_def
      known_reason_def submap_def arrow_def Let_def index_str_def)+

end
