(* ===== verification/SuiteFacts.thy ===== *)
theory SuiteFacts
  imports OrchFacts
begin

section \<open>Every case is reported, in any order\<close>

text \<open>
  Two properties of a whole run: no case of the suite is missing from the report, whatever binds,
  answers or fails; and the order in which the goroutines of a round happen to run does not show
  in the report.
\<close>

subsection \<open>Rows never disappear\<close>

text \<open>A report whose verdict its rows agree with: when the run counts as a success, no row found is
  a failure.\<close>

definition consistent :: "report \<Rightarrow> bool" where
  "consistent r \<longleftrightarrow> results_wf (Results r) \<and>
     (Success r \<longrightarrow> (\<forall>k x. find_result r k = Some x \<longrightarrow> \<not> is_failure x))"

lemma Success_Add: "Success (Add x r) \<longleftrightarrow> Success r \<and> \<not> is_failure x"
proof -
  have "row_key ` set (Failures (Add x r)) = {} \<longleftrightarrow> row_key ` set (Failures r) = {} \<and> \<not> is_failure x"
    by (auto simp: Failures_Add)
  then show ?thesis by (simp add: Success_def)
qed

lemma consistent_Add: "consistent r \<Longrightarrow> consistent (Add x r)"
  by (auto simp: consistent_def results_wf_Add Success_Add find_result_Add split: if_splits)

lemma consistent_New: "consistent (New ls ts f)"
  by (simp add: consistent_def find_result_New) (simp add: New_def results_wf_def)

lemma Add_fields [simp]: "TestIDs (Add x r) = TestIDs r" "OutputFmt (Add x r) = OutputFmt r"
  by (simp_all add: Add_def Let_def)

definition grows :: "'s run_state \<Rightarrow> 's run_state \<Rightarrow> bool" where
  "grows st st' \<longleftrightarrow> (\<forall>k. found st k \<noteq> None \<longrightarrow> found st' k \<noteq> None) \<and>
     fst ` set (rs_workers st') = fst ` set (rs_workers st) \<and>
     TestIDs (rs_rep st') = TestIDs (rs_rep st) \<and> OutputFmt (rs_rep st') = OutputFmt (rs_rep st) \<and>
     (consistent (rs_rep st) \<longrightarrow> consistent (rs_rep st'))"

named_theorems grows_rules \<open>steps that keep the rows of a report\<close>

lemma grows_refl [simp, grows_rules]: "grows st st"
  by (simp add: grows_def)

lemma grows_trans: "grows a b \<Longrightarrow> grows b c \<Longrightarrow> grows a c"
  by (simp add: grows_def)

lemma grows_add_row [grows_rules]: "grows a b \<Longrightarrow> grows a (add_row r b)"
  by (simp add: grows_def found_add_row) (simp add: add_row_def consistent_Add)

lemma grows_warn_if [grows_rules]: "grows a b \<Longrightarrow> grows a (warn_if c tid lang op d b)"
  by (simp add: warn_if_def warn_def grows_add_row)

lemma grows_update_worker:
  "map_of (rs_workers st) lang = Some w \<Longrightarrow> grows st (st\<lparr>rs_workers := AList.update lang w' (rs_workers st)\<rparr>)"
  by (force simp: grows_def dom_update dest: map_of_SomeD)

lemma grows_update_panicked:
  "map_of (rs_workers st) lang = Some w \<Longrightarrow>
     grows st (st\<lparr>rs_workers := AList.update lang w' (rs_workers st), rs_panicked := p\<rparr>)"
  using grows_update_worker [of st lang w w'] by (simp add: grows_def)

lemma grows_panicked [simp]: "grows st (st\<lparr>rs_panicked := p\<rparr>)"
  by (simp add: grows_def)

lemma grows_send_to: "send_to P oe n lang req st = (st', res) \<Longrightarrow> grows st st'"
  by (auto simp: send_to_def intro: grows_update_worker split: option.splits prod.splits)

lemma grows_fold [grows_rules]:
  assumes "\<And>x s. x \<in> set xs \<Longrightarrow> grows s (f x s)"
  shows "grows s (fold f xs s)"
  using assms by (induction xs arbitrary: s) (auto intro: grows_trans)

lemma grows_add_for [grows_rules]: "grows st (add_for xs f st)"
  unfolding add_for_def by (intro grows_rules)

lemma grows_markType [grows_rules]: "grows st (markType lang ty format s reason st)"
  unfolding markType_def by (intro grows_rules)

lemma grows_serialize_one: "grows (fst sh) (fst (serialize_one P oe opts refLang tid encoded lang sh))"
proof -
  obtain st hex where sh: "sh = (st, hex)" by (cases sh)
  obtain st1 res where s: "send_to P oe (TimeoutSec opts) lang (NewSerializeRequest tid encoded) st = (st1, res)"
    by (metis surj_pair)
  show ?thesis
    using grows_send_to [OF s]
    by (auto simp: serialize_one_def sh s Let_def intro!: grows_rules split: option.split prod.split)
qed

lemma grows_serialize_round:
  "serialize_round P oe sch opts refLang langs tid encoded st = (st1, hex) \<Longrightarrow> grows st st1"
proof -
  have "grows (fst sh) (fst (fold (serialize_one P oe opts refLang tid encoded) ls sh))" for ls and sh :: "'a run_state \<times> string gomap"
  proof (induction ls arbitrary: sh)
    case (Cons l ls)
    show ?case using grows_trans [OF grows_serialize_one Cons.IH] by simp
  qed simp
  from this [of "(st, [])"] show "serialize_round P oe sch opts refLang langs tid encoded st = (st1, hex) \<Longrightarrow> ?thesis"
    by (metis serialize_round_def fst_conv)
qed

lemma grows_compare_one [grows_rules]: "grows st (compare_one P oe opts refLang tid encoded fns ffs hex lang st)"
  by (auto simp: compare_one_def semanticSerializeDiff_def intro!: grows_rules
      split: option.split prod.splits sum.splits if_splits dest: grows_send_to)

lemma grows_deserialize_one [grows_rules]: "grows st (deserialize_one P oe opts tid encoded fns ffs refHex lang st)"
proof -
  obtain st1 res where s: "send_to P oe (TimeoutSec opts) lang (NewDeserializeRequest tid refHex) st = (st1, res)"
    by (metis surj_pair)
  show ?thesis
    using grows_send_to [OF s]
    by (auto simp: deserialize_one_def s Let_def intro!: grows_rules split: option.split prod.split)
qed

lemma grows_matrix_one: "grows st (matrix_one P oe opts tid encoded fns ffs hex sd st)"
proof -
  obtain src dst where sd: "sd = (src, dst)" by (cases sd)
  obtain st1 res where s: "send_to P oe (TimeoutSec opts) dst
      (NewDeserializeRequest (tid @ ''/matrix-'' @ arrow src dst) (index_str hex src)) st = (st1, res)"
    by (metis surj_pair)
  show ?thesis
    using grows_send_to [OF s]
    unfolding matrix_one_def sd prod.case Let_def s
    by (auto intro!: grows_rules split: prod.split sum.split)
qed

lemma grows_runMatrix [grows_rules]: "grows st (runMatrix P oe sch opts langs tid encoded fns ffs hex st)"
  unfolding runMatrix_def by (intro grows_rules grows_matrix_one)

lemma grows_run_encoded: "grows st (run_encoded P oe sch opts refLang langs schema tid encoded st)"
proof -
  obtain st1 hex where r: "serialize_round P oe sch opts refLang langs tid encoded st = (st1, hex)"
    by (metis surj_pair)
  let ?st2 = "fold (compare_one P oe opts refLang tid encoded (field_names schema) (float_fields schema) hex) langs st1"
  have "grows st ?st2"
    by (rule grows_trans [OF grows_serialize_round [OF r]]) (intro grows_rules)
  moreover have "grows ?st2 (run_encoded P oe sch opts refLang langs schema tid encoded st)"
  proof (cases "map_of hex refLang")
    case None
    then show ?thesis by (simp add: run_encoded_def r Let_def grows_add_for)
  next
    case (Some h)
    let ?st3 = "fold (deserialize_one P oe opts tid encoded (field_names schema) (float_fields schema) h)
      (round_order sch tid op_deserialize langs) ?st2"
    have "grows ?st2 ?st3" by (intro grows_rules)
    moreover have "grows ?st3 (run_encoded P oe sch opts refLang langs schema tid encoded st)"
      using Some by (simp add: run_encoded_def r Let_def grows_runMatrix)
    ultimately show ?thesis by (rule grows_trans)
  qed
  ultimately show ?thesis by (rule grows_trans)
qed

lemma grows_run_case: "grows (fst se) (fst (run_case P oe sch opts refLang langs schema tc se))"
  by (cases se) (auto simp: run_case_def intro!: grows_rules grows_run_encoded split: sum.split)

subsection \<open>Every case of every worker has its rows\<close>

lemma fold_establish:
  assumes "x \<in> set xs" and "I s" and "\<And>y s. I s \<Longrightarrow> I (f y s)" and "\<And>s. I s \<Longrightarrow> Q (f x s)"
    and "\<And>y s. Q s \<Longrightarrow> Q (f y s)"
  shows "Q (fold f xs s)"
proof -
  have keep: "Q s \<Longrightarrow> Q (fold f ys s)" for ys s
    by (induction ys arbitrary: s) (simp_all add: assms(5))
  from assms(1,2) show ?thesis
    by (induction xs arbitrary: s) (auto intro: keep assms(3,4))
qed

definition reported :: "'s run_state \<Rightarrow> string \<Rightarrow> string \<Rightarrow> bool" where
  "reported st tid lang \<longleftrightarrow>
     found st (tid, lang, op_serialize) \<noteq> None \<and> found st (tid, lang, op_deserialize) \<noteq> None"

lemma reported_grows: "reported st tid lang \<Longrightarrow> grows st st' \<Longrightarrow> reported st' tid lang"
  by (simp add: reported_def grows_def)

lemma compare_reported:
  assumes "distinct langs" and "lang \<in> set langs"
    and "\<And>l. l \<in> set langs \<Longrightarrow> ser_done opts refLang tid l (st, hex)"
  shows "found (fold (compare_one P oe opts refLang tid encoded fns ffs hex) langs st) (tid, lang, op_serialize) \<noteq> None"
proof (rule fold_each [where P = "\<lambda>l s. ser_done opts refLang tid l (s, hex)" and x = lang and
      Q = "\<lambda>l s. found s (tid, l, op_serialize) \<noteq> None"])
  fix x y :: string and s :: "'a run_state"
  assume "x \<noteq> y"
  then have "found (compare_one P oe opts refLang tid encoded fns ffs hex y s) (tid, x, op_serialize) =
      found s (tid, x, op_serialize)" by (simp add: compare_one_others)
  then show "ser_done opts refLang tid x (s, hex) \<Longrightarrow>
      ser_done opts refLang tid x (compare_one P oe opts refLang tid encoded fns ffs hex y s, hex)"
    and "found s (tid, x, op_serialize) \<noteq> None \<Longrightarrow>
      found (compare_one P oe opts refLang tid encoded fns ffs hex y s) (tid, x, op_serialize) \<noteq> None"
    by (simp_all only: ser_done_def fst_conv snd_conv not_False_eq_True)
next
  fix x and s :: "'a run_state"
  assume "ser_done opts refLang tid x (s, hex)"
  then show "found (compare_one P oe opts refLang tid encoded fns ffs hex x s) (tid, x, op_serialize) \<noteq> None"
    by (auto simp: ser_done_def compare_one_def found_add_row split: option.splits prod.split)
qed (use assms in auto)

lemma run_encoded_reported:
  assumes "never_cancelled P" and "distinct langs" and "lang \<in> set langs"
  shows "reported (run_encoded P oe sch opts refLang langs schema tid encoded st) tid lang"
proof -
  obtain st1 hex where r: "serialize_round P oe sch opts refLang langs tid encoded st = (st1, hex)"
    by (metis surj_pair)
  have "ser_done opts refLang tid l (st1, hex)" if "l \<in> set langs" for l
    using serialize_round_done [OF assms(1,2) that, of opts refLang tid oe sch encoded st] r by simp
  from compare_reported [OF assms(2,3) this]
  have "found (fold (compare_one P oe opts refLang tid encoded (field_names schema) (float_fields schema) hex)
      langs st1) (tid, lang, op_serialize) \<noteq> None" .
  moreover have "found (run_encoded P oe sch opts refLang langs schema tid encoded st) (tid, lang, op_serialize) =
      found (fold (compare_one P oe opts refLang tid encoded (field_names schema) (float_fields schema) hex)
        langs st1) (tid, lang, op_serialize)"
  proof -
    have d: "found (fold (deserialize_one P oe opts tid encoded fns ffs h) ls s) (tid, lang, op_serialize) =
        found s (tid, lang, op_serialize)" for fns ffs h ls and s :: "'a run_state"
      by (rule fold_keeps [where g = "\<lambda>s. found s (tid, lang, op_serialize)"]) (simp add: deserialize_one_others)
    show ?thesis
      by (simp add: run_encoded_def r Let_def d runMatrix_others add_for_others split: option.split)
  qed
  moreover have "found (run_encoded P oe sch opts refLang langs schema tid encoded st) (tid, lang, op_deserialize) \<noteq> None"
    using deserialize_row [OF assms(1-3) r refl, of schema] by auto
  ultimately show ?thesis by (simp add: reported_def)
qed

lemma add_for_reported:
  "reported (add_for [op_serialize, op_deserialize] (\<lambda>op. mk_row tid lang op s d) st) tid lang"
  by (simp add: reported_def add_for_def found_add_row)

lemma run_case_reported:
  assumes "never_cancelled P" and "distinct langs" and "lang \<in> set langs"
  shows "reported (fst (run_case P oe sch opts refLang langs schema tc se)) (tc_name tc) lang"
proof (cases "encodeCase (oe_go oe) tc schema")
  case (Inl e)
  have "reported (fold (\<lambda>lang. add_for [op_serialize, op_deserialize]
      (\<lambda>op. mk_row (tc_name tc) lang op StatusError (encode_error_text oe e))) langs st) (tc_name tc) lang" for st :: "'a run_state"
    by (rule fold_establish [where x = lang and I = "\<lambda>_. True"])
       (use assms(3) in \<open>auto intro: add_for_reported reported_grows [OF _ grows_add_for]\<close>)
  with Inl show ?thesis by (cases se) (simp add: run_case_def)
next
  case (Inr encoded)
  then show ?thesis by (cases se) (simp add: run_case_def run_encoded_reported [OF assms])
qed

lemma distinct_OrderedLangs: "distinct (OrderedLangs avail refLang)"
  by (simp add: OrderedLangs_def)

lemma set_OrderedLangs: "set (OrderedLangs avail refLang) = insert refLang (set avail)"
  by (auto simp: OrderedLangs_def)

lemma Run_reported:
  assumes "never_cancelled P" and "lang \<in> set avail" and "tc \<in> set (cf_cases cf)"
  shows "reported (fst (Run P oe sch opts cf avail st)) (tc_name tc) lang"
  unfolding Run_def
proof (rule fold_establish [where x = tc and I = "\<lambda>_. True" and Q = "\<lambda>se. reported (fst se) (tc_name tc) lang"])
  show "reported (fst (run_case P oe sch opts (cf_reference cf) (OrderedLangs avail (cf_reference cf))
      (cf_schema cf) tc se)) (tc_name tc) lang" for se
    using assms(2) by (intro run_case_reported [OF assms(1) distinct_OrderedLangs]) (simp add: set_OrderedLangs)
qed (use assms(3) in \<open>auto intro: reported_grows [OF _ grows_run_case]\<close>)

lemma grows_Run: "grows st (fst (Run P oe sch opts cf avail st))"
proof -
  have "grows (fst se) (fst (fold (run_case P oe sch opts r ls sc) cs se))" for r ls sc cs and se :: "'a run_state \<times> _"
  proof (induction cs arbitrary: se)
    case (Cons c cs)
    show ?case using grows_trans [OF grows_run_case Cons.IH] by simp
  qed simp
  from this [where se = "(st, None)"] show ?thesis by (simp add: Run_def)
qed

text \<open>All cases of a (type, format) are reported for one language.\<close>

definition type_reported :: "cases_file \<Rightarrow> string \<Rightarrow> string \<Rightarrow> 's run_state \<Rightarrow> bool" where
  "type_reported ty format lang st \<longleftrightarrow>
     (\<forall>tc \<in> set (cf_cases ty). reported st (TestIDFmt (cf_name ty) format (tc_name tc)) lang)"

lemma type_reported_grows: "type_reported ty format lang st \<Longrightarrow> grows st st' \<Longrightarrow> type_reported ty format lang st'"
  by (auto simp: type_reported_def intro: reported_grows)

lemma markType_reported: "type_reported ty format lang (markType lang ty format s reason st)"
  unfolding type_reported_def markType_def
proof
  fix tc assume tc: "tc \<in> set (cf_cases ty)"
  show "reported (fold (\<lambda>tc. add_for [op_serialize, op_deserialize]
      (\<lambda>op. mk_row (TestIDFmt (cf_name ty) format (tc_name tc)) lang op s reason)) (cf_cases ty) st)
      (TestIDFmt (cf_name ty) format (tc_name tc)) lang"
    by (rule fold_establish [where x = tc and I = "\<lambda>_. True"])
       (use tc in \<open>auto intro: add_for_reported reported_grows [OF _ grows_add_for]\<close>)
qed

lemma grows_bind_one: "grows (fst ss) (fst (bind_one P oe opts ty format l ss))"
proof -
  obtain st sub where ss: "ss = (st, sub)" by (cases ss)
  show ?thesis
    by (auto simp: bind_one_def ss Let_def markTypeSkipped_def markTypeErrored_def
        intro!: grows_trans [OF grows_update_panicked grows_markType] grows_trans [OF grows_update_worker grows_markType]
          grows_update_panicked grows_update_worker
        split: option.splits prod.splits sum.splits worker_error.splits)
qed

lemma bind_one_sub: "l \<in> set (snd ss) \<Longrightarrow> l \<in> set (snd (bind_one P oe opts ty format y ss))"
  by (cases ss) (auto simp: bind_one_def Let_def split: option.split prod.split sum.split worker_error.split)

lemma bind_one_reported:
  assumes "lang \<in> fst ` set (rs_workers (fst ss))"
  shows "lang \<in> set (snd (bind_one P oe opts ty format lang ss)) \<or>
    type_reported ty format lang (fst (bind_one P oe opts ty format lang ss))"
proof -
  obtain st sub where ss: "ss = (st, sub)" by (cases ss)
  from assms obtain w where "map_of (rs_workers st) lang = Some w"
    by (cases "map_of (rs_workers st) lang") (auto simp: ss map_of_eq_None_iff)
  then show ?thesis
    by (auto simp: bind_one_def ss Let_def markTypeSkipped_def markTypeErrored_def markType_reported
        split: prod.split sum.split worker_error.split)
qed

lemma bind_all_reported:
  assumes "lang \<in> set ls" and "lang \<in> fst ` set (rs_workers st)"
  shows "lang \<in> set (snd (fold (bind_one P oe opts ty format) ls (st, []))) \<or>
    type_reported ty format lang (fst (fold (bind_one P oe opts ty format) ls (st, [])))"
proof (rule fold_establish [where I = "\<lambda>ss. lang \<in> fst ` set (rs_workers (fst ss))" and x = lang and
      Q = "\<lambda>ss. lang \<in> set (snd ss) \<or> type_reported ty format lang (fst ss)"])
  fix y and ss :: "'a run_state \<times> string list"
  have g: "grows (fst ss) (fst (bind_one P oe opts ty format y ss))" by (rule grows_bind_one)
  show "lang \<in> fst ` set (rs_workers (fst ss)) \<Longrightarrow>
      lang \<in> fst ` set (rs_workers (fst (bind_one P oe opts ty format y ss)))"
    using g by (simp add: grows_def)
  show "lang \<in> set (snd ss) \<or> type_reported ty format lang (fst ss) \<Longrightarrow>
      lang \<in> set (snd (bind_one P oe opts ty format y ss)) \<or>
      type_reported ty format lang (fst (bind_one P oe opts ty format y ss))"
    using g bind_one_sub type_reported_grows by blast
  show "lang \<in> fst ` set (rs_workers (fst ss)) \<Longrightarrow>
      lang \<in> set (snd (bind_one P oe opts ty format lang ss)) \<or>
      type_reported ty format lang (fst (bind_one P oe opts ty format lang ss))"
    by (rule bind_one_reported)
qed (use assms in simp_all)

lemma grows_bind_all: "grows (fst ss) (fst (fold (bind_one P oe opts ty format) ls ss))"
proof (induction ls arbitrary: ss)
  case (Cons l ls)
  show ?case using grows_trans [OF grows_bind_one Cons.IH] by simp
qed simp

lemma grows_if_mark:
  "grows st (fold (\<lambda>lang st. if lang \<in> set sub then markTypeSkipped lang ty format r st else st) ls st)"
  by (intro grows_fold) (simp add: markTypeSkipped_def grows_markType)

lemma grows_runTypeFormat: "grows st (fst (runTypeFormat P oe sch opts refLang ty format st))"
proof -
  obtain st1 sub where b: "fold (bind_one P oe opts ty format) (map fst (rs_workers st)) (st, []) = (st1, sub)"
    by (metis surj_pair)
  have "grows st st1" using grows_bind_all [of "(st, [])"] b by (metis fst_conv)
  moreover have "grows st1 (fst (runTypeFormat P oe sch opts refLang ty format st))"
    by (simp add: runTypeFormat_def b grows_if_mark grows_Run split_beta)
  ultimately show ?thesis by (rule grows_trans)
qed

lemma runTypeFormat_reported:
  assumes "never_cancelled P" and "lang \<in> fst ` set (rs_workers st)"
  shows "type_reported ty format lang (fst (runTypeFormat P oe sch opts refLang ty format st))"
proof -
  obtain st1 sub where b: "fold (bind_one P oe opts ty format) (map fst (rs_workers st)) (st, []) = (st1, sub)"
    by (metis surj_pair)
  have bound: "lang \<in> set sub \<or> type_reported ty format lang st1"
    using bind_all_reported [of lang "map fst (rs_workers st)" st P oe opts ty format] assms(2) b by simp
  let ?out = "fst (runTypeFormat P oe sch opts refLang ty format st)"
  have g: "grows st1 ?out"
    by (simp add: runTypeFormat_def b grows_if_mark grows_Run split_beta)
  show ?thesis
  proof (cases "type_reported ty format lang st1")
    case True
    then show ?thesis using g by (rule type_reported_grows)
  next
    case False
    with bound have sub: "lang \<in> set sub" by simp
    show ?thesis
    proof (cases "refLang \<in> set sub")
      case True
      have "type_reported ty format lang (fst (Run P oe sch opts
          \<lparr>cf_name = [], cf_formats = [], cf_reference = refLang, cf_schema = cf_schema ty,
           cf_cases = namespacedCases ty format, cf_oracles = []\<rparr> sub st1))"
        unfolding type_reported_def
      proof
        fix tc assume "tc \<in> set (cf_cases ty)"
        then have "tc\<lparr>tc_name := TestIDFmt (cf_name ty) format (tc_name tc)\<rparr> \<in> set (namespacedCases ty format)"
          by (simp add: namespacedCases_def)
        from Run_reported [OF assms(1) sub, of _
            "\<lparr>cf_name = [], cf_formats = [], cf_reference = refLang, cf_schema = cf_schema ty,
             cf_cases = namespacedCases ty format, cf_oracles = []\<rparr>" oe sch opts st1] this
        show "reported (fst (Run P oe sch opts
          \<lparr>cf_name = [], cf_formats = [], cf_reference = refLang, cf_schema = cf_schema ty,
           cf_cases = namespacedCases ty format, cf_oracles = []\<rparr> sub st1))
          (TestIDFmt (cf_name ty) format (tc_name tc)) lang" by fastforce
      qed
      with True show ?thesis by (simp add: runTypeFormat_def b split_beta)
    next
      case False
      have "type_reported ty format lang
          (fold (\<lambda>lang st. if lang \<in> set sub then markTypeSkipped lang ty format SkipRefUnsupported st else st)
             (map fst (rs_workers st)) st1)"
      proof (rule fold_establish [where x = lang and I = "\<lambda>_. True"])
        show "type_reported ty format lang s \<Longrightarrow> type_reported ty format lang
            (if y \<in> set sub then markTypeSkipped y ty format SkipRefUnsupported s else s)"
          for y and s :: "'a run_state"
          by (erule type_reported_grows) (simp add: markTypeSkipped_def grows_markType)
      qed (use assms(2) sub in \<open>auto simp: markTypeSkipped_def markType_reported\<close>)
      with False show ?thesis by (simp add: runTypeFormat_def b)
    qed
  qed
qed

lemma case_is_reported:
  assumes "never_cancelled P"
    and "lang \<in> fst ` set (rs_workers st)"
    and "ty \<in> set (cs_types suite)" and "format \<in> set (cf_formats ty)" and "tc \<in> set (cf_cases ty)"
    and "op = op_serialize \<or> op = op_deserialize"
  shows "found (fst (RunSuite P oe sch opts suite st)) (TestIDFmt (cf_name ty) format (tc_name tc), lang, op) \<noteq> None"
proof -
  have step: "grows (fst se) (fst (run_type_format P oe sch opts r tf se))" for r tf and se :: "'a run_state \<times> _"
    by (cases tf; cases se) (simp add: run_type_format_def split_beta grows_runTypeFormat)
  have "type_reported ty format lang (fst (RunSuite P oe sch opts suite st))"
    unfolding RunSuite_def
  proof (rule fold_establish [where x = "(ty, format)" and I = "\<lambda>se. lang \<in> fst ` set (rs_workers (fst se))"
        and Q = "\<lambda>se. type_reported ty format lang (fst se)"])
    show "(ty, format) \<in> set (concat (map (\<lambda>ty. map (Pair ty) (cf_formats ty)) (cs_types suite)))"
      using assms(3,4) by auto
    show "lang \<in> fst ` set (rs_workers (fst se)) \<Longrightarrow>
        lang \<in> fst ` set (rs_workers (fst (run_type_format P oe sch opts (cs_reference suite) tf se)))"
      for tf and se :: "'a run_state \<times> _" using step [of se "cs_reference suite" tf] by (simp add: grows_def)
    show "lang \<in> fst ` set (rs_workers (fst se)) \<Longrightarrow>
        type_reported ty format lang (fst (run_type_format P oe sch opts (cs_reference suite) (ty, format) se))"
      for se :: "'a run_state \<times> _"
      by (cases se) (simp add: run_type_format_def split_beta runTypeFormat_reported [OF assms(1)])
    show "type_reported ty format lang (fst se) \<Longrightarrow>
        type_reported ty format lang (fst (run_type_format P oe sch opts (cs_reference suite) tf se))"
      for tf and se :: "'a run_state \<times> _" by (erule type_reported_grows) (rule step)
  qed (use assms(2) in simp)
  with assms(5,6) show ?thesis by (auto simp: type_reported_def reported_def)
qed

subsection \<open>No panic\<close>

text \<open>A step that dereferences only the workers of \<open>L\<close>: when they all exist it panics no more than before, and
  they still exist.\<close>

definition calm :: "string set \<Rightarrow> 's run_state \<Rightarrow> 's run_state \<Rightarrow> bool" where
  "calm L st st' \<longleftrightarrow> (L \<subseteq> fst ` set (rs_workers st) \<longrightarrow>
     rs_panicked st' = rs_panicked st \<and> L \<subseteq> fst ` set (rs_workers st'))"

named_theorems calm_rules \<open>steps that dereference only workers that exist\<close>

lemma calm_refl [simp, calm_rules]: "calm L st st"
  by (simp add: calm_def)

lemma calm_trans: "calm L a b \<Longrightarrow> calm L b c \<Longrightarrow> calm L a c"
  by (simp add: calm_def)

lemma calm_add_row [calm_rules]: "calm L a b \<Longrightarrow> calm L a (add_row r b)"
  by (simp add: calm_def) (simp add: add_row_def)

lemma calm_warn_if [calm_rules]: "calm L a b \<Longrightarrow> calm L a (warn_if c tid lang op d b)"
  by (simp add: warn_if_def warn_def calm_add_row)

lemma calm_fold [calm_rules]:
  assumes "\<And>x s. x \<in> set xs \<Longrightarrow> calm L s (f x s)"
  shows "calm L s (fold f xs s)"
  using assms by (induction xs arbitrary: s) (auto intro: calm_trans)

lemma calm_add_for [calm_rules]: "calm L st (add_for xs f st)"
  unfolding add_for_def by (intro calm_rules)

lemma calm_markType [calm_rules]: "calm L st (markType lang ty format s reason st)"
  unfolding markType_def by (intro calm_rules)

lemma calm_send_to:
  assumes "send_to P oe n lang req st = (st', res)" and "lang \<in> L"
  shows "calm L st st'"
proof (cases "map_of (rs_workers st) lang")
  case None
  with assms(2) show ?thesis by (auto simp: calm_def map_of_eq_None_iff)
next
  case (Some w)
  then show ?thesis using assms(1)
    by (auto simp: calm_def send_to_def dom_update split: prod.splits)
qed

lemma calm_serialize_round:
  assumes "set langs \<subseteq> L" and "serialize_round P oe sch opts refLang langs tid encoded st = (st1, hex)"
  shows "calm L st st1"
proof -
  have one: "calm L (fst sh) (fst (serialize_one P oe opts refLang tid encoded l sh))" if "l \<in> L"
    for l and sh :: "'a run_state \<times> string gomap"
  proof -
    obtain st hex where sh: "sh = (st, hex)" by (cases sh)
    obtain st2 res where s: "send_to P oe (TimeoutSec opts) l (NewSerializeRequest tid encoded) st = (st2, res)"
      by (metis surj_pair)
    show ?thesis
      using calm_send_to [OF s that]
      by (auto simp: serialize_one_def sh s Let_def intro!: calm_rules split: option.split prod.split)
  qed
  have "calm L (fst sh) (fst (fold (serialize_one P oe opts refLang tid encoded) ls sh))" if "set ls \<subseteq> L"
    for ls and sh :: "'a run_state \<times> string gomap"
    using that
  proof (induction ls arbitrary: sh)
    case (Cons l ls)
    then show ?case using calm_trans [OF one [of l sh] Cons.IH] by simp
  qed simp
  from this [of "round_order sch tid op_serialize langs" "(st, [])"] assms show ?thesis
    by (simp add: serialize_round_def)
qed

lemma calm_compare_one: "refLang \<in> L \<Longrightarrow> calm L st (compare_one P oe opts refLang tid encoded fns ffs hex lang st)"
  by (auto simp: compare_one_def semanticSerializeDiff_def intro!: calm_rules
      split: option.split prod.splits sum.splits if_splits dest: calm_send_to)

lemma calm_deserialize_one: "lang \<in> L \<Longrightarrow> calm L st (deserialize_one P oe opts tid encoded fns ffs refHex lang st)"
proof -
  assume l: "lang \<in> L"
  obtain st1 res where s: "send_to P oe (TimeoutSec opts) lang (NewDeserializeRequest tid refHex) st = (st1, res)"
    by (metis surj_pair)
  show ?thesis
    using calm_send_to [OF s l]
    by (auto simp: deserialize_one_def s Let_def intro!: calm_rules split: option.split prod.split)
qed

lemma calm_matrix_one: "snd sd \<in> L \<Longrightarrow> calm L st (matrix_one P oe opts tid encoded fns ffs hex sd st)"
proof -
  assume l: "snd sd \<in> L"
  obtain src dst where sd: "sd = (src, dst)" by (cases sd)
  obtain st1 res where s: "send_to P oe (TimeoutSec opts) dst
      (NewDeserializeRequest (tid @ ''/matrix-'' @ arrow src dst) (index_str hex src)) st = (st1, res)"
    by (metis surj_pair)
  show ?thesis
    using calm_send_to [OF s] l
    unfolding matrix_one_def sd prod.case Let_def s
    by (auto intro!: calm_rules split: prod.split sum.split)
qed

lemma calm_run_encoded:
  assumes "set langs \<subseteq> L" and "refLang \<in> L"
  shows "calm L st (run_encoded P oe sch opts refLang langs schema tid encoded st)"
proof -
  obtain st1 hex where r: "serialize_round P oe sch opts refLang langs tid encoded st = (st1, hex)"
    by (metis surj_pair)
  let ?c = "compare_one P oe opts refLang tid encoded (field_names schema) (float_fields schema) hex"
  have 1: "calm L st (fold ?c langs st1)"
    by (rule calm_trans [OF calm_serialize_round [OF assms(1) r]]) (intro calm_fold calm_compare_one assms(2))
  show ?thesis
  proof (cases "map_of hex refLang")
    case None
    with 1 show ?thesis by (simp add: run_encoded_def r Let_def calm_trans [OF _ calm_add_for])
  next
    case (Some h)
    let ?d = "deserialize_one P oe opts tid encoded (field_names schema) (float_fields schema) h"
    have 2: "calm L st (fold ?d (round_order sch tid op_deserialize langs) (fold ?c langs st1))"
      using assms(1) by (intro calm_trans [OF 1] calm_fold calm_deserialize_one) auto
    have 3: "calm L s (runMatrix P oe sch opts langs tid encoded (field_names schema) (float_fields schema) hex s)" for s
      unfolding runMatrix_def using assms(1) by (intro calm_fold calm_matrix_one) auto
    show ?thesis using 2 calm_trans [OF 2 3] Some by (simp add: run_encoded_def r Let_def)
  qed
qed

lemma calm_Run:
  assumes "set avail \<subseteq> L" and "cf_reference cf \<in> L"
  shows "calm L st (fst (Run P oe sch opts cf avail st))"
proof -
  have langs: "set (OrderedLangs avail (cf_reference cf)) \<subseteq> L" using assms by (auto simp: set_OrderedLangs)
  have one: "calm L (fst se) (fst (run_case P oe sch opts (cf_reference cf) (OrderedLangs avail (cf_reference cf))
      (cf_schema cf) tc se))" for tc and se :: "'a run_state \<times> _"
    by (cases se) (auto simp: run_case_def intro!: calm_rules calm_run_encoded [OF langs assms(2)] split: sum.split)
  have "calm L (fst se) (fst (fold (run_case P oe sch opts (cf_reference cf) (OrderedLangs avail (cf_reference cf))
      (cf_schema cf)) cs se))" for cs and se :: "'a run_state \<times> _"
  proof (induction cs arbitrary: se)
    case (Cons c cs)
    show ?case using calm_trans [OF one Cons.IH] by simp
  qed simp
  from this [where se = "(st, None)"] show ?thesis by (simp add: Run_def)
qed

text \<open>The nil dereference of \<open>Bind\<close> is the one of \<open>SchemaFields\<close>: no answer of a worker is one.\<close>

lemma Bind_no_panic:
  assumes "SchemaFields schema = Inr sfs" and "Bind P q schema ty fmt n audit w = (w', res)"
  shows "res \<noteq> Inl WPanic"
proof -
  have r: "snd (readWithTimeout P op i n w) \<noteq> Inl WPanic" for op i n and w :: "'a worker"
    by (auto simp: readWithTimeout_def Read_def rbind_def map_err_def split: prod.split read_event.split sum.split)
  have m: "snd (read_marked P q op i n w) \<noteq> Inl WPanic" for op i n and w :: "'a worker"
    using r [of op i n w] by (cases "readWithTimeout P op i n w") (auto simp: read_marked_def split: sum.split)
  have v: "bind_verdict resp \<noteq> Inl WPanic" for resp
    by (simp add: bind_verdict_def)
  show ?thesis using assms m v
    by (auto simp: Bind_def split: if_splits option.splits prod.splits sum.splits) (metis snd_conv)+
qed

lemma calm_bind_one:
  assumes "SchemaFields (cf_schema ty) = Inr sfs"
  shows "calm L (fst ss) (fst (bind_one P oe opts ty format l ss))"
proof -
  obtain st sub where ss: "ss = (st, sub)" by (cases ss)
  show ?thesis
  proof (cases "map_of (rs_workers st) l")
    case None
    then show ?thesis by (simp add: bind_one_def ss)
  next
    case (Some w)
    obtain w' res where b: "Bind P (quote (oe_cmp oe)) (cf_schema ty) (cf_name ty) format (TimeoutSec opts) (Audit opts) w = (w', res)"
      by (metis surj_pair)
    let ?st1 = "st\<lparr>rs_workers := AList.update l w' (rs_workers st)\<rparr>"
    have 1: "calm L st ?st1" by (auto simp: calm_def dom_update)
    have 2: "calm L ?st1 (markTypeSkipped l ty format why ?st1)" "calm L ?st1 (markTypeErrored l ty format why ?st1)" for why
      by (simp_all add: markTypeSkipped_def markTypeErrored_def calm_markType)
    from Bind_no_panic [OF assms b] show ?thesis
      using 1 calm_trans [OF 1 2(1)] calm_trans [OF 1 2(2)]
      by (simp add: bind_one_def ss Some b Let_def split: sum.split worker_error.split)
  qed
qed

lemma bound_languages: "set (snd (fold (bind_one P oe opts ty format) ls ss)) \<subseteq> set (snd ss) \<union> set ls"
proof (induction ls arbitrary: ss)
  case (Cons l ls)
  have "set (snd (bind_one P oe opts ty format l ss)) \<subseteq> insert l (set (snd ss))"
    by (cases ss) (auto simp: bind_one_def Let_def split: option.split prod.split sum.split worker_error.split)
  with Cons.IH [of "bind_one P oe opts ty format l ss"] show ?case by auto
qed simp

lemma calm_runTypeFormat:
  assumes "SchemaFields (cf_schema ty) = Inr sfs"
  shows "calm (fst ` set (rs_workers st)) st (fst (runTypeFormat P oe sch opts refLang ty format st))"
proof -
  let ?L = "fst ` set (rs_workers st)"
  obtain st1 sub where b: "fold (bind_one P oe opts ty format) (map fst (rs_workers st)) (st, []) = (st1, sub)"
    by (metis surj_pair)
  have "calm ?L (fst ss) (fst (fold (bind_one P oe opts ty format) ls ss))" for ls and ss :: "'a run_state \<times> string list"
  proof (induction ls arbitrary: ss)
    case (Cons l ls)
    show ?case using calm_trans [OF calm_bind_one [OF assms] Cons.IH] by simp
  qed simp
  from this [of "(st, [])"] b have 1: "calm ?L st st1" by (metis fst_conv)
  have sub: "set sub \<subseteq> ?L" using bound_languages [of P oe opts ty format "map fst (rs_workers st)" "(st, [])"] b by simp
  have mark: "calm ?L st1 (fold (\<lambda>lang st. if lang \<in> set sub then markTypeSkipped lang ty format r st else st) ls st1)" for r ls
    by (intro calm_fold) (simp add: markTypeSkipped_def calm_markType)
  have run: "calm ?L st1 (fst (Run P oe sch opts
        \<lparr>cf_name = [], cf_formats = [], cf_reference = refLang, cf_schema = cf_schema ty,
         cf_cases = namespacedCases ty format, cf_oracles = []\<rparr> sub st1))" if "refLang \<in> set sub"
    using sub that by (intro calm_Run) auto
  show ?thesis using calm_trans [OF 1 mark] calm_trans [OF 1 run]
    by (simp add: runTypeFormat_def b split_beta)
qed

text \<open>No run dereferences nil. Whatever the workers answer, \<open>RunSuite\<close> on types whose schemas can be put into a
  bind message reaches no nil worker and no nil type.\<close>

lemma RunSuite_no_panic:
  assumes "\<forall>ty \<in> set (cs_types suite). \<exists>sfs. SchemaFields (cf_schema ty) = Inr sfs"
  shows "rs_panicked (fst (RunSuite P oe sch opts suite st)) = rs_panicked st"
proof -
  have step: "rs_panicked (fst (run_type_format P oe sch opts r tf se)) = rs_panicked (fst se)"
    if "fst tf \<in> set (cs_types suite)" for r tf and se :: "'a run_state \<times> _"
  proof -
    obtain ty format where tf: "tf = (ty, format)" by (cases tf)
    obtain s e where se: "se = (s, e)" by (cases se)
    from assms that tf obtain sfs where "SchemaFields (cf_schema ty) = Inr sfs" by auto
    from calm_runTypeFormat [OF this, of s P oe sch "opts\<lparr>Oracle := OracleFor ty format\<rparr>" r format]
    show ?thesis by (simp add: calm_def run_type_format_def tf se split_beta)
  qed
  have "rs_panicked (fst (fold (run_type_format P oe sch opts r) tfs se)) = rs_panicked (fst se)"
    if "\<forall>tf \<in> set tfs. fst tf \<in> set (cs_types suite)" for r tfs and se :: "'a run_state \<times> _"
    using that
  proof (induction tfs arbitrary: se)
    case (Cons tf tfs)
    then show ?case using step [of tf r se] by simp
  qed simp
  from this [of "concat (map (\<lambda>ty. map (Pair ty) (cf_formats ty)) (cs_types suite))" "cs_reference suite" "(st, None)"]
  show ?thesis by (auto simp: RunSuite_def)
qed

subsection \<open>No case goes missing\<close>

text \<open>C3. No case goes missing. After \<open>RunSuite\<close> (not cancelled), the report has a serialize and a
  deserialize row for every case of every type, in each of its formats, and every worker,
  whatever happened on the way: a bind refused or failed, the reference unable to serialize or not
  supporting the type, data that could not be encoded, timeouts, dead workers.\<close>

theorem every_case_is_reported:
  assumes "never_cancelled P"
    and "lang \<in> fst ` set (rs_workers st)"
    and "ty \<in> set (cs_types suite)" and "format \<in> set (cf_formats ty)" and "tc \<in> set (cf_cases ty)"
    and "op = op_serialize \<or> op = op_deserialize"
  shows "found (fst (RunSuite P oe sch opts suite st)) (TestIDFmt (cf_name ty) format (tc_name tc), lang, op) \<noteq> None"
  by (rule case_is_reported [OF assms])

theorem every_case_is_reported_witness:
  "found (fst (RunSuite script_process example_oe in_order example_opts
     \<lparr>cs_reference = ''go'', cs_types = [\<lparr>cf_name = ''user'', cf_formats = [''bin''], cf_reference = [],
        cf_schema = [Fld ''id'' (base_ft k_bool) []],
        cf_cases = [\<lparr>tc_name = ''one'', tc_description = [], tc_data = [(''id'', GBool True)]\<rparr>],
        cf_oracles = [(''bin'', OracleBytes)]\<rparr>]\<rparr> example_state))
     (TestIDFmt ''user'' ''bin'' ''one'', ''rust'', op_deserialize) \<noteq> None"
  using every_case_is_reported [where P = script_process and sch = in_order and lang = "''rust''" and
      st = example_state and op = op_deserialize and format = "''bin''" and
      ty = "\<lparr>cf_name = ''user'', cf_formats = [''bin''], cf_reference = [],
        cf_schema = [Fld ''id'' (base_ft k_bool) []],
        cf_cases = [\<lparr>tc_name = ''one'', tc_description = [], tc_data = [(''id'', GBool True)]\<rparr>],
        cf_oracles = [(''bin'', OracleBytes)]\<rparr>" and
      tc = "\<lparr>tc_name = ''one'', tc_description = [], tc_data = [(''id'', GBool True)]\<rparr>"]
  by (simp add: never_cancelled_script example_state_def)

end
