(* ===== verification/Schedules.thy ===== *)
theory Schedules
  imports SuiteFacts
begin

section \<open>The order of the goroutines does not show\<close>

text \<open>
  What can be observed of a run: the workers, the row of every key, and the set of failures. A
  goroutine's effect on it depends only on its own worker, so two goroutines commute
  (locale \<open>observed_steps\<close>), and a round gives the same observation in every order.
\<close>

subsection \<open>Observations\<close>

type_synonym 's obs = "(string \<Rightarrow> 's worker option) \<times> (key \<Rightarrow> row option) \<times> row set"

definition obs :: "'s run_state \<Rightarrow> 's obs" where
  "obs st = (map_of (rs_workers st), found st, set (Failures (rs_rep st)))"

definition obs_row :: "row \<Rightarrow> 's obs \<Rightarrow> 's obs" where
  "obs_row r = (\<lambda>(W, F, E). (W, F(row_key r \<mapsto> r),
     if is_failure r \<and> row_key r \<notin> row_key ` E then insert r E else E))"

definition obs_rows :: "row list \<Rightarrow> 's obs \<Rightarrow> 's obs" where
  "obs_rows rs = fold obs_row rs"

lemma obs_add_row: "obs (add_row r st) = obs_row r (obs st)"
  by (auto simp: obs_def obs_row_def found_add_row) (auto simp: add_row_def Failures_Add)

text \<open>One exchange with a worker of the map.\<close>

definition exchange ::
  "'s process \<Rightarrow> orch_env \<Rightarrow> int \<Rightarrow> request \<Rightarrow> 's worker option \<Rightarrow> 's worker option \<times> (worker_error + response)" where
  "exchange P oe n req w =
     (case w of None \<Rightarrow> (None, Inl WPanic)
      | Some w \<Rightarrow> (case Send P (quote (oe_cmp oe)) req n w of (w', res) \<Rightarrow> (Some w', res)))"

definition obs_worker :: "string \<Rightarrow> 's worker option \<Rightarrow> 's obs \<Rightarrow> 's obs" where
  "obs_worker l w = (\<lambda>(W, F, E). (W(l := w), F, E))"

lemma send_to_exchange:
  assumes "send_to P oe n lang req st = (st', res)"
  shows "\<exists>w'. exchange P oe n req (map_of (rs_workers st) lang) = (w', res) \<and>
    obs st' = obs_worker lang w' (obs st) \<and> map_of (rs_workers st') lang = w'"
  using assms
  by (auto simp: send_to_def exchange_def obs_def obs_worker_def map_of_update split: option.splits prod.splits)

lemma fst_obs [simp]: "fst (obs st) = map_of (rs_workers st)"
  by (simp add: obs_def)

definition cancelled_in :: "'s process \<Rightarrow> 's worker option \<Rightarrow> bool" where
  "cancelled_in P w = (case w of None \<Rightarrow> False | Some w \<Rightarrow> pr_ctx_done P (w_proc w))"

lemma ctx_cancelled_in: "ctx_cancelled P lang st = cancelled_in P (map_of (rs_workers st) lang)"
  by (simp add: ctx_cancelled_def cancelled_in_def)

subsection \<open>Commuting steps\<close>

text \<open>Steps seen through an observation on which they commute.\<close>

locale observed_steps =
  fixes step :: "'a \<Rightarrow> 's \<Rightarrow> 's" and ob :: "'s \<Rightarrow> 'o" and ostep :: "'a \<Rightarrow> 'o \<Rightarrow> 'o"
  assumes observed: "ob (step x s) = ostep x (ob s)"
    and commute: "ostep x (ostep y v) = ostep y (ostep x v)"
begin

lemma observed_fold: "ob (fold step xs s) = fold ostep xs (ob s)"
  by (induction xs arbitrary: s) (simp_all add: observed)

lemma order_irrelevant:
  assumes "mset xs = mset ys" and "ob s = ob s'"
  shows "ob (fold step xs s) = ob (fold step ys s')"
proof -
  have "fold ostep xs = fold ostep ys"
    by (rule fold_multiset_equiv) (use assms(1) commute in \<open>auto simp: fun_eq_iff\<close>)
  then show ?thesis by (simp add: observed_fold assms(2))
qed

end

text \<open>A goroutine of one language: an exchange with its own worker, then rows of its own keys and
  perhaps its own entry in a map, both decided by the answer.\<close>

definition obs_step ::
  "'s process \<Rightarrow> orch_env \<Rightarrow> int \<Rightarrow> request \<Rightarrow> (string \<Rightarrow> worker_error + response \<Rightarrow> row list)
    \<Rightarrow> (string \<Rightarrow> worker_error + response \<Rightarrow> string option) \<Rightarrow> string
    \<Rightarrow> 's obs \<times> (string \<Rightarrow> string option) \<Rightarrow> 's obs \<times> (string \<Rightarrow> string option)" where
  "obs_step P oe n req rows entry l = (\<lambda>(v, H).
     case exchange P oe n req (fst v l) of (w', res) \<Rightarrow>
     if cancelled_in P w' then (obs_worker l w' v, H)
     else (obs_rows (rows l res) (obs_worker l w' v),
           case entry l res of None \<Rightarrow> H | Some h \<Rightarrow> H(l \<mapsto> h)))"

lemma obs_row_worker: "obs_row r (obs_worker l w v) = obs_worker l w (obs_row r v)"
  by (auto simp: obs_row_def obs_worker_def split: prod.split)

lemma obs_rows_worker: "obs_rows rs (obs_worker l w v) = obs_worker l w (obs_rows rs v)"
  unfolding obs_rows_def by (induction rs arbitrary: v) (simp_all add: obs_row_worker)

lemma fst_obs_rows: "fst (obs_rows rs v) = fst v"
  unfolding obs_rows_def by (induction rs arbitrary: v) (auto simp: obs_row_def split: prod.split)

lemma obs_worker_twice: "x \<noteq> y \<Longrightarrow> obs_worker x w (obs_worker y w' v) = obs_worker y w' (obs_worker x w v)"
  by (auto simp: obs_worker_def fun_upd_twist split: prod.split)

lemma obs_row_twice: "row_key r \<noteq> row_key r' \<Longrightarrow> obs_row r (obs_row r' v) = obs_row r' (obs_row r v)"
  by (auto simp: obs_row_def fun_upd_twist split: prod.split)

lemma obs_rows_row:
  "(\<And>x. x \<in> set rs \<Longrightarrow> row_key x \<noteq> row_key r) \<Longrightarrow> obs_rows rs (obs_row r v) = obs_row r (obs_rows rs v)"
proof (induction rs arbitrary: v)
  case (Cons a rs)
  have "obs_row a (obs_row r v) = obs_row r (obs_row a v)" by (rule obs_row_twice) (use Cons.prems in auto)
  with Cons show ?case by (simp add: obs_rows_def)
qed (simp add: obs_rows_def)

lemma obs_rows_twice:
  "(\<And>x y. x \<in> set rs \<Longrightarrow> y \<in> set rs' \<Longrightarrow> row_key x \<noteq> row_key y) \<Longrightarrow>
     obs_rows rs (obs_rows rs' v) = obs_rows rs' (obs_rows rs v)"
proof (induction rs' arbitrary: v)
  case (Cons r rs')
  have "obs_rows rs (obs_row r v) = obs_row r (obs_rows rs v)" by (rule obs_rows_row) (use Cons.prems in auto)
  with Cons show ?case by (simp add: obs_rows_def)
qed (simp add: obs_rows_def)

lemma obs_step_commute:
  assumes own: "\<And>l res r. r \<in> set (rows l res) \<Longrightarrow> Language r = l"
  shows "obs_step P oe n req rows entry x (obs_step P oe n req rows entry y v) =
    obs_step P oe n req rows entry y (obs_step P oe n req rows entry x v)"
proof (cases "x = y")
  case False
  have keys: "row_key a \<noteq> row_key b" if "a \<in> set (rows x r)" "b \<in> set (rows y r')" for a b r r'
    using own [OF that(1)] own [OF that(2)] False by (auto simp: row_key_def)
  obtain u H where v: "v = (u, H)" by (cases v)
  obtain wx rx where ex: "exchange P oe n req (fst u x) = (wx, rx)" by (metis surj_pair)
  obtain wy ry where ey: "exchange P oe n req (fst u y) = (wy, ry)" by (metis surj_pair)
  have f: "fst (obs_worker l w u') l' = (if l' = l then w else fst u' l')" for l l' w and u' :: "'a obs"
    by (cases u') (simp add: obs_worker_def)
  have rows: "obs_rows (rows x rx) (obs_rows (rows y ry) u) = obs_rows (rows y ry) (obs_rows (rows x rx) u)"
    by (rule obs_rows_twice [OF keys])
  show ?thesis
    using False
    by (simp add: obs_step_def v ex ey f fst_obs_rows obs_worker_twice [OF False]
        obs_rows_worker rows fun_upd_twist split: option.split)
qed simp

subsection \<open>The two rounds\<close>

definition warn_rows :: "bool \<Rightarrow> string \<Rightarrow> string \<Rightarrow> string \<Rightarrow> string \<Rightarrow> row list" where
  "warn_rows c tid lang op detail = (if c then [mk_row tid lang op StatusWarn detail] else [])"

lemma obs_warn_if: "obs (warn_if c tid lang op d st) = obs_rows (warn_rows c tid lang op d) (obs st)"
  by (simp add: warn_if_def warn_def warn_rows_def obs_rows_def obs_add_row)

lemma obs_rows_append: "obs_rows (a @ b) v = obs_rows b (obs_rows a v)"
  by (simp add: obs_rows_def)

lemma obs_rows_single: "obs_rows [r] v = obs_row r v"
  by (simp add: obs_rows_def)

definition ser_rows ::
  "orch_env \<Rightarrow> options \<Rightarrow> string \<Rightarrow> string \<Rightarrow> string \<Rightarrow> worker_error + response \<Rightarrow> row list" where
  "ser_rows oe opts refLang tid lang res =
     (case audit_in opts res of None \<Rightarrow> []
      | Some a \<Rightarrow>
          warn_rows (Mutations a \<noteq> []) tid lang op_audit_mutation (''mutated fields: '' @ join '', '' (Mutations a)) @
          warn_rows (Stable a = Some False) tid lang op_audit_stability
            ''serializer produced different output on repeat call'' @
          warn_rows (OutputZeroCopyFields a \<noteq> []) tid lang op_audit_output_zero_copy
            (''output aliases model fields: '' @ join '', '' (OutputZeroCopyFields a))) @
     (if resp_ok res \<and> lang \<noteq> refLang then []
      else case resolveResult oe lang tid res (KnownFails opts) of
             (status, detail) \<Rightarrow> [mk_row tid lang op_serialize status detail])"

definition ser_entry :: "string \<Rightarrow> worker_error + response \<Rightarrow> string option" where
  "ser_entry l res = (case res of Inl _ \<Rightarrow> None | Inr r \<Rightarrow> if resp_ok res then Some (RespHex r) else None)"

definition obs_hex :: "'s run_state \<times> string gomap \<Rightarrow> 's obs \<times> (string \<Rightarrow> string option)" where
  "obs_hex sh = (obs (fst sh), map_of (snd sh))"

definition des_rows ::
  "orch_env \<Rightarrow> options \<Rightarrow> string \<Rightarrow> gval gomap \<Rightarrow> string list \<Rightarrow> string list \<Rightarrow> string
    \<Rightarrow> worker_error + response \<Rightarrow> row list" where
  "des_rows oe opts tid encoded fns ffs lang res =
     (case (case res of
              Inr r \<Rightarrow>
                if RespStatus r = StatusOK then
                  verdict (DataDiff (oe_cmp oe) encoded (RespData r) fns ffs) (known_reason (KnownFails opts) lang tid)
                else resolveResult oe lang tid res (KnownFails opts)
            | Inl e \<Rightarrow> resolveResult oe lang tid res (KnownFails opts)) of
        (status, detail) \<Rightarrow> [mk_row tid lang op_deserialize status detail]) @
     (case audit_in opts res of None \<Rightarrow> []
      | Some a \<Rightarrow>
          warn_rows (ZeroCopyFields a \<noteq> []) tid lang op_audit_zero_copy
            (''zero-copy fields: '' @ join '', '' (ZeroCopyFields a)) @
          warn_rows (InputMutated a) tid lang op_audit_input_mut ''deserializer modified input buffer'' @
          warn_rows (DeserStable a = Some False) tid lang op_audit_deser_stability
            ''deserializer produced different result on repeat call'')"

definition obs_plain :: "'s run_state \<Rightarrow> 's obs \<times> (string \<Rightarrow> string option)" where
  "obs_plain st = (obs st, (\<lambda>_. None))"

lemma own_ser_rows: "r \<in> set (ser_rows oe opts refLang tid l res) \<Longrightarrow> Language r = l"
  by (auto simp: ser_rows_def warn_rows_def mk_row_def split: option.splits prod.splits if_splits)

lemma own_des_rows: "r \<in> set (des_rows oe opts tid encoded fns ffs l res) \<Longrightarrow> Language r = l"
  by (auto simp: des_rows_def warn_rows_def mk_row_def split: option.splits prod.splits if_splits)

lemma obs_serialize_one:
  "obs_hex (serialize_one P oe opts refLang tid encoded l sh) =
     obs_step P oe (TimeoutSec opts) (NewSerializeRequest tid encoded) (ser_rows oe opts refLang tid) ser_entry l (obs_hex sh)"
proof -
  obtain st hex where sh: "sh = (st, hex)" by (cases sh)
  obtain st1 res where s: "send_to P oe (TimeoutSec opts) l (NewSerializeRequest tid encoded) st = (st1, res)"
    by (metis surj_pair)
  from send_to_exchange [OF s] obtain w' where
    e: "exchange P oe (TimeoutSec opts) (NewSerializeRequest tid encoded) (map_of (rs_workers st) l) = (w', res)"
    and o: "obs st1 = obs_worker l w' (obs st)" and w: "map_of (rs_workers st1) l = w'" by blast
  obtain status detail where r: "resolveResult oe l tid res (KnownFails opts) = (status, detail)"
    by (metis surj_pair)
  have hex: "map_of (case res of Inl _ \<Rightarrow> hex | Inr x \<Rightarrow> if resp_ok res then AList.update l (RespHex x) hex else hex) =
      (case ser_entry l res of None \<Rightarrow> map_of hex | Some h \<Rightarrow> (map_of hex)(l \<mapsto> h))"
    by (auto simp: ser_entry_def map_of_update split: sum.split)
  show ?thesis
    unfolding serialize_one_def sh prod.case s Let_def obs_hex_def obs_step_def fst_conv snd_conv fst_obs e r
    by (cases "audit_in opts res")
       (simp_all add: ctx_cancelled_in w o hex ser_rows_def r obs_warn_if obs_add_row obs_rows_append
          obs_rows_single, simp_all add: obs_rows_def)
qed

lemma obs_deserialize_one:
  "obs_plain (deserialize_one P oe opts tid encoded fns ffs refHex l st) =
     obs_step P oe (TimeoutSec opts) (NewDeserializeRequest tid refHex) (des_rows oe opts tid encoded fns ffs)
       (\<lambda>_ _. None) l (obs_plain st)"
proof -
  obtain st1 res where s: "send_to P oe (TimeoutSec opts) l (NewDeserializeRequest tid refHex) st = (st1, res)"
    by (metis surj_pair)
  from send_to_exchange [OF s] obtain w' where
    e: "exchange P oe (TimeoutSec opts) (NewDeserializeRequest tid refHex) (map_of (rs_workers st) l) = (w', res)"
    and o: "obs st1 = obs_worker l w' (obs st)" and w: "map_of (rs_workers st1) l = w'" by blast
  define sd where "sd = (case res of
      Inr r \<Rightarrow> if RespStatus r = StatusOK then verdict (DataDiff (oe_cmp oe) encoded (RespData r) fns ffs)
                    (known_reason (KnownFails opts) l tid)
              else resolveResult oe l tid res (KnownFails opts)
    | Inl e \<Rightarrow> resolveResult oe l tid res (KnownFails opts))"
  obtain status detail where r: "sd = (status, detail)" by (cases sd)
  show ?thesis
    unfolding deserialize_one_def s prod.case Let_def obs_plain_def obs_step_def fst_conv snd_conv fst_obs e
      des_rows_def sd_def [symmetric] r
    by (cases "audit_in opts res")
       (simp_all add: ctx_cancelled_in w o obs_warn_if obs_add_row obs_rows_append obs_rows_single,
        simp_all add: obs_rows_def)
qed

interpretation ser_steps: observed_steps
  "serialize_one P oe opts refLang tid encoded" obs_hex
  "obs_step P oe (TimeoutSec opts) (NewSerializeRequest tid encoded) (ser_rows oe opts refLang tid) ser_entry"
  for P oe opts refLang tid encoded
  by unfold_locales (rule obs_serialize_one, rule obs_step_commute, rule own_ser_rows)

interpretation des_steps: observed_steps
  "deserialize_one P oe opts tid encoded fns ffs refHex" obs_plain
  "obs_step P oe (TimeoutSec opts) (NewDeserializeRequest tid refHex) (des_rows oe opts tid encoded fns ffs) (\<lambda>_ _. None)"
  for P oe opts tid encoded fns ffs refHex
  by unfold_locales (rule obs_deserialize_one, rule obs_step_commute, rule own_des_rows)

subsection \<open>A whole run\<close>

lemma send_to_cong:
  assumes "obs s = obs s'" and "send_to P oe n lang req s = (t, res)" and "send_to P oe n lang req s' = (t', res')"
  shows "res = res' \<and> obs t = obs t'"
proof -
  from assms(1) have "map_of (rs_workers s) lang = map_of (rs_workers s') lang" by (metis fst_obs)
  with send_to_exchange [OF assms(2)] send_to_exchange [OF assms(3)] assms(1) show ?thesis by auto
qed

lemma obs_fold_cong:
  assumes "\<And>x s s'. obs s = obs s' \<Longrightarrow> obs (f x s) = obs (g x s')" and "obs s = obs s'"
  shows "obs (fold f xs s) = obs (fold g xs s')"
  using assms(2) by (induction xs arbitrary: s s') (simp_all add: assms(1))

lemma obs_add_row_cong: "obs s = obs s' \<Longrightarrow> obs (add_row r s) = obs (add_row r s')"
  by (simp add: obs_add_row)

lemma obs_add_for_cong: "obs s = obs s' \<Longrightarrow> obs (add_for xs f s) = obs (add_for xs f s')"
  unfolding add_for_def by (rule obs_fold_cong) (rule obs_add_row_cong)

lemma semantic_cong:
  assumes "obs s = obs s'"
    and "semanticSerializeDiff P oe n refLang tid lang h encoded fns ffs s = (t, d)"
    and "semanticSerializeDiff P oe n refLang tid lang h encoded fns ffs s' = (t', d')"
  shows "d = d' \<and> obs t = obs t'"
proof -
  let ?req = "NewDeserializeRequest (tid @ ''/semantic-'' @ lang) h"
  obtain u r where 1: "send_to P oe n refLang ?req s = (u, r)" by (metis surj_pair)
  obtain u' r' where 2: "send_to P oe n refLang ?req s' = (u', r')" by (metis surj_pair)
  from send_to_cong [OF assms(1) 1 2] assms(2,3) show ?thesis
    unfolding semanticSerializeDiff_def 1 2 prod.case by (auto split: sum.splits if_splits)
qed

lemma obs_compare_one_cong:
  assumes "obs s = obs s'" and "map_of hex = map_of hex'"
  shows "obs (compare_one P oe opts refLang tid encoded fns ffs hex l s) =
    obs (compare_one P oe opts refLang tid encoded fns ffs hex' l s')"
proof (cases "l \<noteq> refLang \<and> map_of hex l \<noteq> None \<and> map_of hex refLang \<noteq> None")
  case False
  with assms show ?thesis by (auto simp: compare_one_def obs_add_row split: option.split)
next
  case True
  then obtain h r where h: "map_of hex l = Some h" "map_of hex refLang = Some r" "l \<noteq> refLang" by auto
  let ?diff = "\<lambda>s. if Oracle opts = OracleSemantic
      then semanticSerializeDiff P oe (TimeoutSec opts) refLang tid l h encoded fns ffs s else (s, hex_diff oe r h)"
  obtain t d where 1: "?diff s = (t, d)" by (metis surj_pair)
  obtain t' d' where 2: "?diff s' = (t', d')" by (metis surj_pair)
  have "d = d' \<and> obs t = obs t'"
    using 1 2 assms(1) semantic_cong [OF assms(1)] by (auto split: if_splits)
  then show ?thesis
    unfolding compare_one_def assms(2) [symmetric] h option.case 1 2 prod.case
    using h(3) by (simp add: obs_add_row split: prod.split)
qed

lemma obs_run_encoded:
  assumes "\<not> FullMatrix opts" and "obs s = obs s'"
  shows "obs (run_encoded P oe sch opts refLang langs schema tid encoded s) =
    obs (run_encoded P oe sch' opts refLang langs schema tid encoded s')"
proof -
  have perm: "mset (round_order sch tid op ls) = mset (round_order sch' tid op ls)" for op ls
    by simp
  obtain t hex where 1: "serialize_round P oe sch opts refLang langs tid encoded s = (t, hex)" by (metis surj_pair)
  obtain t' hex' where 2: "serialize_round P oe sch' opts refLang langs tid encoded s' = (t', hex')" by (metis surj_pair)
  have "obs_hex (s, []) = obs_hex (s', [])" using assms(2) by (simp add: obs_hex_def)
  from ser_steps.order_irrelevant [OF perm this, of P oe opts refLang tid encoded op_serialize langs]
  have "obs_hex (t, hex) = obs_hex (t', hex')"
    using 1 2 by (simp add: serialize_round_def)
  then have t: "obs t = obs t'" and hex: "map_of hex = map_of hex'" by (auto simp: obs_hex_def)
  let ?c = "\<lambda>hex. compare_one P oe opts refLang tid encoded (field_names schema) (float_fields schema) hex"
  have c: "obs (fold (?c hex) langs t) = obs (fold (?c hex') langs t')"
    by (rule obs_fold_cong [OF _ t]) (rule obs_compare_one_cong [OF _ hex])
  show ?thesis
  proof (cases "map_of hex refLang")
    case None
    with hex have n: "map_of hex' refLang = None" by simp
    show ?thesis
      unfolding run_encoded_def 1 2 prod.case Let_def None n option.case by (rule obs_add_for_cong [OF c])
  next
    case (Some h)
    have "obs_plain (fold (?c hex) langs t) = obs_plain (fold (?c hex') langs t')"
      using c by (simp add: obs_plain_def)
    from des_steps.order_irrelevant [OF perm this, of P oe opts tid encoded "field_names schema"
        "float_fields schema" h op_deserialize langs]
    have d: "obs (fold (deserialize_one P oe opts tid encoded (field_names schema) (float_fields schema) h)
          (round_order sch tid op_deserialize langs) (fold (?c hex) langs t)) =
        obs (fold (deserialize_one P oe opts tid encoded (field_names schema) (float_fields schema) h)
          (round_order sch' tid op_deserialize langs) (fold (?c hex') langs t'))"
      unfolding obs_plain_def prod.inject by blast
    from Some hex have h: "map_of hex' refLang = Some h" by simp
    from assms(1) show ?thesis
      unfolding run_encoded_def 1 2 prod.case Let_def Some h option.case by (simp only: if_False d)
  qed
qed

lemma obs_run_case:
  assumes "\<not> FullMatrix opts" and "obs (fst se) = obs (fst se')" and "snd se = snd se'"
  shows "obs (fst (run_case P oe sch opts refLang langs schema tc se)) =
      obs (fst (run_case P oe sch' opts refLang langs schema tc se')) \<and>
    snd (run_case P oe sch opts refLang langs schema tc se) = snd (run_case P oe sch' opts refLang langs schema tc se')"
proof -
  obtain s e where se: "se = (s, e)" by (cases se)
  obtain s' e' where se': "se' = (s', e')" by (cases se')
  show ?thesis
    using assms(2,3) obs_run_encoded [OF assms(1)]
    by (auto simp: run_case_def se se' intro!: obs_fold_cong obs_add_for_cong split: sum.split)
qed

text \<open>C14. A run is deterministic although its goroutines are not: without the matrix, whatever order
  the goroutines of each round run in, \<open>Run\<close> ends with the same row for every key, the same set of
  failures and so the same exit verdict, the same first error, and every worker in the same state.\<close>

theorem Run_schedule_independent:
  assumes "\<not> FullMatrix opts"
    and "Run P oe sch opts cf avail st = (a, ea)" and "Run P oe sch' opts cf avail st = (b, eb)"
  shows "found a = found b \<and> set (Failures (rs_rep a)) = set (Failures (rs_rep b)) \<and>
    (Success (rs_rep a) \<longleftrightarrow> Success (rs_rep b)) \<and> ea = eb \<and> map_of (rs_workers a) = map_of (rs_workers b)"
proof -
  let ?run = "\<lambda>sch tcs se. fold (run_case P oe sch opts (cf_reference cf) (OrderedLangs avail (cf_reference cf))
      (cf_schema cf)) tcs se"
  have "obs (fst (?run sch tcs se)) = obs (fst (?run sch' tcs se')) \<and> snd (?run sch tcs se) = snd (?run sch' tcs se')"
    if "obs (fst se) = obs (fst se') \<and> snd se = snd se'" for tcs se se'
    using that
  proof (induction tcs arbitrary: se se')
    case (Cons tc tcs)
    have "obs (fst se) = obs (fst se')" "snd se = snd se'" using Cons.prems by auto
    from obs_run_case [OF assms(1) this] Cons.IH show ?case unfolding fold_Cons o_apply by blast
  qed simp
  from this [of "(st, None)" "(st, None)" "cf_cases cf"] assms(2,3) have "obs a = obs b" and "ea = eb"
    by (simp_all add: Run_def)
  then show ?thesis by (simp add: obs_def Success_def flip: set_empty)
qed

theorem Run_schedule_independent_witness:
  "found (fst (Run script_process example_oe (in_order\<lparr>sch_round := (\<lambda>tid op ls. rev ls)\<rparr>) example_opts
      \<lparr>cf_name = [], cf_formats = [], cf_reference = ''go'', cf_schema = [],
       cf_cases = [\<lparr>tc_name = ''t'', tc_description = [], tc_data = []\<rparr>], cf_oracles = []\<rparr> [''go'', ''rust''] example_state)) =
   found (fst (Run script_process example_oe in_order example_opts
      \<lparr>cf_name = [], cf_formats = [], cf_reference = ''go'', cf_schema = [],
       cf_cases = [\<lparr>tc_name = ''t'', tc_description = [], tc_data = []\<rparr>], cf_oracles = []\<rparr> [''go'', ''rust''] example_state))"
  (is "found (fst ?x) = found (fst ?y)")
proof -
  obtain a ea b eb where "?x = (a, ea)" "?y = (b, eb)" by (metis surj_pair)
  from Run_schedule_independent [OF _ this] this show ?thesis
    by (simp add: example_opts_def)
qed

end
