(* ===== verification/Coverage.thy ===== *)
theory Coverage
  imports OrchFacts
begin

section \<open>Declared coverage gaps (internal/orch/coverage.go)\<close>

text \<open>
  A SKIP does not fail a run, so lost coverage would go unseen. \<open>CheckExpectedSkips\<close> goes over
  the rows of the report once: a SKIP the worker's expected-skips file does not declare becomes a
  FAIL, and a declared gap nothing skipped becomes a WARN. Skips that follow from a failure of the
  reference are not a worker's coverage and are left alone.
\<close>

definition isCascadeSkip :: "string \<Rightarrow> bool" where
  "isCascadeSkip detail \<longleftrightarrow> detail = SkipRefSerializeFailed \<or> detail = SkipRefUnsupported"

definition containsStr :: "string list \<Rightarrow> string \<Rightarrow> bool" where
  "containsStr l v \<longleftrightarrow> list_ex (\<lambda>s. s = v) l"

text \<open>\<open>used[lang]\<close>: every declared entry, at first unused.\<close>

definition declared_entries :: "expected_skips \<Rightarrow> string list" where
  "declared_entries es =
     es_types es @ concat (map (\<lambda>(op, types). map (\<lambda>t. op @ ''/'' @ t) types) (es_operations es))"

definition initial_used :: "expected_skips \<Rightarrow> bool gomap" where
  "initial_used es = fold (\<lambda>k m. AList.update k False m) (declared_entries es) []"

definition mark_used :: "bool gomap gomap \<Rightarrow> string \<Rightarrow> string \<Rightarrow> bool gomap gomap" where
  "mark_used used lang k = AList.update lang (AList.update k True (submap used lang)) used"

definition expected_of :: "expected_skips gomap \<Rightarrow> string \<Rightarrow> expected_skips" where
  "expected_of expected lang = (case map_of expected lang of None \<Rightarrow> es_zero | Some es \<Rightarrow> es)"

text \<open>Type and format of a test id.\<close>

definition id_type :: "string \<Rightarrow> string" where
  "id_type testID = fst (cut CHR ''/'' testID)"

definition id_format :: "string \<Rightarrow> string" where
  "id_format testID = fst (cut CHR ''/'' (fst (snd (cut CHR ''/'' testID))))"

definition undeclared_row :: "(string \<Rightarrow> string) \<Rightarrow> string \<Rightarrow> string \<Rightarrow> string \<Rightarrow> row" where
  "undeclared_row q testID lang op =
     mk_row testID lang op StatusFail
       (''undeclared skip: '' @ q (id_type testID) @ ''/'' @ id_format testID @ ''/'' @ op @
        '' is not covered by expected-skips for '' @ lang @
        '' (a real gap must be declared; otherwise coverage regressed)'')"

definition check_row ::
  "(string \<Rightarrow> string) \<Rightarrow> expected_skips gomap \<Rightarrow> string \<times> string \<times> string \<times> row
    \<Rightarrow> bool gomap gomap \<times> row list \<Rightarrow> bool gomap gomap \<times> row list" where
  "check_row q expected e s =
     (case e of (testID, lang, op, res) \<Rightarrow> case s of (used, undeclared) \<Rightarrow>
      if Status res \<noteq> StatusSkip \<or> isCascadeSkip (Detail res) then (used, undeclared)
      else
        let es = expected_of expected lang; typeName = id_type testID in
        if containsStr (es_types es) typeName then (mark_used used lang typeName, undeclared)
        else if containsStr (es_op es op) typeName then (mark_used used lang (op @ ''/'' @ typeName), undeclared)
        else (used, undeclared @ [undeclared_row q testID lang op]))"

text \<open>The rows in the order the nested maps are iterated.\<close>

definition entries :: "report \<Rightarrow> (string \<times> string \<times> string \<times> row) list" where
  "entries rep = concat (map (\<lambda>(tid, byLang). concat (map (\<lambda>(lang, byOp).
     map (\<lambda>(op, res). (tid, lang, op, res)) byOp) byLang)) (Results rep))"

definition stale_row :: "(string \<Rightarrow> string) \<Rightarrow> string \<Rightarrow> string \<Rightarrow> row" where
  "stale_row q lang k =
     mk_row k lang op_serialize StatusWarn
       (''stale expected-skip '' @ q k @ '' for '' @ lang @ '': nothing skipped, remove it'')"

definition stale_rows :: "(string \<Rightarrow> string) \<Rightarrow> bool gomap gomap \<Rightarrow> row list" where
  "stale_rows q used = concat (map (\<lambda>(lang, keys).
     concat (map (\<lambda>(k, seen). if seen then [] else [stale_row q lang k]) keys)) used)"

definition CheckExpectedSkips :: "(string \<Rightarrow> string) \<Rightarrow> expected_skips gomap \<Rightarrow> report \<Rightarrow> report" where
  "CheckExpectedSkips q expected rep =
     (case fold (check_row q expected) (entries rep)
             (map (\<lambda>(lang, es). (lang, initial_used es)) expected, []) of
        (used, undeclared) \<Rightarrow> fold Add (stale_rows q used) (fold Add undeclared rep))"

subsection \<open>What the check does\<close>

text \<open>The skips it judges and the declaration that covers one.\<close>

definition judged_skip :: "row \<Rightarrow> bool" where
  "judged_skip r \<longleftrightarrow> Status r = StatusSkip \<and> \<not> isCascadeSkip (Detail r)"

definition covered :: "expected_skips gomap \<Rightarrow> string \<Rightarrow> string \<Rightarrow> string \<Rightarrow> bool" where
  "covered expected testID lang op \<longleftrightarrow> Covers (expected_of expected lang) (id_type testID) op"

text \<open>The declared entry a covered skip uses up.\<close>

definition uses_entry :: "expected_skips gomap \<Rightarrow> string \<times> string \<times> string \<times> row \<Rightarrow> string \<Rightarrow> string \<Rightarrow> bool" where
  "uses_entry expected e lang k \<longleftrightarrow> (case e of (testID, l, op, res) \<Rightarrow>
     l = lang \<and> judged_skip res \<and>
     (let es = expected_of expected lang; t = id_type testID in
      if t \<in> set (es_types es) then k = t else t \<in> set (es_op es op) \<and> k = op @ ''/'' @ t))"

lemma containsStr_set: "containsStr l v \<longleftrightarrow> v \<in> set l"
  by (auto simp: containsStr_def list_ex_iff)

lemma submap_update: "submap (AList.update l x m) k = (if k = l then x else submap m k)"
  by (simp add: submap_def map_of_update)

lemma check_row_undeclared:
  "snd (check_row q expected (t, l, op, r) s) =
     snd s @ (if judged_skip r \<and> \<not> covered expected t l op then [undeclared_row q t l op] else [])"
  by (cases s) (auto simp: check_row_def judged_skip_def covered_def Covers_def containsStr_set Let_def)

lemma check_row_used:
  "map_of (submap (fst (check_row q expected e s)) lang) k =
      (if uses_entry expected e lang k then Some True else map_of (submap (fst s) lang) k)"
proof -
  obtain t l op r where e: "e = (t, l, op, r)" by (cases e)
  show ?thesis
    by (cases s) (auto simp: e check_row_def uses_entry_def judged_skip_def containsStr_set Let_def mark_used_def
        submap_update map_of_update)
qed

lemma undeclared_rows:
  "snd (fold (check_row q expected) es s) =
     snd s @ map (\<lambda>(t, l, op, r). undeclared_row q t l op)
       (filter (\<lambda>(t, l, op, r). judged_skip r \<and> \<not> covered expected t l op) es)"
proof (induction es arbitrary: s)
  case (Cons e es)
  obtain t l op r where e: "e = (t, l, op, r)" by (cases e)
  show ?case by (simp add: Cons.IH e check_row_undeclared)
qed simp

lemma used_after:
  "map_of (submap (fst (fold (check_row q expected) es s)) lang) k =
     (if (\<exists>e \<in> set es. uses_entry expected e lang k) then Some True else map_of (submap (fst s) lang) k)"
  by (induction es arbitrary: s) (simp_all add: check_row_used)

lemma entries_lookup:
  assumes "results_wf (Results rep)"
  shows "(t, l, op, r) \<in> set (entries rep) \<longleftrightarrow> find_result rep (t, l, op) = Some r"
proof
  assume "(t, l, op, r) \<in> set (entries rep)"
  then obtain bl bo where m: "(t, bl) \<in> set (Results rep)" "(l, bo) \<in> set bl" "(op, r) \<in> set bo"
    by (force simp: entries_def)
  have "map_wf (Results rep)" using assms by (simp add: results_wf_def)
  moreover have bl: "map_wf bl \<and> list_all (\<lambda>(l, byOp). map_wf byOp) bl"
    using assms bspec [OF _ m(1), of "\<lambda>(tid, byLang). map_wf byLang \<and> list_all (\<lambda>(l, byOp). map_wf byOp) byLang"]
    by (simp add: results_wf_def list_all_iff)
  moreover have "map_wf bo"
    using bl bspec [OF _ m(2), of "\<lambda>(l, byOp). map_wf byOp"] by (simp add: list_all_iff)
  ultimately have "map_of (Results rep) t = Some bl" "map_of bl l = Some bo" "map_of bo op = Some r"
    using m by (simp_all add: map_wf_def)
  with m show "find_result rep (t, l, op) = Some r" by (simp add: find_result_def submap_def)
next
  assume "find_result rep (t, l, op) = Some r"
  then obtain bl bo where "map_of (Results rep) t = Some bl" "map_of bl l = Some bo" "map_of bo op = Some r"
    by (auto simp: find_result_def submap_def split: option.splits)
  then have "(t, bl) \<in> set (Results rep)" "(l, bo) \<in> set bl" "(op, r) \<in> set bo"
    by (simp_all add: map_of_SomeD)
  then have "(t, l, op, r) \<in> set (map (\<lambda>(op, res). (t, l, op, res)) bo)" by force
  with \<open>(l, bo) \<in> set bl\<close> have "(t, l, op, r) \<in> set (concat (map (\<lambda>(lang, byOp).
      map (\<lambda>(op, res). (t, lang, op, res)) byOp) bl))"
    unfolding set_concat set_map by (intro UN_I [of "map (\<lambda>(op, res). (t, l, op, res)) bo"]) (auto intro: rev_image_eqI)
  with \<open>(t, bl) \<in> set (Results rep)\<close> show "(t, l, op, r) \<in> set (entries rep)"
    unfolding entries_def set_concat set_map
    by (intro UN_I [of "concat (map (\<lambda>(lang, byOp). map (\<lambda>(op, res). (t, lang, op, res)) byOp) bl)"])
       (auto intro: rev_image_eqI)
qed

lemma Failures_fold_Add: "Failures rep \<noteq> [] \<Longrightarrow> Failures (fold Add rows rep) \<noteq> []"
  by (induction rows arbitrary: rep) (auto simp: Failures_Add)

lemma Success_fold_Add: "Success (fold Add rows rep) \<longleftrightarrow> Success rep \<and> list_all (\<lambda>r. \<not> is_failure r) rows"
proof (induction rows arbitrary: rep)
  case (Cons r rows)
  have "Success (Add r rep) \<longleftrightarrow> Success rep \<and> \<not> is_failure r"
    by (auto simp: Success_def Failures_Add)
  with Cons.IH show ?case by simp
qed simp

lemma gate_success:
  assumes "results_wf (Results rep)"
  shows "Success (CheckExpectedSkips q expected rep) \<longleftrightarrow>
    Success rep \<and> (\<forall>t l op r. find_result rep (t, l, op) = Some r \<longrightarrow> judged_skip r \<longrightarrow> covered expected t l op)"
proof -
  obtain used und where f: "fold (check_row q expected) (entries rep)
      (map (\<lambda>(lang, es). (lang, initial_used es)) expected, []) = (used, und)" by (metis surj_pair)
  have und: "und = map (\<lambda>(t, l, op, r). undeclared_row q t l op)
      (filter (\<lambda>(t, l, op, r). judged_skip r \<and> \<not> covered expected t l op) (entries rep))"
    using undeclared_rows [of q expected "entries rep" "(map (\<lambda>(lang, es). (lang, initial_used es)) expected, [])"] f
    by simp
  have "list_all (\<lambda>r. \<not> is_failure r) (stale_rows q used)"
    by (auto simp: stale_rows_def list_all_iff stale_row_def mk_row_def is_failure_def split: if_splits)
  moreover have "list_all (\<lambda>r. \<not> is_failure r) und \<longleftrightarrow> und = []"
    by (cases und) (auto simp: und undeclared_row_def mk_row_def is_failure_def list_all_iff filter_eq_Cons_iff)
  moreover have "und = [] \<longleftrightarrow>
      (\<forall>t l op r. find_result rep (t, l, op) = Some r \<longrightarrow> judged_skip r \<longrightarrow> covered expected t l op)"
    unfolding und map_is_Nil_conv filter_empty_conv entries_lookup [OF assms, symmetric] by auto
  ultimately show ?thesis by (simp add: CheckExpectedSkips_def f Success_fold_Add)
qed

text \<open>C16. The coverage gate decides the exit code exactly as documented: after \<open>CheckExpectedSkips\<close> a
  run is a success if and only if it was one before and every SKIP of the report, cascade skips apart,
  is declared for its language by the type or by the type and operation. For a language
  without a declaration nothing is declared.\<close>

theorem CheckExpectedSkips_gate:
  assumes "results_wf (Results rep)"
  shows "Success (CheckExpectedSkips q expected rep) \<longleftrightarrow>
    Success rep \<and> (\<forall>t l op r. find_result rep (t, l, op) = Some r \<longrightarrow> judged_skip r \<longrightarrow> covered expected t l op)"
  by (rule gate_success [OF assms])

text \<open>C17. The full matrix and the coverage gate do not fit together: when a source worker has no bytes for a
  case, the matrix row added for it makes every later gate fail. Its language is the pair of the two
  workers, which no declaration can name: declarations are by worker.\<close>

theorem matrix_skip_fails_gate:
  assumes "results_wf (Results (rs_rep st))" and "index_str hex src = []"
    and "map_of expected (arrow src dst) = None"
  shows "\<not> Success (CheckExpectedSkips q expected
    (rs_rep (matrix_one P oe opts tid encoded fns ffs hex (src, dst) st)))"
proof -
  let ?row = "mk_row tid (arrow src dst) op_matrix StatusSkip ''source serialize failed''"
  have "rs_rep (matrix_one P oe opts tid encoded fns ffs hex (src, dst) st) = Add ?row (rs_rep st)"
    using assms(2) by (simp add: matrix_one_def add_row_def Let_def)
  moreover have "find_result (Add ?row (rs_rep st)) (tid, arrow src dst, op_matrix) = Some ?row"
    by (simp add: find_result_Add)
  moreover have "judged_skip ?row" by (simp add: judged_skip_def isCascadeSkip_def)
  moreover have "\<not> covered expected tid (arrow src dst) op_matrix"
    using assms(3) by (simp add: covered_def expected_of_def Covers_def containsStr_def es_op_def es_zero_def)
  ultimately show ?thesis
    using gate_success [OF results_wf_Add [OF assms(1)], of q expected ?row] by auto
qed

subsection \<open>Stale declarations\<close>

lemma find_fold_Add:
  "find_result (fold Add rows rep) k =
     (case find (\<lambda>r. row_key r = k) (rev rows) of None \<Rightarrow> find_result rep k | Some r \<Rightarrow> Some r)"
proof (induction rows rule: rev_induct)
  case (snoc r rows)
  then show ?case by (simp add: find_result_Add)
qed simp

definition used_wf :: "bool gomap gomap \<Rightarrow> bool" where
  "used_wf used \<longleftrightarrow> map_wf used \<and> list_all (\<lambda>(l, m). map_wf m) used"

lemma used_wf_submap: "used_wf used \<Longrightarrow> map_wf (submap used l)"
  unfolding used_wf_def by (rule submap_wf) simp_all

lemma used_wf_mark: "used_wf used \<Longrightarrow> used_wf (mark_used used lang k)"
  using used_wf_submap [of used lang] unfolding used_wf_def mark_used_def
  by (simp add: map_wf_update list_all_update)

lemma used_wf_check: "used_wf (fst s) \<Longrightarrow> used_wf (fst (fold (check_row q expected) es s))"
proof (induction es arbitrary: s)
  case (Cons e es)
  have "used_wf (fst (check_row q expected e s))"
    using Cons.prems by (auto simp: check_row_def Let_def used_wf_mark split: prod.split)
  then show ?case by (simp add: Cons.IH)
qed simp

lemma initial_used_wf: "map_wf (initial_used es)"
proof -
  have "map_wf m \<Longrightarrow> map_wf (fold (\<lambda>k m. AList.update k False m) ks m)" for ks and m :: "bool gomap"
    by (induction ks arbitrary: m) (simp_all add: map_wf_update)
  then show ?thesis by (simp add: initial_used_def)
qed

lemma initial_used_lookup: "k \<in> set (declared_entries es) \<Longrightarrow> map_of (initial_used es) k = Some False"
proof -
  have "map_of (fold (\<lambda>k m. AList.update k False m) ks m) k = (if k \<in> set ks then Some False else map_of m k)"
    for ks and m :: "bool gomap"
    by (induction ks arbitrary: m) (auto simp: map_of_update)
  then show "k \<in> set (declared_entries es) \<Longrightarrow> ?thesis" by (simp add: initial_used_def)
qed

lemma submap_map_init:
  "submap (map (\<lambda>(l, es). (l, initial_used es)) expected) lang =
     (case map_of expected lang of None \<Rightarrow> [] | Some es \<Rightarrow> initial_used es)"
  by (induction expected) (auto simp: submap_def)

lemma stale_row_simps [simp]:
  "row_key (stale_row q lang k) = (k, lang, op_serialize)" "Status (stale_row q lang k) = StatusWarn"
  "Status (undeclared_row q t l op) = StatusFail"
  by (simp_all add: stale_row_def undeclared_row_def)

lemma stale_rows_in:
  "r \<in> set (stale_rows q used) \<longleftrightarrow>
     (\<exists>l m k. (l, m) \<in> set used \<and> (k, False) \<in> set m \<and> r = stale_row q l k)"
proof -
  have "set (concat (map (\<lambda>(k, seen). if seen then [] else [stale_row q l k]) m)) =
      {stale_row q l k |k. (k, False) \<in> set m}" for l m
    by (auto split: if_splits)
  then show ?thesis unfolding stale_rows_def set_concat set_map by auto
qed

lemma stale_row_key:
  assumes "r \<in> set (stale_rows q used)" and "row_key r = (k, lang, op_serialize)"
  shows "r = stale_row q lang k"
  using assms by (auto simp: stale_rows_in)

lemma in_stale_rows:
  assumes "used_wf used"
  shows "stale_row q lang k \<in> set (stale_rows q used) \<longleftrightarrow> map_of (submap used lang) k = Some False"
proof
  assume "stale_row q lang k \<in> set (stale_rows q used)"
  then obtain l m k' where m: "(l, m) \<in> set used" "(k', False) \<in> set m" "stale_row q lang k = stale_row q l k'"
    by (auto simp: stale_rows_in)
  from arg_cong [OF m(3), of row_key] have "l = lang" "k' = k" by simp_all
  moreover have "map_wf m" using assms m(1) by (auto simp: used_wf_def list_all_iff)
  ultimately show "map_of (submap used lang) k = Some False"
    using assms m(1,2) by (simp add: used_wf_def map_wf_def submap_def)
next
  assume "map_of (submap used lang) k = Some False"
  then obtain m where m: "map_of used lang = Some m" "map_of m k = Some False"
    by (auto simp: submap_def split: option.splits)
  then have "(lang, m) \<in> set used" "(k, False) \<in> set m" by (simp_all add: map_of_SomeD)
  then show "stale_row q lang k \<in> set (stale_rows q used)" by (auto simp: stale_rows_in)
qed

text \<open>A declared gap is reported stale exactly when nothing used it: the warning row of an entry
  appears if and only if no skip of the report is covered by that entry (a type entry covers the
  skip of either direction before an operation entry is asked).\<close>

theorem stale_gap_reported:
  assumes "results_wf (Results rep)" and "map_wf expected" and "map_of expected lang = Some es"
    and "k \<in> set (declared_entries es)"
    and "find_result rep (k, lang, op_serialize) \<noteq> Some (stale_row q lang k)"
  shows "find_result (CheckExpectedSkips q expected rep) (k, lang, op_serialize) = Some (stale_row q lang k) \<longleftrightarrow>
    \<not> (\<exists>t l op r. find_result rep (t, l, op) = Some r \<and> uses_entry expected (t, l, op, r) lang k)"
proof -
  let ?init = "(map (\<lambda>(l, es). (l, initial_used es)) expected, [] :: row list)"
  let ?key = "(k, lang, op_serialize)"
  obtain used und where f: "fold (check_row q expected) (entries rep) ?init = (used, und)" by (metis surj_pair)
  have "used_wf (fst ?init)"
    using assms(2) by (simp add: used_wf_def map_wf_def list_all_iff initial_used_wf [unfolded map_wf_def] split_beta o_def)
  from used_wf_check [OF this, of q expected "entries rep"] have wf: "used_wf used" by (simp add: f)
  have "map_of (submap used lang) k =
      (if \<exists>e \<in> set (entries rep). uses_entry expected e lang k then Some True else Some False)"
    using used_after [of q expected "entries rep" ?init lang k] initial_used_lookup [OF assms(4)]
    by (simp add: f submap_map_init assms(3))
  then have stale: "stale_row q lang k \<in> set (stale_rows q used) \<longleftrightarrow>
      \<not> (\<exists>t l op r. find_result rep (t, l, op) = Some r \<and> uses_entry expected (t, l, op, r) lang k)"
    unfolding in_stale_rows [OF wf] entries_lookup [OF assms(1), symmetric] by auto
  have und: "find_result (fold Add und rep) ?key \<noteq> Some (stale_row q lang k)"
  proof -
    have "r \<noteq> stale_row q lang k" if "r \<in> set und" for r
    proof -
      from that obtain t l op where "r = undeclared_row q t l op"
        using undeclared_rows [of q expected "entries rep" ?init] f by auto
      then have "Status r \<noteq> Status (stale_row q lang k)" by simp
      then show ?thesis by auto
    qed
    then have "stale_row q lang k \<notin> set und" by blast
    then show ?thesis using assms(5)
      by (auto simp: find_fold_Add split: option.splits dest!: find_SomeD)
  qed
  show ?thesis
  proof (cases "find (\<lambda>r. row_key r = ?key) (rev (stale_rows q used))")
    case None
    then have "stale_row q lang k \<notin> set (stale_rows q used)" by (auto simp: find_None_iff)
    with None und stale show ?thesis by (simp add: CheckExpectedSkips_def f find_fold_Add [of "stale_rows q used"])
  next
    case (Some r)
    from find_SomeD [OF this] have r: "r \<in> set (stale_rows q used)" "row_key r = ?key" by auto
    with stale_row_key [OF r] Some stale show ?thesis
      by (simp add: CheckExpectedSkips_def f find_fold_Add [of "stale_rows q used"])
  qed
qed

text \<open>One language declares two gaps; one of its skips is declared, one is not.\<close>

definition example_gaps :: "expected_skips gomap" where
  "example_gaps = [(''go'', \<lparr>es_types = [''uuid''], es_operations = [(''deserialize'', [''blob''])]\<rparr>)]"

definition example_skips :: report where
  "example_skips = fold Add
     [mk_row ''uuid/bin/a'' ''go'' op_serialize StatusSkip [],
      mk_row ''user/bin/a'' ''go'' op_serialize StatusSkip ''not implemented''] (New [''go''] [] ''table'')"

lemma results_wf_example: "results_wf (Results example_skips)"
proof -
  have "results_wf (Results (New [''go''] [] ''table''))" by (simp add: results_wf_def New_def)
  then show ?thesis by (simp add: example_skips_def results_wf_Add del: New_def)
qed

theorem CheckExpectedSkips_gate_witness:
  "\<not> Success (CheckExpectedSkips id example_gaps example_skips)"
proof -
  have "find_result example_skips (''user/bin/a'', ''go'', op_serialize) =
      Some (mk_row ''user/bin/a'' ''go'' op_serialize StatusSkip ''not implemented'')"
    by (simp add: example_skips_def find_result_Add)
  moreover have "judged_skip (mk_row ''user/bin/a'' ''go'' op_serialize StatusSkip ''not implemented'')"
    by (simp add: judged_skip_def isCascadeSkip_def)
  moreover have "\<not> covered example_gaps ''user/bin/a'' ''go'' op_serialize"
    by code_simp
  ultimately show ?thesis using CheckExpectedSkips_gate [OF results_wf_example] by blast
qed

theorem matrix_skip_fails_gate_witness:
  "\<not> Success (CheckExpectedSkips id example_gaps (rs_rep
     (matrix_one script_process example_oe example_opts ''user/bin/a'' [] [] [] [] (''go'', ''rust'')
       \<lparr>rs_workers = [], rs_rep = example_skips, rs_panicked = False\<rparr>)))"
  by (rule matrix_skip_fails_gate)
    (simp_all add: results_wf_example index_str_def example_gaps_def arrow_def)

theorem stale_gap_reported_witness:
  "find_result (CheckExpectedSkips id example_gaps example_skips) (''deserialize/blob'', ''go'', op_serialize) =
     Some (stale_row id ''go'' ''deserialize/blob'')"
proof -
  have "\<not> (\<exists>t l op r. find_result example_skips (t, l, op) = Some r \<and>
      uses_entry example_gaps (t, l, op, r) ''go'' ''deserialize/blob'')"
    by (auto simp: example_skips_def find_result_Add find_result_New uses_entry_def example_gaps_def expected_of_def
        id_type_def es_op_def Let_def split: if_splits)
  moreover have "find_result example_skips (''deserialize/blob'', ''go'', op_serialize) = None"
    by (simp add: example_skips_def find_result_Add find_result_New)
  ultimately show ?thesis
    using stale_gap_reported [OF results_wf_example, of example_gaps "''go''"
        "\<lparr>es_types = [''uuid''], es_operations = [(''deserialize'', [''blob''])]\<rparr>" "''deserialize/blob''" id]
    by (simp add: example_gaps_def declared_entries_def map_wf_def)
qed

end
