(* ===== verification/AuditChecks.thy ===== *)
theory AuditChecks
  imports FieldMap
begin

section \<open>Audit checks of the worker library (lib/go/serify/auditcheck.go)\<close>

text \<open>
  Under audit, the library looks for serializers that change their input and for buffers that stay
  connected to the values read from or written to them. What matters here is sharing of memory, so a
  value is modelled with the way it reads later: \<open>cloneValue v v'\<close> is what a clone reads as, that
  was taken of a value reading \<open>v\<close>, once that same value reads \<open>v'\<close>. The parts the code copies stay
  \<open>v\<close>; for the kinds it returns as they are (numbers, whose values cannot change, but also slices
  of numbers and pointers, which share memory with the original) the clone reads \<open>v'\<close>.

  A FieldMap whose fields may share memory with a buffer is a function of the buffer's contents.
  A nil slice is the empty slice.
\<close>

subsection \<open>Clones\<close>

fun cloneValue :: "fval \<Rightarrow> fval \<Rightarrow> fval"
  and snapshotFieldMap :: "field_map \<Rightarrow> field_map \<Rightarrow> field_map"
  and clone_elems :: "fval list \<Rightarrow> fval list \<Rightarrow> fval list" where
  "cloneValue (FBytes b) v' = FBytes b"
| "cloneValue (FStr s) v' = FStr s"
| "cloneValue (FSlice t vs) v' =
     (if t = TStr then FSlice t vs
      else if t = TFM then FSlice t (clone_elems vs (case v' of FSlice _ vs' \<Rightarrow> vs' | _ \<Rightarrow> vs))
      else v')"
| "cloneValue (FAnys vs) v' = FAnys (clone_elems vs (case v' of FAnys vs' \<Rightarrow> vs' | _ \<Rightarrow> vs))"
| "cloneValue (FFM None) v' = FFM None"
| "cloneValue (FFM (Some m)) v' = FFM (Some (snapshotFieldMap m (case v' of FFM (Some m') \<Rightarrow> m' | _ \<Rightarrow> m)))"
| "cloneValue (FMap m) v' = FMap (snapshotFieldMap m (case v' of FMap m' \<Rightarrow> m' | _ \<Rightarrow> m))"
| "cloneValue (FVariant None) v' = FVariant None"
| "cloneValue (FVariant (Some (tag, x))) v' =
     FVariant (Some (tag, cloneValue x (case v' of FVariant (Some (_, x')) \<Rightarrow> x' | _ \<Rightarrow> x)))"
| "cloneValue v v' = v'"
| "snapshotFieldMap [] m' = []"
| "snapshotFieldMap ((k, v) # m) m' =
     (k, cloneValue v (case map_of m' k of None \<Rightarrow> v | Some v' \<Rightarrow> v')) # snapshotFieldMap m m'"
| "clone_elems [] vs' = []"
| "clone_elems (v # vs) vs' =
     cloneValue v (case vs' of [] \<Rightarrow> v | v' # _ \<Rightarrow> v') # clone_elems vs (drop 1 vs')"

subsection \<open>Comparison\<close>

text \<open>\<open>reflect.DeepEqual\<close>. Floats compare by value, so a NaN differs from itself, except in a slice
  compared with itself: \<open>sh\<close> says that slices the clone shares are the same memory.\<close>

definition f32_eq :: "f32 \<Rightarrow> f32 \<Rightarrow> bool" where
  "f32_eq a b \<longleftrightarrow> f64_eq (f64_of_f32 a) (f64_of_f32 b)"

definition shared_slice :: "gtype \<Rightarrow> bool" where
  "shared_slice t \<longleftrightarrow> t \<noteq> TStr \<and> t \<noteq> TFM"

lemma size_fmap [termination_simp]:
  "(k, v) \<in> set m \<Longrightarrow> size (v :: fval) < Suc (size_list (size_prod (\<lambda>x. 0) size) m)"
  by (induction m) auto

lemma size_in_fvals: "x \<in> set xs \<Longrightarrow> size (x :: fval) < size_list size xs"
  by (induction xs) auto

function deep_eq :: "bool \<Rightarrow> fval \<Rightarrow> fval \<Rightarrow> bool" where
  "deep_eq sh u v = (case u of
     FF32 a \<Rightarrow> (case v of FF32 b \<Rightarrow> f32_eq a b | _ \<Rightarrow> False)
   | FF64 a \<Rightarrow> (case v of FF64 b \<Rightarrow> f64_eq a b | _ \<Rightarrow> False)
   | FSlice t xs \<Rightarrow> (case v of
       FSlice t' ys \<Rightarrow> t = t' \<and> (sh \<and> shared_slice t \<and> xs = ys \<or>
         length xs = length ys \<and> list_all (\<lambda>(x, y). deep_eq sh x y) (zip xs ys)) | _ \<Rightarrow> False)
   | FArr t xs \<Rightarrow> (case v of
       FArr t' ys \<Rightarrow> t = t' \<and> length xs = length ys \<and> list_all (\<lambda>(x, y). deep_eq sh x y) (zip xs ys)
     | _ \<Rightarrow> False)
   | FAnys xs \<Rightarrow> (case v of
       FAnys ys \<Rightarrow> length xs = length ys \<and> list_all (\<lambda>(x, y). deep_eq sh x y) (zip xs ys) | _ \<Rightarrow> False)
   | FMap m \<Rightarrow> (case v of
       FMap m' \<Rightarrow> length m = length m' \<and>
         list_all (\<lambda>(k, x). case map_of m' k of None \<Rightarrow> False | Some y \<Rightarrow> deep_eq sh x y) m
     | _ \<Rightarrow> False)
   | FFM (Some m) \<Rightarrow> (case v of
       FFM (Some m') \<Rightarrow> length m = length m' \<and>
         list_all (\<lambda>(k, x). case map_of m' k of None \<Rightarrow> False | Some y \<Rightarrow> deep_eq sh x y) m
     | _ \<Rightarrow> False)
   | FVariant (Some (tag, x)) \<Rightarrow>
       (case v of FVariant (Some (tag', y)) \<Rightarrow> tag = tag' \<and> deep_eq sh x y | _ \<Rightarrow> False)
   | _ \<Rightarrow> u = v)"
  by pat_completeness auto
termination
  by (relation "measure (\<lambda>(sh, u, v). size u)")
     (auto simp: less_Suc_eq_le size_list_estimation' dest!: set_zip_leftD dest: size_fmap)

declare deep_eq.simps [simp del]

text \<open>\<open>valuesEqual\<close> and \<open>compareFieldMaps\<close>; \<open>changed\<close> is the loop over the fields before.\<close>

definition changed :: "(fval \<Rightarrow> fval \<Rightarrow> bool) \<Rightarrow> field_map \<Rightarrow> string \<times> fval \<Rightarrow> bool" where
  "changed eq aft e = (case e of (k, bv) \<Rightarrow> case map_of aft k of None \<Rightarrow> True | Some av \<Rightarrow> \<not> eq bv av)"

lemma changed_cong [fundef_cong]:
  "aft = aft' \<Longrightarrow> e = e' \<Longrightarrow> (\<And>y. eq (snd e') y = eq' (snd e') y) \<Longrightarrow> changed eq aft e = changed eq' aft' e'"
  by (cases e') (simp add: changed_def split: option.split)

function valuesEqual :: "bool \<Rightarrow> fval \<Rightarrow> fval \<Rightarrow> bool"
  and compareFieldMaps :: "bool \<Rightarrow> field_map option \<Rightarrow> field_map option \<Rightarrow> string list" where
  "valuesEqual sh u v = (case u of
     FBytes a \<Rightarrow> u = v
   | FF64 a \<Rightarrow> u = v
   | FF32 a \<Rightarrow> u = v
   | FFM m \<Rightarrow> (case v of FFM m' \<Rightarrow> compareFieldMaps sh m m' = [] | _ \<Rightarrow> False)
   | FMap m \<Rightarrow> (case v of
       FMap m' \<Rightarrow> length m = length m' \<and> list_all (\<lambda>e. \<not> changed (valuesEqual sh) m' e) m | _ \<Rightarrow> False)
   | FSlice t xs \<Rightarrow>
       (if t = TFM then (case v of
          FSlice t' ys \<Rightarrow> t' = TFM \<and> length xs = length ys \<and> list_all (\<lambda>(x, y). valuesEqual sh x y) (zip xs ys)
        | _ \<Rightarrow> False)
        else deep_eq sh u v)
   | _ \<Rightarrow> deep_eq sh u v)"
| "compareFieldMaps sh before after =
     (case before of
        None \<Rightarrow> (case after of None \<Rightarrow> [] | Some _ \<Rightarrow> [''<nil>''])
      | Some bef \<Rightarrow>
          (case after of
             None \<Rightarrow> [''<nil>'']
           | Some aft \<Rightarrow>
               map fst (filter (changed (valuesEqual sh) aft) bef) @
               map fst (filter (\<lambda>(k, v). map_of bef k = None) aft)))"
  by pat_completeness auto
termination valuesEqual
  by (relation "measure (case_sum (\<lambda>(sh, u, v). 2 * size u) (\<lambda>(sh, b, a). 2 * size (FFM b) - 1))")
     (auto dest!: set_zip_leftD dest: size_fmap size_in_fvals)

declare valuesEqual.simps [simp del]
declare compareFieldMaps.simps [simp del]

subsection \<open>Zero-copy detection\<close>

definition xorFlip :: "bytes \<Rightarrow> bytes" where
  "xorFlip buf = map (\<lambda>b. xor b 0xFF) buf"

definition detectInputMutation :: "bytes \<Rightarrow> bytes \<Rightarrow> bool" where
  "detectInputMutation before current \<longleftrightarrow> before \<noteq> current"

definition bytes_or_string :: "fval \<Rightarrow> bool" where
  "bytes_or_string v = (case v of FStr _ \<Rightarrow> True | FBytes _ \<Rightarrow> True | _ \<Rightarrow> False)"

definition hasStringOrBytesInSlice :: "fval list \<Rightarrow> bool" where
  "hasStringOrBytesInSlice x \<longleftrightarrow> list_ex bytes_or_string x"

definition hasBytesOrStringValue :: "fval gomap \<Rightarrow> bool" where
  "hasBytesOrStringValue x \<longleftrightarrow> list_ex (\<lambda>(k, v). bytes_or_string v) x"

text \<open>The fields \<open>collectFieldSnaps\<close> takes a snapshot of as a whole.\<close>

definition snapped :: "fval \<Rightarrow> bool" where
  "snapped v = (case v of
     FBytes _ \<Rightarrow> True
   | FStr _ \<Rightarrow> True
   | FSlice t _ \<Rightarrow> t = TStr
   | FAnys vs \<Rightarrow> hasStringOrBytesInSlice vs
   | FMap m \<Rightarrow> hasBytesOrStringValue m
   | FVariant (Some (tag, x)) \<Rightarrow> bytes_or_string x
   | _ \<Rightarrow> False)"

text \<open>Collecting the snapshots of a FieldMap reading \<open>m\<close>, flipping the buffer (the same FieldMap then
  reads \<open>m'\<close>), comparing and putting the snapshots back, in one walk: the names of the aliased fields
  and the FieldMap afterwards. Only a snapshot is put back; a nested FieldMap is walked in place.\<close>

fun probe_value :: "fval \<Rightarrow> fval \<Rightarrow> string list \<times> fval"
  and probe_fields :: "field_map \<Rightarrow> field_map \<Rightarrow> string list \<times> field_map"
  and probe_elems :: "fval list \<Rightarrow> fval list \<Rightarrow> string list \<times> fval list"
  and probe_entries :: "fval gomap \<Rightarrow> fval gomap \<Rightarrow> string list \<times> fval gomap" where
  "probe_value (FFM (Some m)) v' =
     (case probe_fields m (case v' of FFM (Some m') \<Rightarrow> m' | _ \<Rightarrow> m) of (ns, m2) \<Rightarrow> (ns, FFM (Some m2)))"
| "probe_value (FSlice t vs) v' =
     (if t = TFM then
        (case probe_elems vs (case v' of FSlice _ vs' \<Rightarrow> vs' | _ \<Rightarrow> vs) of (ns, vs2) \<Rightarrow> (ns, FSlice t vs2))
      else ([], v'))"
| "probe_value (FAnys vs) v' =
     (case probe_elems vs (case v' of FAnys vs' \<Rightarrow> vs' | _ \<Rightarrow> vs) of (ns, vs2) \<Rightarrow> (ns, FAnys vs2))"
| "probe_value (FMap m) v' =
     (case probe_entries m (case v' of FMap m' \<Rightarrow> m' | _ \<Rightarrow> m) of (ns, m2) \<Rightarrow> (ns, FMap m2))"
| "probe_value (FVariant (Some (tag, x))) v' =
     (let x' = (case v' of FVariant (Some (_, x')) \<Rightarrow> x' | _ \<Rightarrow> x) in
      case x of
        FFM (Some m) \<Rightarrow>
          (case probe_fields m (case x' of FFM (Some m') \<Rightarrow> m' | _ \<Rightarrow> m) of
             (ns, m2) \<Rightarrow> (ns, FVariant (Some (tag, FFM (Some m2)))))
      | _ \<Rightarrow> ([], FVariant (Some (tag, x'))))"
| "probe_value v v' = ([], v')"
| "probe_fields [] m' = ([], [])"
| "probe_fields ((k, v) # m) m' =
     (let v' = (case map_of m' k of None \<Rightarrow> v | Some x \<Rightarrow> x) in
      case probe_fields m m' of (ns, m2) \<Rightarrow>
      if snapped v then
        (let orig = cloneValue v v' in
         (if valuesEqual True v' orig then ns else k # ns, (k, orig) # m2))
      else (case probe_value v v' of (ns1, v2) \<Rightarrow> (ns1 @ ns, (k, v2) # m2)))"
| "probe_elems [] vs' = ([], [])"
| "probe_elems (v # vs) vs' =
     (let v' = (case vs' of [] \<Rightarrow> v | x # _ \<Rightarrow> x) in
      case probe_elems vs (drop 1 vs') of (ns, vs2) \<Rightarrow>
      (case v of
         FFM (Some m) \<Rightarrow>
           (case probe_fields m (case v' of FFM (Some m') \<Rightarrow> m' | _ \<Rightarrow> m) of
              (ns1, m2) \<Rightarrow> (ns1 @ ns, FFM (Some m2) # vs2))
       | _ \<Rightarrow> (ns, v' # vs2)))"
| "probe_entries [] m' = ([], [])"
| "probe_entries ((k, v) # m) m' =
     (let v' = (case map_of m' k of None \<Rightarrow> v | Some x \<Rightarrow> x) in
      case probe_entries m m' of (ns, m2) \<Rightarrow>
      (case v of
         FFM (Some m1) \<Rightarrow>
           (case probe_fields m1 (case v' of FFM (Some m1') \<Rightarrow> m1' | _ \<Rightarrow> m1) of
              (ns1, m3) \<Rightarrow> (ns1 @ ns, (k, FFM (Some m3)) # m2))
       | _ \<Rightarrow> (ns, (k, v') # m2)))"

definition detectZeroCopy :: "(bytes \<Rightarrow> field_map) \<Rightarrow> bytes \<Rightarrow> string list \<times> field_map" where
  "detectZeroCopy fm buf =
     (if buf = [] then ([], fm buf) else probe_fields (fm buf) (fm (xorFlip buf)))"

end
