(* ===== verification/WorkerSuite.thy ===== *)
theory WorkerSuite
  imports AuditChecks
begin

section \<open>The worker's functions (lib/go/serify/suite.go)\<close>

text \<open>
  A worker registers serializers and deserializers of any of several Go signatures. The library
  checks the signature by reflection, once, and wraps the function to one of two shapes:
  FieldMap to bytes, bytes to FieldMap.

  The functions themselves are not part of the program. They may fail, panic, keep state, change
  what they are given and return memory that something else still refers to, so they act on a memory
  \<open>'m\<close> the library hands through: a \<open>buffer\<close> is a byte slice in it, and a \<open>view\<close> a FieldMap
  or a model struct as the library sees it: \<open>v m m'\<close> are the values its fields hold in memory \<open>m\<close>, as
  they read in memory \<open>m'\<close> (two memories, because a clone taken at \<open>m\<close> keeps referring to the
  values held then). A model is seen through \<open>codec.extract\<close>, the reflection that renders a struct as
  a FieldMap.
\<close>

subsection \<open>Signatures\<close>

text \<open>Go types as far as the signatures go; which named types implement \<open>error\<close> is a parameter.\<close>

datatype rtype =
    RBytes
  | RString
  | RPtr rtype
  | RNamed string
  | RFunc "rtype list" "rtype list"

abbreviation "RFieldMap \<equiv> RPtr (RNamed ''serify.FieldMap'')"
abbreviation "RError \<equiv> RNamed ''error''"

datatype suite_error =
    ENotAFunction rtype
  | EFieldMapSerializer rtype
  | EFieldMapDeserializer rtype
  | EModelNotPointer rtype
  | EParamCount nat
  | ESerParam rtype
  | ESerReturn rtype
  | ESerSecondReturn rtype
  | ESerFirstReturn rtype
  | EReturnCount nat
  | EInPlaceParam rtype
  | EInPlaceData rtype
  | EInPlaceReturn
  | EFactoryParam rtype
  | EFactoryCount nat
  | EFactoryReturn rtype
  | EFactorySecond rtype

datatype ser_shape =
    FieldMapSer
  | ModelSer (ptrReceiver: bool) (returnsString: bool) (returnsError: bool)

datatype deser_shape =
    FieldMapDeser
  | InPlaceDeser (stringInput: bool)
  | FactoryDeser (stringInput: bool)

definition buildFieldMapSerializer :: "rtype \<Rightarrow> suite_error + ser_shape" where
  "buildFieldMapSerializer fn =
     (if fn = RFunc [RFieldMap] [RBytes, RError] then Inr FieldMapSer else Inl (EFieldMapSerializer fn))"

text \<open>The checks of \<open>buildSerializer\<close>, for the types of \<open>Type.Model\<close> (\<open>None\<close>: nil) and of the function.\<close>

definition ser_result :: "(rtype \<Rightarrow> suite_error) \<Rightarrow> rtype \<Rightarrow> suite_error + bool" where
  "ser_result err t =
     (if t = RBytes then Inr False else if t = RString then Inr True else Inl (err t))"

definition buildSerializer :: "(rtype \<Rightarrow> bool) \<Rightarrow> rtype option \<Rightarrow> rtype \<Rightarrow> suite_error + ser_shape" where
  "buildSerializer is_error model fn =
     (case fn of
        RFunc ins outs \<Rightarrow>
          (case model of
             None \<Rightarrow> buildFieldMapSerializer fn
           | Some (RPtr elem) \<Rightarrow>
               (case ins of
                  [p] \<Rightarrow>
                    if p \<noteq> RPtr elem \<and> p \<noteq> elem then Inl (ESerParam p)
                    else
                      (case outs of
                         [r] \<Rightarrow>
                           map_res (\<lambda>str. ModelSer (p = RPtr elem) str False) (ser_result ESerReturn r)
                       | [r, e] \<Rightarrow>
                           if \<not> is_error e then Inl (ESerSecondReturn e)
                           else map_res (\<lambda>str. ModelSer (p = RPtr elem) str True) (ser_result ESerFirstReturn r)
                       | _ \<Rightarrow> Inl (EReturnCount (length outs)))
                | _ \<Rightarrow> Inl (EParamCount (length ins)))
           | Some t \<Rightarrow> Inl (EModelNotPointer t))
      | _ \<Rightarrow> Inl (ENotAFunction fn))"

definition data_param :: "(rtype \<Rightarrow> suite_error) \<Rightarrow> rtype \<Rightarrow> suite_error + bool" where
  "data_param err t =
     (if t = RBytes then Inr False else if t = RString then Inr True else Inl (err t))"

definition parseDeserializer :: "(rtype \<Rightarrow> bool) \<Rightarrow> rtype option \<Rightarrow> rtype \<Rightarrow> suite_error + deser_shape" where
  "parseDeserializer is_error model fn =
     (case fn of
        RFunc ins outs \<Rightarrow>
          (case model of
             None \<Rightarrow>
               if fn = RFunc [RBytes] [RFieldMap, RError] then Inr FieldMapDeser
               else Inl (EFieldMapDeserializer fn)
           | Some (RPtr elem) \<Rightarrow>
               (case ins of
                  [p, d] \<Rightarrow>
                    if p \<noteq> RPtr elem then Inl (EInPlaceParam p)
                    else rbind (data_param EInPlaceData d) (\<lambda>str.
                      case outs of
                        [e] \<Rightarrow> if is_error e then Inr (InPlaceDeser str) else Inl EInPlaceReturn
                      | _ \<Rightarrow> Inl EInPlaceReturn)
                | [d] \<Rightarrow>
                    rbind (data_param EFactoryParam d) (\<lambda>str.
                      case outs of
                        [r, e] \<Rightarrow>
                          if r \<noteq> RPtr elem then Inl (EFactoryReturn r)
                          else if \<not> is_error e then Inl (EFactorySecond e)
                          else Inr (FactoryDeser str)
                      | _ \<Rightarrow> Inl (EFactoryCount (length outs)))
                | _ \<Rightarrow> Inl (EParamCount (length ins)))
           | Some t \<Rightarrow> Inl (EModelNotPointer t))
      | _ \<Rightarrow> Inl (ENotAFunction fn))"

text \<open>A serializer is accepted exactly when its signature is one of the documented ones: with a model
  \<open>*T\<close> it takes a \<open>*T\<close> or a \<open>T\<close> and returns bytes or a string, with or without an error; without
  one it is \<open>func(*FieldMap) ([]byte, error)\<close>. Every other function is an error, never a panic.\<close>

theorem buildSerializer_accepts:
  "(\<exists>s. buildSerializer is_error model (RFunc ins outs) = Inr s) \<longleftrightarrow>
     (case model of
        None \<Rightarrow> ins = [RFieldMap] \<and> outs = [RBytes, RError]
      | Some m \<Rightarrow> \<exists>t r. m = RPtr t \<and> (ins = [RPtr t] \<or> ins = [t]) \<and> (r = RBytes \<or> r = RString) \<and>
          (outs = [r] \<or> (\<exists>e. is_error e \<and> outs = [r, e])))"
  by (auto simp: buildSerializer_def buildFieldMapSerializer_def ser_result_def map_res_eq_Inr
      split: option.splits rtype.splits list.splits if_splits)

subsection \<open>Memory\<close>

type_synonym 'm view = "'m \<Rightarrow> 'm \<Rightarrow> field_map"

record 'm buffer =
  buf_get :: "'m \<Rightarrow> bytes"
  buf_put :: "bytes \<Rightarrow> 'm \<Rightarrow> 'm"

text \<open>What a call of a worker's function comes to.\<close>

datatype 'a outcome =
    Ret 'a
  | Fail string
  | Panic

definition flip_buffer :: "'m buffer \<Rightarrow> 'm \<Rightarrow> 'm" where
  "flip_buffer b m = buf_put b (xorFlip (buf_get b m)) m"

text \<open>A snapshot of what \<open>v\<close> holds in \<open>m\<close>, as it reads in \<open>m'\<close>.\<close>

definition snapshot_at :: "'m view \<Rightarrow> 'm \<Rightarrow> 'm \<Rightarrow> field_map" where
  "snapshot_at v m m' = snapshotFieldMap (v m m) (v m m')"

definition mutated_fields :: "'m view \<Rightarrow> 'm \<Rightarrow> 'm \<Rightarrow> string list" where
  "mutated_fields v m m' = compareFieldMaps True (Some (snapshot_at v m m')) (Some (v m' m'))"

subsection \<open>Serializers\<close>

record serializeAuditHolder =
  Enabled :: bool
  LastMutations :: "string list"
  LastOutputZC :: "string list"

definition holder_zero :: serializeAuditHolder where
  "holder_zero = \<lparr>Enabled = False, LastMutations = [], LastOutputZC = []\<rparr>"

text \<open>A registered serializer: one on the FieldMap itself, or one on the model, which
  \<open>codec.fill\<close> first makes of the FieldMap.\<close>

datatype 'm serializer =
    FieldMapSerializer "'m view \<Rightarrow> 'm \<Rightarrow> 'm \<times> 'm buffer outcome"
  | ModelSerializer "'m view \<Rightarrow> 'm \<Rightarrow> 'm \<times> 'm view outcome" "'m view \<Rightarrow> 'm \<Rightarrow> 'm \<times> 'm buffer outcome" bool

text \<open>What the wrapper records under audit after a call that began in \<open>m0\<close> and ended in \<open>m1\<close>: the
  fields the call changed, and, flipping the output and flipping it back, the fields that change
  with it. A string result is a fresh copy and is not probed.\<close>

definition record_audit ::
  "bool \<Rightarrow> 'm view \<Rightarrow> 'm buffer \<Rightarrow> 'm \<Rightarrow> serializeAuditHolder \<times> 'm \<Rightarrow> serializeAuditHolder \<times> 'm" where
  "record_audit str v b m0 hm =
     (case hm of (h, m1) \<Rightarrow>
        if \<not> Enabled h then (h, m1)
        else
          let h1 = h\<lparr>LastMutations := mutated_fields v m0 m1, LastOutputZC := []\<rparr> in
          if str \<or> buf_get b m1 = [] then (h1, m1)
          else
            let m2 = flip_buffer b m1 in
            (h1\<lparr>LastOutputZC := mutated_fields v m1 m2\<rparr>, flip_buffer b m2))"

definition serFunc ::
  "'m serializer \<Rightarrow> 'm view \<Rightarrow> serializeAuditHolder \<times> 'm \<Rightarrow> (serializeAuditHolder \<times> 'm) \<times> 'm buffer outcome" where
  "serFunc s fm hm =
     (case hm of (h, m0) \<Rightarrow>
        case s of
          FieldMapSerializer inner \<Rightarrow>
            (case inner fm m0 of
               (m1, Ret b) \<Rightarrow> (record_audit False fm b m0 (h, m1), Ret b)
             | (m1, Fail e) \<Rightarrow> ((h, m1), Fail e)
             | (m1, Panic) \<Rightarrow> ((h, m1), Panic))
        | ModelSerializer fill call str \<Rightarrow>
            (case fill fm m0 of
               (m1, Ret msg) \<Rightarrow>
                 (case call msg m1 of
                    (m2, Ret b) \<Rightarrow> (record_audit str msg b m1 (h, m2), Ret b)
                  | (m2, Fail e) \<Rightarrow> ((h, m2), Fail e)
                  | (m2, Panic) \<Rightarrow> ((h, m2), Panic))
             | (m1, Fail e) \<Rightarrow> ((h, m1), Fail e)
             | (m1, Panic) \<Rightarrow> ((h, m1), Panic)))"

subsection \<open>Deserializers\<close>

text \<open>A function that takes a string gets a copy of the input, one that takes bytes the buffer.\<close>

datatype 'm input =
    ByteInput "'m buffer"
  | StringInput bytes

definition data_input :: "bool \<Rightarrow> 'm buffer \<Rightarrow> 'm \<Rightarrow> 'm input" where
  "data_input str b m = (if str then StringInput (buf_get b m) else ByteInput b)"

text \<open>A registered deserializer. The one on the FieldMap may return nil without an error, a factory a
  nil model; \<open>new\<close> is \<open>reflect.New\<close>.\<close>

datatype 'm deserializer =
    FieldMapDeserializer "'m buffer \<Rightarrow> 'm \<Rightarrow> 'm \<times> 'm view option outcome"
  | InPlaceDeserializer "'m \<Rightarrow> 'm \<times> 'm view" "'m view \<Rightarrow> 'm input \<Rightarrow> 'm \<Rightarrow> 'm \<times> unit outcome" bool
  | FactoryDeserializer "'m input \<Rightarrow> 'm \<Rightarrow> 'm \<times> 'm view option outcome" bool

text \<open>The FieldMap made of a model by \<open>codec.extract\<close> in \<open>m\<close> keeps the values held then; extracting
  from a nil model panics.\<close>

definition extracted :: "'m view \<Rightarrow> 'm \<Rightarrow> 'm view" where
  "extracted v m = (\<lambda>_ m'. v m m')"

definition deserFunc :: "'m deserializer \<Rightarrow> 'm buffer \<Rightarrow> 'm \<Rightarrow> 'm \<times> 'm view option outcome" where
  "deserFunc d b m =
     (case d of
        FieldMapDeserializer inner \<Rightarrow> inner b m
      | InPlaceDeserializer new call str \<Rightarrow>
          (case new m of (m1, msg) \<Rightarrow>
             case call msg (data_input str b m1) m1 of
               (m2, Ret _) \<Rightarrow> (m2, Ret (Some (extracted msg m2)))
             | (m2, Fail e) \<Rightarrow> (m2, Fail e)
             | (m2, Panic) \<Rightarrow> (m2, Panic))
      | FactoryDeserializer call str \<Rightarrow>
          (case call (data_input str b m) m of
             (m1, Ret (Some msg)) \<Rightarrow> (m1, Ret (Some (extracted msg m1)))
           | (m1, Ret None) \<Rightarrow> (m1, Panic)
           | (m1, Fail e) \<Rightarrow> (m1, Fail e)
           | (m1, Panic) \<Rightarrow> (m1, Panic)))"

end
