(* ===== verification/Loop.thy ===== *)
theory Loop
  imports WorkerSuite Messages Codec
begin

section \<open>The worker's protocol loop (lib/go/serify/run.go)\<close>

text \<open>
  \<open>Run\<close> reads one JSON message per line, keeps what the last bind set up (schema, the two functions,
  the audit flag) and answers each message with one line. \<open>handle\<close> is the body of the loop: the
  state, the lines written and whether the loop goes on. A line that is no JSON object for the base
  struct is skipped without an answer.

  Scanning lines and printing JSON belong to the standard library. A panic of a worker's function, or
  of the codec, ends the process.
\<close>

subsection \<open>State and environment\<close>

record 'm parsedFormat =
  pf_serializer :: "'m serializer option"
  pf_deserializer :: "'m deserializer option"

text \<open>A format as the worker registers it: each function with its Go type, which \<open>parseTypes\<close> checks
  against the model's; \<open>Inl\<close> is the panic of a mismatch.\<close>

record 'm format =
  fmt_serializer :: "(rtype \<times> 'm serializer) option"
  fmt_deserializer :: "(rtype \<times> 'm deserializer) option"

definition parse_format :: "(rtype \<Rightarrow> bool) \<Rightarrow> rtype option \<Rightarrow> 'm format \<Rightarrow> suite_error + 'm parsedFormat" where
  "parse_format is_error model f =
     rbind (case fmt_serializer f of None \<Rightarrow> Inr None
            | Some (ty, s) \<Rightarrow> map_res (\<lambda>_. Some s) (buildSerializer is_error model ty)) (\<lambda>s.
     rbind (case fmt_deserializer f of None \<Rightarrow> Inr None
            | Some (ty, d) \<Rightarrow> map_res (\<lambda>_. Some d) (parseDeserializer is_error model ty)) (\<lambda>d.
       Inr \<lparr>pf_serializer = s, pf_deserializer = d\<rparr>))"

definition parseTypes ::
  "(rtype \<Rightarrow> bool) \<Rightarrow> (rtype option \<times> 'm format gomap) gomap \<Rightarrow> suite_error + 'm parsedFormat gomap gomap" where
  "parseTypes is_error types =
     mapM_vals (\<lambda>_ (model, formats). mapM_vals (\<lambda>_ f. parse_format is_error model f) formats) types"

text \<open>What the loop is given: the parsed suite, and of the Go runtime the texts of errors, \<open>%q\<close>, the
  JSON of values no wire type has, the allocation of a FieldMap and of a buffer, and whether slices
  of two results of a deserializer that read the same are the same memory.\<close>

record 'm lib =
  lib_types :: "'m parsedFormat gomap gomap"
  lib_go :: go_env
  lib_json :: "fval \<Rightarrow> json option"
  lib_codec_text :: "codec_error \<Rightarrow> string"
  lib_json_text :: "string \<Rightarrow> string"
  lib_hex_text :: "string \<Rightarrow> string"
  lib_quote :: "string \<Rightarrow> string"
  lib_new_map :: "field_map \<Rightarrow> 'm \<Rightarrow> 'm \<times> 'm view"
  lib_new_buf :: "bytes \<Rightarrow> 'm \<Rightarrow> 'm \<times> 'm buffer"
  lib_same :: "'m \<Rightarrow> bool"

text \<open>The variables of \<open>Run\<close>. The audit holder of a format lives as long as the loop; the current
  one is named by type and format.\<close>

record 'm loop =
  lo_schema :: "schema_field list"
  lo_serialize :: "'m serializer option"
  lo_deserialize :: "'m deserializer option"
  lo_audit :: bool
  lo_holder :: "(string \<times> string) option"
  lo_holders :: "((string \<times> string) \<times> serializeAuditHolder) list"
  lo_mem :: 'm

definition loop_start :: "'m \<Rightarrow> 'm loop" where
  "loop_start m = \<lparr>lo_schema = [], lo_serialize = None, lo_deserialize = None, lo_audit = False,
     lo_holder = None, lo_holders = [], lo_mem = m\<rparr>"

definition current_holder :: "'m loop \<Rightarrow> serializeAuditHolder" where
  "current_holder st =
     (case lo_holder st of
        None \<Rightarrow> holder_zero
      | Some k \<Rightarrow> (case map_of (lo_holders st) k of None \<Rightarrow> holder_zero | Some h \<Rightarrow> h))"

definition put_holder :: "serializeAuditHolder \<Rightarrow> 'm loop \<Rightarrow> 'm loop" where
  "put_holder h st =
     (case lo_holder st of
        None \<Rightarrow> st
      | Some k \<Rightarrow> st\<lparr>lo_holders := AList.update k h (lo_holders st)\<rparr>)"

text \<open>The lines written by one message (\<open>None\<close> is a blank line: \<open>json.Marshal\<close> failed), and what
  becomes of the loop.\<close>

datatype run_status = Running | Exited | Crashed

type_synonym 'm reaction = "'m loop \<times> json option list \<times> run_status"

definition reply :: "'m loop \<Rightarrow> json option \<Rightarrow> 'm reaction" where
  "reply st j = (st, [j], Running)"

definition crash :: "'m loop \<Rightarrow> 'm reaction" where
  "crash st = (st, [], Crashed)"

definition emitErr :: "'m loop \<Rightarrow> string option \<Rightarrow> string \<Rightarrow> string \<Rightarrow> string \<Rightarrow> 'm reaction" where
  "emitErr st i op stat msg =
     reply st (Some (JObj ([(''op'', JStr op), (''status'', JStr stat), (''error'', JStr msg)] @
       (case i of None \<Rightarrow> [] | Some x \<Rightarrow> [(''id'', JStr x)]))))"

definition emitSkip :: "'m loop \<Rightarrow> 'm reaction" where
  "emitSkip st =
     reply (st\<lparr>lo_serialize := None, lo_deserialize := None, lo_holder := None\<rparr>)
       (Some (JObj [(''op'', JStr OpBind), (''status'', JStr StatusSKIPPED)]))"

text \<open>The answer in a direction the bound format has no function for.\<close>

definition unbound :: "'m loop \<Rightarrow> string \<Rightarrow> string \<Rightarrow> bool \<Rightarrow> string \<Rightarrow> 'm reaction" where
  "unbound st i op other msg =
     (if other then
        reply st (Some (JObj [(''id'', JStr i), (''op'', JStr op), (''status'', JStr StatusSKIPPED),
          (''reason'', JStr ''direction not registered'')]))
      else emitErr st (Some i) op StatusERROR msg)"

text \<open>A codec error is an error return, except a nil dereference, which ends the process.\<close>

fun panics :: "codec_error \<Rightarrow> bool" where
  "panics CPanic = True"
| "panics (CAtField k e) = panics e"
| "panics (CAtIndex i e) = panics e"
| "panics (CAtKey k e) = panics e"
| "panics (CAtVariant k e) = panics e"
| "panics e = False"

definition codec_failed :: "'m lib \<Rightarrow> 'm loop \<Rightarrow> string \<Rightarrow> string \<Rightarrow> codec_error \<Rightarrow> 'm reaction" where
  "codec_failed L st i op e =
     (if panics e then crash st else emitErr st (Some i) op StatusERROR (lib_codec_text L e))"

subsection \<open>Ping and bind\<close>

definition on_ping :: "'m loop \<Rightarrow> 'm reaction" where
  "on_ping st =
     reply st (Some (JObj [(''op'', JStr OpPing), (''status'', JStr StatusOK),
       (''protocol_version'', JNum (f64_of_int ProtocolVersion))]))"

text \<open>The struct of a bind message.\<close>

definition bind_msg :: "json gomap \<Rightarrow> string + schema_field list \<times> string \<times> string \<times> bool" where
  "bind_msg m =
     rbind (un_field [] schema_of m ''schema'') (\<lambda>schema.
     rbind (un_str m ''type'') (\<lambda>ty.
     rbind (un_str m ''format'') (\<lambda>fmt.
     rbind (un_bool m ''audit'') (\<lambda>audit.
       Inr (schema, ty, fmt, audit)))))"

text \<open>The functions of a format become the current ones; the holder of its serializer takes the audit
  flag.\<close>

definition bind_format :: "string \<Rightarrow> string \<Rightarrow> 'm parsedFormat \<Rightarrow> bool \<Rightarrow> 'm loop \<Rightarrow> 'm loop" where
  "bind_format ty fmt bf audit st =
     (let st1 = st\<lparr>lo_serialize := pf_serializer bf, lo_deserialize := pf_deserializer bf,
        lo_audit := audit,
        lo_holder := (if pf_serializer bf = None then None else Some (ty, fmt))\<rparr> in
      put_holder ((current_holder st1)\<lparr>Enabled := audit\<rparr>) st1)"

definition on_bind :: "'m lib \<Rightarrow> 'm loop \<Rightarrow> json gomap \<Rightarrow> 'm reaction" where
  "on_bind L st m =
     (case bind_msg m of
        Inl e \<Rightarrow> emitErr st None OpBind StatusERROR (lib_json_text L e)
      | Inr (schema, ty, fmt, audit) \<Rightarrow>
          let st1 = st\<lparr>lo_schema := schema\<rparr> in
          if ty = [] then emitErr st1 None OpBind StatusERROR ''bind requires a \"type\" field''
          else case map_of (lib_types L) ty of
            None \<Rightarrow> emitSkip st1
          | Some formats \<Rightarrow>
              if fmt = [] then emitErr st1 None OpBind StatusERROR ''bind requires a \"format\" field''
              else case map_of formats fmt of
                None \<Rightarrow> emitSkip st1
              | Some bf \<Rightarrow>
                  reply (bind_format ty fmt bf audit st1) (Some (JObj [(''op'', JStr OpBind)])))"

subsection \<open>Serialize\<close>

text \<open>Calling the bound serializer: its wrapper reads and writes the current holder.\<close>

definition call_serializer ::
  "'m serializer \<Rightarrow> 'm view \<Rightarrow> 'm loop \<Rightarrow> 'm loop \<times> 'm buffer outcome" where
  "call_serializer s fm st =
     (case serFunc s fm (current_holder st, lo_mem st) of
        ((h, m), r) \<Rightarrow> (put_holder h (st\<lparr>lo_mem := m\<rparr>), r))"

definition strs_json :: "string list \<Rightarrow> json" where
  "strs_json l = JArr (map JStr l)"

text \<open>The findings of \<open>serializeAudit\<close> after a call that returned \<open>b\<close>; \<open>None\<close> is a panic of the
  second call.\<close>

definition serializeAudit ::
  "'m serializer \<Rightarrow> 'm view \<Rightarrow> 'm buffer \<Rightarrow> 'm loop \<Rightarrow> 'm loop \<times> json gomap option" where
  "serializeAudit s fm b st =
     (let h = current_holder st;
          found = omitempty (LastMutations h = []) ''mutations'' (strs_json (LastMutations h)) @
            omitempty (LastOutputZC h = []) ''output_zero_copy_fields'' (strs_json (LastOutputZC h)) in
      case call_serializer s fm st of
        (st1, Ret b2) \<Rightarrow>
          (st1, Some (found @ omitempty (buf_get b (lo_mem st1) = buf_get b2 (lo_mem st1)) ''stable'' (JBool False)))
      | (st1, Fail e) \<Rightarrow> (st1, Some (found @ [(''stable'', JBool False)]))
      | (st1, Panic) \<Rightarrow> (st1, None))"

definition ok_reply :: "'m loop \<Rightarrow> string \<Rightarrow> string \<Rightarrow> string \<Rightarrow> json option \<Rightarrow> json gomap \<Rightarrow> 'm reaction" where
  "ok_reply st i op k v audit =
     reply st (map_option (\<lambda>j. JObj ([(''id'', JStr i), (''op'', JStr op), (''status'', JStr StatusOK), (k, j)] @
       omitempty (audit = []) ''audit'' (JObj audit))) v)"

definition on_serialize :: "'m lib \<Rightarrow> 'm loop \<Rightarrow> string \<Rightarrow> json gomap \<Rightarrow> 'm reaction" where
  "on_serialize L st i m =
     (case lo_serialize st of
        None \<Rightarrow> unbound st i OpSerialize (lo_deserialize st \<noteq> None)
          ''no serializer configured (call bind first)''
      | Some s \<Rightarrow>
          (case un_field [] obj_of m ''data'' of
             Inl e \<Rightarrow> emitErr st (Some i) OpSerialize StatusERROR (lib_json_text L e)
           | Inr data \<Rightarrow>
               (case DecodeFieldMap (lib_go L) data (lo_schema st) of
                  Inl e \<Rightarrow> codec_failed L st i OpSerialize e
                | Inr fds \<Rightarrow>
                    (case lib_new_map L fds (lo_mem st) of (mem, fm) \<Rightarrow>
                       case call_serializer s fm (st\<lparr>lo_mem := mem\<rparr>) of
                         (st1, Fail e) \<Rightarrow> emitErr st1 (Some i) OpSerialize StatusERROR e
                       | (st1, Panic) \<Rightarrow> crash st1
                       | (st1, Ret b) \<Rightarrow>
                           (case (if lo_audit st1 then serializeAudit s fm b st1 else (st1, Some [])) of
                              (st2, None) \<Rightarrow> crash st2
                            | (st2, Some audit) \<Rightarrow>
                                ok_reply st2 i OpSerialize ''hex''
                                  (Some (JStr (hex_encode (buf_get b (lo_mem st2))))) audit)))))"

subsection \<open>Deserialize\<close>

definition call_deserializer ::
  "'m lib \<Rightarrow> 'm deserializer \<Rightarrow> bytes \<Rightarrow> 'm loop \<Rightarrow> 'm loop \<times> 'm buffer \<times> 'm view option outcome" where
  "call_deserializer L d bs st =
     (case lib_new_buf L bs (lo_mem st) of (m0, buf) \<Rightarrow>
        case deserFunc d buf m0 of (m1, r) \<Rightarrow> (st\<lparr>lo_mem := m1\<rparr>, buf, r))"

text \<open>What a FieldMap holds now.\<close>

definition view_now :: "'m view option \<Rightarrow> 'm \<Rightarrow> field_map option" where
  "view_now v m = map_option (\<lambda>f. f m m) v"

text \<open>\<open>deserializeAudit\<close> of the result \<open>fm\<close> read from \<open>buf\<close>, which first held \<open>bs\<close>: the findings
  (\<open>None\<close>: the second call panicked) and what the FieldMap holds afterwards, the zero-copy probe
  having put the snapshots of its fields in place.\<close>

definition zero_copy_probe :: "'m view option \<Rightarrow> 'm buffer \<Rightarrow> 'm \<Rightarrow> string list \<times> field_map option" where
  "zero_copy_probe fm buf m =
     (case fm of
        None \<Rightarrow> ([], None)
      | Some f \<Rightarrow>
          (case detectZeroCopy (\<lambda>b. let m' = buf_put buf b m in f m' m') (buf_get buf m) of
             (names, fds) \<Rightarrow> (names, Some fds)))"

definition deserializeAudit ::
  "'m lib \<Rightarrow> 'm deserializer \<Rightarrow> 'm view option \<Rightarrow> 'm buffer \<Rightarrow> bytes \<Rightarrow> 'm loop
    \<Rightarrow> 'm loop \<times> json gomap option \<times> field_map option" where
  "deserializeAudit L d fm buf bs st =
     (let mutated = omitempty (\<not> detectInputMutation bs (buf_get buf (lo_mem st))) ''input_mutated'' (JBool True) in
      case call_deserializer L d bs st of
        (st1, buf2, Panic) \<Rightarrow> (st1, None, None)
      | (st1, buf2, r) \<Rightarrow>
          let m = lo_mem st1;
              unstable = (case r of
                Ret fm2 \<Rightarrow> compareFieldMaps (lib_same L m) (view_now fm m) (view_now fm2 m) \<noteq> []
              | _ \<Rightarrow> True) in
          (case zero_copy_probe fm buf m of
             (names, fds) \<Rightarrow>
               (st1\<lparr>lo_mem := (if buf_get buf m = [] then m else flip_buffer buf m)\<rparr>,
                Some (mutated @ omitempty (\<not> unstable) ''deser_stable'' (JBool False) @
                  omitempty (names = []) ''zero_copy_fields'' (strs_json names)),
                fds)))"

text \<open>Encoding a nil FieldMap reads its fields for every schema field.\<close>

definition encode_result :: "field_map option \<Rightarrow> schema_field list \<Rightarrow> codec_error + fval gomap" where
  "encode_result fm schema =
     (case fm of
        None \<Rightarrow> if schema = [] then Inr [] else Inl CPanic
      | Some fds \<Rightarrow> EncodeFieldMap fds schema)"

definition on_deserialize :: "'m lib \<Rightarrow> 'm loop \<Rightarrow> string \<Rightarrow> json gomap \<Rightarrow> 'm reaction" where
  "on_deserialize L st i m =
     (case lo_deserialize st of
        None \<Rightarrow> unbound st i OpDeserialize (lo_serialize st \<noteq> None)
          ''no deserializer configured (call bind first)''
      | Some d \<Rightarrow>
          (case un_str m ''hex'' of
             Inl e \<Rightarrow> emitErr st (Some i) OpDeserialize StatusERROR (lib_json_text L e)
           | Inr hex \<Rightarrow>
               (case hex_decode hex of
                  None \<Rightarrow> emitErr st (Some i) OpDeserialize StatusERROR (lib_hex_text L hex)
                | Some bs \<Rightarrow>
                    (case call_deserializer L d bs st of
                       (st1, buf, Fail e) \<Rightarrow> emitErr st1 (Some i) OpDeserialize StatusERROR e
                     | (st1, buf, Panic) \<Rightarrow> crash st1
                     | (st1, buf, Ret fm) \<Rightarrow>
                         (case (if lo_audit st1 then deserializeAudit L d fm buf bs st1
                                else (st1, Some [], view_now fm (lo_mem st1))) of
                            (st2, None, _) \<Rightarrow> crash st2
                          | (st2, Some audit, fds) \<Rightarrow>
                              (case encode_result fds (lo_schema st2) of
                                 Inl e \<Rightarrow> codec_failed L st2 i OpDeserialize e
                               | Inr data \<Rightarrow>
                                   ok_reply st2 i OpDeserialize ''data'' (fval_json (lib_json L) (FMap data)) audit))))))"

subsection \<open>The loop\<close>

definition handle :: "'m lib \<Rightarrow> 'm loop \<Rightarrow> json \<Rightarrow> 'm reaction" where
  "handle L st j =
     (case (case j of JNull \<Rightarrow> Some [] | JObj m \<Rightarrow> Some m | _ \<Rightarrow> None) of
        None \<Rightarrow> (st, [], Running)
      | Some m \<Rightarrow>
          (case (un_str m ''op'', un_str m ''id'') of
             (Inr op, Inr i) \<Rightarrow>
               if op = OpPing then on_ping st
               else if op = OpBind then on_bind L st m
               else if op = OpSerialize then on_serialize L st i m
               else if op = OpDeserialize then on_deserialize L st i m
               else if op = OpExit then (st, [], Exited)
               else emitErr st (Some i) op StatusERROR (''unknown op '' @ lib_quote L op)
           | _ \<Rightarrow> (st, [], Running)))"

text \<open>A line of the input: blank, no JSON, a document, or too long for the scanner, which then
  stops.\<close>

datatype input_line = BlankLine | NotJSON | Document json | TooLong

fun Run_loop :: "'m lib \<Rightarrow> 'm loop \<Rightarrow> input_line list \<Rightarrow> json option list \<times> run_status" where
  "Run_loop L st [] = ([], Exited)"
| "Run_loop L st (l # ls) =
     (case l of
        TooLong \<Rightarrow> ([], Exited)
      | Document j \<Rightarrow>
          (case handle L st j of
             (st1, out, Running) \<Rightarrow> (case Run_loop L st1 ls of (out2, r) \<Rightarrow> (out @ out2, r))
           | (st1, out, r) \<Rightarrow> (out, r))
      | _ \<Rightarrow> Run_loop L st ls)"

end
