(* ===== verification/AuditProofs.thy ===== *)
theory AuditProofs
  imports AuditChecks
begin

section \<open>What the audit checks report\<close>

text \<open>
  A field the worker left alone is not reported, unless it holds a NaN inside a container; a field
  that reads from the buffer is; a slice of numbers changed in place is missed, the snapshot sharing
  its memory.
\<close>

subsection \<open>A clone of an unchanged value\<close>

function fval_wf :: "fval \<Rightarrow> bool" where
  "fval_wf v = (case v of
     FSlice t xs \<Rightarrow> list_all fval_wf xs
   | FArr t xs \<Rightarrow> list_all fval_wf xs
   | FAnys xs \<Rightarrow> list_all fval_wf xs
   | FMap m \<Rightarrow> map_wf m \<and> list_all (\<lambda>(k, x). fval_wf x) m
   | FFM (Some m) \<Rightarrow> map_wf m \<and> list_all (\<lambda>(k, x). fval_wf x) m
   | FVariant (Some (tag, x)) \<Rightarrow> fval_wf x
   | _ \<Rightarrow> True)"
  by pat_completeness auto
termination
  by (relation "measure size") (auto dest: size_fmap size_in_fvals)

declare fval_wf.simps [simp del]

text \<open>No NaN where \<open>reflect.DeepEqual\<close> compares; a slice of floats of its own is the same memory.\<close>

function nan_free :: "fval \<Rightarrow> bool" where
  "nan_free v = (case v of
     FF64 x \<Rightarrow> \<not> is_nan64 x
   | FF32 x \<Rightarrow> \<not> is_nan64 (f64_of_f32 x)
   | FSlice t xs \<Rightarrow> shared_slice t \<or> list_all nan_free xs
   | FArr t xs \<Rightarrow> list_all nan_free xs
   | FAnys xs \<Rightarrow> list_all nan_free xs
   | FMap m \<Rightarrow> list_all (\<lambda>(k, x). nan_free x) m
   | FFM (Some m) \<Rightarrow> list_all (\<lambda>(k, x). nan_free x) m
   | FVariant (Some (tag, x)) \<Rightarrow> nan_free x
   | _ \<Rightarrow> True)"
  by pat_completeness auto
termination
  by (relation "measure size") (auto dest: size_fmap size_in_fvals)

declare nan_free.simps [simp del]

text \<open>What \<open>valuesEqual\<close> finds equal to itself: its own float comparison is by bit pattern.\<close>

function quiet :: "fval \<Rightarrow> bool" where
  "quiet v = (case v of
     FF64 x \<Rightarrow> True
   | FF32 x \<Rightarrow> True
   | FFM (Some m) \<Rightarrow> list_all (\<lambda>(k, x). quiet x) m
   | FMap m \<Rightarrow> list_all (\<lambda>(k, x). quiet x) m
   | FSlice t xs \<Rightarrow> if t = TFM then list_all quiet xs else nan_free v
   | _ \<Rightarrow> nan_free v)"
  by pat_completeness auto
termination
  by (relation "measure size") (auto dest: size_fmap size_in_fvals)

declare quiet.simps [simp del]

lemma map_of_wf: "map_wf m \<Longrightarrow> (k, v) \<in> set m \<Longrightarrow> map_of m k = Some v"
  by (simp add: map_wf_def)

lemma deep_eq_refl: "fval_wf v \<Longrightarrow> nan_free v \<Longrightarrow> deep_eq True v v"
proof (induction "size v" arbitrary: v rule: less_induct)
  case less
  have elems: "length xs = length xs \<and> list_all (\<lambda>(x, y). deep_eq True x y) (zip xs xs)"
    if "\<forall>x \<in> set xs. size x < size v" "list_all fval_wf xs" "list_all nan_free xs" for xs
    using that less.hyps by (auto simp: list_all_iff zip_same_conv_map)
  have entries: "list_all (\<lambda>(k, x). case map_of m k of None \<Rightarrow> False | Some y \<Rightarrow> deep_eq True x y) m"
    if "\<forall>(k, x) \<in> set m. size x < size v" "map_wf m" "list_all (\<lambda>(k, x). fval_wf x) m"
      "list_all (\<lambda>(k, x). nan_free x) m" for m
  proof -
    have "deep_eq True x x" if "(k, x) \<in> set m" for k x
      using that \<open>\<forall>(k, x) \<in> set m. _ k x\<close> \<open>list_all (\<lambda>(k, x). fval_wf x) m\<close> \<open>list_all (\<lambda>(k, x). nan_free x) m\<close>
      by (intro less.hyps) (auto simp: list_all_iff)
    with \<open>map_wf m\<close> show ?thesis by (auto simp: list_all_iff map_of_wf)
  qed
  note s = less.prems [unfolded fval_wf.simps [of v] nan_free.simps [of v]]
  show ?case
  proof (cases v)
    case (FSlice t xs)
    have "\<forall>x \<in> set xs. size x < size v" using FSlice by (auto dest: size_in_fvals)
    from elems [OF this] s FSlice show ?thesis by (auto simp: deep_eq.simps [of True "FSlice t xs"])
  next
    case (FArr t xs)
    have "\<forall>x \<in> set xs. size x < size v" using FArr by (auto dest: size_in_fvals)
    from elems [OF this] s FArr show ?thesis by (auto simp: deep_eq.simps [of True "FArr t xs"])
  next
    case (FAnys xs)
    have "\<forall>x \<in> set xs. size x < size v" using FAnys by (auto dest: size_in_fvals)
    from elems [OF this] s FAnys show ?thesis by (auto simp: deep_eq.simps [of True "FAnys xs"])
  next
    case (FMap m)
    have "\<forall>(k, x) \<in> set m. size x < size v" using FMap by (auto dest: size_fmap)
    from entries [OF this] s FMap show ?thesis by (auto simp: deep_eq.simps [of True "FMap m"])
  next
    case (FFM o1)
    show ?thesis
    proof (cases o1)
      case (Some m)
      have "\<forall>(k, x) \<in> set m. size x < size v" using FFM Some by (auto dest: size_fmap)
      from entries [OF this] s FFM Some show ?thesis by (auto simp: deep_eq.simps [of True "FFM (Some m)"])
    qed (simp add: FFM deep_eq.simps)
  next
    case (FVariant o1)
    show ?thesis
    proof (cases o1)
      case (Some p)
      obtain tag x where "p = (tag, x)" by (cases p)
      with Some FVariant have v: "v = FVariant (Some (tag, x))" by simp
      with s less.hyps [of x] have "deep_eq True x x" by simp
      with v show ?thesis by (simp add: deep_eq.simps [of True "FVariant (Some (tag, x))"])
    qed (simp add: FVariant deep_eq.simps)
  qed (use s in \<open>simp_all add: deep_eq.simps f64_eq_def f32_eq_def\<close>)
qed

lemma not_changed_self:
  "map_wf m \<Longrightarrow> (\<And>k x. (k, x) \<in> set m \<Longrightarrow> eq x x) \<Longrightarrow> e \<in> set m \<Longrightarrow> \<not> changed eq m e"
  by (cases e) (auto simp: changed_def map_of_wf)

lemma compare_self:
  assumes "map_wf m" and "\<And>k x. (k, x) \<in> set m \<Longrightarrow> valuesEqual True x x"
  shows "compareFieldMaps True (Some m) (Some m) = []"
proof -
  have "filter (changed (valuesEqual True) m) m = []"
    unfolding filter_empty_conv using not_changed_self [of m "valuesEqual True"] assms by blast
  moreover have "filter (\<lambda>(k, v). map_of m k = None) m = []"
    unfolding filter_empty_conv by (auto simp: map_of_eq_None_iff rev_image_eqI)
  ultimately show ?thesis by (simp add: compareFieldMaps.simps)
qed

lemma valuesEqual_refl: "fval_wf v \<Longrightarrow> quiet v \<Longrightarrow> valuesEqual True v v"
proof (induction "size v" arbitrary: v rule: less_induct)
  case less
  note s = less.prems [unfolded fval_wf.simps [of v] quiet.simps [of v]]
  show ?case
  proof (cases v)
    case (FSlice t xs)
    have "\<forall>x \<in> set xs. size x < size v" using FSlice by (auto dest: size_in_fvals)
    with s FSlice less.hyps have "t = TFM \<Longrightarrow> list_all (\<lambda>(x, y). valuesEqual True x y) (zip xs xs)"
      by (auto simp: list_all_iff zip_same_conv_map)
    moreover have "t \<noteq> TFM \<Longrightarrow> deep_eq True v v" using FSlice s less.prems(1) by (auto intro: deep_eq_refl)
    ultimately show ?thesis using FSlice by (simp add: valuesEqual.simps [of True "FSlice t xs"])
  next
    case (FMap m)
    have "\<forall>(k, x) \<in> set m. size x < size v" using FMap by (auto dest: size_fmap)
    with s FMap less.hyps have "\<And>k x. (k, x) \<in> set m \<Longrightarrow> valuesEqual True x x" by (force simp: list_all_iff)
    with s FMap not_changed_self [of m "valuesEqual True"] show ?thesis
      by (simp add: valuesEqual.simps [of True "FMap m"] list_all_iff)
  next
    case (FFM o1)
    show ?thesis
    proof (cases o1)
      case (Some m)
      have "\<forall>(k, x) \<in> set m. size x < size v" using FFM Some by (auto dest: size_fmap)
      with s FFM Some less.hyps have "\<And>k x. (k, x) \<in> set m \<Longrightarrow> valuesEqual True x x" by (force simp: list_all_iff)
      with s FFM Some compare_self [of m] show ?thesis by (simp add: valuesEqual.simps [of True "FFM (Some m)"])
    qed (simp add: FFM valuesEqual.simps compareFieldMaps.simps)
  qed (use s less.prems deep_eq_refl [of v] in \<open>simp_all add: valuesEqual.simps\<close>)
qed

lemma clone_same:
  "fval_wf v \<Longrightarrow> cloneValue v v = v"
proof (induction "size v" arbitrary: v rule: less_induct)
  case less
  note s = less.prems [unfolded fval_wf.simps [of v]]
  have snap: "snapshotFieldMap m1 m = m1"
    if "set m1 \<subseteq> set m" "\<forall>(k, x) \<in> set m. size x < size v" "map_wf m" "list_all (\<lambda>(k, x). fval_wf x) m" for m1 m
    using that
  proof (induction m1)
    case (Cons e m1)
    obtain k x where e: "e = (k, x)" by (cases e)
    with Cons.prems have "cloneValue x x = x" by (intro less.hyps) (auto simp: list_all_iff)
    moreover have "map_of m k = Some x" using Cons.prems e by (simp add: map_of_wf)
    ultimately show ?case using Cons e by simp
  qed simp
  have elems: "clone_elems xs xs = xs"
    if "\<forall>x \<in> set xs. size x < size v" "list_all fval_wf xs" for xs
    using that
  proof (induction xs)
    case (Cons x xs)
    then have "cloneValue x x = x" by (intro less.hyps) auto
    with Cons show ?case by simp
  qed simp
  show ?case
  proof (cases v)
    case (FSlice t xs)
    have "\<forall>x \<in> set xs. size x < size v" using FSlice by (auto dest: size_in_fvals)
    from elems [OF this] s FSlice show ?thesis by simp
  next
    case (FAnys xs)
    have "\<forall>x \<in> set xs. size x < size v" using FAnys by (auto dest: size_in_fvals)
    from elems [OF this] s FAnys show ?thesis by simp
  next
    case (FMap m)
    have "\<forall>(k, x) \<in> set m. size x < size v" using FMap by (auto dest: size_fmap)
    from snap [OF subset_refl this] s FMap show ?thesis by simp
  next
    case (FFM o1)
    show ?thesis
    proof (cases o1)
      case (Some m)
      have "\<forall>(k, x) \<in> set m. size x < size v" using FFM Some by (auto dest: size_fmap)
      from snap [OF subset_refl this] s FFM Some show ?thesis by simp
    qed (simp add: FFM)
  next
    case (FVariant o1)
    show ?thesis
    proof (cases o1)
      case (Some p)
      then show ?thesis using s FVariant less.hyps [of "snd p"] by (cases p) simp
    qed (simp add: FVariant)
  qed simp_all
qed

lemma snapshot_same: "fval_wf (FFM (Some m)) \<Longrightarrow> snapshotFieldMap m m = m"
  using clone_same [of "FFM (Some m)"] by simp

lemma unchanged_fields:
  assumes "fval_wf (FFM (Some m))" and "quiet (FFM (Some m))"
  shows "compareFieldMaps True (Some (snapshotFieldMap m m)) (Some m) = []"
proof -
  have "map_wf m" "\<And>k x. (k, x) \<in> set m \<Longrightarrow> valuesEqual True x x"
    using assms by (auto simp: fval_wf.simps [of "FFM (Some m)"] quiet.simps [of "FFM (Some m)"] list_all_iff
        intro: valuesEqual_refl)
  then show ?thesis by (simp add: snapshot_same [OF assms(1)] compare_self)
qed

text \<open>C26. The audit raises no false mutation warning: when a worker leaves a FieldMap as it was, comparing
  it with its snapshot reports nothing, provided no container in it that is compared by
  \<open>reflect.DeepEqual\<close> holds a NaN (a NaN that is itself a field, or an entry of a map or of
  a nested FieldMap, is compared by its bits).\<close>

theorem unchanged_not_reported:
  assumes "fval_wf (FFM (Some m))" and "quiet (FFM (Some m))"
  shows "compareFieldMaps True (Some (snapshotFieldMap m m)) (Some m) = []"
  by (rule unchanged_fields [OF assms])

definition nan_field :: field_map where
  "nan_field = [(''x'', FF64 0x7FF8000000000001), (''m'', FMap [(''y'', FF32 0x7FC00000)])]"

theorem unchanged_not_reported_witness:
  "compareFieldMaps True (Some (snapshotFieldMap nan_field nan_field)) (Some nan_field) = []"
  by (rule unchanged_not_reported)
     (simp_all add: nan_field_def fval_wf.simps quiet.simps map_wf_def)

text \<open>A NaN inside a list defeats the comparison: a field holding a list with a NaN is reported as
  mutated although the worker did not touch it.\<close>

theorem nan_in_list_reported:
  assumes "is_nan64 x"
  shows "compareFieldMaps True (Some (snapshotFieldMap [(k, FAnys [FF64 x])] [(k, FAnys [FF64 x])]))
    (Some [(k, FAnys [FF64 x])]) = [k]"
  using assms by (simp add: compareFieldMaps.simps changed_def valuesEqual.simps deep_eq.simps f64_eq_def)

theorem nan_in_list_reported_witness:
  "compareFieldMaps True (Some (snapshotFieldMap [(''x'', FAnys [FF64 0x7FF8000000000000])]
      [(''x'', FAnys [FF64 0x7FF8000000000000])])) (Some [(''x'', FAnys [FF64 0x7FF8000000000000])]) = [''x'']"
  by (rule nan_in_list_reported) (simp add: is_nan64_def f64_exp_def f64_man_def)

subsection \<open>Mutation in place\<close>

text \<open>C27. A slice of numbers changed in place is not reported: the snapshot shares its memory with the
  original, so whatever numbers the serializer writes into the slice, the comparison finds
  the field unchanged.\<close>

theorem in_place_numeric_mutation_missed:
  assumes "t \<noteq> TStr" and "t \<noteq> TFM"
  shows "compareFieldMaps True
      (Some (snapshotFieldMap [(k, FSlice t before)] [(k, FSlice t aft)])) (Some [(k, FSlice t aft)]) = []"
  using assms by (simp add: compareFieldMaps.simps changed_def valuesEqual.simps deep_eq.simps shared_slice_def)

theorem in_place_numeric_mutation_missed_witness:
  "compareFieldMaps True
      (Some (snapshotFieldMap [(''counts'', FSlice TU32 [FU32 3, FU32 1])] [(''counts'', FSlice TU32 [FU32 1, FU32 3])]))
      (Some [(''counts'', FSlice TU32 [FU32 1, FU32 3])]) = []"
  by (rule in_place_numeric_mutation_missed) simp_all

subsection \<open>The overwrite test\<close>

lemma xorFlip_xorFlip: "xorFlip (xorFlip buf) = buf"
  by (simp add: xorFlip_def o_def xor.assoc)

lemma xorFlip_nth: "i < length buf \<Longrightarrow> xorFlip buf ! i = xor (buf ! i) 0xFF"
  by (simp add: xorFlip_def)

lemma length_xorFlip [simp]: "length (xorFlip buf) = length buf"
  by (simp add: xorFlip_def)

lemma xor_differs: "xor b 0xFF \<noteq> (b :: byte)"
proof
  assume "xor b 0xFF = b"
  then have "xor b (xor b 0xFF) = xor b b" by simp
  then show False by (simp add: xor.assoc [symmetric])
qed

lemma window_differs:
  assumes "i < length buf" and "0 < n"
  shows "take n (drop i (xorFlip buf)) \<noteq> take n (drop i buf)"
proof
  assume "take n (drop i (xorFlip buf)) = take n (drop i buf)"
  then have "take n (drop i (xorFlip buf)) ! 0 = take n (drop i buf) ! 0" by simp
  with assms xor_differs show False by (simp add: xorFlip_nth)
qed

lemma probe_bytes_field:
  assumes "(k, FBytes b) \<in> set m" and "map_of m' k = Some (FBytes b')" and "b' \<noteq> b"
  shows "k \<in> set (fst (probe_fields m m')) \<and> (k, FBytes b) \<in> set (snd (probe_fields m m'))"
  using assms(1)
proof (induction m)
  case (Cons e m)
  obtain k1 v1 where e: "e = (k1, v1)" by (cases e)
  obtain ns m2 where r: "probe_fields m m' = (ns, m2)" by (metis surj_pair)
  show ?case
  proof (cases "e = (k, FBytes b)")
    case True
    then show ?thesis using assms(2,3) r by (simp add: snapped_def valuesEqual.simps Let_def)
  next
    case False
    with Cons have "k \<in> set ns \<and> (k, FBytes b) \<in> set m2" by (simp add: r)
    then show ?thesis by (auto simp: e r Let_def split: prod.split)
  qed
qed simp

text \<open>Zero-copy detection catches every aliased byte field: when a field of the decoded FieldMap is
  a non-empty window into the input buffer, wherever it starts and whatever the other fields are,
  \<open>detectZeroCopy\<close> reports the field, and leaves it holding the bytes it held before the buffer
  was overwritten.\<close>

theorem aliased_bytes_detected:
  assumes "i < length buf" and "0 < n"
    and "\<And>b. length b = length buf \<Longrightarrow> map_of (fm b) k = Some (FBytes (take n (drop i b)))"
  shows "k \<in> set (fst (detectZeroCopy fm buf)) \<and>
    (k, FBytes (take n (drop i buf))) \<in> set (snd (detectZeroCopy fm buf))"
proof -
  have "(k, FBytes (take n (drop i buf))) \<in> set (fm buf)"
    using assms(3) [of buf] by (simp add: map_of_SomeD)
  moreover have "map_of (fm (xorFlip buf)) k = Some (FBytes (take n (drop i (xorFlip buf))))"
    by (rule assms(3)) simp
  ultimately show ?thesis
    using probe_bytes_field [OF _ _ window_differs [OF assms(1,2)]] assms(1) by (auto simp: detectZeroCopy_def)
qed

theorem aliased_bytes_detected_witness:
  "''payload'' \<in> set (fst (detectZeroCopy (\<lambda>b. [(''tag'', FU8 1), (''payload'', FBytes (take 2 (drop 1 b)))])
      [7, 8, 9 :: byte]))"
  using aliased_bytes_detected [of 1 "[7, 8, 9 :: byte]" 2
      "\<lambda>b. [(''tag'', FU8 1), (''payload'', FBytes (take 2 (drop 1 b)))]" "''payload''"]
  by simp

end
