(* ===== verification/LoopFacts.thy ===== *)
theory LoopFacts
  imports Loop Worker AuditProofs
begin

section \<open>What the loop answers\<close>

text \<open>
  Every request of the runner is answered by exactly one line the runner can read, unless the
  worker's own code ends the process; the bind message arrives as it was sent; a skipped bind leaves
  nothing bound.
\<close>

subsection \<open>What ends the process, and what leaves a blank line\<close>

text \<open>A serialize request ends the process only when, the request being well-formed and a serializer
  bound, the codec dereferences nil while decoding the data, or a call of the worker's own function
  panics: the first, or under audit the second one on the same FieldMap.\<close>

definition serialize_panics :: "'m lib \<Rightarrow> 'm loop \<Rightarrow> json gomap \<Rightarrow> bool" where
  "serialize_panics L st m \<longleftrightarrow>
     (case (lo_serialize st, un_field [] obj_of m ''data'') of
        (Some s, Inr data) \<Rightarrow>
          (case DecodeFieldMap (lib_go L) data (lo_schema st) of
             Inl e \<Rightarrow> panics e
           | Inr fds \<Rightarrow>
               (case lib_new_map L fds (lo_mem st) of (mem, fm) \<Rightarrow>
                case call_serializer s fm (st\<lparr>lo_mem := mem\<rparr>) of
                  (st1, Ret b) \<Rightarrow> lo_audit st1 \<and> snd (call_serializer s fm st1) = Panic
                | (st1, r) \<Rightarrow> r = Panic))
      | _ \<Rightarrow> False)"

text \<open>The bytes of a deserialize request that reach the bound deserializer.\<close>

definition deserialize_call :: "'m loop \<Rightarrow> json gomap \<Rightarrow> ('m deserializer \<times> bytes) option" where
  "deserialize_call st m =
     (case (lo_deserialize st, un_str m ''hex'') of
        (Some d, Inr hex) \<Rightarrow> map_option (Pair d) (hex_decode hex)
      | _ \<Rightarrow> None)"

text \<open>What is encoded after a first call that returned \<open>fm\<close> and left \<open>st1\<close>: the FieldMap as it reads then,
  under audit as the zero-copy probe left it; with the schema in force.\<close>

definition deserialize_encoded ::
  "'m lib \<Rightarrow> 'm deserializer \<Rightarrow> bytes \<Rightarrow> 'm view option \<Rightarrow> 'm buffer \<Rightarrow> 'm loop \<Rightarrow> codec_error + fval gomap" where
  "deserialize_encoded L d bs fm buf st1 =
     (case (if lo_audit st1 then deserializeAudit L d fm buf bs st1
            else (st1, Some [], view_now fm (lo_mem st1))) of
        (st2, _, fds) \<Rightarrow> encode_result fds (lo_schema st2))"

definition deserialize_panics :: "'m lib \<Rightarrow> 'm loop \<Rightarrow> json gomap \<Rightarrow> bool" where
  "deserialize_panics L st m \<longleftrightarrow>
     (case deserialize_call st m of
        None \<Rightarrow> False
      | Some (d, bs) \<Rightarrow>
          (case call_deserializer L d bs st of
             (st1, buf, Ret fm) \<Rightarrow>
               lo_audit st1 \<and> snd (snd (call_deserializer L d bs st1)) = Panic \<or>
               (\<exists>e. deserialize_encoded L d bs fm buf st1 = Inl e \<and> panics e)
           | (st1, buf, r) \<Rightarrow> r = Panic))"

text \<open>A blank line is written only when what the deserializer returned has been encoded and
  \<open>json.Marshal\<close> refuses it (a float that is no number in a field encoded as it is).\<close>

definition deserialize_unprintable :: "'m lib \<Rightarrow> 'm loop \<Rightarrow> json gomap \<Rightarrow> bool" where
  "deserialize_unprintable L st m \<longleftrightarrow>
     (case deserialize_call st m of
        None \<Rightarrow> False
      | Some (d, bs) \<Rightarrow>
          (case call_deserializer L d bs st of
             (st1, buf, Ret fm) \<Rightarrow>
               (case deserialize_encoded L d bs fm buf st1 of
                  Inl e \<Rightarrow> False
                | Inr data \<Rightarrow> fval_json (lib_json L) (FMap data) = None)
           | (st1, buf, r) \<Rightarrow> False))"

definition request_panics :: "'m lib \<Rightarrow> 'm loop \<Rightarrow> string \<Rightarrow> json gomap \<Rightarrow> bool" where
  "request_panics L st op m \<longleftrightarrow>
     op = OpSerialize \<and> serialize_panics L st m \<or> op = OpDeserialize \<and> deserialize_panics L st m"

definition request_unprintable :: "'m lib \<Rightarrow> 'm loop \<Rightarrow> string \<Rightarrow> json gomap \<Rightarrow> bool" where
  "request_unprintable L st op m \<longleftrightarrow> op = OpDeserialize \<and> deserialize_unprintable L st m"

subsection \<open>Readable answers\<close>

definition readable :: "string \<Rightarrow> string \<Rightarrow> json option \<Rightarrow> bool" where
  "readable op i a = (case a of None \<Rightarrow> False
     | Some j \<Rightarrow> \<exists>x. response_of j = Inr x \<and> RespOp x = op \<and> RespID x = i)"

text \<open>One readable line; none, the process ending, in the case \<open>dies\<close>; a blank one in the case \<open>blank\<close>.\<close>

definition answers_with :: "bool \<Rightarrow> bool \<Rightarrow> string \<Rightarrow> string \<Rightarrow> 'm reaction \<Rightarrow> bool" where
  "answers_with dies blank op i r = (case r of (st, out, status) \<Rightarrow>
     if dies then status = Crashed \<and> out = []
     else status = Running \<and> (\<exists>a. out = [a] \<and> (if blank then a = None else readable op i a)))"

abbreviation answered :: "string \<Rightarrow> string \<Rightarrow> 'm reaction \<Rightarrow> bool" where
  "answered op i r \<equiv> answers_with False False op i r"

lemma answers_reply [simp]:
  "answers_with dies blank op i (reply st a) \<longleftrightarrow> \<not> dies \<and> (if blank then a = None else readable op i a)"
  by (simp add: answers_with_def reply_def)

lemma answers_crash [simp]: "answers_with dies blank op i (crash st) \<longleftrightarrow> dies"
  by (simp add: answers_with_def crash_def)

lemma field_decoders [simp]:
  "str_of (JStr s) = Some s" "bool_of (JBool b) = Some b" "obj_of (JObj m) = Some m"
  "strs_of (strs_json l) = Some l" "strs_json l \<noteq> JNull"
  by (auto simp: str_of_def bool_of_def obj_of_def strs_of_def strs_json_def list_all_iff o_def)

lemma data_of_obj [simp]: "data_of (JObj m) = Some (map (\<lambda>(k, v). (k, any_of v)) m)"
  by (simp add: data_of_def)

lemma version_read [simp]: "int_of (JNum (f64_of_int ProtocolVersion)) = Some ProtocolVersion"
  by (rule int_of_small) (simp add: ProtocolVersion_def)

lemma un_field_Nil [simp]: "un_field z dec [] k = Inr z"
  by (simp add: un_field_def)

lemma emitErr_answered [simp]:
  "answered op i (emitErr st (Some i) op stat msg)" "answered op [] (emitErr st None op stat msg)"
  by (simp_all add: emitErr_def readable_def response_of_def un_field_def)

lemma emitSkip_answered [simp]: "answered OpBind [] (emitSkip st)"
  by (simp add: emitSkip_def readable_def response_of_def un_field_def)

lemma unbound_answered [simp]: "answered op i (unbound st i op b msg)"
  by (simp add: unbound_def) (simp add: readable_def response_of_def un_field_def)

lemma codec_failed_answers [simp]: "answers_with dies False op i (codec_failed L st i op e) \<longleftrightarrow> dies = panics e"
  by (cases "panics e") (simp_all add: codec_failed_def, simp add: emitErr_def readable_def response_of_def un_field_def)

lemma on_ping_answered [simp]: "answered OpPing [] (on_ping st)"
  by (simp add: on_ping_def readable_def response_of_def un_field_def)

lemma on_bind_answered [simp]: "answered OpBind [] (on_bind L st m)"
  by (auto simp: on_bind_def Let_def split: sum.splits option.splits)
     (simp add: readable_def response_of_def un_field_def)

text \<open>The audit findings of either direction.\<close>

definition audit_ok :: "json gomap \<Rightarrow> bool" where
  "audit_ok m \<longleftrightarrow> (\<exists>a. audit_of m = Inr a)"

lemma serialize_audit_ok:
  "audit_ok (omitempty b1 ''mutations'' (strs_json l1) @ omitempty b2 ''output_zero_copy_fields'' (strs_json l2) @
     omitempty b3 ''stable'' (JBool v))"
  unfolding audit_ok_def audit_of_def un_field_def by simp

lemma deserialize_audit_ok:
  "audit_ok (omitempty b1 ''input_mutated'' (JBool v1) @ omitempty b2 ''deser_stable'' (JBool v2) @
     omitempty b3 ''zero_copy_fields'' (strs_json l))"
  unfolding audit_ok_def audit_of_def un_field_def by simp

lemma audit_ok_Nil [simp]: "audit_ok []"
  unfolding audit_ok_def audit_of_def by simp

lemma serializeAudit_ok: "serializeAudit s fm b st = (st', Some audit) \<Longrightarrow> audit_ok audit"
  using serialize_audit_ok [of _ _ _ _ False False] serialize_audit_ok
  by (auto simp: serializeAudit_def Let_def omitempty_def [of False] split: prod.splits outcome.splits)

lemma deserializeAudit_ok: "deserializeAudit L d fm buf bs st = (st', Some audit, fs) \<Longrightarrow> audit_ok audit"
  using deserialize_audit_ok
  by (auto simp: deserializeAudit_def Let_def split: prod.splits outcome.splits)

lemma ok_reply_answers:
  assumes "audit_ok audit" and "k = ''hex'' \<and> (\<exists>s. v = Some (JStr s)) \<or> k = ''data'' \<and> (v = None \<or> (\<exists>m. v = Some (JObj m)))"
  shows "answers_with False (v = None) op i (ok_reply st i op k v audit)"
  using assms by (auto simp: ok_reply_def readable_def response_of_def un_field_def audit_ok_def)

lemma serializeAudit_None: "snd (serializeAudit s fm b st) = None \<longleftrightarrow> snd (call_serializer s fm st) = Panic"
  by (simp add: serializeAudit_def Let_def split: prod.split outcome.split)

lemma on_serialize_answers:
  "answers_with (serialize_panics L st m) False OpSerialize i (on_serialize L st i m)"
proof (cases "\<exists>s data fds. lo_serialize st = Some s \<and> un_field [] obj_of m ''data'' = Inr data \<and>
    DecodeFieldMap (lib_go L) data (lo_schema st) = Inr fds")
  case True
  then obtain s data fds where b: "lo_serialize st = Some s" "un_field [] obj_of m ''data'' = Inr data"
    "DecodeFieldMap (lib_go L) data (lo_schema st) = Inr fds" by blast
  obtain mem fm where n: "lib_new_map L fds (lo_mem st) = (mem, fm)" by (metis surj_pair)
  obtain st1 r where c: "call_serializer s fm (st\<lparr>lo_mem := mem\<rparr>) = (st1, r)" by (metis surj_pair)
  show ?thesis
  proof (cases r)
    case (Ret x)
    obtain st2 a where a: "serializeAudit s fm x st1 = (st2, a)" by (metis surj_pair)
    with serializeAudit_None [of s fm x st1] serializeAudit_ok [of s fm x st1] b n c Ret show ?thesis
      by (cases a) (auto simp: on_serialize_def serialize_panics_def intro!: ok_reply_answers [where v = "Some v" for v, simplified])
  qed (use b n c in \<open>simp_all add: on_serialize_def serialize_panics_def\<close>)
qed (auto simp: on_serialize_def serialize_panics_def split: sum.splits option.splits)

lemma fval_json_map: "fval_json other (FMap m) = None \<or> (\<exists>m'. fval_json other (FMap m) = Some (JObj m'))"
  by (cases "fval_json other (FMap m)") auto

lemma ok_reply_data:
  assumes "audit_ok audit"
  shows "answers_with False (fval_json other (FMap data) = None) op i
    (ok_reply st i op ''data'' (fval_json other (FMap data)) audit)"
  using fval_json_map by (intro ok_reply_answers [OF assms]) blast

lemma deserializeAudit_None:
  "fst (snd (deserializeAudit L d fm buf bs st)) = None \<longleftrightarrow> snd (snd (call_deserializer L d bs st)) = Panic"
  by (auto simp: deserializeAudit_def Let_def split: prod.split outcome.split)

lemma on_deserialize_answers:
  "answers_with (deserialize_panics L st m) (deserialize_unprintable L st m) OpDeserialize i (on_deserialize L st i m)"
proof (cases "\<exists>d hex bs. lo_deserialize st = Some d \<and> un_str m ''hex'' = Inr hex \<and> hex_decode hex = Some bs")
  case True
  then obtain d hex bs where b: "lo_deserialize st = Some d" "un_str m ''hex'' = Inr hex" "hex_decode hex = Some bs"
    by blast
  then have call: "deserialize_call st m = Some (d, bs)" by (simp add: deserialize_call_def)
  obtain st1 buf r where c: "call_deserializer L d bs st = (st1, buf, r)" by (metis surj_pair)
  show ?thesis
  proof (cases r)
    case (Ret fm)
    obtain st2 audit fds where a: "(if lo_audit st1 then deserializeAudit L d fm buf bs st1
        else (st1, Some [], view_now fm (lo_mem st1))) = (st2, audit, fds)" by (metis surj_pair)
    have dies: "audit = None \<longleftrightarrow> lo_audit st1 \<and> snd (snd (call_deserializer L d bs st1)) = Panic"
      using a deserializeAudit_None [of L d fm buf bs st1] by (auto split: if_splits)
    have enc: "deserialize_encoded L d bs fm buf st1 = encode_result fds (lo_schema st2)"
      by (simp add: deserialize_encoded_def a)
    show ?thesis
    proof (cases audit)
      case None
      with dies a b call c Ret show ?thesis by (simp add: on_deserialize_def deserialize_panics_def)
    next
      case (Some found)
      have ok: "audit_ok found" using a Some deserializeAudit_ok [of L d fm buf bs st1 st2 found fds]
        by (auto split: if_splits)
      have out: "on_deserialize L st i m =
          (case encode_result fds (lo_schema st2) of
             Inl e \<Rightarrow> codec_failed L st2 i OpDeserialize e
           | Inr data \<Rightarrow>
               ok_reply st2 i OpDeserialize ''data'' (fval_json (lib_json L) (FMap data)) found)"
        using a b c Ret Some by (simp add: on_deserialize_def)
      have P: "deserialize_panics L st m \<longleftrightarrow> (\<exists>e. encode_result fds (lo_schema st2) = Inl e \<and> panics e)"
        using call c Ret dies Some enc by (auto simp: deserialize_panics_def)
      have B: "deserialize_unprintable L st m \<longleftrightarrow>
          (\<exists>data. encode_result fds (lo_schema st2) = Inr data \<and> fval_json (lib_json L) (FMap data) = None)"
        using call c Ret enc by (simp add: deserialize_unprintable_def split: sum.split)
      show ?thesis
        unfolding out P B using ok_reply_data [OF ok]
        by (cases "encode_result fds (lo_schema st2)") (simp_all del: fval_json.simps)
    qed
  qed (use b call c in \<open>simp_all add: on_deserialize_def deserialize_panics_def deserialize_unprintable_def\<close>)
next
  case False
  then have "deserialize_call st m = None"
    by (auto simp: deserialize_call_def split: option.split sum.split)
  with False show ?thesis
    by (auto simp: on_deserialize_def deserialize_panics_def deserialize_unprintable_def split: sum.splits option.splits)
qed

subsection \<open>One answer per request\<close>

text \<open>The requests the runner makes, and their documents.\<close>

definition runner_request :: "request \<Rightarrow> bool" where
  "runner_request r \<longleftrightarrow>
     r = NewPingRequest \<or> (\<exists>sfs ty fmt audit. r = NewBindRequest sfs ty fmt audit) \<or>
     (\<exists>i data. r = NewSerializeRequest i data) \<or> (\<exists>i hex. r = NewDeserializeRequest i hex)"

lemma request_op_id:
  assumes "request_json env r = Some j"
  shows "\<exists>m. j = JObj m \<and> un_str m ''op'' = Inr (req_op r) \<and> un_str m ''id'' = Inr (extractID r)"
  using assms by (cases r) (auto simp: request_json_def extractID_def un_field_def)

text \<open>C12. Every request of the runner gets exactly one answer, and one the runner can read: whatever was
  bound before, the loop writes one line, the runner's \<open>Response\<close> decodes from it without an error, and it
  carries the op and the id of the request, so a worker built on this library is never given up for
  an answer to another request. The two exceptions are named exactly: the process ends, without a
  line, if and only if a call of the worker's own function panics (or the codec dereferences nil), which a
  ping and a bind never do; and the line is blank if and only if \<open>json.Marshal\<close> refuses what a
  deserializer returned.\<close>

theorem Run_answers_each_request:
  assumes "runner_request r" and "request_json env r = Some (JObj m)"
  shows "case handle L st (JObj m) of (st', out, status) \<Rightarrow>
    if request_panics L st (req_op r) m then status = Crashed \<and> out = []
    else status = Running \<and>
      (if request_unprintable L st (req_op r) m then out = [None]
       else \<exists>doc x. out = [Some doc] \<and> response_of doc = Inr x \<and> RespOp x = req_op r \<and> RespID x = extractID r)"
proof -
  from request_op_id [OF assms(2)] have
    m: "un_str m ''op'' = Inr (req_op r)" "un_str m ''id'' = Inr (extractID r)" by auto
  have "answers_with (request_panics L st (req_op r) m) (request_unprintable L st (req_op r) m)
      (req_op r) (extractID r) (handle L st (JObj m))"
    using assms(1) m on_serialize_answers [of L st m] on_deserialize_answers [of L st m]
    by (auto simp: runner_request_def handle_def new_request_defs extractID_def request_panics_def request_unprintable_def)
  moreover obtain st' out status where "handle L st (JObj m) = (st', out, status)" by (metis surj_pair)
  ultimately show ?thesis
    by (auto simp: answers_with_def readable_def split: if_splits option.splits)
qed

lemma bind_msg_written:
  assumes "request_json env (NewBindRequest sfs ty fmt audit) = Some (JObj m)"
  shows "bind_msg m = Inr (sfs, ty, fmt, audit)"
proof -
  have s: "mapM un_schema (map schema_json sfs) = Inr sfs"
    using mapM_Inr_map [of sfs "\<lambda>x. un_schema (schema_json x)" id] un_schema_written by (simp add: mapM_map)
  from assms have m: "m = [(''op'', JStr OpBind), (''schema'', JArr (map schema_json sfs))] @
      omitempty (ty = []) ''type'' (JStr ty) @ omitempty (fmt = []) ''format'' (JStr fmt) @
      omitempty (\<not> audit) ''audit'' (JBool audit)"
    by (simp add: request_json_def NewBindRequest_def)
  have "un_field [] schema_of m ''schema'' = Inr sfs"
    by (rule un_field_written [where b = False and j = "JArr (map schema_json sfs)"]) (simp_all add: m schema_of_def s)
  moreover have "un_str m ''type'' = Inr ty"
    by (rule un_field_written [where b = "ty = []" and j = "JStr ty"]) (simp_all add: m)
  moreover have "un_str m ''format'' = Inr fmt"
    by (rule un_field_written [where b = "fmt = []" and j = "JStr fmt"]) (simp_all add: m)
  moreover have "un_bool m ''audit'' = Inr audit"
    by (rule un_field_written [where b = "\<not> audit" and j = "JBool audit"]) (simp_all add: m)
  ultimately show ?thesis by (simp add: bind_msg_def)
qed

text \<open>C13. The bind message arrives as it was sent: the loop reads the schema, the type, the format and
  the audit flag the runner wrote, with every nested field, variant and payload.\<close>

theorem bind_message_arrives:
  assumes "request_json env (NewBindRequest sfs ty fmt audit) = Some (JObj m)"
  shows "bind_msg m = Inr (sfs, ty, fmt, audit)"
  by (rule bind_msg_written [OF assms])

theorem bind_message_arrives_witness:
  "bind_msg [(''op'', JStr ''bind''),
      (''schema'', JArr [JObj [(''name'', JStr ''id''), (''type'', JStr ''uint8'')]]),
      (''type'', JStr ''point''), (''format'', JStr ''bin''), (''audit'', JBool True)] =
   Inr ([SchemaField ''id'' ''uint8'' [] [] [] []], ''point'', ''bin'', True)"
  by (rule bind_message_arrives [of plain_env])
     (simp add: request_json_def NewBindRequest_def omitempty_def)

subsection \<open>Nothing stays bound after a skip\<close>

text \<open>A worker that skipped a bind does not run the previous type: once a bind was answered
  SKIPPED, every serialize and deserialize request is answered with an error, the worker's functions
  are not called (its memory is unchanged) and nothing is bound until another bind.\<close>

theorem skipped_bind_unbinds:
  assumes "on_bind L st m = (st1, [Some (JObj [(''op'', JStr OpBind), (''status'', JStr StatusSKIPPED)])], Running)"
  shows "on_serialize L st1 i m2 = emitErr st1 (Some i) OpSerialize StatusERROR ''no serializer configured (call bind first)'' \<and>
    on_deserialize L st1 i m2 = emitErr st1 (Some i) OpDeserialize StatusERROR ''no deserializer configured (call bind first)'' \<and>
    lo_mem st1 = lo_mem st"
  using assms
  by (auto simp: on_bind_def on_serialize_def on_deserialize_def unbound_def emitSkip_def emitErr_def reply_def Let_def
      split: sum.splits option.splits if_splits)


subsection \<open>A worker without side effects\<close>

text \<open>A library whose memory is trivial: every FieldMap and buffer is a fresh value of its own, and the
  functions of the worker are mathematical functions.\<close>

definition const_view :: "field_map \<Rightarrow> unit view" where
  "const_view fds = (\<lambda>_ _. fds)"

definition const_buffer :: "bytes \<Rightarrow> unit buffer" where
  "const_buffer bs = \<lparr>buf_get = (\<lambda>_. bs), buf_put = (\<lambda>_ m. m)\<rparr>"

definition pure_serializer :: "(field_map \<Rightarrow> bytes) \<Rightarrow> unit serializer" where
  "pure_serializer f = FieldMapSerializer (\<lambda>v m. (m, Ret (const_buffer (f (v m m)))))"

definition pure_deserializer :: "(bytes \<Rightarrow> field_map option) \<Rightarrow> unit deserializer" where
  "pure_deserializer g = FieldMapDeserializer (\<lambda>b m. (m, case g (buf_get b m) of
     None \<Rightarrow> Fail ''malformed'' | Some fds \<Rightarrow> Ret (Some (const_view fds))))"

definition pure_lib :: "unit parsedFormat gomap gomap \<Rightarrow> unit lib" where
  "pure_lib types = \<lparr>lib_types = types, lib_go = plain_env, lib_json = (\<lambda>_. None),
     lib_codec_text = (\<lambda>_. ''codec''), lib_json_text = (\<lambda>k. ''json: '' @ k), lib_hex_text = (\<lambda>_. ''hex''),
     lib_quote = id, lib_new_map = (\<lambda>fds m. (m, const_view fds)),
     lib_new_buf = (\<lambda>bs m. (m, const_buffer bs)), lib_same = (\<lambda>_. False)\<rparr>"

definition point_lib :: "unit lib" where
  "point_lib = pure_lib [(''point'', [(''bin'',
     \<lparr>pf_serializer = Some (pure_serializer (\<lambda>fds. map (\<lambda>e. case snd e of FU8 w \<Rightarrow> w | _ \<Rightarrow> 0) fds)),
      pf_deserializer = None\<rparr>)])]"

theorem skipped_bind_unbinds_witness:
  "\<exists>st1. on_bind point_lib (loop_start ()) [(''op'', JStr ''bind''), (''type'', JStr ''circle'')] =
     (st1, [Some (JObj [(''op'', JStr OpBind), (''status'', JStr StatusSKIPPED)])], Running) \<and>
     on_serialize point_lib st1 ''a'' [] =
       emitErr st1 (Some ''a'') OpSerialize StatusERROR ''no serializer configured (call bind first)''"
proof -
  obtain st1 where b: "on_bind point_lib (loop_start ()) [(''op'', JStr ''bind''), (''type'', JStr ''circle'')] =
     (st1, [Some (JObj [(''op'', JStr OpBind), (''status'', JStr StatusSKIPPED)])], Running)"
    by (simp add: on_bind_def bind_msg_def un_field_def point_lib_def pure_lib_def emitSkip_def reply_def)
  from skipped_bind_unbinds [OF b, of "''a''" "[]"] b show ?thesis by blast
qed

subsection \<open>The audit holder\<close>

text \<open>While a serializer is bound it has a holder, and the holder is enabled exactly when the bind
  asked for an audit.\<close>

definition loop_wf :: "'m loop \<Rightarrow> bool" where
  "loop_wf st \<longleftrightarrow> (lo_serialize st = None \<or>
     lo_holder st \<noteq> None \<and> Enabled (current_holder st) = lo_audit st)"

lemma current_put_holder: "lo_holder st \<noteq> None \<Longrightarrow> current_holder (put_holder h st) = h"
  by (auto simp: current_holder_def put_holder_def)

lemma put_holder_fields [simp]:
  "lo_serialize (put_holder h st) = lo_serialize st" "lo_deserialize (put_holder h st) = lo_deserialize st"
  "lo_audit (put_holder h st) = lo_audit st" "lo_holder (put_holder h st) = lo_holder st"
  "lo_schema (put_holder h st) = lo_schema st" "lo_mem (put_holder h st) = lo_mem st"
  by (auto simp: put_holder_def split: option.split)

lemma record_audit_Enabled: "record_audit str v b m0 (h, m) = (h', m') \<Longrightarrow> Enabled h' = Enabled h"
  by (auto simp: record_audit_def Let_def split: if_splits)

lemma serFunc_Enabled: "serFunc s fm (h, m) = ((h', m'), r) \<Longrightarrow> Enabled h' = Enabled h"
  by (auto simp: serFunc_def split: serializer.splits prod.splits outcome.splits dest: record_audit_Enabled)

lemma call_serializer_wf:
  assumes "call_serializer s fm st = (st', r)"
  shows "lo_serialize st' = lo_serialize st \<and> lo_deserialize st' = lo_deserialize st \<and> lo_audit st' = lo_audit st \<and>
    lo_holder st' = lo_holder st \<and> lo_schema st' = lo_schema st \<and> (loop_wf st \<longrightarrow> loop_wf st')"
proof -
  obtain h m r' where f: "serFunc s fm (current_holder st, lo_mem st) = ((h, m), r')" by (metis surj_pair)
  with assms have st': "st' = put_holder h (st\<lparr>lo_mem := m\<rparr>)" by (simp add: call_serializer_def)
  have "lo_holder st \<noteq> None \<Longrightarrow> current_holder st' = h"
    using current_put_holder [of "st\<lparr>lo_mem := m\<rparr>" h] by (simp add: st')
  with serFunc_Enabled [OF f] show ?thesis by (auto simp: loop_wf_def st')
qed

lemma call_deserializer_wf:
  "call_deserializer L d bs st = (st', buf, r) \<Longrightarrow> \<exists>m. st' = st\<lparr>lo_mem := m\<rparr>"
  by (auto simp: call_deserializer_def split: prod.splits)

lemma loop_wf_mem [simp]: "loop_wf (st\<lparr>lo_mem := m\<rparr>) = loop_wf st" "loop_wf (st\<lparr>lo_schema := sc\<rparr>) = loop_wf st"
  by (simp_all add: loop_wf_def current_holder_def split: option.split)

lemma serializeAudit_wf: "serializeAudit s fm b st = (st', a) \<Longrightarrow> loop_wf st \<Longrightarrow> loop_wf st'"
  by (auto simp: serializeAudit_def Let_def dest: call_serializer_wf split: prod.splits outcome.splits)

lemma deserializeAudit_wf: "deserializeAudit L d fm buf bs st = (st', a) \<Longrightarrow> loop_wf st \<Longrightarrow> loop_wf st'"
  by (auto simp: deserializeAudit_def Let_def dest!: call_deserializer_wf split: prod.splits outcome.splits)

lemma bind_format_wf: "loop_wf (bind_format ty fmt bf audit st)"
  by (auto simp: bind_format_def loop_wf_def Let_def current_put_holder)

lemmas replies = reply_def crash_def emitErr_def ok_reply_def codec_failed_def unbound_def

lemma emitSkip_wf [simp]: "loop_wf (fst (emitSkip st))"
  by (simp add: emitSkip_def reply_def loop_wf_def)

lemma on_bind_wf: "loop_wf st \<Longrightarrow> loop_wf (fst (on_bind L st m))"
  by (auto simp: on_bind_def replies Let_def bind_format_wf split: sum.splits option.splits)

lemma on_serialize_wf:
  assumes "loop_wf st"
  shows "loop_wf (fst (on_serialize L st i m))"
proof (cases "\<exists>s data fds. lo_serialize st = Some s \<and> un_field [] obj_of m ''data'' = Inr data \<and>
    DecodeFieldMap (lib_go L) data (lo_schema st) = Inr fds")
  case True
  then obtain s data fds where b: "lo_serialize st = Some s" "un_field [] obj_of m ''data'' = Inr data"
    "DecodeFieldMap (lib_go L) data (lo_schema st) = Inr fds" by blast
  obtain mem fm where n: "lib_new_map L fds (lo_mem st) = (mem, fm)" by (metis surj_pair)
  obtain st1 r where c: "call_serializer s fm (st\<lparr>lo_mem := mem\<rparr>) = (st1, r)" by (metis surj_pair)
  with assms have "loop_wf st1" by (auto dest: call_serializer_wf)
  then show ?thesis using b n c
    by (auto simp: on_serialize_def replies split: outcome.split option.split prod.split dest: serializeAudit_wf)
qed (use assms in \<open>auto simp: on_serialize_def replies split: sum.splits option.splits\<close>)

lemma on_deserialize_wf:
  assumes "loop_wf st"
  shows "loop_wf (fst (on_deserialize L st i m))"
proof (cases "\<exists>d hex bs. lo_deserialize st = Some d \<and> un_str m ''hex'' = Inr hex \<and> hex_decode hex = Some bs")
  case True
  then obtain d hex bs where b: "lo_deserialize st = Some d" "un_str m ''hex'' = Inr hex" "hex_decode hex = Some bs"
    by blast
  obtain st1 buf r where c: "call_deserializer L d bs st = (st1, buf, r)" by (metis surj_pair)
  with assms have "loop_wf st1" by (auto dest!: call_deserializer_wf)
  then show ?thesis using b c
    by (auto simp: on_deserialize_def replies split: outcome.split option.split prod.split sum.split
        dest: deserializeAudit_wf)
qed (use assms in \<open>auto simp: on_deserialize_def replies split: sum.splits option.splits\<close>)

lemma holder_kept: "loop_wf st \<Longrightarrow> loop_wf (fst (handle L st j))"
  by (simp add: handle_def on_ping_def on_bind_wf on_serialize_wf on_deserialize_wf reply_def emitErr_def
      split: option.split sum.split)

text \<open>Whatever the runner sends, a bound serializer has its audit holder, and the holder is enabled
  exactly when the bind in force asked for an audit: no message makes the loop audit without being
  asked, or report findings it did not record.\<close>

theorem holder_invariant: "loop_wf st \<Longrightarrow> loop_wf (fst (handle L st j))"
  by (rule holder_kept)

subsection \<open>A worker without side effects is served exactly\<close>

lemma compare_snapshot_same:
  assumes "fval_wf (FFM (Some fds))" and "quiet (FFM (Some fds))"
  shows "mutated_fields (const_view fds) m m' = []"
  using assms unchanged_fields [of fds] by (simp add: mutated_fields_def snapshot_at_def const_view_def)

lemma omitempty_bool [simp]: "omitempty True k j = []" "omitempty False k j = [(k, j)]"
  by (simp_all add: omitempty_def)

lemma pure_serFunc:
  assumes "fval_wf (FFM (Some fds))" and "quiet (FFM (Some fds))"
  shows "\<exists>h'. serFunc (pure_serializer f) (const_view fds) (h, m) = ((h', ()), Ret (const_buffer (f fds))) \<and>
    (Enabled h \<longrightarrow> LastMutations h' = [] \<and> LastOutputZC h' = [])"
  using compare_snapshot_same [OF assms]
  by (simp add: serFunc_def pure_serializer_def record_audit_def Let_def const_view_def)

lemma pure_call:
  assumes "fval_wf (FFM (Some fds))" and "quiet (FFM (Some fds))"
  obtains h where "call_serializer (pure_serializer f) (const_view fds) st =
      (put_holder h (st\<lparr>lo_mem := ()\<rparr>), Ret (const_buffer (f fds)))"
    and "Enabled (current_holder st) \<longrightarrow> LastMutations h = [] \<and> LastOutputZC h = []"
  using pure_serFunc [OF assms, of f "current_holder st" "lo_mem st"] by (auto simp: call_serializer_def)

lemma pure_audit:
  assumes "fval_wf (FFM (Some fds))" and "quiet (FFM (Some fds))"
    and "LastMutations (current_holder st) = []" and "LastOutputZC (current_holder st) = []"
  shows "snd (serializeAudit (pure_serializer f) (const_view fds) (const_buffer (f fds)) st) = Some []"
proof -
  obtain h where "call_serializer (pure_serializer f) (const_view fds) st =
      (put_holder h (st\<lparr>lo_mem := ()\<rparr>), Ret (const_buffer (f fds)))"
    using pure_call [OF assms(1,2)] by metis
  with assms(3,4) show ?thesis by (simp add: serializeAudit_def Let_def const_buffer_def)
qed

lemma pure_served:
  assumes "lo_serialize st = Some (pure_serializer f)"
    and "un_field [] obj_of m ''data'' = Inr data"
    and "DecodeFieldMap plain_env data (lo_schema st) = Inr fds"
    and "fval_wf (FFM (Some fds))" and "quiet (FFM (Some fds))" and "loop_wf st"
  shows "fst (snd (on_serialize (pure_lib types) st i m)) =
    [Some (JObj [(''id'', JStr i), (''op'', JStr OpSerialize), (''status'', JStr StatusOK),
       (''hex'', JStr (hex_encode (f fds)))])]"
proof -
  let ?st = "st\<lparr>lo_mem := ()\<rparr>"
  obtain h where c: "call_serializer (pure_serializer f) (const_view fds) ?st =
      (put_holder h ?st, Ret (const_buffer (f fds)))"
    and h: "Enabled (current_holder ?st) \<longrightarrow> LastMutations h = [] \<and> LastOutputZC h = []"
    using pure_call [OF assms(4,5), of f ?st] by auto
  let ?st1 = "put_holder h ?st"
  have "snd (serializeAudit (pure_serializer f) (const_view fds) (const_buffer (f fds)) ?st1) = Some []"
    if "lo_audit st"
  proof (rule pure_audit [OF assms(4,5)])
    from assms(1,6) that have "lo_holder ?st \<noteq> None" "Enabled (current_holder ?st)"
      by (auto simp: loop_wf_def current_holder_def split: option.splits)
    with h show "LastMutations (current_holder ?st1) = []" "LastOutputZC (current_holder ?st1) = []"
      using current_put_holder [of ?st h] by auto
  qed
  with assms(1-3) c show ?thesis
    by (auto simp: on_serialize_def pure_lib_def ok_reply_def reply_def const_buffer_def split: prod.split)
qed

text \<open>A worker without side effects is served exactly and never accused: its answer to a serialize
  request is status OK with the hex of what its function makes of the decoded data, and under audit
  no finding is added, provided no NaN sits inside a container.\<close>

theorem pure_serializer_served:
  assumes "lo_serialize st = Some (pure_serializer f)"
    and "un_field [] obj_of m ''data'' = Inr data"
    and "DecodeFieldMap plain_env data (lo_schema st) = Inr fds"
    and "fval_wf (FFM (Some fds))" and "quiet (FFM (Some fds))" and "loop_wf st"
  shows "fst (snd (on_serialize (pure_lib types) st i m)) =
    [Some (JObj [(''id'', JStr i), (''op'', JStr OpSerialize), (''status'', JStr StatusOK),
       (''hex'', JStr (hex_encode (f fds)))])]"
  by (rule pure_served [OF assms])

text \<open>A point with one coordinate, bound for audit.\<close>

definition bound_point :: "unit loop" where
  "bound_point = bind_format ''point'' ''bin''
     \<lparr>pf_serializer = Some (pure_serializer (\<lambda>fds. map (\<lambda>e. case snd e of FU8 w \<Rightarrow> w | _ \<Rightarrow> 0) fds)),
      pf_deserializer = None\<rparr> True
     ((loop_start ())\<lparr>lo_schema := [SchemaField ''x'' k_uint8 [] [] [] []]\<rparr>)"

lemma point_decoded:
  "DecodeFieldMap plain_env [(''x'', JNum (f64_of_int 7))] [SchemaField ''x'' k_uint8 [] [] [] []] = Inr [(''x'', FU8 7)]"
  by (simp add: DecodeFieldMap.simps decodeField_flat flat_names_def Scalars_def decodeScalar_kinds numFromJSON_def
      f64_to_int_def f64_trunc_of_int in_range_def int_lo_def int_hi_def NewFieldMap_def)

theorem pure_serializer_served_witness:
  "fst (snd (on_serialize (pure_lib []) bound_point ''c'' [(''data'', JObj [(''x'', JNum (f64_of_int 7))])])) =
    [Some (JObj [(''id'', JStr ''c''), (''op'', JStr OpSerialize), (''status'', JStr StatusOK),
       (''hex'', JStr (hex_encode (map (\<lambda>e. case snd e of FU8 w \<Rightarrow> w | _ \<Rightarrow> 0) [(''x'', FU8 7)])))])]"
proof (rule pure_serializer_served [where data = "[(''x'', JNum (f64_of_int 7))]"])
  show "lo_serialize bound_point = Some (pure_serializer (\<lambda>fds. map (\<lambda>e. case snd e of FU8 w \<Rightarrow> w | _ \<Rightarrow> 0) fds))"
    by (simp add: bound_point_def bind_format_def Let_def)
  show "DecodeFieldMap plain_env [(''x'', JNum (f64_of_int 7))] (lo_schema bound_point) = Inr [(''x'', FU8 7)]"
    using point_decoded by (simp add: bound_point_def bind_format_def Let_def)
  show "loop_wf bound_point" by (simp add: bound_point_def bind_format_wf)
qed (simp_all add: un_field_def fval_wf.simps quiet.simps map_wf_def nan_free.simps)

theorem holder_invariant_witness:
  "loop_wf (fst (handle point_lib bound_point (JObj [(''op'', JStr ''bind''), (''type'', JStr ''circle'')])))"
  by (rule holder_invariant) (simp add: bound_point_def bind_format_wf)

subsection \<open>Three requests\<close>

text \<open>The point bound for audit serializes; a serializer that panics ends the process.\<close>

definition bound_panic :: "unit loop" where
  "bound_panic = bound_point\<lparr>lo_serialize := Some (FieldMapSerializer (\<lambda>v m. (m, Panic)))\<rparr>"

definition serialize_message :: "json gomap" where
  "serialize_message = [(''id'', JStr ''c''), (''op'', JStr OpSerialize), (''data'', JObj [(''x'', JNum (f64_of_int 7))])]"

lemma served_point:
  "\<not> request_panics point_lib bound_point OpSerialize serialize_message"
proof -
  let ?f = "\<lambda>fds. map (\<lambda>e. case snd e of FU8 w \<Rightarrow> w | _ \<Rightarrow> 0) fds"
  have wf: "fval_wf (FFM (Some [(''x'', FU8 7)]))" "quiet (FFM (Some [(''x'', FU8 7)]))"
    by (simp_all add: fval_wf.simps quiet.simps map_wf_def nan_free.simps)
  have never: "call_serializer (pure_serializer ?f) (const_view [(''x'', FU8 7)]) st \<noteq> (st', Panic)" for st st'
    using pure_call [OF wf, of ?f st] by (metis outcome.distinct(3) snd_conv)
  then have "snd (call_serializer (pure_serializer ?f) (const_view [(''x'', FU8 7)]) st) \<noteq> Panic" for st
    by (metis prod.collapse)
  note never = this never
  have "\<not> serialize_panics point_lib bound_point serialize_message"
    using never point_decoded
    by (auto simp: serialize_panics_def serialize_message_def un_field_def point_lib_def pure_lib_def bound_point_def
        bind_format_def Let_def split: prod.split outcome.split)
  then show ?thesis by (simp add: request_panics_def)
qed

lemma panicking_point: "request_panics point_lib bound_panic OpSerialize serialize_message"
  using point_decoded
  by (simp add: request_panics_def serialize_panics_def serialize_message_def un_field_def point_lib_def pure_lib_def
      bound_panic_def bound_point_def bind_format_def Let_def call_serializer_def serFunc_def)

definition bind_message :: "json gomap" where
  "bind_message = [(''op'', JStr OpBind), (''schema'', JArr []), (''type'', JStr ''point''), (''format'', JStr ''bin'')]"

theorem Run_answers_each_request_witness:
  "(\<exists>st' doc x. handle point_lib bound_point (JObj serialize_message) = (st', [Some doc], Running) \<and>
      response_of doc = Inr x \<and> RespOp x = OpSerialize \<and> RespID x = ''c'') \<and>
   (\<exists>st'. handle point_lib bound_panic (JObj serialize_message) = (st', [], Crashed)) \<and>
   (\<exists>st' doc x. handle point_lib bound_panic (JObj bind_message) = (st', [Some doc], Running) \<and>
      response_of doc = Inr x \<and> RespOp x = OpBind)"
proof -
  have ser: "runner_request (NewSerializeRequest ''c'' [(''x'', GInt 7)])"
    "request_json plain_env (NewSerializeRequest ''c'' [(''x'', GInt 7)]) = Some (JObj serialize_message)"
    by (auto simp: runner_request_def) (simp add: request_json_def new_request_defs serialize_message_def)
  have bind: "runner_request (NewBindRequest [] ''point'' ''bin'' False)"
    "request_json plain_env (NewBindRequest [] ''point'' ''bin'' False) = Some (JObj bind_message)"
    unfolding runner_request_def by blast (simp add: request_json_def new_request_defs bind_message_def)
  note sims = new_request_defs extractID_def request_unprintable_def
  from Run_answers_each_request [OF ser, of point_lib bound_point] served_point
  have "\<exists>st' doc x. handle point_lib bound_point (JObj serialize_message) = (st', [Some doc], Running) \<and>
      response_of doc = Inr x \<and> RespOp x = OpSerialize \<and> RespID x = ''c''"
    by (auto simp: sims)
  moreover from Run_answers_each_request [OF ser, of point_lib bound_panic] panicking_point
  have "\<exists>st'. handle point_lib bound_panic (JObj serialize_message) = (st', [], Crashed)"
    by (auto simp: sims)
  moreover from Run_answers_each_request [OF bind, of point_lib bound_panic]
  have "\<exists>st' doc x. handle point_lib bound_panic (JObj bind_message) = (st', [Some doc], Running) \<and>
      response_of doc = Inr x \<and> RespOp x = OpBind"
    by (auto simp: sims request_panics_def)
  ultimately show ?thesis by blast
qed

end
