(* ===== verification/LoopProcess.thy ===== *)
theory LoopProcess
  imports LoopFacts
begin

section \<open>A worker process that runs the loop\<close>

text \<open>
  The two ends put together: the runner's worker handle on a process that runs the library's loop. A
  request written is handled at once and its answer queued on the stream; \<open>lp_events\<close> decides what
  each wait for a line sees: the next line, nothing within the timeout, the cancelled context, or
  a broken stream. A process that has ended refuses writes and its stream ends.
\<close>

datatype delivery = Deliver | Delay | Cancel string | Break string

record 'm loop_proc =
  lp_loop :: "'m loop"
  lp_status :: run_status
  lp_pending :: "(request \<times> json option) list"
  lp_broken :: bool
  lp_events :: "delivery list"

definition loop_write :: "'m lib \<Rightarrow> 'm loop_proc \<Rightarrow> request \<Rightarrow> 'm loop_proc \<times> string option" where
  "loop_write L s r =
     (case request_json (lib_go L) r of
        None \<Rightarrow> (s, Some ''json: unsupported value'')
      | Some j \<Rightarrow>
          if lp_status s \<noteq> Running then (s, Some ''broken pipe'')
          else
            (case handle L (lp_loop s) j of
               (st, out, status) \<Rightarrow>
                 (s\<lparr>lp_loop := st, lp_status := status,
                    lp_pending := (if lp_broken s then lp_pending s else lp_pending s @ map (\<lambda>a. (r, a)) out)\<rparr>, None)))"

definition break_stream :: "'m loop_proc \<Rightarrow> 'm loop_proc" where
  "break_stream s = s\<lparr>lp_broken := True, lp_pending := []\<rparr>"

definition loop_read :: "'m loop_proc \<Rightarrow> 'm loop_proc \<times> read_event" where
  "loop_read s =
     (case lp_events s of
        [] \<Rightarrow> (s, TimedOut)
      | ev # evs \<Rightarrow>
          let s1 = s\<lparr>lp_events := evs\<rparr> in
          case ev of
            Delay \<Rightarrow> (s1, TimedOut)
          | Cancel e \<Rightarrow> (s1, CtxDone e)
          | Break e \<Rightarrow> (break_stream s1, ReadError e)
          | Deliver \<Rightarrow>
              if lp_broken s then (break_stream s1, ReadError ''EOF'')
              else
                (case lp_pending s of
                   (r, Some j) # rest \<Rightarrow> (s1\<lparr>lp_pending := rest\<rparr>, Line j)
                 | (r, None) # rest \<Rightarrow> (s1\<lparr>lp_pending := rest\<rparr>, BadLine ''unexpected end of JSON input'')
                 | [] \<Rightarrow> if lp_status s = Running then (s1, TimedOut) else (break_stream s1, ReadError ''EOF'')))"

definition loop_process :: "'m lib \<Rightarrow> 'm loop_proc process" where
  "loop_process L =
     \<lparr>pr_write = loop_write L,
      pr_read = loop_read,
      pr_kill = (\<lambda>s. break_stream (s\<lparr>lp_status := Crashed\<rparr>)),
      pr_wait = (\<lambda>s. (s, if lp_status s = Running then None else Some None)),
      pr_ctx_done = (\<lambda>s. False)\<rparr>"

definition loop_launch :: "'m \<Rightarrow> delivery list \<Rightarrow> 'm loop_proc" where
  "loop_launch m evs = \<lparr>lp_loop = loop_start m, lp_status = Running, lp_pending = [], lp_broken = False, lp_events = evs\<rparr>"

text \<open>The line the loop answers to a request with.\<close>

definition loop_answer :: "'m lib \<Rightarrow> 'm loop_proc \<Rightarrow> request \<Rightarrow> json option \<Rightarrow> bool" where
  "loop_answer L s r a \<longleftrightarrow>
     (case request_json (lib_go L) r of
        None \<Rightarrow> False
      | Some j \<Rightarrow> fst (snd (handle L (lp_loop s) j)) = [a])"

lemma one_line: "fst (snd (handle L st j)) = [] \<or> (\<exists>a. fst (snd (handle L st j)) = [a])"
proof -
  have r: "answers_with dies blank op i x \<Longrightarrow> fst (snd x) = [] \<or> (\<exists>a. fst (snd x) = [a])"
    for dies blank op i and x :: "'a reaction"
    by (cases x) (auto simp: answers_with_def split: if_splits)
  show ?thesis
    using r [OF on_ping_answered] r [OF on_bind_answered] r [OF on_serialize_answers] r [OF on_deserialize_answers]
      r [OF emitErr_answered(1)]
    by (simp add: handle_def split: option.split sum.split)
qed

interpretation lw: fifo_process "loop_process L" lp_pending "loop_answer L" for L :: "'m lib"
proof unfold_locales
  fix s s' :: "'m loop_proc" and r
  assume w: "pr_write (loop_process L) s r = (s', None)"
  then obtain j where j: "request_json (lib_go L) r = Some j"
    by (auto simp: loop_process_def loop_write_def split: option.splits)
  obtain st out status where h: "handle L (lp_loop s) j = (st, out, status)" by (metis surj_pair)
  from one_line [of L "lp_loop s" j] w j h
  show "lp_pending s' = lp_pending s \<or> (\<exists>a. lp_pending s' = lp_pending s @ [(r, a)] \<and> loop_answer L s r a)"
    by (auto simp: loop_process_def loop_write_def loop_answer_def split: if_splits)
qed (auto simp: loop_process_def loop_write_def loop_read_def break_stream_def Let_def
    split: option.splits if_splits prod.splits list.splits delivery.splits)

lemma holder_handled: "handle L st j = (st', x) \<Longrightarrow> loop_wf st \<Longrightarrow> loop_wf st'"
  using holder_kept [of st L j] by simp

interpretation lw_inv: process_invariant "loop_process L" "\<lambda>s. loop_wf (lp_loop s)" for L :: "'m lib"
proof unfold_locales
  fix s s' :: "'m loop_proc" and r e
  assume "loop_wf (lp_loop s)" "pr_write (loop_process L) s r = (s', e)"
  then show "loop_wf (lp_loop s')"
    by (auto simp: loop_process_def loop_write_def split: option.splits if_splits prod.splits
        dest: holder_handled)
qed (auto simp: loop_process_def loop_read_def break_stream_def Let_def
    split: option.splits if_splits prod.splits list.splits delivery.splits)

lemma send_answered:
  assumes "Start (loop_process L) q (\<lambda>_. Inr (loop_launch m evs)) parts lang n0 = Inr w0"
    and "(worker_step (loop_process L) q)\<^sup>*\<^sup>* w0 w" and "req_op req \<noteq> OpExit"
    and "Send (loop_process L) q req n w = (w', Inr resp)"
  shows "\<exists>j doc. request_json (lib_go L) req = Some j \<and>
    fst (snd (handle L (lp_loop (w_proc w)) j)) = [Some doc] \<and> response_of doc = Inr resp"
proof -
  have "lw.in_step w0"
    by (rule lw.Start_in_step [OF assms(1) refl]) (simp add: loop_launch_def)
  from lw.Send_answered [OF this assms(2-4)] show ?thesis by (auto simp: loop_answer_def split: option.splits)
qed

text \<open>C6. Whatever a Go worker does, however late its answers come, and whatever was bound, sent or
  stopped before, every response \<open>Send\<close> hands to the runner is the answer the worker's loop gives to
  that very request: no answer to an earlier request is ever taken for it, not even one with the
  same id.\<close>

theorem accepted_response_is_the_answer:
  assumes "Start (loop_process L) q (\<lambda>_. Inr (loop_launch m evs)) parts lang n0 = Inr w0"
    and "(worker_step (loop_process L) q)\<^sup>*\<^sup>* w0 w" and "req_op req \<noteq> OpExit"
    and "Send (loop_process L) q req n w = (w', Inr resp)"
  shows "\<exists>j doc. request_json (lib_go L) req = Some j \<and>
    fst (snd (handle L (lp_loop (w_proc w)) j)) = [Some doc] \<and> response_of doc = Inr resp"
  by (rule send_answered [OF assms])

subsection \<open>Starting and using a Go worker\<close>

lemma ping_response:
  "response_of (JObj [(''op'', JStr OpPing), (''status'', JStr StatusOK),
       (''protocol_version'', JNum (f64_of_int ProtocolVersion))]) =
   Inr \<lparr>RespID = [], RespOp = OpPing, RespStatus = StatusOK, RespHex = [], RespData = [],
        RespVersion = Some ProtocolVersion, RespError = [], RespReason = [], RespAudit = None\<rparr>"
  by (simp add: response_of_def un_field_def)

definition started_worker :: "string \<Rightarrow> 'm \<Rightarrow> delivery list \<Rightarrow> 'm loop_proc worker" where
  "started_worker lang m evs = \<lparr>w_language = lang, w_proc = loop_launch m evs, w_dead = False, w_deadReason = []\<rparr>"

lemma Start_loop:
  "parts \<noteq> [] \<Longrightarrow> Start (loop_process L) q (\<lambda>_. Inr (loop_launch m (Deliver # evs))) parts lang n =
     Inr (started_worker lang m evs)"
  by (simp add: Start_def ping_def loop_process_def loop_write_def loop_launch_def request_json_def NewPingRequest_def
      handle_def un_field_def on_ping_def reply_def read_marked_def readWithTimeout_def loop_read_def Read_def
      ping_response ping_verdict_def started_worker_def)

theorem accepted_response_is_the_answer_witness:
  "\<exists>j doc. request_json (lib_go point_lib) NewPingRequest = Some j \<and>
     fst (snd (handle point_lib (loop_start ()) j)) = [Some doc] \<and>
     (\<exists>resp. response_of doc = Inr resp \<and> RespOp resp = OpPing)"
proof -
  let ?w = "started_worker ''go'' () [Deliver]"
  have "\<exists>w' resp. Send (loop_process point_lib) id NewPingRequest 5 ?w = (w', Inr resp) \<and> RespOp resp = OpPing"
    by (simp add: Send_def loop_process_def loop_write_def started_worker_def loop_launch_def request_json_def
        NewPingRequest_def handle_def un_field_def on_ping_def reply_def read_marked_def readWithTimeout_def
        loop_read_def Read_def ping_response extractOp_def extractID_def)
  then obtain w' resp where s: "Send (loop_process point_lib) id NewPingRequest 5 ?w = (w', Inr resp)"
    and o: "RespOp resp = OpPing" by blast
  have "Start (loop_process point_lib) id (\<lambda>_. Inr (loop_launch () [Deliver, Deliver])) [''./w''] ''go'' 5 = Inr ?w"
    by (rule Start_loop) simp
  from accepted_response_is_the_answer [OF this rtranclp.rtrancl_refl _ s] o
  show ?thesis by (auto simp: started_worker_def loop_launch_def NewPingRequest_def)
qed

text \<open>C10. A serialize request to a Go worker without side effects comes back as what its function
  computes: after any history, if the type bound last is served by the function \<open>f\<close>, every response
  the runner accepts has status OK, the hex of \<open>f\<close> of the FieldMap decoded from the request's data,
  and no audit findings.\<close>

theorem go_worker_serializes:
  assumes "Start (loop_process (pure_lib types)) q (\<lambda>_. Inr (loop_launch () evs)) parts lang n0 = Inr w0"
    and "(worker_step (loop_process (pure_lib types)) q)\<^sup>*\<^sup>* w0 w"
    and "Send (loop_process (pure_lib types)) q (NewSerializeRequest i data) n w = (w', Inr resp)"
    and "lo_serialize (lp_loop (w_proc w)) = Some (pure_serializer f)"
    and "json_of plain_env (GMap data) = Some (JObj d)"
    and "DecodeFieldMap plain_env d (lo_schema (lp_loop (w_proc w))) = Inr fds"
    and "fval_wf (FFM (Some fds))" and "quiet (FFM (Some fds))"
  shows "RespStatus resp = StatusOK \<and> RespHex resp = hex_encode (f fds) \<and> RespAudit resp = None"
proof -
  let ?L = "pure_lib types" and ?st = "lp_loop (w_proc w)"
  let ?m = "[(''id'', JStr i), (''op'', JStr OpSerialize), (''data'', JObj d)]"
  have r: "request_json (lib_go ?L) (NewSerializeRequest i data) = Some (JObj ?m)"
    using assms(5) by (simp add: request_json_def NewSerializeRequest_def pure_lib_def)
  obtain doc where doc: "fst (snd (handle ?L ?st (JObj ?m))) = [Some doc]" and resp: "response_of doc = Inr resp"
    using send_answered [OF assms(1,2) _ assms(3)] r by (auto simp: NewSerializeRequest_def)
  have "loop_wf (lp_loop (w_proc w0))"
    by (rule lw_inv.Start_keeps [OF assms(1) refl]) (simp add: loop_launch_def loop_start_def loop_wf_def)
  then have wf: "loop_wf ?st" by (rule lw_inv.steps_keep [OF assms(2)])
  have "fst (snd (on_serialize ?L ?st i ?m)) =
      [Some (JObj [(''id'', JStr i), (''op'', JStr OpSerialize), (''status'', JStr StatusOK),
         (''hex'', JStr (hex_encode (f fds)))])]"
    by (rule pure_served [OF assms(4) _ assms(6-8) wf]) (simp add: un_field_def)
  moreover have "handle ?L ?st (JObj ?m) = on_serialize ?L ?st i ?m"
    by (simp add: handle_def un_field_def)
  ultimately have "doc = JObj [(''id'', JStr i), (''op'', JStr OpSerialize), (''status'', JStr StatusOK),
         (''hex'', JStr (hex_encode (f fds)))]" using doc by simp
  with resp show ?thesis by (auto simp: response_of_def un_field_def)
qed

text \<open>Binding a running worker to a format it has: the schema sent is the schema bound.\<close>

definition running_worker :: "string \<Rightarrow> 'm loop \<Rightarrow> delivery list \<Rightarrow> 'm loop_proc worker" where
  "running_worker lang st evs =
     \<lparr>w_language = lang, w_proc = \<lparr>lp_loop = st, lp_status = Running, lp_pending = [], lp_broken = False, lp_events = evs\<rparr>,
      w_dead = False, w_deadReason = []\<rparr>"

lemma Bind_loop:
  assumes "SchemaFields schema = Inr sfs" and "ty \<noteq> []" and "fmt \<noteq> []"
    and "map_of (lib_types L) ty = Some formats" and "map_of formats fmt = Some bf"
  shows "Bind (loop_process L) q schema ty fmt n audit (running_worker lang st (Deliver # evs)) =
    (running_worker lang (bind_format ty fmt bf audit (st\<lparr>lo_schema := sfs\<rparr>)) evs, Inr ())"
proof -
  obtain m where j: "request_json (lib_go L) (NewBindRequest sfs ty fmt audit) = Some (JObj m)"
    by (simp add: request_json_def NewBindRequest_def)
  have "un_str m ''op'' = Inr OpBind" "un_str m ''id'' = Inr []"
    using request_op_id [OF j] by (auto simp: NewBindRequest_def extractID_def)
  then have "handle L st (JObj m) = on_bind L st m" by (simp add: handle_def)
  also have "\<dots> = (bind_format ty fmt bf audit (st\<lparr>lo_schema := sfs\<rparr>), [Some (JObj [(''op'', JStr OpBind)])], Running)"
    by (simp add: on_bind_def bind_msg_written [OF j] assms reply_def)
  finally show ?thesis using assms(1-3) j
    by (simp add: Bind_def running_worker_def loop_process_def loop_write_def read_marked_def readWithTimeout_def
        loop_read_def Read_def response_of_def un_field_def bind_verdict_def)
qed

lemma Send_loop:
  assumes "request_json (lib_go L) req = Some j" and "fst (snd (handle L st j)) = [Some doc]"
    and "response_of doc = Inr resp" and "RespOp resp = extractOp req" and "RespID resp = extractID req"
  shows "\<exists>w'. Send (loop_process L) q req n (running_worker lang st (Deliver # evs)) = (w', Inr resp)"
proof -
  obtain st' status where "handle L st j = (st', [Some doc], status)"
    using assms(2) by (cases "handle L st j") auto
  with assms show ?thesis
    by (simp add: Send_def running_worker_def loop_process_def loop_write_def read_marked_def readWithTimeout_def
        loop_read_def Read_def)
qed

theorem go_worker_serializes_witness:
  "\<exists>w w' resp. Send (loop_process point_lib) id (NewSerializeRequest ''c'' [(''x'', GInt 7)]) 5 w = (w', Inr resp) \<and>
     RespStatus resp = StatusOK \<and> RespHex resp = ''07'' \<and> RespAudit resp = None"
proof -
  let ?f = "\<lambda>fds. map (\<lambda>e. case snd e of FU8 w \<Rightarrow> w | _ \<Rightarrow> 0) fds :: bytes"
  let ?schema = "[Fld ''x'' (base_ft k_uint8) []]" and ?sfs = "[SchemaField ''x'' k_uint8 [] [] [] []]"
  let ?P = "loop_process point_lib" and ?req = "NewSerializeRequest ''c'' [(''x'', GInt 7)]"
  have sfs: "SchemaFields ?schema = Inr ?sfs"
    by (simp add: SchemaFields.simps schemaFieldOfType_ctors ft_string_ctors Scalars_def)
  define st where "st = bind_format ''point'' ''bin''
     \<lparr>pf_serializer = Some (pure_serializer ?f), pf_deserializer = None\<rparr> True ((loop_start ())\<lparr>lo_schema := ?sfs\<rparr>)"
  define w where "w = running_worker ''go'' st [Deliver]"
  have start: "Start ?P id (\<lambda>_. Inr (loop_launch () [Deliver, Deliver, Deliver])) [''./w''] ''go'' 5 =
      Inr (running_worker ''go'' (loop_start ()) [Deliver, Deliver])"
    using Start_loop [of "[''./w'']" point_lib id "()" "[Deliver, Deliver]"]
    by (simp add: started_worker_def running_worker_def loop_launch_def)
  have "Bind ?P id ?schema ''point'' ''bin'' 5 True (running_worker ''go'' (loop_start ()) [Deliver, Deliver]) = (w, Inr ())"
    unfolding w_def st_def by (rule Bind_loop [OF sfs]) (simp add: point_lib_def pure_lib_def)+
  then have steps: "(worker_step ?P id)\<^sup>*\<^sup>* (running_worker ''go'' (loop_start ()) [Deliver, Deliver]) w"
    by (blast intro: step_Bind)
  have data: "json_of plain_env (GMap [(''x'', GInt 7)]) = Some (JObj [(''x'', JNum (f64_of_int 7))])" by simp
  have st: "lo_serialize st = Some (pure_serializer ?f)" "lo_schema st = ?sfs"
    by (simp_all add: st_def bind_format_def Let_def)
  have wf: "loop_wf st" unfolding st_def by (rule bind_format_wf)
  let ?m = "[(''id'', JStr ''c''), (''op'', JStr OpSerialize), (''data'', JObj [(''x'', JNum (f64_of_int 7))])]"
  have point: "fval_wf (FFM (Some [(''x'', FU8 7)]))" "quiet (FFM (Some [(''x'', FU8 7)]))"
    by (simp_all add: fval_wf.simps quiet.simps map_wf_def nan_free.simps)
  have h: "fst (snd (handle point_lib st (JObj ?m))) = [Some (JObj [(''id'', JStr ''c''), (''op'', JStr OpSerialize),
      (''status'', JStr StatusOK), (''hex'', JStr (hex_encode (?f [(''x'', FU8 7)])))])]"
    unfolding point_lib_def handle_def
    using pure_served [OF st(1) _ _ point wf, of ?m "[(''x'', JNum (f64_of_int 7))]"] st(2) point_decoded
    by (simp add: un_field_def)
  have req: "request_json (lib_go point_lib) ?req = Some (JObj ?m)"
    using data by (simp add: request_json_def NewSerializeRequest_def point_lib_def pure_lib_def)
  have "\<exists>resp. response_of (JObj [(''id'', JStr ''c''), (''op'', JStr OpSerialize), (''status'', JStr StatusOK),
        (''hex'', JStr (hex_encode (?f [(''x'', FU8 7)])))]) = Inr resp \<and>
      RespOp resp = extractOp ?req \<and> RespID resp = extractID ?req"
    by (simp add: response_of_def un_field_def extractOp_def extractID_def NewSerializeRequest_def)
  then have "\<exists>w' resp. Send ?P id ?req 5 w = (w', Inr resp)"
    using Send_loop [OF req h] unfolding w_def by blast
  then obtain w' resp where send: "Send ?P id ?req 5 w = (w', Inr resp)" by blast
  have "hex_encode (?f [(''x'', FU8 7)]) = ''07''" by code_simp 
  with go_worker_serializes [OF start [unfolded point_lib_def] steps [unfolded point_lib_def] send [unfolded point_lib_def], of ?f "[(''x'', JNum (f64_of_int 7))]" "[(''x'', FU8 7)]"]
    data st point_decoded send show ?thesis
    by (auto simp: w_def running_worker_def fval_wf.simps quiet.simps map_wf_def nan_free.simps)
qed

end
