(* ===== verification/Builder.thy ===== *)
theory Builder
  imports TypeFile
begin

section \<open>Detecting and building workers (internal/builder, internal/lang)\<close>

text \<open>
  A worker is a directory: its language follows from marker files, its build and run commands from
  the defaults of the language, which an optional worker.yaml overrides.

  The machine is not part of the program. Its state \<open>'w\<close> holds the files, which a build command may
  change; \<open>machine\<close> has what the code asks of it.
\<close>

abbreviation lang_go :: string where "lang_go \<equiv> ''go''"
abbreviation lang_rust :: string where "lang_rust \<equiv> ''rust''"
abbreviation lang_java :: string where "lang_java \<equiv> ''java''"
abbreviation lang_elixir :: string where "lang_elixir \<equiv> ''elixir''"
abbreviation lang_cpp :: string where "lang_cpp \<equiv> ''cpp''"
abbreviation lang_csharp :: string where "lang_csharp \<equiv> ''csharp''"
abbreviation lang_node :: string where "lang_node \<equiv> ''node''"
abbreviation lang_python :: string where "lang_python \<equiv> ''python''"
abbreviation lang_php :: string where "lang_php \<equiv> ''php''"

definition lang_All :: "string list" where
  "lang_All = [lang_go, lang_rust, lang_python, lang_node, lang_java, lang_cpp, lang_csharp, lang_elixir, lang_php]"

subsection \<open>The machine\<close>

record WorkerManifest =
  wm_build :: "string option"
  wm_run :: string

text \<open>\<open>mc_manifest\<close> reads a worker.yaml: \<open>Inl None\<close> when there is none, \<open>Inl (Some e)\<close> when it cannot be
  read, \<open>Inr None\<close> when yaml.v3 rejects it. \<open>mc_sh\<close> runs a shell command in a directory.\<close>

record ('w, 'n) machine =
  mc_files :: "'w \<Rightarrow> 'n fsys"
  mc_abs :: "'w \<Rightarrow> string \<Rightarrow> string + string"
  mc_stat :: "'w \<Rightarrow> string \<Rightarrow> bool"
  mc_glob :: "'w \<Rightarrow> string \<Rightarrow> string + string list"
  mc_manifest :: "'w \<Rightarrow> string \<Rightarrow> string option + WorkerManifest option"
  mc_sh :: "'w \<Rightarrow> string \<Rightarrow> string \<Rightarrow> 'w \<times> string option"

definition path_in :: "('w, 'n, 'z) machine_scheme \<Rightarrow> 'w \<Rightarrow> string \<Rightarrow> string \<Rightarrow> string" where
  "path_in M w dir nm = fs_join (mc_files M w) dir nm"

datatype build_error =
    AbsFailed string
  | GlobFailed string string
  | NoMarkers string
  | Ambiguous string "string list"
  | NoDefault string
  | ManifestUnread string
  | ManifestParse string
  | NoRunCommand string string
  | BuildFailed string string string

subsection \<open>Language detection\<close>

record marker =
  mk_pattern :: string
  mk_language :: string
  mk_isGlob :: bool

definition mk_marker :: "string \<Rightarrow> string \<Rightarrow> bool \<Rightarrow> marker" where
  "mk_marker p l g = \<lparr>mk_pattern = p, mk_language = l, mk_isGlob = g\<rparr>"

definition markers :: "marker list" where
  "markers =
     [mk_marker ''go.mod'' lang_go False,
      mk_marker ''Cargo.toml'' lang_rust False,
      mk_marker ''pom.xml'' lang_java False,
      mk_marker ''mix.exs'' lang_elixir False,
      mk_marker ''*.csproj'' lang_csharp True,
      mk_marker ''package.json'' lang_node False,
      mk_marker ''composer.json'' lang_php False,
      mk_marker ''*.py'' lang_python True,
      mk_marker ''*.cpp'' lang_cpp True,
      mk_marker ''*.php'' lang_php True,
      mk_marker ''*.go'' lang_go True]"

definition marker_exists ::
  "('w, 'n, 'z) machine_scheme \<Rightarrow> 'w \<Rightarrow> string \<Rightarrow> marker \<Rightarrow> build_error + bool" where
  "marker_exists M w dir m =
     (if mk_isGlob m then
        (case mc_glob M w (path_in M w dir (mk_pattern m)) of
           Inl e \<Rightarrow> Inl (GlobFailed (mk_pattern m) dir)
         | Inr matches \<Rightarrow> Inr (matches \<noteq> []))
      else Inr (mc_stat M w (path_in M w dir (mk_pattern m))))"

fun find_languages ::
  "('w, 'n, 'z) machine_scheme \<Rightarrow> 'w \<Rightarrow> string \<Rightarrow> marker list \<Rightarrow> string list \<Rightarrow> build_error + string list" where
  "find_languages M w dir [] found = Inr found"
| "find_languages M w dir (m # ms) found =
     rbind (marker_exists M w dir m) (\<lambda>ex.
       find_languages M w dir ms
         (if ex \<and> mk_language m \<notin> set found then found @ [mk_language m] else found))"

definition DetectLanguage :: "('w, 'n, 'z) machine_scheme \<Rightarrow> 'w \<Rightarrow> string \<Rightarrow> build_error + string" where
  "DetectLanguage M w dir =
     rbind (find_languages M w dir markers []) (\<lambda>found.
       case found of
         [] \<Rightarrow> Inl (NoMarkers dir)
       | [l] \<Rightarrow> Inr l
       | _ \<Rightarrow> Inl (Ambiguous dir found))"

subsection \<open>Commands\<close>

record LangDefault =
  ld_build :: string
  ld_run :: string

definition lang_default :: "string \<Rightarrow> string \<Rightarrow> LangDefault" where
  "lang_default b r = \<lparr>ld_build = b, ld_run = r\<rparr>"

definition Defaults :: "LangDefault gomap" where
  "Defaults =
     [(lang_go, lang_default ''go build -o worker .'' ''./worker''),
      (lang_rust, lang_default ''cargo build --release'' ''./target/release/worker''),
      (lang_python, lang_default [] ''python worker.py''),
      (lang_node, lang_default ''npm install && npx tsc'' ''node dist/worker.js''),
      (lang_java, lang_default ''mvn -q package -DskipTests'' ''java -jar target/worker.jar''),
      (lang_cpp, lang_default ''g++ -O2 -std=c++17 -o worker worker.cpp'' ''./worker''),
      (lang_csharp, lang_default ''dotnet build -c Release -o bin'' ''dotnet bin/worker.dll''),
      (lang_elixir, lang_default ''mix deps.get && mix compile'' ''mix run lib/worker.ex''),
      (lang_php, lang_default ''composer install --no-dev'' ''php worker.php'')]"

definition LoadWorkerManifest ::
  "('w, 'n, 'z) machine_scheme \<Rightarrow> 'w \<Rightarrow> string \<Rightarrow> build_error + WorkerManifest option" where
  "LoadWorkerManifest M w dir =
     (let path = path_in M w dir ''worker.yaml'' in
      case mc_manifest M w path of
        Inl None \<Rightarrow> Inr None
      | Inl (Some e) \<Rightarrow> Inl (ManifestUnread path)
      | Inr None \<Rightarrow> Inl (ManifestParse path)
      | Inr (Some m) \<Rightarrow> Inr (Some m))"

record WorkerInfo =
  wi_dir :: string
  wi_language :: string
  wi_manifest :: WorkerManifest

text \<open>An absent \<open>build:\<close> keeps the default, an explicit empty one means no build step.\<close>

definition override :: "WorkerManifest \<Rightarrow> WorkerManifest option \<Rightarrow> WorkerManifest" where
  "override base y =
     (case y of
        None \<Rightarrow> base
      | Some m \<Rightarrow>
          \<lparr>wm_build = (case wm_build m of None \<Rightarrow> wm_build base | Some b \<Rightarrow> Some b),
           wm_run = (if wm_run m \<noteq> [] then wm_run m else wm_run base)\<rparr>)"

definition Detect :: "('w, 'n, 'z) machine_scheme \<Rightarrow> 'w \<Rightarrow> string \<Rightarrow> build_error + WorkerInfo" where
  "Detect M w dir =
     rbind (case mc_abs M w dir of Inl e \<Rightarrow> Inl (AbsFailed dir) | Inr a \<Rightarrow> Inr a) (\<lambda>abs.
     rbind (DetectLanguage M w abs) (\<lambda>lang.
       case map_of Defaults lang of
         None \<Rightarrow> Inl (NoDefault lang)
       | Some d \<Rightarrow>
           rbind (LoadWorkerManifest M w abs) (\<lambda>y.
             let m = override \<lparr>wm_build = Some (ld_build d), wm_run = ld_run d\<rparr> y in
             if wm_run m = [] then Inl (NoRunCommand abs lang)
             else Inr \<lparr>wi_dir = abs, wi_language = lang, wi_manifest = m\<rparr>)))"

definition Build ::
  "('w, 'n, 'z) machine_scheme \<Rightarrow> 'w \<Rightarrow> WorkerInfo \<Rightarrow> 'w \<times> build_error option" where
  "Build M w info =
     (case wm_build (wi_manifest info) of
        None \<Rightarrow> (w, None)
      | Some cmd \<Rightarrow>
          if cmd = [] then (w, None)
          else
            (case mc_sh M w (wi_dir info) cmd of
               (w', None) \<Rightarrow> (w', None)
             | (w', Some e) \<Rightarrow> (w', Some (BuildFailed (wi_language info) (wi_dir info) e))))"

subsection \<open>What detection decides\<close>

lemma markers_known:
  "m \<in> set markers \<Longrightarrow> \<exists>d. map_of Defaults (mk_language m) = Some d \<and> ld_run d \<noteq> []"
  by (auto simp: markers_def mk_marker_def Defaults_def lang_default_def)

text \<open>The languages found: those of the markers present, each once.\<close>

definition present :: "('w, 'n, 'z) machine_scheme \<Rightarrow> 'w \<Rightarrow> string \<Rightarrow> marker \<Rightarrow> bool" where
  "present M w dir m \<longleftrightarrow> marker_exists M w dir m = Inr True"

definition globs_ok :: "('w, 'n, 'z) machine_scheme \<Rightarrow> 'w \<Rightarrow> string \<Rightarrow> bool" where
  "globs_ok M w dir \<longleftrightarrow> (\<forall>p. \<exists>l. mc_glob M w (path_in M w dir p) = Inr l)"

lemma marker_exists_ok: "globs_ok M w dir \<Longrightarrow> marker_exists M w dir m = Inr (present M w dir m)"
  by (auto simp: globs_ok_def marker_exists_def present_def split: sum.split) (metis Inl_not_Inr)

lemma find_languages_spec:
  assumes "globs_ok M w dir" and "distinct found"
  shows "\<exists>ls. find_languages M w dir ms found = Inr ls \<and> distinct ls \<and>
    set ls = set found \<union> mk_language ` {m \<in> set ms. present M w dir m}"
  using assms(2)
proof (induction ms arbitrary: found)
  case (Cons m ms)
  let ?f = "if present M w dir m \<and> mk_language m \<notin> set found then found @ [mk_language m] else found"
  have "distinct ?f" using Cons.prems by simp
  from Cons.IH [OF this] obtain ls where ls: "find_languages M w dir ms ?f = Inr ls" "distinct ls"
    "set ls = set ?f \<union> mk_language ` {m \<in> set ms. present M w dir m}" by blast
  then show ?case using Cons.prems by (auto simp: marker_exists_ok [OF assms(1)])
qed simp

text \<open>A worker directory has the language its marker files agree on: detection succeeds with a
  language exactly when the markers present are all of that one language (several markers of one
  language are no conflict), and otherwise names the conflict or the absence of markers.\<close>

theorem DetectLanguage_unique:
  assumes "globs_ok M w dir"
  shows "DetectLanguage M w dir = Inr l \<longleftrightarrow> mk_language ` {m \<in> set markers. present M w dir m} = {l}"
proof -
  obtain ls where ls: "find_languages M w dir markers [] = Inr ls" "distinct ls"
    "set ls = mk_language ` {m \<in> set markers. present M w dir m}"
    using find_languages_spec [OF assms, of "[]" markers] by auto
  have "set ls = {l} \<longleftrightarrow> ls = [l]"
  proof
    assume s: "set ls = {l}"
    with ls(2) have "length ls = 1" using distinct_card [of ls] by simp
    with s show "ls = [l]" by (cases ls) auto
  qed simp
  with ls(1,3) show ?thesis by (auto simp: DetectLanguage_def split: list.split)
qed

lemma DetectLanguage_known:
  assumes "DetectLanguage M w dir = Inr l"
  shows "\<exists>d. map_of Defaults l = Some d \<and> ld_run d \<noteq> []"
proof -
  have sub: "find_languages M w dir ms found = Inr ls \<Longrightarrow> set ls \<subseteq> set found \<union> mk_language ` set ms" for ms found ls
  proof (induction ms arbitrary: found)
    case (Cons m ms)
    from Cons.prems obtain ex where
      "find_languages M w dir ms (if ex \<and> mk_language m \<notin> set found then found @ [mk_language m] else found) = Inr ls"
      by (auto simp: rbind_eq_Inr)
    from Cons.IH [OF this] show ?case by (auto split: if_splits)
  qed simp
  from sub [of markers "[]"] have all: "find_languages M w dir markers [] = Inr ls \<Longrightarrow> set ls \<subseteq> mk_language ` set markers" for ls
    by simp
  from assms have "find_languages M w dir markers [] = Inr [l]"
    by (cases "find_languages M w dir markers []") (auto simp: DetectLanguage_def split: list.splits)
  from all [OF this] have "l \<in> mk_language ` set markers" by simp
  with markers_known show ?thesis by blast
qed

text \<open>Every language detected has commands, so \<open>Detect\<close> fails only for the directory, its markers or a
  worker.yaml that cannot be read.\<close>

definition no_commands :: "build_error \<Rightarrow> bool" where
  "no_commands e = (case e of NoDefault l \<Rightarrow> True | NoRunCommand d l \<Rightarrow> True | _ \<Rightarrow> False)"

lemma DetectLanguage_error: "DetectLanguage M w d = Inl e \<Longrightarrow> \<not> no_commands e"
proof -
  have "find_languages M w d ms found = Inl e \<Longrightarrow> \<exists>p. e = GlobFailed p d" for ms found
    by (induction ms arbitrary: found) (auto simp: rbind_eq_Inl marker_exists_def split: if_splits sum.splits)
  from this [of markers "[]"] have "find_languages M w d markers [] = Inl e \<Longrightarrow> \<not> no_commands e"
    by (auto simp: no_commands_def)
  then show "DetectLanguage M w d = Inl e \<Longrightarrow> ?thesis"
    by (cases "find_languages M w d markers []") (auto simp: DetectLanguage_def no_commands_def split: list.splits)
qed

lemma LoadWorkerManifest_error: "LoadWorkerManifest M w d = Inl e \<Longrightarrow> \<not> no_commands e"
  by (auto simp: LoadWorkerManifest_def Let_def no_commands_def split: sum.splits option.splits)

lemma Detect_has_commands:
  assumes "Detect M w dir = Inl e"
  shows "\<not> no_commands e"
proof (cases "mc_abs M w dir")
  case (Inr a)
  show ?thesis
  proof (cases "DetectLanguage M w a")
    case (Inl e2)
    with assms Inr DetectLanguage_error [OF Inl] show ?thesis by (simp add: Detect_def)
  next
    case lang: (Inr l)
    from DetectLanguage_known [OF lang] obtain d where d: "map_of Defaults l = Some d" "ld_run d \<noteq> []" by blast
    show ?thesis
    proof (cases "LoadWorkerManifest M w a")
      case (Inl e2)
      with assms Inr lang d LoadWorkerManifest_error [OF Inl] show ?thesis by (simp add: Detect_def)
    next
      case (Inr y)
      with assms \<open>mc_abs M w dir = Inr a\<close> lang d show ?thesis
        by (cases y) (auto simp: Detect_def override_def Let_def split: if_splits)
    qed
  qed
qed (use assms in \<open>auto simp: Detect_def no_commands_def\<close>)


definition go_dir :: "(unit, unit) machine" where
  "go_dir = \<lparr>mc_files = (\<lambda>_. \<lparr>fs_read = (\<lambda>p. Inl None), fs_abs = id, fs_join = (\<lambda>d p. p), fs_dir = id, fs_base = id,
       fs_list = (\<lambda>d. Inr []), fs_is_dir = (\<lambda>d. Inr True)\<rparr>),
     mc_abs = (\<lambda>_ d. Inr d), mc_stat = (\<lambda>_ p. p = ''go.mod''),
     mc_glob = (\<lambda>_ p. Inr (if p = ''*.go'' then [''main.go''] else [])),
     mc_manifest = (\<lambda>_ p. Inl None), mc_sh = (\<lambda>w d c. (w, None))\<rparr>"

theorem DetectLanguage_unique_witness:
  "DetectLanguage go_dir () ''w'' = Inr lang_go"
proof -
  have "present go_dir () ''w'' m \<longleftrightarrow> mk_pattern m = (if mk_isGlob m then ''*.go'' else ''go.mod'')" for m
    by (simp add: present_def marker_exists_def path_in_def go_dir_def)
  then have "mk_language ` {m \<in> set markers. present go_dir () ''w'' m} =
      set (map mk_language (filter (\<lambda>m. mk_pattern m = (if mk_isGlob m then ''*.go'' else ''go.mod'')) markers))"
    by auto
  also have "map mk_language (filter (\<lambda>m. mk_pattern m = (if mk_isGlob m then ''*.go'' else ''go.mod'')) markers) =
      [lang_go, lang_go]"
    by code_simp
  finally have "mk_language ` {m \<in> set markers. present go_dir () ''w'' m} = {lang_go}" by simp
  moreover have "globs_ok go_dir () ''w''" by (simp add: globs_ok_def go_dir_def)
  ultimately show ?thesis using DetectLanguage_unique [of go_dir "()" "''w''" lang_go] by simp
qed

end
