(* ===== verification/Command.thy ===== *)
theory Command
  imports Builder Coverage SuiteFacts
begin

section \<open>The commands (cmd/serify/run.go, validate.go, table.go, main.go)\<close>

text \<open>
  \<open>serify run\<close> loads the suite, detects, builds and starts the workers, runs the suite, applies the
  expected-skips gate, prints the report, writes the CSV and turns the report into the exit code. The
  model follows \<open>runTests\<close> return by return. Of the printing it keeps what can end the process: the two
  calls of \<open>os.Exit\<close>, which skip the deferred stops, and the nil dereferences. \<open>host\<close> adds to the machine
  the launching of processes, the optional YAML files, the CSV files by their contents, and whether
  standard output takes the JSON report.
\<close>

subsection \<open>The host\<close>

record KnownFailure =
  kf_test :: string
  kf_reason :: string
  kf_issue :: string

record ('w, 'n, 's) host = "('w, 'n) machine" +
  ho_yaml :: "'n yaml_doc"
  ho_process :: "'s process"
  ho_launch :: "'w \<Rightarrow> string \<Rightarrow> string list \<Rightarrow> string + 's"
  ho_env :: orch_env
  ho_skips :: "'w \<Rightarrow> string \<Rightarrow> string option + expected_skips option"
  ho_known :: "'w \<Rightarrow> string \<Rightarrow> string option + KnownFailure list option"
  ho_write_csv :: "'w \<Rightarrow> string \<Rightarrow> string \<Rightarrow> 'w \<times> string option"
  ho_print_json :: "'w \<Rightarrow> record_row list \<Rightarrow> string option"
  ho_read_csv :: "'w \<Rightarrow> string \<Rightarrow> string + string option"

abbreviation "ho_quote H \<equiv> quote (oe_cmp (ho_env H))"

text \<open>\<open>loadOptionalYAML\<close>: a missing file gives the zero value and \<open>False\<close>.\<close>

definition loadOptionalYAML :: "'a \<Rightarrow> string \<Rightarrow> string option + 'a option \<Rightarrow> load_error + 'a \<times> bool" where
  "loadOptionalYAML zero path rd =
     (case rd of
        Inl None \<Rightarrow> Inr (zero, False)
      | Inl (Some e) \<Rightarrow> Inl (ReadFailed path)
      | Inr None \<Rightarrow> Inl (ParseFailed path)
      | Inr (Some v) \<Rightarrow> Inr (v, True))"

definition lang_file :: "('w, 'n, 's) host \<Rightarrow> 'w \<Rightarrow> string \<Rightarrow> string \<Rightarrow> string" where
  "lang_file H w dir lang = path_in H w dir (lang @ ''.yaml'')"

definition LoadExpectedSkips :: "('w, 'n, 's) host \<Rightarrow> 'w \<Rightarrow> string \<Rightarrow> string \<Rightarrow> load_error + expected_skips" where
  "LoadExpectedSkips H w dir lang =
     (let path = lang_file H w dir lang in map_res fst (loadOptionalYAML es_zero path (ho_skips H w path)))"

definition LoadKnownFailures :: "('w, 'n, 's) host \<Rightarrow> 'w \<Rightarrow> string \<Rightarrow> string \<Rightarrow> load_error + KnownFailure list" where
  "LoadKnownFailures H w dir lang =
     (let path = lang_file H w dir lang in map_res fst (loadOptionalYAML [] path (ho_known H w path)))"

subsection \<open>Options\<close>

record runOpts =
  ro_casesFile :: string
  ro_refLang :: string
  ro_fullMatrix :: bool
  ro_buildOnly :: bool
  ro_noBuild :: bool
  ro_timeoutSec :: int
  ro_startupTimeoutSec :: int
  ro_outputFmt :: string
  ro_csvPath :: string
  ro_knowFDir :: string
  ro_expectSkipDir :: string
  ro_audit :: bool

definition default_runOpts :: runOpts where
  "default_runOpts =
     \<lparr>ro_casesFile = ''cases'', ro_refLang = [], ro_fullMatrix = False, ro_buildOnly = False,
      ro_noBuild = False, ro_timeoutSec = 10, ro_startupTimeoutSec = 60, ro_outputFmt = ''table'',
      ro_csvPath = [], ro_knowFDir = ''known_failures'', ro_expectSkipDir = ''expected_skips'',
      ro_audit = False\<rparr>"

text \<open>The last two are no errors \<open>runTests\<close> returns: the process ends inside \<open>Print\<close>, or it panics.\<close>

datatype cmd_error =
    NoWorkerDirs
  | BadOutput string
  | BadTimeout int
  | BadStartupTimeout int
  | BuildOnlyAndNoBuild
  | CasesFailed load_error
  | NoReferenceLanguage string
  | DetectFailed string build_error
  | TwoWorkers string string string
  | CmdBuildFailed build_error
  | StartFailed string worker_error
  | ReferenceNotStarted string "string list"
  | CaseEncoding string string string encode_error
  | CsvWriteFailed string
  | TestFailed
  | HoldsCases string
  | CsvOpenFailed string
  | CsvReadFailed string
  | PrintExit
  | Panicked

definition validate_opts :: "runOpts \<Rightarrow> cmd_error option" where
  "validate_opts o1 =
     (if ro_outputFmt o1 \<notin> {''table'', ''json'', ''junit''} then Some (BadOutput (ro_outputFmt o1))
      else if ro_timeoutSec o1 \<le> 0 then Some (BadTimeout (ro_timeoutSec o1))
      else if ro_startupTimeoutSec o1 \<le> 0 then Some (BadStartupTimeout (ro_startupTimeoutSec o1))
      else if ro_buildOnly o1 \<and> ro_noBuild o1 then Some BuildOnlyAndNoBuild
      else None)"

subsection \<open>Workers\<close>

text \<open>\<open>detectAndBuild\<close>: detection of a directory comes after the build of the ones before it.\<close>

fun detect_all ::
  "('w, 'n, 's) host \<Rightarrow> bool \<Rightarrow> string list \<Rightarrow> string gomap \<Rightarrow> WorkerInfo list \<Rightarrow> 'w
    \<Rightarrow> 'w \<times> (cmd_error + WorkerInfo list)" where
  "detect_all H noBuild [] seen infos w = (w, Inr infos)"
| "detect_all H noBuild (dir # dirs) seen infos w =
     (case Detect H w dir of
        Inl e \<Rightarrow> (w, Inl (DetectFailed dir e))
      | Inr info \<Rightarrow>
          (case map_of seen (wi_language info) of
             Some prev \<Rightarrow> (w, Inl (TwoWorkers (wi_language info) prev dir))
           | None \<Rightarrow>
               let seen1 = AList.update (wi_language info) dir seen; infos1 = infos @ [info] in
               if noBuild then detect_all H noBuild dirs seen1 infos1 w
               else
                 (case Build H w info of
                    (w1, Some e) \<Rightarrow> (w1, Inl (CmdBuildFailed e))
                  | (w1, None) \<Rightarrow> detect_all H noBuild dirs seen1 infos1 w1)))"

definition detectAndBuild ::
  "('w, 'n, 's) host \<Rightarrow> string list \<Rightarrow> bool \<Rightarrow> 'w \<Rightarrow> 'w \<times> (cmd_error + WorkerInfo list)" where
  "detectAndBuild H dirs noBuild w = detect_all H noBuild dirs [] [] w"

text \<open>\<open>strings.Fields\<close>.\<close>

function split_fields :: "string \<Rightarrow> string \<Rightarrow> string list" where
  "split_fields cur s =
     (case s of
        [] \<Rightarrow> if cur = [] then [] else [cur]
      | c # s' \<Rightarrow>
          (case first_space s of
             Some e \<Rightarrow> (if cur = [] then [] else [cur]) @ split_fields [] (drop (length e) s)
           | None \<Rightarrow> split_fields (cur @ [c]) s'))"
  by pat_completeness auto
termination
  by (relation "measure (\<lambda>(cur, s). length s)") (auto dest: first_space_nonempty)

declare split_fields.simps [simp del]

definition str_Fields :: "string \<Rightarrow> string list" where
  "str_Fields s = split_fields [] s"

definition stop_all :: "'s process \<Rightarrow> 's worker gomap \<Rightarrow> 's worker gomap" where
  "stop_all P ws = map (\<lambda>(l, x). (l, fst (Stop P x))) ws"

text \<open>When a worker does not start, those before it are stopped, and \<open>Start\<close> has stopped its own process.\<close>

definition failed_start :: "string \<Rightarrow> 's worker option \<Rightarrow> 's worker gomap" where
  "failed_start lang h = (case h of None \<Rightarrow> [] | Some wk \<Rightarrow> [(lang, wk)])"

fun startWorkers ::
  "('w, 'n, 's) host \<Rightarrow> 'w \<Rightarrow> int \<Rightarrow> WorkerInfo list \<Rightarrow> 's worker gomap \<Rightarrow> 's worker gomap \<times> cmd_error option" where
  "startWorkers H w n [] ws = (ws, None)"
| "startWorkers H w n (info # infos) ws =
     (case Start (ho_process H) (ho_quote H) (ho_launch H w (wi_dir info))
             (str_Fields (wm_run (wi_manifest info))) (wi_language info) n of
        Inl (e, h) \<Rightarrow>
          (stop_all (ho_process H) ws @ failed_start (wi_language info) h, Some (StartFailed (wi_language info) e))
      | Inr wk \<Rightarrow> startWorkers H w n infos (AList.update (wi_language info) wk ws))"

subsection \<open>Known failures and expected skips\<close>

definition failure_reasons :: "KnownFailure list \<Rightarrow> string gomap" where
  "failure_reasons kf = fold (\<lambda>f m. AList.update (kf_test f) (kf_reason f) m) kf []"

definition loadKnownFailures :: "('w, 'n, 's) host \<Rightarrow> 'w \<Rightarrow> string \<Rightarrow> string list \<Rightarrow> string gomap gomap" where
  "loadKnownFailures H w dir langs =
     fold (\<lambda>lang m. case LoadKnownFailures H w dir lang of
         Inl e \<Rightarrow> m
       | Inr kf \<Rightarrow> if kf = [] then m else AList.update lang (failure_reasons kf) m) langs []"

definition loadExpectedSkips ::
  "('w, 'n, 's) host \<Rightarrow> 'w \<Rightarrow> string \<Rightarrow> string list \<Rightarrow> expected_skips gomap option" where
  "loadExpectedSkips H w dir langs =
     (case fs_is_dir (mc_files H w) dir of
        Inr True \<Rightarrow>
          Some (fold (\<lambda>lang m. case LoadExpectedSkips H w dir lang of
              Inl e \<Rightarrow> m
            | Inr es \<Rightarrow> AList.update lang es m) langs [])
      | _ \<Rightarrow> None)"

definition gate :: "('w, 'n, 's) host \<Rightarrow> 'w \<Rightarrow> runOpts \<Rightarrow> string list \<Rightarrow> report \<Rightarrow> report" where
  "gate H w o1 langs rep =
     (case loadExpectedSkips H w (ro_expectSkipDir o1) langs of
        None \<Rightarrow> rep
      | Some expected \<Rightarrow> CheckExpectedSkips (ho_quote H) expected rep)"

subsection \<open>run\<close>

text \<open>How a run ends: the machine, the workers as the deferred stops left them, the report if it came
  that far, and the error.\<close>

record ('w, 's) run_end =
  re_machine :: 'w
  re_workers :: "'s worker gomap"
  re_report :: "report option"
  re_error :: "cmd_error option"

definition ended :: "'w \<Rightarrow> 's worker gomap \<Rightarrow> report option \<Rightarrow> cmd_error option \<Rightarrow> ('w, 's) run_end" where
  "ended w ws rep e = \<lparr>re_machine = w, re_workers = ws, re_report = rep, re_error = e\<rparr>"

definition suite_options :: "runOpts \<Rightarrow> string gomap gomap \<Rightarrow> options" where
  "suite_options o1 kf =
     \<lparr>FullMatrix = ro_fullMatrix o1, TimeoutSec = ro_timeoutSec o1, KnownFails = kf, Audit = ro_audit o1, Oracle = []\<rparr>"

text \<open>Whether \<open>rep.Print\<close> ends the process: when the records cannot be made, or when the JSON of them cannot
  be written.\<close>

definition printTable_exits :: "report \<Rightarrow> bool" where
  "printTable_exits rep = (case Records rep of Inl e \<Rightarrow> True | Inr recs \<Rightarrow> False)"

definition printJSON_exits :: "('w, 'n, 's) host \<Rightarrow> 'w \<Rightarrow> report \<Rightarrow> bool" where
  "printJSON_exits H w rep = (case Records rep of Inl e \<Rightarrow> True | Inr recs \<Rightarrow> ho_print_json H w recs \<noteq> None)"

definition print_exits :: "('w, 'n, 's) host \<Rightarrow> 'w \<Rightarrow> report \<Rightarrow> bool" where
  "print_exits H w rep =
     (if OutputFmt rep = ''junit'' then False
      else if OutputFmt rep = ''json'' then printJSON_exits H w rep
      else printTable_exits rep)"

lemmas print_exits_defs = print_exits_def printJSON_exits_def printTable_exits_def

text \<open>From the gate to the exit code: the report is printed, then the CSV is written, before the verdict.
  Every return is followed by the deferred stops, the exit inside \<open>Print\<close> is not.\<close>

definition finish_run ::
  "('w, 'n, 's) host \<Rightarrow> runOpts \<Rightarrow> 'w \<Rightarrow> 's worker gomap \<Rightarrow> report \<Rightarrow> ('w, 's) run_end" where
  "finish_run H o1 w ws rep =
     (let verdict = (if Success rep then None else Some TestFailed); stopped = stop_all (ho_process H) ws in
      if print_exits H w rep then ended w ws (Some rep) (Some PrintExit)
      else if ro_csvPath o1 = [] then ended w stopped (Some rep) verdict
      else
        (case Records rep of
           Inl e \<Rightarrow> ended w stopped (Some rep) verdict
         | Inr recs \<Rightarrow>
             (case ho_write_csv H w (ro_csvPath o1) (WriteCSV recs) of
                (w1, Some e) \<Rightarrow> ended w1 stopped (Some rep) (Some (CsvWriteFailed e))
              | (w1, None) \<Rightarrow> ended w1 stopped (Some rep) verdict)))"

text \<open>From the started workers to the end. A panic in the rounds ends the process, whatever the other
  steps did: nothing is stopped or reported.\<close>

definition run_suite ::
  "('w, 'n, 's) host \<Rightarrow> schedule \<Rightarrow> runOpts \<Rightarrow> cases_set \<Rightarrow> 'w \<Rightarrow> 's worker gomap \<Rightarrow> ('w, 's) run_end" where
  "run_suite H sch o1 suite w ws =
     (let P = ho_process H; ref = cs_reference suite; avail = map fst ws in
      if ref \<notin> set avail then ended w (stop_all P ws) None (Some (ReferenceNotStarted ref (sort avail)))
      else
        let rep = New (OrderedLangs avail ref) (suite_TestIDs suite) (ro_outputFmt o1);
            opts = suite_options o1 (loadKnownFailures H w (ro_knowFDir o1) avail) in
        case RunSuite P (ho_env H) sch opts suite \<lparr>rs_workers = ws, rs_rep = rep, rs_panicked = False\<rparr> of
          (st, err) \<Rightarrow>
            if rs_panicked st then ended w (rs_workers st) None (Some Panicked)
            else
              (case err of
                 Some (ty, fmt, tid, e) \<Rightarrow>
                   ended w (stop_all P (rs_workers st)) (Some (rs_rep st)) (Some (CaseEncoding ty fmt tid e))
               | None \<Rightarrow>
                   finish_run H o1 w (rs_workers st) (gate H w o1 avail (rs_rep st))))"

definition runTests ::
  "nat \<Rightarrow> ('w, 'n, 's) host \<Rightarrow> schedule \<Rightarrow> string list \<Rightarrow> runOpts \<Rightarrow> 'w \<Rightarrow> ('w, 's) run_end option" where
  "runTests depth H sch dirs o1 w =
     (case validate_opts o1 of
        Some e \<Rightarrow> Some (ended w [] None (Some e))
      | None \<Rightarrow>
     (case LoadSuite depth (mc_files H w) (ho_yaml H) (ro_casesFile o1) of
        None \<Rightarrow> None
      | Some (Inl e) \<Rightarrow> Some (ended w [] None (Some (CasesFailed e)))
      | Some (Inr loaded) \<Rightarrow>
          let suite = (if ro_refLang o1 \<noteq> [] then loaded\<lparr>cs_reference := ro_refLang o1\<rparr> else loaded) in
          if cs_reference suite = [] \<and> \<not> ro_buildOnly o1 then
            Some (ended w [] None (Some (NoReferenceLanguage (ro_casesFile o1))))
          else
     (case detectAndBuild H dirs (ro_noBuild o1) w of
        (w1, Inl e) \<Rightarrow> Some (ended w1 [] None (Some e))
      | (w1, Inr infos) \<Rightarrow>
          if ro_buildOnly o1 then Some (ended w1 [] None None)
          else
     (case startWorkers H w1 (ro_startupTimeoutSec o1) infos [] of
        (ws, Some e) \<Rightarrow> Some (ended w1 ws None (Some e))
      | (ws, None) \<Rightarrow> Some (run_suite H sch o1 suite w1 ws)))))"

text \<open>The command line of \<open>run\<close>: cobra asks for at least one worker directory; \<open>main\<close> exits with 1 on any
  error, as \<open>Print\<close> does, and the Go runtime with 2 on a panic.\<close>

definition run_command ::
  "nat \<Rightarrow> ('w, 'n, 's) host \<Rightarrow> schedule \<Rightarrow> string list \<Rightarrow> runOpts \<Rightarrow> 'w \<Rightarrow> ('w, 's) run_end option" where
  "run_command depth H sch dirs o1 w =
     (if dirs = [] then Some (ended w [] None (Some NoWorkerDirs)) else runTests depth H sch dirs o1 w)"

definition main_exit :: "cmd_error option \<Rightarrow> nat" where
  "main_exit e = (case e of None \<Rightarrow> 0 | Some Panicked \<Rightarrow> 2 | Some _ \<Rightarrow> 1)"

subsection \<open>validate and table\<close>

definition looksLikeCasesDir :: "('w, 'n, 's) host \<Rightarrow> 'w \<Rightarrow> string \<Rightarrow> bool" where
  "looksLikeCasesDir H w dir =
     (case mc_glob H w (path_in H w dir ''*.yaml'') of
        Inl e \<Rightarrow> False
      | Inr matches \<Rightarrow> list_ex (\<lambda>m. \<not> has_prefix (fs_base (mc_files H w) m) ''_'') matches)"

fun validate_workers ::
  "('w, 'n, 's) host \<Rightarrow> 'w \<Rightarrow> string list \<Rightarrow> cmd_error + WorkerInfo list" where
  "validate_workers H w [] = Inr []"
| "validate_workers H w (dir # dirs) =
     (case Detect H w dir of
        Inl e \<Rightarrow> if looksLikeCasesDir H w dir then Inl (HoldsCases dir) else Inl (DetectFailed dir e)
      | Inr info \<Rightarrow> map_res ((#) info) (validate_workers H w dirs))"

text \<open>What \<open>validate\<close> prints on success: per type its formats and number of cases, the number of test
  ids, and the workers.\<close>

definition runValidate ::
  "nat \<Rightarrow> ('w, 'n, 's) host \<Rightarrow> string \<Rightarrow> string list \<Rightarrow> 'w
    \<Rightarrow> (cmd_error + (string \<times> string list \<times> nat) list \<times> nat \<times> WorkerInfo list) option" where
  "runValidate depth H casesDir dirs w =
     (case validate_workers H w dirs of
        Inl e \<Rightarrow> Some (Inl e)
      | Inr infos \<Rightarrow>
          (case LoadSuite depth (mc_files H w) (ho_yaml H) casesDir of
             None \<Rightarrow> None
           | Some (Inl e) \<Rightarrow> Some (Inl (CasesFailed e))
           | Some (Inr suite) \<Rightarrow>
               Some (Inr (map (\<lambda>ty. (cf_name ty, cf_formats ty, length (cf_cases ty))) (cs_types suite),
                          length (suite_TestIDs suite), infos))))"

definition table_command ::
  "('w, 'n, 's) host \<Rightarrow> 'w \<Rightarrow> string \<Rightarrow> cmd_error + string list \<times> string list list" where
  "table_command H w path =
     (case ho_read_csv H w path of
        Inl e \<Rightarrow> Inl (CsvOpenFailed path)
      | Inr None \<Rightarrow> Inl (CsvReadFailed path)
      | Inr (Some text1) \<Rightarrow>
          (case ReadCSV text1 of
             Inl e \<Rightarrow> Inl (CsvReadFailed path)
           | Inr recs \<Rightarrow> Inr (RenderTable recs)))"

end
