(* ===== verification/TypeFileFacts.thy ===== *)
theory TypeFileFacts
  imports TypeFile
begin

section \<open>Correctness of the loader\<close>

text \<open>
  What a loaded type satisfies, that the recursion through imports ends, and that it collects the
  types of every file reachable through \<open>import:\<close>.
\<close>

subsection \<open>A loaded type is valid\<close>

definition case_ok :: "field list \<Rightarrow> test_case \<Rightarrow> bool" where
  "case_ok schema tc \<longleftrightarrow> tc_name tc \<noteq> [] \<and>
     list_all (\<lambda>(k, v). case field_named schema k of
        None \<Rightarrow> False
      | Some f \<Rightarrow> checked_shape (FType f) v \<and> (Base (FType f) = k_enum \<longrightarrow> (\<exists>s \<in> set (Values (FType f)). v = GStr s)))
       (tc_data tc)"

definition type_ok :: "cases_file \<Rightarrow> bool" where
  "type_ok cf \<longleftrightarrow>
     cf_schema cf \<noteq> [] \<and> list_all (\<lambda>f. wf_ft (FType f)) (cf_schema cf) \<and>
     (cf_cases cf \<noteq> [] \<longrightarrow> cf_formats cf \<noteq> []) \<and>
     list_all (\<lambda>f. OracleFor cf f = OracleBytes \<or> OracleFor cf f = OracleSemantic) (cf_formats cf) \<and>
     list_all (case_ok (cf_schema cf)) (cf_cases cf)"

lemma fields_of_wf:
  assumes "fields_of n raw (newSchemaResolver reg) = Some (r', Inr schema)"
  shows "list_all (\<lambda>f. wf_ft (FType f)) schema \<and> length schema = length raw"
proof -
  have "spec memo_wf (fields_of n raw) (\<lambda>fs. list_all (\<lambda>f. wf_ft (FType f)) fs \<and> length fs = length raw)"
    unfolding fields_of_def resolve_fields_def
    by (rule spec_mapM) (auto intro!: spec_bind [OF spec_wrap [OF tc.rec_spec]] spec_ret)
  from specD [OF this memo_wf_new assms] show ?thesis by simp
qed

lemma sumSchema_wf:
  assumes "sumSchema n raw (newSchemaResolver reg) = Some (r', Inr schema)"
  shows "list_all (\<lambda>f. wf_ft (FType f)) schema \<and> schema \<noteq> []"
proof -
  have "spec memo_wf (sumSchema n raw) (\<lambda>fs. list_all (\<lambda>f. wf_ft (FType f)) fs \<and> fs \<noteq> [])"
    unfolding sumSchema_def
    by (rule spec_bind [OF tc.sumType_spec]) (auto intro!: spec_ret)
  from specD [OF this memo_wf_new assms] show ?thesis by simp
qed

lemma fold_update_lookup:
  "map_of (fold (\<lambda>(f, x) m. AList.update f x m) fs m) k =
     (case map_of (rev fs) k of None \<Rightarrow> map_of m k | Some x \<Rightarrow> Some x)"
proof (induction fs arbitrary: m)
  case (Cons f fs)
  then show ?case by (cases f) (simp add: map_of_update map_add_def split: option.splits)
qed simp

lemma validate_cases:
  assumes "validate cf = Inr u"
  shows "cf_schema cf \<noteq> []" "cf_cases cf \<noteq> [] \<Longrightarrow> cf_formats cf \<noteq> []"
    "tc \<in> set (cf_cases cf) \<Longrightarrow> tc_name tc \<noteq> []"
    "tc \<in> set (cf_cases cf) \<Longrightarrow> e \<in> set (tc_data tc) \<Longrightarrow> validate_entry cf tc e = Inr ()"
proof -
  from assms show "cf_schema cf \<noteq> []" "cf_cases cf \<noteq> [] \<Longrightarrow> cf_formats cf \<noteq> []"
    by (auto simp: validate_def split: if_splits)
  from assms obtain us where us: "mapM (validate_case cf) (cf_cases cf) = Inr us"
    by (auto simp: validate_def map_res_eq_Inr split: if_splits)
  have c: "validate_case cf tc = Inr ()" if "tc \<in> set (cf_cases cf)"
    using us that by (auto simp: mapM_Inr_conv in_set_conv_nth list_all2_conv_all_nth)
  then show "tc \<in> set (cf_cases cf) \<Longrightarrow> tc_name tc \<noteq> []"
    by (fastforce simp: validate_case_def split: if_splits)
  assume tc: "tc \<in> set (cf_cases cf)" and e: "e \<in> set (tc_data tc)"
  from c [OF tc] obtain vs where "mapM (validate_entry cf tc) (tc_data tc) = Inr vs"
    by (auto simp: validate_case_def map_res_eq_Inr split: if_splits)
  with e show "validate_entry cf tc e = Inr ()"
    by (auto simp: mapM_Inr_conv in_set_conv_nth list_all2_conv_all_nth)
qed

lemma decode_case_typed:
  assumes "decode_case y nm schema rw = Inr tc"
  shows "list_all (\<lambda>(k, v). case field_named schema k of None \<Rightarrow> True | Some f \<Rightarrow> checked_shape (FType f) v) (tc_data tc)"
proof -
  from assms obtain data where d: "decodeCaseData y schema (rw_data rw) = Inr data" and t: "tc_data tc = data"
    by (auto simp: decode_case_def rbind_eq_Inr)
  show ?thesis unfolding t by (rule decodeCaseData_typed [OF decode_typed d])
qed

lemma check_format_Inr: "check_format path f = Inr g \<Longrightarrow> g = f \<and> (snd f = OracleBytes \<or> snd f = OracleSemantic)"
  by (auto simp: check_format_def split: if_splits)

lemma validate_entry_Inr:
  "validate_entry cf tc (k, v) = Inr () \<longleftrightarrow>
     (\<exists>f. field_named (cf_schema cf) k = Some f \<and>
        (Base (FType f) = k_enum \<longrightarrow> (\<exists>s \<in> set (Values (FType f)). v = GStr s)))"
  by (auto simp: validate_entry_def validateEnum_def split: option.splits gval.splits)

lemma mapM_check:
  assumes "mapM f xs = Inr ys" and "\<And>x y. f x = Inr y \<Longrightarrow> y = x \<and> P x"
  shows "ys = xs \<and> list_all P xs"
  using assms(1) by (induction xs arbitrary: ys) (auto simp: rbind_eq_Inr dest!: assms(2))

lemma finish_type_ok:
  assumes "finish_type y path nm t specs schema = Inr cf" and "list_all (\<lambda>f. wf_ft (FType f)) schema"
  shows "type_ok cf \<and> cf_schema cf = schema"
proof -
  from assms(1) obtain cases formats where
    c: "mapM (decode_case (yaml.truncate y) nm schema) (td_cases t) = Inr cases"
    and f: "mapM (check_format path) specs = Inr formats"
    and cf: "cf = \<lparr>cf_name = nm, cf_formats = map fst formats, cf_reference = [], cf_schema = schema,
                 cf_cases = cases, cf_oracles = fold (\<lambda>(f, oracle) m. AList.update f oracle m) formats []\<rparr>"
    and v: "validate cf = Inr ()"
    by (auto simp: finish_type_def Let_def rbind_eq_Inr)
  have known: "\<forall>g \<in> set formats. snd g = OracleBytes \<or> snd g = OracleSemantic"
    using mapM_check [OF f check_format_Inr] by (simp add: list_all_iff)
  have "OracleFor cf g = OracleBytes \<or> OracleFor cf g = OracleSemantic" if "g \<in> set (cf_formats cf)" for g
  proof -
    from that obtain x where "map_of (rev formats) g = Some x"
      by (cases "map_of (rev formats) g") (auto simp: cf map_of_eq_None_iff)
    with known map_of_SomeD [OF this] show ?thesis
      by (force simp: OracleFor_def index_str_def cf fold_update_lookup)
  qed
  moreover have "case_ok schema tc" if tc: "tc \<in> set cases" for tc
  proof -
    from c tc obtain rw where "decode_case (yaml.truncate y) nm schema rw = Inr tc"
      by (auto simp: mapM_Inr_conv list_all2_conv_all_nth in_set_conv_nth)
    from decode_case_typed [OF this]
    have ty: "\<And>k v f. (k, v) \<in> set (tc_data tc) \<Longrightarrow> field_named schema k = Some f \<Longrightarrow> checked_shape (FType f) v"
      by (fastforce simp: list_all_iff)
    have "tc \<in> set (cf_cases cf)" using tc by (simp add: cf)
    note vc = validate_cases(3,4) [OF v this]
    have "\<exists>f. field_named schema k = Some f \<and>
        (Base (FType f) = k_enum \<longrightarrow> (\<exists>s \<in> set (Values (FType f)). x = GStr s))"
      if "(k, x) \<in> set (tc_data tc)" for k x
      using vc(2) [OF that] unfolding validate_entry_Inr by (simp add: cf)
    with vc(1) show ?thesis by (fastforce simp: case_ok_def list_all_iff ty)
  qed
  ultimately show ?thesis using validate_cases(1,2) [OF v] assms(2)
    by (simp add: type_ok_def list_all_iff) (simp add: cf)
qed

lemma loaded_type:
  assumes "loadTypeFile n F y path = Some (Inr cf)"
  shows "type_ok cf \<and> cf_name cf = type_name F path"
proof -
  from assms obtain t specs reg seen raw r' schema where
    fin: "finish_type y path (type_name F path) t specs schema = Inr cf"
    and res: "(if td_variants t \<noteq> [] then sumSchema n raw else fields_of n raw) (newSchemaResolver reg) =
      Some (r', Inr schema)"
    by (auto simp: loadTypeFile_def Let_def schema_result_def split: sum.splits option.splits prod.splits)
  have "list_all (\<lambda>f. wf_ft (FType f)) schema"
    using res by (auto split: if_splits dest: sumSchema_wf fields_of_wf)
  with finish_type_ok [OF fin] have "type_ok cf" by simp
  moreover have "cf_name cf = type_name F path"
    using fin by (auto simp: finish_type_def Let_def rbind_eq_Inr)
  ultimately show ?thesis by simp
qed

lemma loaded_type_ok: "loadTypeFile n F y path = Some (Inr cf) \<Longrightarrow> type_ok cf"
  by (simp add: loaded_type)

text \<open>C28. What loading a type file guarantees: its schema is not empty and well-formed (no encoder or bind
  message dereferences a nil pointer on it), a type with cases has formats, each format has a known
  oracle, every case is named and holds only fields of the schema, an enum field holds one of its
  declared values, and every value has passed the checks of \<open>decodeDataValue\<close> for the type of its field
  (\<open>checked_shape\<close>): an exact integer in range for the 64- and 128-bit kinds, a list or a map for the
  containers, one declared variant for a sum, and the same inside. Nothing more is guaranteed: a null
  passes for every type but an enum, and the other scalars are taken as YAML has them.\<close>

theorem loaded_type_valid:
  assumes "loadTypeFile n F y path = Some (Inr cf)"
  shows "type_ok cf \<and> cf_name cf = type_name F path"
  by (rule loaded_type [OF assms])

subsection \<open>Imports\<close>

lemma loadImportable_seen:
  "loadImportable n F path seen = Some (seen', res) \<Longrightarrow> set seen \<subseteq> set seen'"
proof (induction n arbitrary: path seen seen' res)
  case (Suc n)
  have all: "import_all (loadImportable n F) ps out s = Some (s', r) \<Longrightarrow> set s \<subseteq> set s'" for ps out s s' r
    by (induction ps arbitrary: out s) (fastforce split: option.splits prod.splits sum.splits dest: Suc.IH)+
  from Suc.prems show ?case
    by (auto simp: Let_def split: if_splits sum.splits prod.splits dest!: all)
qed simp

text \<open>The files a set of absolute paths leads to stay in the set.\<close>

definition import_closed :: "'n fsys \<Rightarrow> string set \<Rightarrow> bool" where
  "import_closed F A \<longleftrightarrow> (\<forall>p t own i. fs_abs F p \<in> A \<longrightarrow> own_type F p = Inr (t, own) \<longrightarrow>
     i \<in> set (td_import t) \<longrightarrow> fs_abs F (import_path F p i) \<in> A)"

lemma loadImportable_returns:
  assumes "finite A" and "import_closed F A" and "fs_abs F path \<in> A" and "card (A - set seen) < n"
  shows "loadImportable n F path seen \<noteq> None"
  using assms(3,4)
proof (induction n arbitrary: path seen)
  case (Suc n)
  have all: "import_all (loadImportable n F) ps out s \<noteq> None"
    if "\<forall>p \<in> set ps. fs_abs F p \<in> A" "card (A - set s) < n" for ps out s
    using that
  proof (induction ps arbitrary: out s)
    case (Cons p ps)
    from Suc.IH [of p s] Cons.prems obtain s' r where l: "loadImportable n F p s = Some (s', r)" by auto
    from loadImportable_seen [OF l] assms(1) Cons.prems(2) have "card (A - set s') < n"
      by (meson card_mono Diff_mono finite_Diff order_le_less_trans subset_refl)
    with Cons l show ?case by (simp split: sum.splits)
  qed simp
  show ?case
  proof (cases "fs_abs F path \<in> set seen \<or> (\<exists>e. own_type F path = Inl e)")
    case False
    then obtain t own where o: "own_type F path = Inr (t, own)" by (cases "own_type F path") auto
    have "card (A - set (fs_abs F path # seen)) < card (A - set seen)"
      using assms(1) Suc.prems(1) False by (intro psubset_card_mono) auto
    with Suc.prems(2) have "card (A - set (fs_abs F path # seen)) < n" by simp
    then have "import_all (loadImportable n F) (map (import_path F path) (td_import t)) own
        (fs_abs F path # seen) \<noteq> None"
      using assms(2) o Suc.prems(1) by (intro all) (auto simp: import_closed_def)
    with o False show ?thesis by simp
  qed auto
qed simp

text \<open>Loading an import ends, also when type files import each other in a cycle: with a call
  depth above the number of files that can be reached, \<open>loadImportable\<close> returns.\<close>

theorem imports_terminate:
  assumes "finite A" and "import_closed F A" and "fs_abs F path \<in> A" and "card A < n"
  shows "\<exists>seen res. loadImportable n F path [] = Some (seen, res)"
  using loadImportable_returns [OF assms(1-3), of "[]" n] assms(4) by auto

definition opened :: "'n fsys \<Rightarrow> string set \<Rightarrow> string set \<Rightarrow> raw_type gomap \<Rightarrow> bool" where
  "opened F new seen reg \<longleftrightarrow> (\<forall>a \<in> new. \<exists>p t own. fs_abs F p = a \<and> own_type F p = Inr (t, own) \<and>
     fst ` set own \<subseteq> fst ` set reg \<and> (\<forall>i \<in> set (td_import t). fs_abs F (import_path F p i) \<in> seen))"

lemma openedI_mono:
  "opened F new seen reg \<Longrightarrow> seen \<subseteq> seen' \<Longrightarrow> fst ` set reg \<subseteq> fst ` set reg' \<Longrightarrow> opened F new seen' reg'"
  unfolding opened_def by (meson subset_trans subsetD)

lemma opened_Un: "opened F (a \<union> b) seen reg \<longleftrightarrow> opened F a seen reg \<and> opened F b seen reg"
  unfolding opened_def by blast

lemma copy_into_keys: "fst ` set (copy_into dst src) = fst ` set dst \<union> fst ` set src"
proof (induction src arbitrary: dst)
  case (Cons e src)
  obtain k v where e: "e = (k, v)" by (cases e)
  have "copy_into dst (e # src) = copy_into (AList.update k v dst) src" by (simp add: copy_into_def e)
  then show ?case by (simp add: Cons.IH e dom_update insert_commute)
qed (simp add: copy_into_def)

lemma import_all_post:
  assumes load: "\<And>p s s' sub. load p s = Some (s', Inr sub) \<Longrightarrow>
      set s \<subseteq> set s' \<and> fs_abs F p \<in> set s' \<and> opened F (set s' - set s) (set s') sub"
    and run: "import_all load ps out s = Some (s', Inr reg)"
  shows "set s \<subseteq> set s' \<and> fst ` set out \<subseteq> fst ` set reg \<and> (\<forall>p \<in> set ps. fs_abs F p \<in> set s') \<and>
    opened F (set s' - set s) (set s') reg"
  using run
proof (induction ps arbitrary: out s)
  case Nil
  then show ?case by (simp add: opened_def)
next
  case (Cons p ps)
  then obtain s1 sub where l: "load p s = Some (s1, Inr sub)"
    and r: "import_all load ps (copy_into out sub) s1 = Some (s', Inr reg)"
    by (auto split: option.splits sum.splits)
  from load [OF l] have 1: "set s \<subseteq> set s1" "fs_abs F p \<in> set s1" "opened F (set s1 - set s) (set s1) sub" by auto
  from Cons.IH [OF r] have 2: "set s1 \<subseteq> set s'" "fst ` set (copy_into out sub) \<subseteq> fst ` set reg"
    "\<forall>p \<in> set ps. fs_abs F p \<in> set s'" "opened F (set s' - set s1) (set s') reg" by auto
  have "opened F (set s1 - set s) (set s') reg"
    using 1(3) 2(1,2) by (auto intro: openedI_mono simp: copy_into_keys)
  moreover have "set s' - set s = (set s1 - set s) \<union> (set s' - set s1)" using 1(1) 2(1) by blast
  ultimately show ?case using 1(1,2) 2 by (auto simp: opened_Un copy_into_keys)
qed

lemma loadImportable_post:
  "loadImportable n F path seen = Some (seen', Inr reg) \<Longrightarrow>
     set seen \<subseteq> set seen' \<and> fs_abs F path \<in> set seen' \<and> opened F (set seen' - set seen) (set seen') reg"
proof (induction n arbitrary: path seen seen' reg)
  case (Suc n)
  show ?case
  proof (cases "fs_abs F path \<in> set seen")
    case True
    with Suc.prems show ?thesis by (auto simp: opened_def)
  next
    case False
    with Suc.prems obtain t own where o: "own_type F path = Inr (t, own)"
      and r: "import_all (loadImportable n F) (map (import_path F path) (td_import t)) own
        (fs_abs F path # seen) = Some (seen', Inr reg)"
      by (auto simp: Let_def split: sum.splits)
    from import_all_post [OF Suc.IH r] have
      p: "set (fs_abs F path # seen) \<subseteq> set seen'" "fst ` set own \<subseteq> fst ` set reg"
        "\<forall>i \<in> set (td_import t). fs_abs F (import_path F path i) \<in> set seen'"
        "opened F (set seen' - set (fs_abs F path # seen)) (set seen') reg" by auto
    then have "opened F {fs_abs F path} (set seen') reg" using o by (auto simp: opened_def)
    moreover have "set seen' - set seen = {fs_abs F path} \<union> (set seen' - set (fs_abs F path # seen))"
      using p(1) False by auto
    ultimately have "opened F (set seen' - set seen) (set seen') reg"
      using p(4) by (metis opened_Un)
    then show ?thesis using p(1) by simp
  qed
qed simp

text \<open>The files reachable from one by its imports.\<close>

inductive reaches :: "'n fsys \<Rightarrow> string \<Rightarrow> string \<Rightarrow> bool" for F path where
  reaches_refl: "reaches F path path"
| reaches_import: "reaches F path p \<Longrightarrow> own_type F p = Inr (t, own) \<Longrightarrow> i \<in> set (td_import t) \<Longrightarrow>
    reaches F path (import_path F p i)"

text \<open>Two paths with one absolute path name the same file and lead to the same files.\<close>

definition same_files :: "'n fsys \<Rightarrow> bool" where
  "same_files F \<longleftrightarrow> (\<forall>p q. fs_abs F p = fs_abs F q \<longrightarrow>
     (\<forall>x. own_type F p = Inr x \<longrightarrow> own_type F q = Inr x) \<and>
     (\<forall>i. fs_abs F (import_path F p i) = fs_abs F (import_path F q i)))"

text \<open>C29. An import brings in every type it depends on: when \<open>loadImportable\<close> succeeds, the registry
  it returns names the type of every file reachable through \<open>import:\<close>, however the imports are
  nested, shared or cyclic.\<close>

theorem imports_complete:
  assumes "loadImportable n F path [] = Some (seen, Inr reg)" and "same_files F" and "reaches F path q"
  shows "type_name F q \<in> fst ` set reg"
proof -
  from loadImportable_post [OF assms(1)] have path: "fs_abs F path \<in> set seen"
    and op: "opened F (set seen) (set seen) reg" by auto
  have open_file: "\<exists>t own. own_type F p = Inr (t, own) \<and> fst ` set own \<subseteq> fst ` set reg \<and>
      (\<forall>i \<in> set (td_import t). fs_abs F (import_path F p i) \<in> set seen)" if "fs_abs F p \<in> set seen" for p
    using op that assms(2) unfolding opened_def same_files_def by metis
  from assms(3) have "fs_abs F q \<in> set seen"
  proof induction
    case (reaches_import p t own i)
    with open_file [of p] show ?case by auto
  qed (rule path)
  from open_file [OF this] obtain t own where "own_type F q = Inr (t, own)" "fst ` set own \<subseteq> fst ` set reg" by blast
  then show ?thesis by (auto simp: own_type_def rbind_eq_Inr)
qed

subsection \<open>An example suite\<close>

text \<open>Two files that import each other, with scalar nodes as strings.\<close>

definition example_doc :: "string \<Rightarrow> string option + string doc" where
  "example_doc path =
     (if path = ''user.yaml'' then
        Inr \<lparr>d_keys = Some [''import'', ''fields'', ''formats'', ''cases''],
             d_type = Some \<lparr>td_formats = [''bin''], td_import = [''mode.yaml''],
               td_fields = [[(''id'', ''uint64'')], [(''mode'', ''mode'')], [(''tier'', ''enum<free,paid>'')]],
               td_variants = [],
               td_cases = [\<lparr>rw_name = ''one'', rw_description = [],
                 rw_data = [(''id'', ''7''), (''tier'', ''paid'')]\<rparr>], td_transparent = False\<rparr>,
             d_reference = [], d_config_formats = [], d_config_ok = True\<rparr>
      else if path = ''mode.yaml'' then
        Inr \<lparr>d_keys = Some [''import'', ''variants''],
             d_type = Some \<lparr>td_formats = [], td_import = [''user.yaml''], td_fields = [],
               td_variants = [[(''on'', [])], [(''level'', ''uint8'')]], td_cases = [], td_transparent = False\<rparr>,
             d_reference = [], d_config_formats = [], d_config_ok = True\<rparr>
      else Inl None)"

definition example_fs :: "string fsys" where
  "example_fs = \<lparr>fs_read = example_doc, fs_abs = id, fs_join = (\<lambda>d p. p), fs_dir = (\<lambda>p. []),
     fs_base = id, fs_list = (\<lambda>d. Inr [(''mode.yaml'', False), (''user.yaml'', False)]),
     fs_is_dir = (\<lambda>d. Inr True)\<rparr>"

definition example_yaml :: "string yaml_doc" where
  "example_yaml = yaml.extend decimal_yaml
     \<lparr>y_spec = (\<lambda>n. None), y_value = id\<rparr>"

definition mapping_yaml :: "string yaml_doc" where
  "mapping_yaml = example_yaml\<lparr>y_scalar := (\<lambda>n. False), y_spec := (\<lambda>n. Some (n, OracleBytes))\<rparr>"

theorem loaded_type_valid_witness:
  "\<exists>cf. loadTypeFile 20 example_fs mapping_yaml ''user.yaml'' = Some (Inr cf) \<and> type_ok cf"
proof -
  have "case loadTypeFile 20 example_fs mapping_yaml ''user.yaml'' of Some (Inr cf) \<Rightarrow> True | _ \<Rightarrow> False"
    by code_simp
  then obtain cf where cf: "loadTypeFile 20 example_fs mapping_yaml ''user.yaml'' = Some (Inr cf)"
    by (auto split: option.splits sum.splits)
  with loaded_type_valid [OF cf] show ?thesis by blast
qed

lemma example_own_types:
  "own_type example_fs p = Inr (t, own) \<Longrightarrow>
     p = ''user.yaml'' \<and> td_import t = [''mode.yaml''] \<or> p = ''mode.yaml'' \<and> td_import t = [''user.yaml'']"
  by (auto simp: own_type_def read_doc_def example_fs_def example_doc_def type_doc_of_def rbind_eq_Inr
      split: if_splits)

lemma example_import_path [simp]: "import_path example_fs p i = i" "fs_abs example_fs p = p"
  by (simp_all add: import_path_def example_fs_def)

theorem imports_terminate_witness:
  "\<exists>seen res. loadImportable 3 example_fs ''user.yaml'' [] = Some (seen, res)"
proof (rule imports_terminate [where A = "{''user.yaml'', ''mode.yaml''}"])
  show "import_closed example_fs {''user.yaml'', ''mode.yaml''}"
    by (auto simp: import_closed_def dest!: example_own_types)
qed (simp_all add: card_insert_if)

theorem imports_complete_witness:
  "\<exists>seen reg. loadImportable 5 example_fs ''user.yaml'' [] = Some (seen, Inr reg) \<and> ''mode'' \<in> fst ` set reg"
proof -
  have "case loadImportable 5 example_fs ''user.yaml'' [] of Some (seen, Inr reg) \<Rightarrow> True | _ \<Rightarrow> False"
    by code_simp
  then obtain seen reg where run: "loadImportable 5 example_fs ''user.yaml'' [] = Some (seen, Inr reg)"
    by (auto split: option.splits sum.splits) (metis sum.exhaust)
  have "case own_type example_fs ''user.yaml'' of Inr (t, own) \<Rightarrow> True | _ \<Rightarrow> False"
    by code_simp
  then obtain t own where o: "own_type example_fs ''user.yaml'' = Inr (t, own)"
    by (auto split: sum.splits)
  with example_own_types [OF o] have "reaches example_fs ''user.yaml'' ''mode.yaml''"
    using reaches_import [OF reaches_refl o, of "''mode.yaml''"] by simp
  moreover have "same_files example_fs" by (simp add: same_files_def)
  ultimately have "type_name example_fs ''mode.yaml'' \<in> fst ` set reg"
    by (intro imports_complete [OF run])
  moreover have "type_name example_fs ''mode.yaml'' = ''mode''" by code_simp
  ultimately show ?thesis using run by auto
qed

end
