(* ===== verification/CommandFacts.thy ===== *)
theory CommandFacts
  imports Command TypeFileFacts
begin

section \<open>What a green run means\<close>

text \<open>
  The promises of \<open>serify run\<close> as a whole: exit code 0 means that every case was judged for every
  worker and no row failed, skips included where the suite opted into the coverage gate; no run
  panics; and however the command ends, no worker is left running, but for one exit.
\<close>

subsection \<open>Loaded suites do not make the run panic\<close>

text \<open>The schema of every type of a loaded suite can be put into a bind message.\<close>

lemma load_types_in:
  "load_types load ps = Some (Inr types) \<Longrightarrow> ty \<in> set types \<Longrightarrow> \<exists>p. load p = Some (Inr ty)"
  by (induction ps arbitrary: types)
    (fastforce simp: map_res_eq_Inr split: option.splits sum.splits if_splits)+

lemma LoadSuite_schemas:
  assumes "LoadSuite n F y dir = Some (Inr suite)" and "ty \<in> set (cs_types suite)"
  shows "\<exists>sfs. SchemaFields (cf_schema ty) = Inr sfs"
proof -
  from assms(1) obtain types ps where t: "load_types (loadTypeFile n F y) ps = Some (Inr types)"
    and s: "set (cs_types suite) = set types"
    by (auto simp: LoadSuite_def rbind_eq_Inr split: sum.splits bool.splits option.splits if_splits)
  from load_types_in [OF t] assms(2) s obtain path where "loadTypeFile n F y path = Some (Inr ty)" by auto
  then have "type_ok ty" by (rule loaded_type_ok)
  then show ?thesis using SchemaFields_total_if [of "cf_schema ty"] schemaFieldOfType_total
    by (auto simp: type_ok_def list_all_iff)
qed

lemma splitTestID3_TestIDFmt: "splitTestID3 (TestIDFmt a b c) \<noteq> None"
proof -
  have one: "\<exists>x y. cut k (p @ k # q) = (x, y, True)" for p q and k :: char
    by (induction p) auto
  have more: "\<exists>x y z. cut k (p @ k # q @ k # r) = (x, y, True) \<and> cut k y = (fst (cut k y), z, True)"
    for p q r and k :: char
  proof (induction p)
    case Nil
    then show ?case using one [of k q r] by auto
  qed auto
  from more [of "CHR ''/''" a b c] show ?thesis
    by (auto simp: splitTestID3_def TestIDFmt_def numeral_3_eq_3 split: prod.splits)
qed

lemma Records_returns:
  assumes "\<forall>tid \<in> set (TestIDs rep). splitTestID3 tid \<noteq> None"
  shows "\<exists>recs. Records rep = Inr recs"
proof -
  have "\<exists>ys. mapM (\<lambda>tid. case splitTestID3 tid of None \<Rightarrow> Inl tid | Some parts \<Rightarrow> Inr (records_of_test rep tid parts)) tids = Inr ys"
    if "\<forall>tid \<in> set tids. splitTestID3 tid \<noteq> None" for tids
    using that by (induction tids) auto
  with assms show ?thesis by (fastforce simp: Records_def)
qed

subsection \<open>No worker is left running\<close>

definition all_dead :: "'s worker gomap \<Rightarrow> bool" where
  "all_dead ws \<longleftrightarrow> (\<forall>(l, x) \<in> set ws. w_dead x)"

lemma stop_all_dead [simp]: "all_dead (stop_all P ws)"
  by (auto simp: all_dead_def stop_all_def Stop_dead)

lemma all_dead_simps [simp]: "all_dead []" "all_dead (ws @ ws') \<longleftrightarrow> all_dead ws \<and> all_dead ws'"
  by (auto simp: all_dead_def)

lemma ended_sel [simp]:
  "re_workers (ended w ws rep e) = ws" "re_error (ended w ws rep e) = e" "re_report (ended w ws rep e) = rep"
  "re_machine (ended w ws rep e) = w"
  by (simp_all add: ended_def)

lemma finish_run_report [simp]: "re_report (finish_run H o1 w ws rep) = Some rep"
  by (simp add: finish_run_def Let_def split: sum.split prod.split option.split)

lemma finish_run_ok: "re_error (finish_run H o1 w ws rep) = None \<Longrightarrow> Success rep"
  by (auto simp: finish_run_def Let_def split: sum.splits prod.splits option.splits if_splits)

lemma failed_start_dead: "Start P q launch parts lang n = Inl (e, h) \<Longrightarrow> all_dead (failed_start lang h)"
  by (cases h) (auto simp: failed_start_def all_dead_def dest: Start_failed_stopped)

lemma startWorkers_dead: "startWorkers H w n infos ws = (ws', Some e) \<Longrightarrow> all_dead ws'"
  by (induction infos arbitrary: ws) (auto dest: failed_start_dead split: sum.splits)

text \<open>The one end of a run that leaves the workers as they are: the report was asked for as JSON, and standard
  output did not take it.\<close>

definition print_failed :: "('w, 'n, 's) host \<Rightarrow> runOpts \<Rightarrow> ('w, 's) run_end \<Rightarrow> bool" where
  "print_failed H o1 r \<longleftrightarrow> re_error r = Some PrintExit \<and> ro_outputFmt o1 = ''json'' \<and>
     (\<exists>recs e. ho_print_json H (re_machine r) recs = Some e)"

lemma grows_RunSuite: "grows st (fst (RunSuite P oe sch opts suite st))"
proof -
  have step: "grows (fst se) (fst (run_type_format P oe sch opts r tf se))" for r tf and se :: "'a run_state \<times> _"
    by (cases tf; cases se) (simp add: run_type_format_def split_beta grows_runTypeFormat)
  have "grows (fst se) (fst (fold (run_type_format P oe sch opts r) tfs se))" for r tfs and se :: "'a run_state \<times> _"
  proof (induction tfs arbitrary: se)
    case (Cons tf tfs)
    show ?case using grows_trans [OF step Cons.IH] by simp
  qed simp
  from this [of "(st, None)"] show ?thesis by (simp add: RunSuite_def)
qed

lemma adds_fields [simp]:
  "TestIDs (fold Add rows rep) = TestIDs rep" "OutputFmt (fold Add rows rep) = OutputFmt rep"
  by (induction rows arbitrary: rep) simp_all

lemma gate_fields [simp]:
  "TestIDs (gate H w o1 langs rep) = TestIDs rep" "OutputFmt (gate H w o1 langs rep) = OutputFmt rep"
  by (simp_all add: gate_def CheckExpectedSkips_def split: option.split prod.split)

lemma finish_run_dead:
  assumes "\<forall>tid \<in> set (TestIDs rep). splitTestID3 tid \<noteq> None" and "OutputFmt rep = ro_outputFmt o1"
  shows "all_dead (re_workers (finish_run H o1 w ws rep)) \<or> print_failed H o1 (finish_run H o1 w ws rep)"
proof -
  obtain recs where "Records rep = Inr recs" using Records_returns [OF assms(1)] by blast
  then show ?thesis using assms(2)
    by (auto simp: finish_run_def print_exits_defs print_failed_def Let_def split: prod.split option.split)
qed

lemma finish_run_no_panic: "re_error (finish_run H o1 w ws rep) \<noteq> Some Panicked"
  by (auto simp: finish_run_def Let_def split: sum.split prod.split option.split)

lemma run_suite_ends:
  assumes "\<forall>ty \<in> set (cs_types suite). \<exists>sfs. SchemaFields (cf_schema ty) = Inr sfs"
  shows "(all_dead (re_workers (run_suite H sch o1 suite w ws)) \<or> print_failed H o1 (run_suite H sch o1 suite w ws)) \<and>
    re_error (run_suite H sch o1 suite w ws) \<noteq> Some Panicked"
proof (cases "cs_reference suite \<in> set (map fst ws)")
  case True
  let ?opts = "suite_options o1 (loadKnownFailures H w (ro_knowFDir o1) (map fst ws))"
  let ?rep = "New (OrderedLangs (map fst ws) (cs_reference suite)) (suite_TestIDs suite) (ro_outputFmt o1)"
  let ?st0 = "\<lparr>rs_workers = ws, rs_rep = ?rep, rs_panicked = False\<rparr>"
  obtain st err where run: "RunSuite (ho_process H) (ho_env H) sch ?opts suite ?st0 = (st, err)" by (metis surj_pair)
  have calm: "\<not> rs_panicked st"
    using RunSuite_no_panic [OF assms, of "ho_process H" "ho_env H" sch ?opts ?st0] run by simp
  have "grows ?st0 st" using grows_RunSuite run by (metis fst_conv)
  then have "TestIDs (rs_rep st) = suite_TestIDs suite" "OutputFmt (rs_rep st) = ro_outputFmt o1"
    by (simp_all add: grows_def New_def)
  moreover have "\<forall>tid \<in> set (suite_TestIDs suite). splitTestID3 tid \<noteq> None"
    using splitTestID3_TestIDFmt by (auto simp: suite_TestIDs_def)
  ultimately show ?thesis
    using True run calm
      finish_run_dead [of "gate H w o1 (map fst ws) (rs_rep st)" o1 H w "rs_workers st"]
      finish_run_no_panic [of H o1 w "rs_workers st" "gate H w o1 (map fst ws) (rs_rep st)"]
    by (auto simp: run_suite_def Let_def split: option.split)
qed (auto simp: run_suite_def Let_def)

lemma runTests_ends:
  assumes "runTests depth H sch dirs o1 w = Some r"
  shows "(all_dead (re_workers r) \<and> re_error r \<noteq> Some Panicked) \<or>
    (\<exists>suite w1 ws. LoadSuite depth (mc_files H w) (ho_yaml H) (ro_casesFile o1) = Some (Inr suite) \<and>
      r = run_suite H sch o1 (if ro_refLang o1 \<noteq> [] then suite\<lparr>cs_reference := ro_refLang o1\<rparr> else suite) w1 ws)"
proof -
  have v: "validate_opts o1 \<noteq> Some Panicked" by (simp add: validate_opts_def)
  have d: "detect_all H nb ds seen infos v \<noteq> (v', Inl Panicked)" for nb ds seen infos v v'
    by (induction ds arbitrary: seen infos v) (auto simp: Let_def split: sum.splits option.splits if_splits prod.splits)
  have s: "startWorkers H v n infos ws \<noteq> (ws', Some Panicked)" for v n infos ws ws'
    by (induction infos arbitrary: ws) (auto split: sum.splits)
  show ?thesis
    using assms v
    by (auto simp: runTests_def detectAndBuild_def Let_def d s dest: startWorkers_dead
        split: option.splits sum.splits prod.splits if_splits)
qed


subsection \<open>Exit code 0\<close>

lemma consistent_adds: "consistent rep \<Longrightarrow> consistent (fold Add rows rep)"
  by (induction rows arbitrary: rep) (simp_all add: consistent_Add)

lemma found_adds: "find_result rep k \<noteq> None \<Longrightarrow> find_result (fold Add rows rep) k \<noteq> None"
  by (induction rows arbitrary: rep) (simp_all add: find_result_Add)

lemma consistent_gate: "consistent rep \<Longrightarrow> consistent (gate H w o1 langs rep)"
  by (auto simp: gate_def CheckExpectedSkips_def intro!: consistent_adds split: option.split prod.split)

lemma found_gate: "find_result rep k \<noteq> None \<Longrightarrow> find_result (gate H w o1 langs rep) k \<noteq> None"
  using found_adds [OF found_adds]
  by (simp add: gate_def CheckExpectedSkips_def split: option.split prod.split)

text \<open>The gate adds no skip: its own rows are FAIL and WARN.\<close>

lemma skip_before_adds:
  assumes "find_result (fold Add rows rep) k = Some r" and "judged_skip r"
    and "list_all (\<lambda>x. Status x \<noteq> StatusSkip) rows"
  shows "find_result rep k = Some r"
  using assms by (auto simp: find_fold_Add judged_skip_def list_all_iff split: option.splits dest!: find_SomeD)

lemma skip_before_gate:
  assumes "find_result (CheckExpectedSkips q expected rep) k = Some r" and "judged_skip r"
  shows "find_result rep k = Some r"
proof -
  let ?init = "(map (\<lambda>(lang, es). (lang, initial_used es)) expected, [] :: row list)"
  obtain used und where f: "fold (check_row q expected) (entries rep) ?init = (used, und)" by (metis surj_pair)
  have "list_all (\<lambda>x. Status x \<noteq> StatusSkip) (stale_rows q used)"
    by (auto simp: list_all_iff stale_rows_in)
  moreover have "list_all (\<lambda>x. Status x \<noteq> StatusSkip) und"
    using undeclared_rows [of q expected "entries rep" ?init] f by (auto simp: list_all_iff)
  moreover have "find_result (fold Add (stale_rows q used) (fold Add und rep)) k = Some r"
    using assms(1) by (simp add: CheckExpectedSkips_def f)
  ultimately show ?thesis using skip_before_adds assms(2) by blast
qed

lemma gate_declares:
  assumes "results_wf (Results rep)" and "Success (gate H w o1 langs rep)"
    and "loadExpectedSkips H w (ro_expectSkipDir o1) langs = Some expected"
    and "find_result (gate H w o1 langs rep) (t, l, op) = Some r" and "judged_skip r"
  shows "covered expected t l op"
proof -
  have g: "gate H w o1 langs rep = CheckExpectedSkips (ho_quote H) expected rep"
    using assms(3) by (simp add: gate_def)
  then have "find_result rep (t, l, op) = Some r" using assms(4,5) skip_before_gate by metis
  with gate_success [OF assms(1)] assms(2,5) g show ?thesis by metis
qed

text \<open>The workers started are those detected, in their order: no two have the same language.\<close>

lemma startWorkers_languages:
  "startWorkers H w n infos ws = (ws', None) \<Longrightarrow> distinct (map fst ws @ map wi_language infos) \<Longrightarrow>
     map fst ws' = map fst ws @ map wi_language infos"
proof (induction infos arbitrary: ws)
  case (Cons info infos)
  then show ?case by (auto simp: update_fresh split: sum.splits)
qed simp

lemma detect_all_distinct:
  "detect_all H nb dirs seen infos w = (w', Inr infos') \<Longrightarrow> fst ` set seen = wi_language ` set infos \<Longrightarrow>
     distinct (map wi_language infos) \<Longrightarrow> distinct (map wi_language infos')"
proof (induction dirs arbitrary: seen infos w)
  case (Cons dir dirs)
  from Cons.prems(1) obtain info where info: "Detect H w dir = Inr info" by (auto split: sum.splits)
  with Cons.prems(1) have new: "map_of seen (wi_language info) = None" by (auto split: option.splits)
  then have fresh: "wi_language info \<notin> wi_language ` set infos" using Cons.prems(2) by (simp add: map_of_eq_None_iff)
  let ?seen = "AList.update (wi_language info) dir seen" and ?infos = "infos @ [info]"
  from Cons.prems(1) info new obtain w1 where "detect_all H nb dirs ?seen ?infos w1 = (w', Inr infos')"
    by (auto simp: Let_def split: if_splits prod.splits option.splits)
  moreover have "fst ` set ?seen = wi_language ` set ?infos" using Cons.prems(2) by (auto simp: dom_update)
  moreover have "distinct (map wi_language ?infos)" using Cons.prems(3) fresh by auto
  ultimately show ?case by (rule Cons.IH)
qed simp

text \<open>What a run without an error has reported, by the time it has its workers.\<close>

definition all_judged :: "report \<Rightarrow> cases_set \<Rightarrow> string set \<Rightarrow> bool" where
  "all_judged rep suite langs \<longleftrightarrow> (\<forall>ty \<in> set (cs_types suite). \<forall>format \<in> set (cf_formats ty). \<forall>tc \<in> set (cf_cases ty).
     \<forall>lang \<in> langs. \<forall>op \<in> {op_serialize, op_deserialize}.
     find_result rep (TestIDFmt (cf_name ty) format (tc_name tc), lang, op) \<noteq> None)"

definition no_failed_row :: "report \<Rightarrow> bool" where
  "no_failed_row rep \<longleftrightarrow> (\<forall>k row. find_result rep k = Some row \<longrightarrow> Status row \<noteq> StatusFail \<and> Status row \<noteq> StatusError)"

definition skips_declared :: "('w, 'n, 's) host \<Rightarrow> 'w \<Rightarrow> runOpts \<Rightarrow> string list \<Rightarrow> report \<Rightarrow> bool" where
  "skips_declared H w o1 langs rep \<longleftrightarrow> (\<forall>expected t l op row. loadExpectedSkips H w (ro_expectSkipDir o1) langs = Some expected \<longrightarrow>
     find_result rep (t, l, op) = Some row \<longrightarrow> judged_skip row \<longrightarrow> covered expected t l op)"

lemma run_suite_passed:
  assumes "never_cancelled (ho_process H)" and "re_error (run_suite H sch o1 suite w ws) = None"
  shows "\<exists>rep. re_report (run_suite H sch o1 suite w ws) = Some rep \<and> cs_reference suite \<in> set (map fst ws) \<and>
    all_judged rep suite (set (map fst ws)) \<and> no_failed_row rep \<and> skips_declared H w o1 (map fst ws) rep"
proof -
  let ?ref = "cs_reference suite" and ?avail = "map fst ws" and ?P = "ho_process H"
  define opts where "opts = suite_options o1 (loadKnownFailures H w (ro_knowFDir o1) ?avail)"
  define rep0 where "rep0 = New (OrderedLangs ?avail ?ref) (suite_TestIDs suite) (ro_outputFmt o1)"
  let ?st0 = "\<lparr>rs_workers = ws, rs_rep = rep0, rs_panicked = False\<rparr>"
  obtain st err where run: "RunSuite ?P (ho_env H) sch opts suite ?st0 = (st, err)" by (metis surj_pair)
  from assms(2) run have ref: "?ref \<in> set ?avail" and err: "err = None" and calm: "\<not> rs_panicked st"
    by (auto simp: run_suite_def Let_def opts_def rep0_def split: if_splits option.splits)
  let ?rep = "gate H w o1 ?avail (rs_rep st)"
  from run ref err calm have whole: "run_suite H sch o1 suite w ws = finish_run H o1 w (rs_workers st) ?rep"
    by (simp add: run_suite_def Let_def opts_def rep0_def)
  have "grows ?st0 st" using grows_RunSuite run by (metis fst_conv)
  then have cons: "consistent (rs_rep st)" by (simp add: grows_def rep0_def consistent_New)
  have ok: "Success ?rep" using assms(2) whole by (auto intro: finish_run_ok)
  have failed: "no_failed_row ?rep"
    using consistent_gate [OF cons, of H w o1 ?avail] ok unfolding no_failed_row_def consistent_def is_failure_def by blast
  have skips: "skips_declared H w o1 ?avail ?rep"
    using gate_declares [OF _ ok] cons unfolding skips_declared_def consistent_def by blast
  have st: "st = fst (RunSuite ?P (ho_env H) sch opts suite ?st0)" by (simp add: run)
  have "all_judged (rs_rep st) suite (set ?avail)"
    unfolding st all_judged_def by (intro ballI case_is_reported [OF assms(1)]) auto
  then have "all_judged ?rep suite (set ?avail)"
    unfolding all_judged_def by (intro ballI found_gate) blast
  with ref whole failed skips show ?thesis by simp
qed

text \<open>C4. Exit code 0 of \<open>serify run\<close> means what it says, for a run that is not cancelled. The options were
  valid, the suite loaded, and the reference language is among the workers. For every case of every type, in
  each of its formats, and for every worker directory given, the report has a serialize and a
  deserialize row. No row of the report is FAIL or ERROR. Where the suite has a directory of expected skips, every SKIP of
  the report is declared there for its worker, those apart that follow from a failure of the reference.
  Without that directory a skip does not count: the gate is opt-in.\<close>

theorem exit_zero_means_passed:
  assumes "run_command depth H sch dirs o1 w = Some r" and "main_exit (re_error r) = 0"
    and "\<not> ro_buildOnly o1" and "never_cancelled (ho_process H)"
  shows "\<exists>suite w1 infos rep. LoadSuite depth (mc_files H w) (ho_yaml H) (ro_casesFile o1) = Some (Inr suite) \<and>
    detectAndBuild H dirs (ro_noBuild o1) w = (w1, Inr infos) \<and> re_report r = Some rep \<and>
    (if ro_refLang o1 = [] then cs_reference suite else ro_refLang o1) \<in> wi_language ` set infos \<and>
    (\<forall>ty \<in> set (cs_types suite). \<forall>format \<in> set (cf_formats ty). \<forall>tc \<in> set (cf_cases ty).
      \<forall>info \<in> set infos. \<forall>op \<in> {op_serialize, op_deserialize}.
      find_result rep (TestIDFmt (cf_name ty) format (tc_name tc), wi_language info, op) \<noteq> None) \<and>
    (\<forall>k row. find_result rep k = Some row \<longrightarrow> Status row \<noteq> StatusFail \<and> Status row \<noteq> StatusError) \<and>
    (\<forall>expected t l op row.
      loadExpectedSkips H w1 (ro_expectSkipDir o1) (map wi_language infos) = Some expected \<longrightarrow>
      find_result rep (t, l, op) = Some row \<longrightarrow> judged_skip row \<longrightarrow> covered expected t l op)"
proof -
  from assms(2) have ok: "re_error r = None" by (simp add: main_exit_def split: option.splits cmd_error.splits)
  with assms(1) have r: "runTests depth H sch dirs o1 w = Some r"
    by (auto simp: run_command_def split: if_splits)
  then obtain suite w1 infos ws where load: "LoadSuite depth (mc_files H w) (ho_yaml H) (ro_casesFile o1) = Some (Inr suite)"
    and det: "detectAndBuild H dirs (ro_noBuild o1) w = (w1, Inr infos)"
    and start: "startWorkers H w1 (ro_startupTimeoutSec o1) infos [] = (ws, None)"
    and run: "r = run_suite H sch o1 (if ro_refLang o1 \<noteq> [] then suite\<lparr>cs_reference := ro_refLang o1\<rparr> else suite) w1 ws"
    using ok assms(3) by (auto simp: runTests_def Let_def split: option.splits sum.splits prod.splits if_splits)
  let ?suite = "if ro_refLang o1 \<noteq> [] then suite\<lparr>cs_reference := ro_refLang o1\<rparr> else suite"
  have "distinct (map wi_language infos)"
    using detect_all_distinct det unfolding detectAndBuild_def by fastforce
  then have langs: "map fst ws = map wi_language infos" using startWorkers_languages [OF start] by simp
  have types: "cs_types ?suite = cs_types suite" by simp
  obtain rep where rep: "re_report r = Some rep" and ref: "cs_reference ?suite \<in> set (map wi_language infos)"
    and judged: "all_judged rep ?suite (set (map wi_language infos))"
    and rows: "no_failed_row rep" "skips_declared H w1 o1 (map wi_language infos) rep"
    using run_suite_passed [OF assms(4) ok [unfolded run]] unfolding langs run by blast
  have "(if ro_refLang o1 = [] then cs_reference suite else ro_refLang o1) \<in> wi_language ` set infos"
    using ref by (auto split: if_splits)
  moreover have "\<forall>ty \<in> set (cs_types suite). \<forall>format \<in> set (cf_formats ty). \<forall>tc \<in> set (cf_cases ty).
      \<forall>info \<in> set infos. \<forall>op \<in> {op_serialize, op_deserialize}.
      find_result rep (TestIDFmt (cf_name ty) format (tc_name tc), wi_language info, op) \<noteq> None"
    using judged unfolding all_judged_def types by simp
  ultimately show ?thesis
    using load det rep rows unfolding no_failed_row_def skips_declared_def by blast
qed

subsection \<open>A run\<close>

text \<open>One worker, on the example suite: it answers the ping and does not implement the type, and the
  suite declares that.\<close>

definition example_declared :: expected_skips where
  "example_declared = \<lparr>es_types = [''user''], es_operations = []\<rparr>"

definition example_host :: "(unit, string, script) host" where
  "example_host = \<lparr>mc_files = (\<lambda>_. example_fs\<lparr>fs_is_dir := (\<lambda>d. Inr (d = ''cases'' \<or> d = ''expected_skips''))\<rparr>),
     mc_abs = (\<lambda>_ d. Inr d), mc_stat = (\<lambda>_ p. p = ''go.mod''), mc_glob = (\<lambda>_ p. Inr []),
     mc_manifest = (\<lambda>_ p. Inl None), mc_sh = (\<lambda>w d c. (w, None)),
     ho_yaml = mapping_yaml, ho_process = script_process,
     ho_launch = (\<lambda>_ d parts. Inr \<lparr>sc_log = [], sc_events =
       [Line (JObj [(''op'', JStr ''ping''), (''status'', JStr ''OK''), (''protocol_version'', JNum (f64_of_int 2))]),
        Line (JObj [(''op'', JStr ''bind''), (''status'', JStr ''SKIPPED'')])], sc_killed = False\<rparr>),
     ho_env = example_oe, ho_skips = (\<lambda>_ p. Inr (Some example_declared)), ho_known = (\<lambda>_ p. Inl None),
     ho_write_csv = (\<lambda>w p text1. (w, None)), ho_print_json = (\<lambda>_ recs. None),
     ho_read_csv = (\<lambda>_ p. Inr None)\<rparr>"

definition example_ro :: runOpts where
  "example_ro = default_runOpts\<lparr>ro_refLang := ''go'', ro_noBuild := True\<rparr>"

definition example_started :: "script worker" where
  "example_started = \<lparr>w_language = ''go'', w_proc = \<lparr>sc_log = [NewPingRequest], sc_events =
       [Line (JObj [(''op'', JStr ''bind''), (''status'', JStr ''SKIPPED'')])], sc_killed = False\<rparr>,
     w_dead = False, w_deadReason = []\<rparr>"

lemma example_start:
  assumes "parts \<noteq> []"
  shows "Start script_process id (ho_launch example_host () d) parts ''go'' n = Inr example_started"
proof -
  have i: "int_of (JNum (f64_of_int 2)) = Some 2" by (rule int_of_small) simp
  have "int_of (JNum x) = Some 2 \<Longrightarrow> Start script_process id (\<lambda>_. Inr \<lparr>sc_log = [], sc_events =
       [Line (JObj [(''op'', JStr ''ping''), (''status'', JStr ''OK''), (''protocol_version'', JNum x)]),
        Line (JObj [(''op'', JStr ''bind''), (''status'', JStr ''SKIPPED'')])], sc_killed = False\<rparr>) parts ''go'' n =
      Inr example_started" for x
    using assms by (simp add: Start_def ping_def script_process_def read_marked_def readWithTimeout_def Read_def
        response_of_def un_field_def str_of_def ping_verdict_def ProtocolVersion_def example_started_def)
  from this [OF i] show ?thesis by (simp add: example_host_def)
qed

lemma example_bind:
  assumes "SchemaFields (cf_schema ty) = Inr sfs" and "cf_name ty \<noteq> []" and "fmt \<noteq> []"
  shows "\<exists>w'. bind_one script_process example_oe opts ty fmt ''go''
      (\<lparr>rs_workers = [(''go'', example_started)], rs_rep = rep, rs_panicked = False\<rparr>, []) =
    (markTypeSkipped ''go'' ty fmt ''worker does not support this type/format''
       \<lparr>rs_workers = [(''go'', w')], rs_rep = rep, rs_panicked = False\<rparr>, [])"
  using assms by (simp add: bind_one_def Bind_def example_started_def script_process_def read_marked_def
      readWithTimeout_def Read_def response_of_def un_field_def str_of_def bind_verdict_def) blast

definition one_type :: "(load_error + cases_set) option \<Rightarrow> bool" where
  "one_type x = (case x of Some (Inr s) \<Rightarrow>
       cs_reference s = [] \<and> (case cs_types s of [ty] \<Rightarrow> cf_formats ty = [''bin''] \<and> cf_name ty = ''user'' \<and>
         (case SchemaFields (cf_schema ty) of Inr _ \<Rightarrow> True | Inl _ \<Rightarrow> False) \<and> (case cf_cases ty of [tc] \<Rightarrow> tc_name tc = ''one'' | _ \<Rightarrow> False)
       | _ \<Rightarrow> False)
    | _ \<Rightarrow> False)"

lemma one_typeD:
  assumes "one_type x"
  shows "\<exists>ty sfs. x = Some (Inr \<lparr>cs_reference = [], cs_types = [ty]\<rparr>) \<and> cf_formats ty = [''bin''] \<and>
    cf_name ty = ''user'' \<and> SchemaFields (cf_schema ty) = Inr sfs \<and> (\<exists>tc. cf_cases ty = [tc] \<and> tc_name tc = ''one'')"
proof -
  from assms obtain s where s: "x = Some (Inr s)" by (auto simp: one_type_def split: option.splits sum.splits)
  with assms obtain ty where ty: "cs_types s = [ty]" by (auto simp: one_type_def split: list.splits)
  with assms s obtain sfs where "SchemaFields (cf_schema ty) = Inr sfs"
    by (auto simp: one_type_def split: sum.splits)
  with assms s ty show ?thesis by (cases s) (auto simp: one_type_def split: list.splits)
qed

lemma example_suite:
  "\<exists>ty sfs. LoadSuite 20 (mc_files example_host ()) (ho_yaml example_host) ''cases'' =
     Some (Inr \<lparr>cs_reference = [], cs_types = [ty]\<rparr>) \<and> cf_formats ty = [''bin''] \<and> cf_name ty = ''user'' \<and>
     SchemaFields (cf_schema ty) = Inr sfs \<and> (\<exists>tc. cf_cases ty = [tc] \<and> tc_name tc = ''one'')"
proof (rule one_typeD)
  have "one_type (LoadSuite 20 (example_fs\<lparr>fs_is_dir := (\<lambda>d. Inr (d = ''cases'' \<or> d = ''expected_skips''))\<rparr>) mapping_yaml ''cases'')"
    by code_simp
  then show "one_type (LoadSuite 20 (mc_files example_host ()) (ho_yaml example_host) ''cases'')"
    by (simp add: example_host_def)
qed

lemma example_marker:
  "marker_exists example_host () ''w'' m = Inr (\<not> mk_isGlob m \<and> mk_pattern m = ''go.mod'')"
  by (simp add: marker_exists_def path_in_def example_host_def example_fs_def)

lemma example_languages: "find_languages example_host () ''w'' markers [] = Inr [''go'']"
proof -
  have "find_languages example_host () ''w'' ms found =
      Inr (fold (\<lambda>m f. if (\<not> mk_isGlob m \<and> mk_pattern m = ''go.mod'') \<and> mk_language m \<notin> set f then f @ [mk_language m] else f) ms found)"
    for ms found by (induction ms arbitrary: found) (simp_all add: example_marker)
  moreover have "fold (\<lambda>m f. if (\<not> mk_isGlob m \<and> mk_pattern m = ''go.mod'') \<and> mk_language m \<notin> set f then f @ [mk_language m] else f)
      markers [] = [''go'']" by code_simp
  ultimately show ?thesis by simp
qed

lemma example_detect:
  "detectAndBuild example_host [''w''] True () = ((), Inr [\<lparr>wi_dir = ''w'', wi_language = ''go'',
     wi_manifest = \<lparr>wm_build = Some ''go build -o worker .'', wm_run = ''./worker''\<rparr>\<rparr>])"
proof -
  let ?m = "\<lparr>wm_build = Some ''go build -o worker .'', wm_run = ''./worker''\<rparr>"
  have "DetectLanguage example_host () ''w'' = Inr ''go''"
    by (simp add: DetectLanguage_def example_languages)
  then have "Detect example_host () ''w'' = Inr \<lparr>wi_dir = ''w'', wi_language = ''go'', wi_manifest = ?m\<rparr>"
    by (simp add: Detect_def LoadWorkerManifest_def override_def Defaults_def lang_default_def example_host_def Let_def)
  then show ?thesis by (simp add: detectAndBuild_def Let_def)
qed

lemma example_skips_declared: "loadExpectedSkips example_host () ''expected_skips'' [''go''] = Some [(''go'', example_declared)]"
  by (simp add: loadExpectedSkips_def LoadExpectedSkips_def loadOptionalYAML_def Let_def example_host_def)

definition example_row :: "string \<Rightarrow> row" where
  "example_row op = mk_row ''user/bin/one'' ''go'' op StatusSkip ''worker does not support this type/format''"

definition example_report :: report where
  "example_report = fold Add [example_row op_serialize, example_row op_deserialize]
     (New (OrderedLangs [''go''] ''go'') [''user/bin/one''] ''table'')"

lemma example_gate:
  assumes "ro_expectSkipDir o1 = ''expected_skips''"
  shows "gate example_host () o1 [''go''] example_report = example_report"
proof -
  have "CheckExpectedSkips q [(''go'', example_declared)] example_report = example_report" for q
    by code_simp
  then show ?thesis by (simp add: gate_def assms example_skips_declared)
qed

lemma example_report_facts:
  "Success example_report" "\<not> print_exits example_host () example_report"
  "find_result example_report (''user/bin/one'', ''go'', op_serialize) = Some (example_row op_serialize)"
  "judged_skip (example_row op_serialize)"
proof -
  show "Success example_report" by code_simp
  obtain recs where "Records example_report = Inr recs"
    using Records_returns [of example_report] splitTestID3_TestIDFmt [of "''user''" "''bin''" "''one''"]
    by (auto simp: example_report_def New_def TestIDFmt_def)
  moreover have "OutputFmt example_report = ''table''" by (simp add: example_report_def New_def)
  ultimately show "\<not> print_exits example_host () example_report" by (simp add: print_exits_defs)
  show "find_result example_report (''user/bin/one'', ''go'', op_serialize) = Some (example_row op_serialize)"
    by (simp add: example_report_def example_row_def find_result_Add)
  show "judged_skip (example_row op_serialize)" by (simp add: example_row_def judged_skip_def isCascadeSkip_def)
qed

lemma example_run:
  "\<exists>r rep row. runTests 20 example_host in_order [''w''] example_ro () = Some r \<and> re_error r = None \<and> re_report r = Some rep \<and>
     find_result rep (''user/bin/one'', ''go'', op_serialize) = Some row \<and> judged_skip row"
proof -
  obtain ty tc sfs where load: "LoadSuite 20 (mc_files example_host ()) (ho_yaml example_host) ''cases'' =
     Some (Inr \<lparr>cs_reference = [], cs_types = [ty]\<rparr>)" and ty: "cf_formats ty = [''bin'']" "cf_name ty = ''user''"
     "SchemaFields (cf_schema ty) = Inr sfs" "cf_cases ty = [tc]" "tc_name tc = ''one''"
    using example_suite by blast
  let ?m = "\<lparr>wm_build = Some ''go build -o worker .'', wm_run = ''./worker''\<rparr>"
  note det = example_detect
  have "str_Fields ''./worker'' = [''./worker'']" by code_simp
  then have start: "startWorkers example_host () n [\<lparr>wi_dir = ''w'', wi_language = ''go'', wi_manifest = ?m\<rparr>] [] =
      ([(''go'', example_started)], None)" for n
    using example_start [of "[''./worker'']" "''w''" n] by (simp add: example_host_def example_oe_def)
  let ?suite = "\<lparr>cs_reference = ''go'', cs_types = [ty]\<rparr>"
  let ?skip = "''worker does not support this type/format''"
  let ?rep = "New (OrderedLangs [''go''] ''go'') (suite_TestIDs ?suite) ''table''"
  let ?st = "\<lparr>rs_workers = [(''go'', example_started)], rs_rep = ?rep, rs_panicked = False\<rparr>"
  have ids: "suite_TestIDs ?suite = [''user/bin/one'']" by (simp add: suite_TestIDs_def ty TestIDFmt_def)
  have suite: "\<exists>w'. RunSuite script_process example_oe in_order opts ?suite ?st =
      (\<lparr>rs_workers = [(''go'', w')], rs_rep = example_report, rs_panicked = False\<rparr>, None)" for opts
  proof -
    obtain w' where "bind_one script_process example_oe (opts\<lparr>Oracle := OracleFor ty ''bin''\<rparr>) ty ''bin'' ''go'' (?st, []) =
        (markTypeSkipped ''go'' ty ''bin'' ?skip \<lparr>rs_workers = [(''go'', w')], rs_rep = ?rep, rs_panicked = False\<rparr>, [])"
      using example_bind [OF ty(3)] ty(2) by fastforce
    then show ?thesis
      by (simp add: RunSuite_def ty run_type_format_def runTypeFormat_def markTypeSkipped_def markType_def add_for_def
          add_row_def TestIDFmt_def example_report_def example_row_def ids del: New_def)
  qed
  then obtain w' where st: "RunSuite script_process example_oe in_order
      (suite_options example_ro (loadKnownFailures example_host () (ro_knowFDir example_ro) [''go''])) ?suite ?st =
        (\<lparr>rs_workers = [(''go'', w')], rs_rep = example_report, rs_panicked = False\<rparr>, None)" by blast
  have host: "ho_process example_host = script_process" "ho_env example_host = example_oe"
    by (simp_all add: example_host_def)
  have opts: "ro_outputFmt example_ro = ''table''" "ro_csvPath example_ro = []" "ro_expectSkipDir example_ro = ''expected_skips''"
    by (simp_all add: example_ro_def default_runOpts_def)
  have "run_suite example_host in_order example_ro ?suite () [(''go'', example_started)] =
      ended () (stop_all script_process [(''go'', w')]) (Some example_report) None"
    using st example_report_facts(1,2) example_gate [OF opts(3)]
    by (simp add: run_suite_def Let_def finish_run_def host opts)
  moreover have "runTests 20 example_host in_order [''w''] example_ro () =
      Some (run_suite example_host in_order example_ro ?suite () [(''go'', example_started)])"
    using load det start by (simp add: runTests_def validate_opts_def example_ro_def default_runOpts_def Let_def)
  ultimately show ?thesis using example_report_facts(3,4) by auto
qed


text \<open>The run below exits with 0 and its report has a skip: the worker's, and declared.\<close>

theorem exit_zero_means_passed_witness:
  "\<exists>r rep row. run_command 20 example_host in_order [''w''] example_ro () = Some r \<and> re_report r = Some rep \<and>
     find_result rep (''user/bin/one'', ''go'', op_deserialize) \<noteq> None \<and>
     find_result rep (''user/bin/one'', ''go'', op_serialize) = Some row \<and> Status row = StatusSkip \<and>
     covered [(''go'', example_declared)] ''user/bin/one'' ''go'' op_serialize"
proof -
  obtain r rep row where run: "runTests 20 example_host in_order [''w''] example_ro () = Some r" "re_error r = None"
    and row: "re_report r = Some rep" "find_result rep (''user/bin/one'', ''go'', op_serialize) = Some row" "judged_skip row"
    using example_run by blast
  then have cmd: "run_command 20 example_host in_order [''w''] example_ro () = Some r" by (simp add: run_command_def)
  have opts: "main_exit (re_error r) = 0" "\<not> ro_buildOnly example_ro" "never_cancelled (ho_process example_host)"
    using run(2) never_cancelled_script
    by (simp_all add: main_exit_def example_ro_def default_runOpts_def example_host_def)
  obtain suite w1 infos where load: "LoadSuite 20 (mc_files example_host ()) (ho_yaml example_host) (ro_casesFile example_ro) = Some (Inr suite)"
    and det: "detectAndBuild example_host [''w''] (ro_noBuild example_ro) () = (w1, Inr infos)"
    and rows: "\<forall>ty \<in> set (cs_types suite). \<forall>format \<in> set (cf_formats ty). \<forall>tc \<in> set (cf_cases ty).
      \<forall>info \<in> set infos. \<forall>op \<in> {op_serialize, op_deserialize}.
      find_result rep (TestIDFmt (cf_name ty) format (tc_name tc), wi_language info, op) \<noteq> None"
    and skips: "\<forall>expected t l op row.
      loadExpectedSkips example_host w1 (ro_expectSkipDir example_ro) (map wi_language infos) = Some expected \<longrightarrow>
      find_result rep (t, l, op) = Some row \<longrightarrow> judged_skip row \<longrightarrow> covered expected t l op"
    using exit_zero_means_passed [OF cmd opts] row(1) by auto
  have infos: "map wi_language infos = [''go'']"
    using det example_detect by (auto simp: example_ro_def default_runOpts_def)
  have "covered [(''go'', example_declared)] ''user/bin/one'' ''go'' op_serialize"
    using skips infos example_skips_declared row by (simp add: example_ro_def default_runOpts_def)
  moreover obtain info where "info \<in> set infos" "wi_language info = ''go''" using infos by auto
  moreover obtain ty tc where "ty \<in> set (cs_types suite)" "cf_formats ty = [''bin'']"
    "cf_name ty = ''user''" "tc \<in> set (cf_cases ty)" "tc_name tc = ''one''"
    using example_suite load by (fastforce simp: example_ro_def default_runOpts_def)
  then have "find_result rep (TestIDFmt ''user'' ''bin'' ''one'', ''go'', op_deserialize) \<noteq> None"
    using rows calculation(2,3) by fastforce
  then have "find_result rep (''user/bin/one'', ''go'', op_deserialize) \<noteq> None" by (simp add: TestIDFmt_def)
  ultimately show ?thesis using cmd row by (auto simp: judged_skip_def)
qed

end
