(* ===== verification/CaseSchema.thy ===== *)
theory CaseSchema
  imports TypeFileFacts
begin

section \<open>JSON Schemas for case files (cmd/serify/schema.go)\<close>

text \<open>
  \<open>serify schema\<close> writes, for every type file of a suite, a JSON Schema an editor validates the file
  with, and points the file at it with a modeline. A schema fragment \<open>J\<close> is a Go map; the values put
  into one are those of \<open>js\<close>. Unknown to the model: the text \<open>json.MarshalIndent\<close> gives a fragment,
  and which paths can be written. \<open>allTypes\<close>, which the code hands down and never reads, is left out.
\<close>

subsection \<open>Fragments\<close>

datatype js =
    JsStr string
  | JsInt int
  | JsBool bool
  | JsArr "js list"
  | JsObj "js gomap"

text \<open>\<open>obj\<close>: later pairs of a key replace earlier ones.\<close>

definition obj_pairs :: "js gomap \<Rightarrow> js gomap" where
  "obj_pairs ps = fold (\<lambda>(k, v) m. AList.update k v m) ps []"

definition obj :: "js gomap \<Rightarrow> js" where
  "obj ps = JsObj (obj_pairs ps)"

definition defRef :: "string \<Rightarrow> string" where
  "defRef nm = ''#/definitions/'' @ nm"

definition js_ref :: "string \<Rightarrow> js" where
  "js_ref path = obj [(''$ref'', JsStr path)]"

definition J_String :: js where "J_String = obj [(''type'', JsStr ''string'')]"
definition J_Boolean :: js where "J_Boolean = obj [(''type'', JsStr ''boolean'')]"
definition J_Null :: js where "J_Null = obj [(''type'', JsStr ''null'')]"

definition js_optional :: "js \<Rightarrow> js" where
  "js_optional inner = obj [(''anyOf'', JsArr [inner, J_Null])]"

definition js_array :: "js \<Rightarrow> js" where
  "js_array inner = obj [(''type'', JsStr ''array''), (''items'', inner)]"

definition js_mapOf :: "js \<Rightarrow> js" where
  "js_mapOf inner = obj [(''type'', JsStr ''object''), (''additionalProperties'', inner)]"

definition fixedArray :: "int \<Rightarrow> js \<Rightarrow> js" where
  "fixedArray n inner =
     obj [(''type'', JsStr ''array''), (''minItems'', JsInt n), (''maxItems'', JsInt n), (''items'', inner)]"

definition js_object :: "js gomap \<Rightarrow> string list \<Rightarrow> js" where
  "js_object props required =
     obj [(''type'', JsStr ''object''), (''additionalProperties'', JsBool False),
          (''required'', JsArr (map JsStr required)), (''properties'', JsObj props)]"

lemmas fragment_defs = js_ref_def J_String_def J_Boolean_def J_Null_def js_optional_def js_array_def
  js_mapOf_def fixedArray_def js_object_def

subsection \<open>Definitions a schema uses\<close>

definition defDeps :: "string \<Rightarrow> string list" where
  "defDeps n = (if n = ''bytes'' then [k_uint8] else [])"

text \<open>\<open>defRefs.add\<close>, names still to add in the order the recursion meets them.\<close>

function add_refs :: "string list \<Rightarrow> string list \<Rightarrow> string list" where
  "add_refs d [] = d"
| "add_refs d (n # ns) =
     (if n = [] \<or> n \<in> set d then add_refs d ns else add_refs (n # d) (defDeps n @ ns))"
  by pat_completeness auto
termination
  by (relation "measure (\<lambda>(d, ns). length ns + (if ''bytes'' \<in> set d then 0 else 1))")
     (auto simp: defDeps_def)

definition int_def :: "string \<Rightarrow> int \<Rightarrow> int \<Rightarrow> string \<times> js" where
  "int_def nm lo hi =
     (nm, obj [(''type'', JsStr ''integer''), (''minimum'', JsInt lo), (''maximum'', JsInt hi)])"

definition big_def :: "string \<Rightarrow> int \<Rightarrow> int \<Rightarrow> string \<Rightarrow> string \<times> js" where
  "big_def nm lo hi pat =
     (nm, JsObj [(''type'', JsArr [JsStr ''integer'', JsStr ''string'']), (''minimum'', JsInt lo),
                 (''maximum'', JsInt hi), (''pattern'', JsStr pat)])"

definition section_def :: "string \<Rightarrow> js \<Rightarrow> js" where
  "section_def description entry =
     obj [(''description'', JsStr description), (''type'', JsStr ''array''), (''minItems'', JsInt 1),
          (''items'', obj [(''type'', JsStr ''object''), (''minProperties'', JsInt 1), (''maxProperties'', JsInt 1),
             (''additionalProperties'', entry)])]"

definition allDefinitions :: "js gomap" where
  "allDefinitions =
     [int_def ''int8'' (-128) 127, int_def ''int16'' (-32768) 32767, int_def ''int32'' (-2147483648) 2147483647,
      int_def ''uint8'' 0 255, int_def ''uint16'' 0 65535, int_def ''uint32'' 0 4294967295,
      big_def ''int64'' (-9223372036854775808) 9223372036854775807 ''^-?[0-9]{1,19}$'',
      big_def ''uint64'' 0 18446744073709551615 ''^[0-9]{1,20}$'',
      big_def ''int128'' (-170141183460469231731687303715884105728) 170141183460469231731687303715884105727
        ''^-?[0-9]{1,39}$'',
      big_def ''uint128'' 0 340282366920938463463374607431768211455 ''^[0-9]{1,39}$'',
      (''fieldsSection'', section_def ''Record type: one `name: type` pair per field.'' (obj [(''type'', JsStr ''string'')])),
      (''variantsSection'', section_def
         (''Sum type: one `tag: payload-type` pair per entry. '' @ ''An entry with no type is a unit variant.'')
         (obj [(''type'', JsArr [JsStr ''string'', JsStr ''null''])])),
      (''bytes'', obj [(''anyOf'', JsArr
         [obj [(''type'', JsStr ''string''), (''pattern'', JsStr ''^([0-9a-fA-F]{2})*$''), (''description'', JsStr ''hex string'')],
          obj [(''type'', JsStr ''array''), (''items'', js_ref (defRef k_uint8)),
               (''description'', JsStr ''byte array, e.g. [0xde, 0xad]'')]])])]"

definition definitions_used :: "string list \<Rightarrow> js gomap" where
  "definitions_used used = filter (\<lambda>(nm, d). nm \<in> set used) allDefinitions"

subsection \<open>The schema of a type\<close>

text \<open>The schema of a scalar and the definition it refers to (empty when it is written inline).\<close>

definition scalarSchema :: "string \<Rightarrow> js \<times> string" where
  "scalarSchema base =
     (if base \<in> set Scalars \<and> base \<noteq> k_bytes then
        (if base = k_bool then (J_Boolean, [])
         else if base = k_string then (J_String, [])
         else if base = k_float32 \<or> base = k_float64 then
           (obj [(''type'', JsStr ''number''),
              (''description'', JsStr ''YAML float; .nan/.inf/-.inf are accepted for binary-only types.'')], [])
         else (js_ref (defRef base), base))
      else (J_String, []))"

text \<open>A sum: unit variants bare, the others as a mapping with one key. \<open>Inl ()\<close> is a nil dereference.\<close>

definition sum_schema_of :: "js list \<Rightarrow> js gomap \<Rightarrow> js" where
  "sum_schema_of units tagged =
     (let mapping = obj [(''type'', JsStr ''object''), (''additionalProperties'', JsBool False),
        (''minProperties'', JsInt 1), (''maxProperties'', JsInt 1), (''properties'', JsObj tagged)] in
      if units = [] then mapping
      else obj [(''oneOf'', JsArr [obj [(''enum'', JsArr units)], mapping])])"

function fieldToSchema :: "field_type \<Rightarrow> string list \<Rightarrow> unit + js \<times> string list"
  and props_schema :: "field list \<Rightarrow> js gomap \<Rightarrow> string list \<Rightarrow> unit + js gomap \<times> string list"
  and variants_schema :: "variant list \<Rightarrow> js list \<Rightarrow> js gomap \<Rightarrow> string list \<Rightarrow> unit + js list \<times> js gomap \<times> string list"
  where
  "fieldToSchema (Ftype b e k n fs vs vrs) used =
     (if b = k_optional then
        (case e of None \<Rightarrow> Inl () | Some t \<Rightarrow> map_res (\<lambda>(j, u). (js_optional j, u)) (fieldToSchema t used))
      else if b = k_list then
        (case e of None \<Rightarrow> Inl () | Some t \<Rightarrow> map_res (\<lambda>(j, u). (js_array j, u)) (fieldToSchema t used))
      else if b = k_array then
        (case e of None \<Rightarrow> Inl () | Some t \<Rightarrow> map_res (\<lambda>(j, u). (fixedArray n j, u)) (fieldToSchema t used))
      else if b = k_map then
        (case e of None \<Rightarrow> Inl () | Some t \<Rightarrow> map_res (\<lambda>(j, u). (js_mapOf j, u)) (fieldToSchema t used))
      else if b = k_struct then
        map_res (\<lambda>(ps, u). (js_object ps (map FName fs), u)) (props_schema fs [] used)
      else if b = k_enum then Inr (obj [(''enum'', JsArr (map JsStr vs))], used)
      else if b = k_bytes then Inr (js_ref (defRef k_bytes), add_refs used [k_bytes])
      else if b = k_sum then
        map_res (\<lambda>(units, tagged, u). (sum_schema_of units tagged, u)) (variants_schema vrs [] [] used)
      else Inr (fst (scalarSchema b), add_refs used [snd (scalarSchema b)]))"
| "props_schema [] props used = Inr (props, used)"
| "props_schema (Fld nm t tags # fs) props used =
     rbind (fieldToSchema t used) (\<lambda>(j, u). props_schema fs (AList.update nm j props) u)"
| "variants_schema [] units tagged used = Inr (units, tagged, used)"
| "variants_schema (Vrnt nm ty # vrs) units tagged used =
     (case ty of
        None \<Rightarrow> variants_schema vrs (units @ [JsStr nm]) (AList.update nm J_Null tagged) used
      | Some t \<Rightarrow>
          rbind (fieldToSchema t used) (\<lambda>(j, u). variants_schema vrs units (AList.update nm j tagged) u))"
  by pat_completeness auto
termination fieldToSchema
  by (relation "measure (case_sum (\<lambda>(t, u). 2 * size t)
       (case_sum (\<lambda>(fs, p, u). Suc (2 * size_list size fs)) (\<lambda>(vs, us, g, u). Suc (2 * size_list size vs))))") auto

declare fieldToSchema.simps [simp del]

definition dataSchema :: "field list \<Rightarrow> string list \<Rightarrow> unit + js \<times> string list" where
  "dataSchema fs used = map_res (\<lambda>(ps, u). (js_object ps (map FName fs), u)) (props_schema fs [] used)"

subsection \<open>The schema of a file\<close>

definition oneSection :: js where
  "oneSection = JsArr
     [obj [(''required'', JsArr [JsStr ''fields'']), (''not'', obj [(''required'', JsArr [JsStr ''variants''])])],
      obj [(''required'', JsArr [JsStr ''variants'']), (''not'', obj [(''required'', JsArr [JsStr ''fields''])])]]"

definition formatsSchema :: "string list \<Rightarrow> js" where
  "formatsSchema formats =
     (let nm = (if formats = [] then obj [(''type'', JsStr ''string''), (''minLength'', JsInt 1)]
                else obj [(''enum'', JsArr (map JsStr formats))]) in
      obj [(''type'', JsStr ''array''), (''minItems'', JsInt 1), (''items'',
        obj [(''type'', JsStr ''object''), (''additionalProperties'', JsBool False),
             (''required'', JsArr [JsStr ''name'', JsStr ''oracle'']),
             (''properties'', obj [(''name'', nm),
                (''oracle'', obj [(''enum'', JsArr [JsStr OracleBytes, JsStr OracleSemantic])])])])])"

definition typeFileSchema :: "string \<Rightarrow> string list \<Rightarrow> js gomap \<Rightarrow> js gomap" where
  "typeFileSchema title used0 extraProps =
     (let used = add_refs used0 [''fieldsSection'', ''variantsSection''] in
      obj_pairs
       [(''$schema'', JsStr ''http://json-schema.org/draft-07/schema#''),
        (''$comment'', JsStr ''AUTO-GENERATED by `serify schema`. Do not edit manually.''),
        (''title'', JsStr title), (''type'', JsStr ''object''), (''additionalProperties'', JsBool False),
        (''patternProperties'', obj [(''^_'', obj [])]),
        (''oneOf'', oneSection),
        (''properties'', obj
          ([(''import'', js_array (obj [(''type'', JsStr ''string''), (''pattern'', JsStr (CHR 0x5C # ''.yaml$''))])),
            (''fields'', js_ref (defRef ''fieldsSection'')),
            (''variants'', js_ref (defRef ''variantsSection'')),
            (''transparent'', obj [(''type'', JsStr ''boolean'')])] @ extraProps)),
        (''definitions'', JsObj (definitions_used used))])"

definition case_file_props :: "js \<Rightarrow> js \<Rightarrow> js gomap" where
  "case_file_props data formatsJ =
     [(''formats'', formatsJ),
      (''cases'', js_array (obj [(''type'', JsStr ''object''), (''additionalProperties'', JsBool False),
         (''required'', JsArr [JsStr ''name'', JsStr ''data'']),
         (''properties'', obj [(''name'', J_String), (''description'', J_String), (''data'', data)])]))]"

definition fileSchema :: "field list \<Rightarrow> js \<Rightarrow> unit + js" where
  "fileSchema fs formatsJ =
     map_res (\<lambda>(data, used).
       JsObj (AList.update ''required'' (JsArr [JsStr ''formats'', JsStr ''cases''])
         (typeFileSchema ''serify case file'' used (case_file_props data formatsJ))))
       (dataSchema fs [])"

definition reusableFileSchema :: js where
  "reusableFileSchema =
     JsObj (AList.update ''description'' (JsStr ''For types with no cases of their own (pulled in via import:).'')
       (typeFileSchema ''serify reusable type file'' [] []))"

subsection \<open>Modelines\<close>

text \<open>\<open>strings.Contains\<close>.\<close>

fun str_contains :: "string \<Rightarrow> string \<Rightarrow> bool" where
  "str_contains s p = (has_prefix s p \<or> (case s of [] \<Rightarrow> False | c # s' \<Rightarrow> str_contains s' p))"

declare str_contains.simps [simp del]

definition modeline_prefix :: string where
  "modeline_prefix = ''# yaml-language-server:''"

definition is_modeline :: "string \<Rightarrow> bool" where
  "is_modeline line \<longleftrightarrow> has_prefix (trim_space line) modeline_prefix"

definition wanted_modeline :: "string \<Rightarrow> string" where
  "wanted_modeline schemaFile = ''# yaml-language-server: $schema=.schemas/'' @ schemaFile"

text \<open>The first modeline is replaced where it stands, the others dropped.\<close>

fun filter_modelines :: "string \<Rightarrow> bool \<Rightarrow> string list \<Rightarrow> string list \<times> bool" where
  "filter_modelines want replaced [] = ([], replaced)"
| "filter_modelines want replaced (line # ls) =
     (if \<not> is_modeline line then
        (case filter_modelines want replaced ls of (out, r) \<Rightarrow> (line # out, r))
      else if replaced then filter_modelines want True ls
      else (case filter_modelines want True ls of (out, r) \<Rightarrow> (want # out, r)))"

text \<open>Without one it goes after the last of the leading comment and blank lines.\<close>

fun header_end :: "nat \<Rightarrow> nat \<Rightarrow> string list \<Rightarrow> nat" where
  "header_end at i [] = at"
| "header_end at i (line # ls) =
     (let t = trim_space line in
      if t \<noteq> [] \<and> \<not> has_prefix t ''#'' then at else header_end (i + 1) (i + 1) ls)"

definition set_modeline :: "string \<Rightarrow> string \<Rightarrow> string" where
  "set_modeline schemaFile content =
     (let want = wanted_modeline schemaFile in
      if str_contains content want then content
      else
        (case filter_modelines want False (split_on (CHR 0x0A) content) of
           (filtered, replaced) \<Rightarrow>
             join [CHR 0x0A]
               (if replaced then filtered
                else let at = header_end 0 0 filtered in take at filtered @ [want] @ drop at filtered)))"

subsection \<open>Writing the schemas\<close>

type_synonym text_files = "string \<Rightarrow> string option"

datatype schema_error =
    SchemaLoad load_error
  | SchemaNoFiles string
  | SchemaReusable string load_error
  | SchemaFormat string string
  | SchemaPanic
  | SchemaWrite string

definition writeJSON :: "(js \<Rightarrow> string) \<Rightarrow> (string \<Rightarrow> bool) \<Rightarrow> string \<Rightarrow> js \<Rightarrow> text_files \<Rightarrow> schema_error + text_files" where
  "writeJSON pretty writable path v files =
     (let b = pretty v @ [CHR 0x0A] in
      if files path = Some b then Inr files
      else if writable path then Inr (files(path \<mapsto> b)) else Inl (SchemaWrite path))"

text \<open>An error of \<open>writeModeline\<close> is dropped by its caller.\<close>

definition writeModeline :: "(string \<Rightarrow> bool) \<Rightarrow> string \<Rightarrow> string \<Rightarrow> text_files \<Rightarrow> text_files" where
  "writeModeline writable yamlPath schemaFile files =
     (case files yamlPath of
        None \<Rightarrow> files
      | Some content \<Rightarrow>
          if str_contains content (wanted_modeline schemaFile) \<or> \<not> writable yamlPath then files
          else files(yamlPath \<mapsto> set_modeline schemaFile content))"

definition writeSchema ::
  "'n fsys \<Rightarrow> (js \<Rightarrow> string) \<Rightarrow> (string \<Rightarrow> bool) \<Rightarrow> string \<Rightarrow> string \<Rightarrow> string \<Rightarrow> js \<Rightarrow> text_files
    \<Rightarrow> schema_error + text_files" where
  "writeSchema F pretty writable casesDir schemasDir nm schema files =
     map_res (writeModeline writable (fs_join F casesDir (nm @ ''.yaml'')) (nm @ ''.schema.json''))
       (writeJSON pretty writable (fs_join F schemasDir (nm @ ''.schema.json'')) schema files)"

definition writeTypeSchema ::
  "'n fsys \<Rightarrow> (js \<Rightarrow> string) \<Rightarrow> (string \<Rightarrow> bool) \<Rightarrow> string \<Rightarrow> string \<Rightarrow> string list option \<Rightarrow> cases_file \<Rightarrow> text_files
    \<Rightarrow> schema_error + text_files" where
  "writeTypeSchema F pretty writable casesDir schemasDir registry ty files =
     (let formats = (case registry of Some r \<Rightarrow> r | None \<Rightarrow> cf_formats ty) in
      case fileSchema (cf_schema ty) (formatsSchema formats) of
        Inl _ \<Rightarrow> Inl SchemaPanic
      | Inr s \<Rightarrow> writeSchema F pretty writable casesDir schemasDir (cf_name ty) s files)"

fun write_all :: "('a \<Rightarrow> text_files \<Rightarrow> schema_error + text_files) \<Rightarrow> 'a list \<Rightarrow> text_files \<Rightarrow> schema_error + text_files" where
  "write_all f [] files = Inr files"
| "write_all f (x # xs) files = rbind (f x files) (write_all f xs)"

fun load_reusable ::
  "(string \<Rightarrow> (load_error + cases_file) option) \<Rightarrow> (string \<Rightarrow> string) \<Rightarrow> string list \<Rightarrow> field list gomap
    \<Rightarrow> (schema_error + field list gomap) option" where
  "load_reusable load path [] out = Some (Inr out)"
| "load_reusable load path (n # ns) out =
     (case load (path n) of
        None \<Rightarrow> None
      | Some (Inl e) \<Rightarrow> Some (Inl (SchemaReusable n e))
      | Some (Inr cf) \<Rightarrow>
          load_reusable load path ns
            (if cf_cases cf \<noteq> [] then out else AList.update (trim_suffix n ''.yaml'') (cf_schema cf) out))"

definition loadReusable ::
  "nat \<Rightarrow> 'n fsys \<Rightarrow> 'n yaml_doc \<Rightarrow> string \<Rightarrow> (schema_error + field list gomap) option" where
  "loadReusable depth F y dir =
     (case fs_list F dir of
        Inl e \<Rightarrow> Some (Inl (SchemaReusable dir (ReadFailed dir)))
      | Inr entries \<Rightarrow>
          load_reusable (LoadCases depth F y) (fs_join F dir) (map fst (filter is_type_entry entries)) [])"

definition undeclared_format :: "string list \<Rightarrow> cases_file list \<Rightarrow> (string \<times> string) option" where
  "undeclared_format registry types =
     find (\<lambda>(ty, f). f \<notin> set registry) (concat (map (\<lambda>ty. map (Pair (cf_name ty)) (cf_formats ty)) types))"

definition runSchemaGen ::
  "nat \<Rightarrow> 'n fsys \<Rightarrow> 'n yaml_doc \<Rightarrow> (js \<Rightarrow> string) \<Rightarrow> (string \<Rightarrow> bool) \<Rightarrow> string \<Rightarrow> text_files
    \<Rightarrow> (schema_error + text_files) option" where
  "runSchemaGen depth F y pretty writable casesDir files =
     (case LoadSuite depth F y casesDir of
        None \<Rightarrow> None
      | Some res \<Rightarrow>
     (case (case res of Inr s \<Rightarrow> Inr s | Inl (NoTypesFound d) \<Rightarrow> Inr \<lparr>cs_reference = [], cs_types = []\<rparr>
            | Inl e \<Rightarrow> Inl e) of
        Inl e \<Rightarrow> Some (Inl (SchemaLoad e))
      | Inr suite \<Rightarrow>
     (case loadReusable depth F y casesDir of
        None \<Rightarrow> None
      | Some (Inl e) \<Rightarrow> Some (Inl e)
      | Some (Inr reusable) \<Rightarrow>
          if cs_types suite = [] \<and> reusable = [] then Some (Inl (SchemaNoFiles casesDir))
          else
     (case LoadFormatsRegistry F y casesDir of
        Inl e \<Rightarrow> Some (Inl (SchemaLoad e))
      | Inr registry \<Rightarrow>
     (case (case registry of None \<Rightarrow> None | Some r \<Rightarrow> undeclared_format r (cs_types suite)) of
        Some (ty, f) \<Rightarrow> Some (Inl (SchemaFormat ty f))
      | None \<Rightarrow>
          (let schemasDir = fs_join F casesDir ''.schemas'' in
           Some (rbind (write_all (writeTypeSchema F pretty writable casesDir schemasDir registry) (cs_types suite) files)
             (write_all (\<lambda>(nm, fs). writeSchema F pretty writable casesDir schemasDir nm reusableFileSchema) reusable))))))))"

fun schema_command ::
  "(string \<Rightarrow> text_files \<Rightarrow> (schema_error + text_files) option) \<Rightarrow> string list \<Rightarrow> text_files
    \<Rightarrow> (schema_error + text_files) option" where
  "schema_command gen [] files = Some (Inr files)"
| "schema_command gen (d # ds) files =
     (case gen d files of Some (Inr files1) \<Rightarrow> schema_command gen ds files1 | r \<Rightarrow> r)"

definition schema_dirs :: "string list \<Rightarrow> string list" where
  "schema_dirs args = (if args = [] then [''cases''] else args)"

end
