(* ===== verification/CaseSchemaFacts.thy ===== *)
theory CaseSchemaFacts
  imports CaseSchema
begin

section \<open>The generated schemas are self-contained; modelines are stable\<close>

text \<open>
  Every \<open>$ref\<close> of a generated schema points into its own \<open>definitions\<close>, and pointing a case file at its
  schema twice changes it no more than once. \<open>refs_in\<close> collects the \<open>$ref\<close> strings of a fragment.
\<close>

subsection \<open>References of a fragment\<close>

fun refs_in :: "js \<Rightarrow> string set"
  and refs_list :: "js list \<Rightarrow> string set"
  and refs_pairs :: "js gomap \<Rightarrow> string set"
  where
  "refs_in (JsObj m) = refs_pairs m"
| "refs_in (JsArr xs) = refs_list xs"
| "refs_in (JsStr s) = {}"
| "refs_in (JsInt i) = {}"
| "refs_in (JsBool b) = {}"
| "refs_list [] = {}"
| "refs_list (x # xs) = refs_in x \<union> refs_list xs"
| "refs_pairs [] = {}"
| "refs_pairs ((k, v) # m) =
     (case v of JsStr s \<Rightarrow> (if k = ''$ref'' then {s} else {}) | _ \<Rightarrow> refs_in v) \<union> refs_pairs m"

lemma refs_list_strings [simp]: "refs_list (map JsStr xs) = {}"
  by (induction xs) auto

lemma refs_list_names [simp]: "refs_list (map (JsStr \<circ> f) xs) = {}"
  by (induction xs) auto

lemma refs_list_append [simp]: "refs_list (xs @ ys) = refs_list xs \<union> refs_list ys"
  by (induction xs) auto

lemma refs_pairs_append [simp]: "refs_pairs (xs @ ys) = refs_pairs xs \<union> refs_pairs ys"
  by (induction xs) auto

lemma refs_update: "refs_pairs (AList.update k v m) \<subseteq> refs_pairs [(k, v)] \<union> refs_pairs m"
  by (induction m) auto

lemma refs_update_obj:
  assumes "refs_pairs m \<subseteq> R" "refs_pairs m' \<subseteq> R"
  shows "refs_pairs (AList.update k (JsObj m') m) \<subseteq> R"
  using refs_update [of k "JsObj m'" m] assms by auto

subsection \<open>The names a fragment needs\<close>

definition defs_ok :: "string list \<Rightarrow> bool" where
  "defs_ok u \<longleftrightarrow> set u \<subseteq> fst ` set allDefinitions \<and> (''bytes'' \<in> set u \<longrightarrow> k_uint8 \<in> set u)"

lemma add_refs_adds: "set d \<union> (set ns - {[]}) \<subseteq> set (add_refs d ns)"
  by (induction d ns rule: add_refs.induct) auto

lemma add_refs_only: "set (add_refs d ns) \<subseteq> insert k_uint8 (set d \<union> set ns)"
  by (induction d ns rule: add_refs.induct) (auto simp: defDeps_def split: if_splits)

lemma add_refs_bytes:
  "(''bytes'' \<in> set d \<Longrightarrow> k_uint8 \<in> set d \<union> set ns) \<Longrightarrow> ''bytes'' \<in> set (add_refs d ns) \<Longrightarrow> k_uint8 \<in> set (add_refs d ns)"
proof (induction d ns rule: add_refs.induct)
  case (2 d n ns)
  then show ?case by (auto simp: defDeps_def split: if_splits)
qed simp

lemma allDefinitions_names:
  "fst ` set allDefinitions =
    {''int8'', ''int16'', ''int32'', ''uint8'', ''uint16'', ''uint32'', ''int64'', ''uint64'', ''int128'', ''uint128'',
     ''fieldsSection'', ''variantsSection'', ''bytes''}"
  by (simp add: allDefinitions_def int_def_def big_def_def insert_commute)

lemma defs_ok_add:
  assumes "defs_ok d" "set ns - {[]} \<subseteq> fst ` set allDefinitions"
  shows "defs_ok (add_refs d ns)"
proof -
  have "[] \<notin> set d \<Longrightarrow> [] \<notin> set (add_refs d ns)"
    by (induction d ns rule: add_refs.induct) auto
  moreover have "[] \<notin> set d" "k_uint8 \<in> fst ` set allDefinitions"
    using assms by (auto simp: defs_ok_def allDefinitions_names)
  ultimately show ?thesis
    using assms add_refs_only [of d ns] add_refs_bytes [of d ns] unfolding defs_ok_def by blast
qed

lemma scalarSchema_cases:
  "scalarSchema b = (js_ref (defRef b), b) \<and> b \<noteq> [] \<and> b \<in> fst ` set allDefinitions
   \<or> (\<exists>m. scalarSchema b = (JsObj m, []) \<and> refs_pairs m = {})"
proof (cases "b \<in> set Scalars - {k_bytes, k_bool, k_string, k_float32, k_float64}")
  case True
  then have "scalarSchema b = (js_ref (defRef b), b)" by (simp add: scalarSchema_def)
  moreover have "b \<noteq> [] \<and> b \<in> fst ` set allDefinitions"
    using True unfolding allDefinitions_names Scalars_def by auto
  ultimately show ?thesis by blast
next
  case False
  then show ?thesis
    by (auto simp: scalarSchema_def fragment_defs obj_def obj_pairs_def)
qed

lemma js_ref_obj: "js_ref p = JsObj [(''$ref'', JsStr p)]"
  by (simp add: js_ref_def obj_def obj_pairs_def)

lemma scalar_needs:
  "defs_ok u \<Longrightarrow> defs_ok (add_refs u [snd (scalarSchema b)])"
  "\<exists>m. fst (scalarSchema b) = JsObj m \<and> refs_pairs m \<subseteq> defRef ` set (add_refs u [snd (scalarSchema b)])"
proof -
  have "defs_ok u \<Longrightarrow> snd (scalarSchema b) \<noteq> [] \<Longrightarrow> defs_ok (add_refs u [snd (scalarSchema b)])"
    by (rule defs_ok_add, assumption) (use scalarSchema_cases [of b] in \<open>elim disjE; force\<close>)
  then show "defs_ok u \<Longrightarrow> defs_ok (add_refs u [snd (scalarSchema b)])"
    by (cases "snd (scalarSchema b) = []") auto
  show "\<exists>m. fst (scalarSchema b) = JsObj m \<and> refs_pairs m \<subseteq> defRef ` set (add_refs u [snd (scalarSchema b)])"
    using scalarSchema_cases [of b] add_refs_adds [of u "[b]"] by (auto simp: js_ref_obj)
qed

subsection \<open>Invariant of the translation\<close>

text \<open>A fragment is good for \<open>u\<close> when it is an object whose references are to names of \<open>u\<close>.\<close>

definition good_fragment :: "string list \<Rightarrow> js \<Rightarrow> bool" where
  "good_fragment u j \<longleftrightarrow> (case j of JsObj m \<Rightarrow> refs_pairs m \<subseteq> defRef ` set u | _ \<Rightarrow> False)"

definition grown :: "string list \<Rightarrow> string list \<Rightarrow> bool" where
  "grown u u' \<longleftrightarrow> set u \<subseteq> set u' \<and> (defs_ok u \<longrightarrow> defs_ok u')"

lemma grown_refl [simp]: "grown u u"
  and grown_trans: "grown u v \<Longrightarrow> grown v w \<Longrightarrow> grown u w"
  by (auto simp: grown_def)

lemma good_fragment_grown: "good_fragment u j \<Longrightarrow> grown u v \<Longrightarrow> good_fragment v j"
  by (fastforce simp: good_fragment_def grown_def split: js.splits)

lemma good_builders:
  "good_fragment u j \<Longrightarrow> good_fragment u (js_optional j)"
  "good_fragment u j \<Longrightarrow> good_fragment u (js_array j)"
  "good_fragment u j \<Longrightarrow> good_fragment u (js_mapOf j)"
  "good_fragment u j \<Longrightarrow> good_fragment u (fixedArray n j)"
  "refs_pairs ps \<subseteq> defRef ` set u \<Longrightarrow> good_fragment u (js_object ps req)"
  "good_fragment u (obj [(''enum'', JsArr (map JsStr vs))])"
  "refs_list units = {} \<Longrightarrow> refs_pairs ps \<subseteq> defRef ` set u \<Longrightarrow> good_fragment u (sum_schema_of units ps)"
  "good_fragment u J_Null"
  by (auto simp: good_fragment_def fragment_defs obj_def obj_pairs_def sum_schema_of_def Let_def split: js.splits)

lemma good_update:
  assumes "good_fragment u j" "refs_pairs ps \<subseteq> defRef ` set u"
  shows "refs_pairs (AList.update k j ps) \<subseteq> defRef ` set u"
  using assms by (cases j) (simp_all add: good_fragment_def refs_update_obj)

lemma translation_good:
  "fieldToSchema t u = Inr (j, u') \<Longrightarrow> grown u u' \<and> good_fragment u' j"
  "props_schema fs ps u = Inr (ps', u') \<Longrightarrow> refs_pairs ps \<subseteq> defRef ` set u \<Longrightarrow>
     grown u u' \<and> refs_pairs ps' \<subseteq> defRef ` set u'"
  "variants_schema vs us tg u = Inr (us', tg', u') \<Longrightarrow> refs_list us = {} \<Longrightarrow> refs_pairs tg \<subseteq> defRef ` set u \<Longrightarrow>
     grown u u' \<and> refs_list us' = {} \<and> refs_pairs tg' \<subseteq> defRef ` set u'"
proof (induction t u and fs ps u and vs us tg u arbitrary: j u' and ps' u' and us' tg' u'
    rule: fieldToSchema_props_schema_variants_schema.induct)
  case (1 b e k n fs vs vrs used)
  consider (elem) t f where "fieldToSchema (Ftype b e k n fs vs vrs) used = map_res (\<lambda>(j, u). (f j, u)) (fieldToSchema t used)"
      "\<And>u j. good_fragment u j \<Longrightarrow> good_fragment u (f j)"
      "\<And>j u'. fieldToSchema t used = Inr (j, u') \<Longrightarrow> grown used u' \<and> good_fragment u' j"
    | (struct) "b = k_struct" | (enum) "b = k_enum" | (bytes) "b = k_bytes" | (sum) "b = k_sum"
    | (scalar) "b \<notin> {k_optional, k_list, k_array, k_map, k_struct, k_enum, k_bytes, k_sum}"
  proof (cases "b \<in> {k_optional, k_list, k_array, k_map}")
    case True
    obtain t where e: "e = Some t" using True 1(7) by (cases e) (auto simp: fieldToSchema.simps)
    have ih: "\<And>j u'. fieldToSchema t used = Inr (j, u') \<Longrightarrow> grown used u' \<and> good_fragment u' j"
      using True e 1(1-4) by auto
    from True consider "b = k_optional" | "b = k_list" | "b = k_array" | "b = k_map" by auto
    then show thesis
      by cases (rule elem [OF _ good_builders(1) ih] elem [OF _ good_builders(2) ih] elem [OF _ good_builders(4) ih]
        elem [OF _ good_builders(3) ih], simp add: fieldToSchema.simps e, assumption+)+
  qed (use that in auto)
  then show ?case
  proof cases
    case elem
    show ?thesis using 1(7) [unfolded elem(1)] elem(2,3) by (auto simp: res_inv)
  next
    case struct
    then show ?thesis using 1(5,7) good_builders(5) by (auto simp: fieldToSchema.simps res_inv)
  next
    case enum
    then show ?thesis using 1(7) good_builders(6) by (auto simp: fieldToSchema.simps)
  next
    case bytes
    then have "u' = add_refs used [k_bytes]" "j = js_ref (defRef k_bytes)"
      using 1(7) by (auto simp: fieldToSchema.simps)
    then show ?thesis
      using add_refs_adds [of used "[k_bytes]"] defs_ok_add [of used "[k_bytes]"]
      by (auto simp: grown_def good_fragment_def js_ref_obj allDefinitions_names)
  next
    case sum
    then show ?thesis using 1(6,7) good_builders(7) by (auto simp: fieldToSchema.simps res_inv)
  next
    case scalar
    then have "u' = add_refs used [snd (scalarSchema b)]" "j = fst (scalarSchema b)"
      using 1(7) by (auto simp: fieldToSchema.simps)
    then show ?thesis
      using scalar_needs(1) [of used b] scalar_needs(2) [of b used] add_refs_adds [of used "[snd (scalarSchema b)]"]
      by (auto simp: grown_def good_fragment_def)
  qed
next
  case (3 nm t tags fs props used)
  then obtain j1 u1 where j1: "fieldToSchema t used = Inr (j1, u1)"
    "props_schema fs (AList.update nm j1 props) u1 = Inr (ps', u')" by (auto simp: res_inv)
  then have "grown used u1" "good_fragment u1 j1" using 3 by auto
  moreover from this have "refs_pairs (AList.update nm j1 props) \<subseteq> defRef ` set u1"
    using 3(4) by (intro good_update) (auto simp: grown_def)
  ultimately show ?case using 3(2) [OF j1(1) refl j1(2)] grown_trans by blast
next
  case (5 nm ty vrs units tagged used)
  show ?case
  proof (cases ty)
    case None
    then show ?thesis using 5 good_update [OF good_builders(8)] by auto
  next
    case (Some t)
    then obtain j1 u1 where j1: "fieldToSchema t used = Inr (j1, u1)"
      "variants_schema vrs units (AList.update nm j1 tagged) u1 = Inr (us', tg', u')"
      using 5(4) by (auto simp: res_inv)
    then have "grown used u1" "good_fragment u1 j1" using 5(2) Some by auto
    moreover from this have "refs_pairs (AList.update nm j1 tagged) \<subseteq> defRef ` set u1"
      using 5(6) by (intro good_update) (auto simp: grown_def)
    ultimately show ?thesis using 5(3) [OF Some j1(1) refl j1(2) 5(5)] grown_trans by blast
  qed
qed simp_all

subsection \<open>A generated file\<close>

lemma refs_pairs_Union: "refs_pairs m = (\<Union>p\<in>set m. refs_pairs [p])"
  by (induction m) auto

lemma catalogue_refs:
  "(nm, d) \<in> set allDefinitions \<Longrightarrow> refs_pairs [(nm, d)] \<subseteq> (if nm = ''bytes'' then {defRef k_uint8} else {})"
  by (auto simp: allDefinitions_def int_def_def big_def_def section_def_def fragment_defs obj_def obj_pairs_def)

lemma definitions_used_names: "defs_ok u \<Longrightarrow> fst ` set (definitions_used u) = set u"
  by (force simp: definitions_used_def defs_ok_def subset_iff)

lemma definitions_used_refs:
  assumes "defs_ok u"
  shows "refs_pairs (definitions_used u) \<subseteq> defRef ` set u"
proof -
  have "refs_pairs [p] \<subseteq> defRef ` set u" if "p \<in> set (definitions_used u)" for p
    using that catalogue_refs [of "fst p" "snd p"] assms
    by (auto simp: definitions_used_def defs_ok_def split: if_splits)
  then show ?thesis by (subst refs_pairs_Union) blast
qed

lemma formatsSchema_refs: "\<exists>m. formatsSchema formats = JsObj m \<and> refs_pairs m = {}"
  by (simp add: formatsSchema_def fragment_defs obj_def obj_pairs_def Let_def)

lemma oneSection_refs: "\<exists>xs. oneSection = JsArr xs \<and> refs_list xs = {}"
  by (simp add: oneSection_def fragment_defs obj_def obj_pairs_def)

lemma obj_pairs_refs: "refs_pairs (obj_pairs ps) \<subseteq> refs_pairs ps"
proof -
  have "refs_pairs (fold (\<lambda>(k, v) m. AList.update k v m) ps m) \<subseteq> refs_pairs ps \<union> refs_pairs m" for m
  proof (induction ps arbitrary: m)
    case (Cons p ps)
    obtain k v where [simp]: "p = (k, v)" by (cases p)
    show ?case using Cons [of "AList.update k v m"] refs_update [of k v m] by auto
  qed simp
  from this [of "[]"] show ?thesis by (simp add: obj_pairs_def)
qed

lemma obj_pairs_lookup: "distinct (map fst ps) \<Longrightarrow> map_of (obj_pairs ps) = map_of ps"
  by (simp add: obj_pairs_def map_of_fold_update)

text \<open>The pairs the skeleton is built from.\<close>

lemma typeFileSchema_parts:
  fixes u extra
  defines "v \<equiv> add_refs u [''fieldsSection'', ''variantsSection'']"
  assumes "refs_pairs extra \<subseteq> defRef ` set u" "defs_ok u"
  shows "map_of (typeFileSchema title u extra) ''definitions'' = Some (JsObj (definitions_used v))"
    and "refs_pairs (typeFileSchema title u extra) \<subseteq> defRef ` fst ` set (definitions_used v)"
proof -
  have v: "defs_ok v" "set u \<subseteq> set v" "''fieldsSection'' \<in> set v" "''variantsSection'' \<in> set v"
    using defs_ok_add [OF assms(3), of "[''fieldsSection'', ''variantsSection'']"]
      add_refs_adds [of u "[''fieldsSection'', ''variantsSection'']"]
    by (auto simp: v_def allDefinitions_names simp del: add_refs.simps)
  show "map_of (typeFileSchema title u extra) ''definitions'' = Some (JsObj (definitions_used v))"
    by (simp add: typeFileSchema_def obj_pairs_lookup v_def Let_def del: add_refs.simps)
  have r: "refs_pairs ps \<subseteq> defRef ` set v \<Longrightarrow> refs_pairs (obj_pairs ps) \<subseteq> defRef ` set v" for ps
    using obj_pairs_refs by blast
  have e: "refs_pairs extra \<subseteq> defRef ` set v" using assms(2) v(2) by blast
  let ?props = "[(''import'', js_array (obj [(''type'', JsStr ''string''), (''pattern'', JsStr (CHR 0x5C # ''.yaml$''))])),
     (''fields'', js_ref (defRef ''fieldsSection'')), (''variants'', js_ref (defRef ''variantsSection'')),
     (''transparent'', obj [(''type'', JsStr ''boolean'')])] @ extra"
  have "refs_pairs ?props \<subseteq> defRef ` set v"
    using e v(3,4) by (auto simp: js_ref_obj js_array_def obj_def obj_pairs_def)
  then have "refs_in (obj ?props) \<subseteq> defRef ` set v"
    unfolding obj_def by (simp only: refs_in.simps r)
  moreover obtain xs where xs: "oneSection = JsArr xs" "refs_list xs = {}" using oneSection_refs by blast
  ultimately have "refs_pairs (typeFileSchema title u extra) \<subseteq> defRef ` set v"
    unfolding typeFileSchema_def Let_def v_def [symmetric] xs(1)
    by (intro r) (use definitions_used_refs [OF v(1)] in
      \<open>auto simp: obj_def obj_pairs_def [of "[]"] obj_pairs_def [of "[p]" for p] simp del: add_refs.simps\<close>)
  then show "refs_pairs (typeFileSchema title u extra) \<subseteq> defRef ` fst ` set (definitions_used v)"
    by (simp add: definitions_used_names v(1))
qed

text \<open>C40. A generated schema is self-contained: whatever types and formats a case file has, every \<open>$ref\<close>
  in its schema, at any depth, names an entry of the \<open>definitions\<close> object of the same schema, whose
  entries all come from the catalogue. The names travel through the translation in a set that only
  grows; what \<open>bytes\<close> needs is added with it.\<close>

theorem schema_self_contained:
  assumes "fileSchema fs (formatsSchema formats) = Inr s"
  shows "\<exists>m defs. s = JsObj m \<and> map_of m ''definitions'' = Some (JsObj defs) \<and>
           set defs \<subseteq> set allDefinitions \<and> refs_in s \<subseteq> defRef ` fst ` set defs"
proof -
  obtain ps u where ps: "props_schema fs [] [] = Inr (ps, u)"
    and s: "s = JsObj (AList.update ''required'' (JsArr [JsStr ''formats'', JsStr ''cases''])
      (typeFileSchema ''serify case file'' u (case_file_props (js_object ps (map FName fs)) (formatsSchema formats))))"
    using assms by (auto simp: fileSchema_def dataSchema_def case_file_props_def res_inv)
  have u: "defs_ok u" "refs_pairs ps \<subseteq> defRef ` set u"
    using translation_good(2) [OF ps] by (auto simp: grown_def defs_ok_def)
  then have "refs_pairs (case_file_props (js_object ps (map FName fs)) (formatsSchema formats)) \<subseteq> defRef ` set u"
    using formatsSchema_refs [of formats]
    by (auto simp: case_file_props_def fragment_defs obj_def obj_pairs_def)
  note parts = typeFileSchema_parts [OF this u(1), of "''serify case file''"]
  have "refs_in s \<subseteq> defRef ` fst ` set (definitions_used (add_refs u [''fieldsSection'', ''variantsSection'']))"
    using refs_update parts(2) unfolding s by fastforce
  moreover have "set (definitions_used v) \<subseteq> set allDefinitions" for v
    by (auto simp: definitions_used_def)
  ultimately show ?thesis
    using parts(1) by (simp add: s update_conv')
qed

lemma schema_self_contained_witness:
  "\<exists>s m defs. fileSchema [Fld ''raw'' (base_ft k_bytes) [], Fld ''n'' (base_ft k_int64) []] (formatsSchema [''json'']) = Inr s \<and>
     s = JsObj m \<and> map_of m ''definitions'' = Some (JsObj defs) \<and>
     set defs \<subseteq> set allDefinitions \<and> refs_in s \<subseteq> defRef ` fst ` set defs"
proof -
  let ?fs = "[Fld ''raw'' (base_ft k_bytes) [], Fld ''n'' (base_ft k_int64) []]"
  have "\<exists>r. dataSchema ?fs [] = Inr r"
    by (simp add: dataSchema_def base_ft_def fieldToSchema.simps del: add_refs.simps)
  then have "\<exists>s. fileSchema ?fs (formatsSchema [''json'']) = Inr s"
    by (auto simp: fileSchema_def res_inv)
  then obtain s where s: "fileSchema ?fs (formatsSchema [''json'']) = Inr s" by blast
  from s schema_self_contained [OF s] show ?thesis by metis
qed

subsection \<open>Modelines\<close>

lemma str_contains_iff: "str_contains s p \<longleftrightarrow> (\<exists>a b. s = a @ p @ b)"
proof (induction s)
  case Nil
  then show ?case by (simp add: str_contains.simps has_prefix_iff)
next
  case (Cons c s)
  show ?case
  proof
    assume "str_contains (c # s) p"
    then consider r where "c # s = p @ r" | a b where "s = a @ p @ b"
      using Cons by (auto simp: str_contains.simps [of "c # s"] has_prefix_iff)
    then show "\<exists>a b. c # s = a @ p @ b"
      by cases (metis append_Nil, metis append_Cons)
  next
    assume "\<exists>a b. c # s = a @ p @ b"
    then show "str_contains (c # s) p"
      using Cons by (auto simp: str_contains.simps [of "c # s"] has_prefix_iff Cons_eq_append_conv)
  qed
qed

lemma join_contains: "x \<in> set xs \<Longrightarrow> \<exists>a b. join sep xs = a @ x @ b"
proof (induction sep xs rule: join.induct)
  case (2 sep y)
  then have "join sep [y] = [] @ x @ []" by simp
  then show ?case by blast
next
  case (3 sep y z ys)
  then consider "x = y" | a b where "join sep (z # ys) = a @ x @ b" by auto
  then show ?case
    by cases (metis append_Nil join.simps(3), metis append.assoc join.simps(3))
qed simp

lemma has_suffix_iff: "has_suffix s e \<longleftrightarrow> (\<exists>r. s = r @ e)"
  unfolding has_suffix_def by (metis append_eq_conv_conj append_take_drop_id length_append le_add2 add_diff_cancel_right')

lemma last_space_append:
  assumes "p \<noteq> []" "\<forall>e\<in>set space_encodings. last p \<notin> set e"
  shows "last_space (p @ x) = last_space x"
proof -
  have "has_suffix (p @ x) e = has_suffix x e" if e: "e \<in> set space_encodings" for e
  proof
    assume "has_suffix (p @ x) e"
    then obtain r where "p @ x = r @ e" by (auto simp: has_suffix_iff)
    then consider us where "p = r @ us" "e = us @ x" | us where "x = us @ e"
      by (auto simp: append_eq_append_conv2)
    then show "has_suffix x e"
    proof cases
      case (1 us)
      then show ?thesis using assms(2) e by (cases us rule: rev_cases) (auto simp: has_suffix_iff)
    qed (auto simp: has_suffix_iff)
  qed (auto simp: has_suffix_iff)
  then show ?thesis unfolding last_space_def by (intro find_cong) auto
qed

lemma trim_right_append:
  assumes "p \<noteq> []" "\<forall>e\<in>set space_encodings. last p \<notin> set e"
  shows "trim_right (p @ x) = p @ trim_right x"
proof (induction x rule: trim_right.induct)
  case (1 x)
  then show ?case
    using last_space_append [OF assms, of x] last_space_nonempty [of x]
    by (auto simp: trim_right.simps [of "p @ x"] trim_right.simps [of x] split: option.splits)
qed

lemma wanted_is_modeline: "is_modeline (wanted_modeline sf)"
proof -
  obtain r where r: "wanted_modeline sf = modeline_prefix @ r"
    by (simp add: wanted_modeline_def modeline_prefix_def)
  have "first_space (modeline_prefix @ r) = None"
    by (simp add: first_space_def find_None_iff space_encodings_def has_prefix_def modeline_prefix_def)
  moreover have "trim_right (modeline_prefix @ r) = modeline_prefix @ trim_right r"
    by (rule trim_right_append) (simp_all add: modeline_prefix_def space_encodings_def)
  ultimately show ?thesis
    by (simp add: is_modeline_def r trim_space_def trim_left.simps [of "modeline_prefix @ r"])
qed

lemma filter_modelines_spec:
  assumes "is_modeline want" "filter_modelines want r ls = (out, r')"
  shows "filter (\<lambda>l. \<not> is_modeline l) out = filter (\<lambda>l. \<not> is_modeline l) ls"
    and "filter is_modeline out = (if r' \<and> \<not> r then [want] else [])"
    and "r \<longrightarrow> r'" and "set out \<subseteq> insert want (set ls)"
  using assms by (induction want r ls arbitrary: out r' rule: filter_modelines.induct)
    (auto split: prod.splits if_splits)

text \<open>Pointing a case file at its schema is stable and touches nothing else: a second run changes
  nothing, the lines that are not modelines are kept in order, and unless the file already mentions
  the schema it ends up with exactly one modeline, the one wanted. The schema's file name has no
  line break.\<close>

theorem modeline_points_once:
  assumes "CHR 0x0A \<notin> set schemaFile"
  defines "f \<equiv> set_modeline schemaFile" and "ls \<equiv> split_on (CHR 0x0A)"
  shows "f (f content) = f content \<and>
    filter (\<lambda>l. \<not> is_modeline l) (ls (f content)) = filter (\<lambda>l. \<not> is_modeline l) (ls content) \<and>
    (if str_contains content (wanted_modeline schemaFile) then f content = content
     else filter is_modeline (ls (f content)) = [wanted_modeline schemaFile])"
proof (cases "str_contains content (wanted_modeline schemaFile)")
  case True
  then show ?thesis by (simp add: f_def set_modeline_def Let_def)
next
  case False
  define want where "want = wanted_modeline schemaFile"
  obtain out r where out: "filter_modelines want False (ls content) = (out, r)" by force
  define new where "new = (if r then out else take (header_end 0 0 out) out @ [want] @ drop (header_end 0 0 out) out)"
  have im: "is_modeline want" by (simp add: want_def wanted_is_modeline)
  note spec = filter_modelines_spec [OF im out]
  have f: "f content = join [CHR 0x0A] new"
    using False out by (simp add: f_def set_modeline_def want_def [symmetric] ls_def new_def Let_def)
  have flt: "filter P (take k out) @ filter P (drop k out) = filter P out" for P k
    by (metis append_take_drop_id filter_append)
  have old: "filter (\<lambda>l. \<not> is_modeline l) new = filter (\<lambda>l. \<not> is_modeline l) (ls content)"
    using spec(1) im by (simp add: new_def flt)
  have one: "filter is_modeline new = [want]"
    using spec(2) flt [of is_modeline "header_end 0 0 out"] im by (cases r) (auto simp: new_def filter_empty_conv)
  then have "want \<in> set new" by (metis filter_eq_Cons_iff in_set_conv_decomp)
  have "CHR 0x0A \<notin> set l" if "l \<in> set new" for l
  proof -
    have "set new \<subseteq> insert want (set (ls content))"
      using spec(4) by (auto simp: new_def dest: in_set_takeD in_set_dropD)
    then show ?thesis
      using that assms(1) split_on_no_sep by (fastforce simp: ls_def want_def wanted_modeline_def)
  qed
  then have "ls (f content) = new"
    unfolding ls_def f using \<open>want \<in> set new\<close> by (intro split_on_join) auto
  moreover have "str_contains (f content) want"
    using join_contains [OF \<open>want \<in> set new\<close>] by (auto simp: f str_contains_iff)
  ultimately show ?thesis
    using old one False by (simp add: want_def f_def set_modeline_def Let_def)
qed

lemma modeline_points_once_witness:
  "(let f = set_modeline ''a.json''; c = ''# yaml-language-server: old'' @ [CHR 0x0A] @ ''fields:''; ls = split_on (CHR 0x0A) in
    f (f c) = f c \<and> filter (\<lambda>l. \<not> is_modeline l) (ls (f c)) = filter (\<lambda>l. \<not> is_modeline l) (ls c) \<and>
    (if str_contains c (wanted_modeline ''a.json'') then f c = c
     else filter is_modeline (ls (f c)) = [wanted_modeline ''a.json'']))"
  unfolding Let_def by (rule modeline_points_once) simp

end
