(* ===== verification/CaseWire.thy ===== *)
theory CaseWire
  imports CaseData RoundTrip
begin

section \<open>From case data to wire values\<close>

text \<open>
  \<open>good_val env ft v\<close> says that \<open>v\<close> is case data of the type, as \<open>decodeDataValue\<close> returns it for a
  well-written case: integers in range, floats convertible, bytes as a byte array or lower-case hex,
  a declared enum or sum variant, an array of the declared length, null only where optional. Such
  data encodes, and encodes to a wire value of its type.
\<close>

definition good_int :: "nat \<Rightarrow> bool \<Rightarrow> gval \<Rightarrow> bool" where
  "good_int w sg v = (case v of GInt i \<Rightarrow> in_range (int_lo w sg) (int_hi w sg) (sint i) | _ \<Rightarrow> False)"

definition good_scalar :: "go_env \<Rightarrow> string \<Rightarrow> gval \<Rightarrow> bool" where
  "good_scalar env b v =
     (if b = k_uint8 then good_int 8 False v
      else if b = k_uint16 then good_int 16 False v
      else if b = k_uint32 then good_int 32 False v
      else if b = k_int8 then good_int 8 True v
      else if b = k_int16 then good_int 16 True v
      else if b = k_int32 then good_int 32 True v
      else if b = k_uint64 then (case v of GU64 _ \<Rightarrow> True | _ \<Rightarrow> False)
      else if b = k_int64 then (case v of GI64 _ \<Rightarrow> True | _ \<Rightarrow> False)
      else if b = k_uint128 then (case v of GBig i \<Rightarrow> in_range 0 (2 ^ 128 - 1) i | _ \<Rightarrow> False)
      else if b = k_int128 then (case v of GBig i \<Rightarrow> in_range (- (2 ^ 127)) (2 ^ 127 - 1) i | _ \<Rightarrow> False)
      else if b = k_float32 \<or> b = k_float64 then (case toFloat64 env v of Inr _ \<Rightarrow> True | _ \<Rightarrow> False)
      else if b = k_bool then (case v of GBool _ \<Rightarrow> True | _ \<Rightarrow> False)
      else if b = k_string then (case v of GStr _ \<Rightarrow> True | _ \<Rightarrow> False)
      else b = k_bytes \<and>
        (case encodeBytes env v of
           Inr (GStr s) \<Rightarrow> (case hex_decode s of None \<Rightarrow> False | Some bs \<Rightarrow> hex_encode bs = s)
         | _ \<Rightarrow> False))"

function good_val :: "go_env \<Rightarrow> field_type \<Rightarrow> gval \<Rightarrow> bool" where
  "good_val env (Ftype b e k n fs vs vrs) v =
     (if b \<in> set Scalars then good_scalar env b v
      else if b = k_struct then
        (case v of
           GMap m \<Rightarrow> list_all (\<lambda>f. case map_of m (FName f) of None \<Rightarrow> True | Some x \<Rightarrow> good_val env (FType f) x) fs
         | _ \<Rightarrow> False)
      else if b = k_optional then
        v = GNil \<or> (case e of None \<Rightarrow> False | Some t \<Rightarrow> good_val env t v)
      else if b = k_list \<or> b = k_array then
        (case v of
           GList xs \<Rightarrow> (b = k_array \<longrightarrow> int (length xs) = n) \<and>
             (case e of None \<Rightarrow> False | Some t \<Rightarrow> list_all (good_val env t) xs)
         | _ \<Rightarrow> False)
      else if b = k_map then
        (case v of
           GMap m \<Rightarrow> map_wf m \<and>
             (case e of None \<Rightarrow> False | Some t \<Rightarrow> list_all (\<lambda>(key, x). good_val env t x) m)
         | _ \<Rightarrow> False)
      else if b = k_enum then (case v of GStr s \<Rightarrow> s \<in> set vs | _ \<Rightarrow> False)
      else b = k_sum \<and>
        (case v of
           GMap [(tag, p)] \<Rightarrow>
             (case findVariant vrs tag of
                None \<Rightarrow> False
              | Some vr \<Rightarrow> (case VType vr of None \<Rightarrow> True | Some t \<Rightarrow> good_val env t p))
         | _ \<Rightarrow> False))"
  by pat_completeness auto

termination
  by (relation "measure (\<lambda>(env, ft, v). size ft)") (auto dest!: size_FType_le findVariant_size)

declare good_val.simps [simp del]

lemma good_val_ctors:
  "b \<in> set Scalars \<Longrightarrow> good_val env (base_ft b) v = good_scalar env b v"
  "good_val env (struct_ft fs) v =
     (case v of
        GMap m \<Rightarrow> list_all (\<lambda>f. case map_of m (FName f) of None \<Rightarrow> True | Some x \<Rightarrow> good_val env (FType f) x) fs
      | _ \<Rightarrow> False)"
  "good_val env (elem_ft k_optional t) v = (v = GNil \<or> good_val env t v)"
  "good_val env (elem_ft k_list t) v = (case v of GList xs \<Rightarrow> list_all (good_val env t) xs | _ \<Rightarrow> False)"
  "good_val env (array_ft t n) v =
     (case v of GList xs \<Rightarrow> int (length xs) = n \<and> list_all (good_val env t) xs | _ \<Rightarrow> False)"
  "good_val env (map_ft tk t) v =
     (case v of GMap m \<Rightarrow> map_wf m \<and> list_all (\<lambda>(key, x). good_val env t x) m | _ \<Rightarrow> False)"
  "good_val env (enum_ft es) v = (case v of GStr s \<Rightarrow> s \<in> set es | _ \<Rightarrow> False)"
  "good_val env (sum_ft vrs) v =
     (case v of
        GMap [(tag, p)] \<Rightarrow>
          (case findVariant vrs tag of
             None \<Rightarrow> False
           | Some vr \<Rightarrow> (case VType vr of None \<Rightarrow> True | Some t \<Rightarrow> good_val env t p))
      | _ \<Rightarrow> False)"
  by (simp_all add: good_val.simps ft_ctor_defs Scalars_def cong: gval.case_cong)

subsection \<open>encodeValue by kind\<close>

lemma encodeValue_kinds:
  "encodeValue env (base_ft k_float32) v = rbind (toFloat64 env v) (\<lambda>x. Inr (GStr (float32Hex (f32_of_f64 x))))"
  "encodeValue env (base_ft k_float64) v = rbind (toFloat64 env v) (\<lambda>x. Inr (GStr (float64Hex x)))"
  "encodeValue env (base_ft k_uint64) v = Inr (GStr (fmt_v env v))"
  "encodeValue env (base_ft k_int64) v = Inr (GStr (fmt_v env v))"
  "encodeValue env (base_ft k_uint128) v = Inr (GStr (fmt_v env v))"
  "encodeValue env (base_ft k_int128) v = Inr (GStr (fmt_v env v))"
  "encodeValue env (base_ft k_bytes) v = encodeBytes env v"
  "encodeValue env (base_ft k_uint8) v = Inr v"
  "encodeValue env (base_ft k_uint16) v = Inr v"
  "encodeValue env (base_ft k_uint32) v = Inr v"
  "encodeValue env (base_ft k_int8) v = Inr v"
  "encodeValue env (base_ft k_int16) v = Inr v"
  "encodeValue env (base_ft k_int32) v = Inr v"
  "encodeValue env (base_ft k_bool) v = Inr v"
  "encodeValue env (base_ft k_string) v = Inr v"
  by (simp_all add: encodeValue.simps base_ft_def)

lemma good_scalar_kinds:
  "good_scalar env k_uint8 v = good_int 8 False v"
  "good_scalar env k_uint16 v = good_int 16 False v"
  "good_scalar env k_uint32 v = good_int 32 False v"
  "good_scalar env k_int8 v = good_int 8 True v"
  "good_scalar env k_int16 v = good_int 16 True v"
  "good_scalar env k_int32 v = good_int 32 True v"
  "good_scalar env k_uint64 v = (case v of GU64 _ \<Rightarrow> True | _ \<Rightarrow> False)"
  "good_scalar env k_int64 v = (case v of GI64 _ \<Rightarrow> True | _ \<Rightarrow> False)"
  "good_scalar env k_uint128 v = (case v of GBig i \<Rightarrow> in_range 0 (2 ^ 128 - 1) i | _ \<Rightarrow> False)"
  "good_scalar env k_int128 v = (case v of GBig i \<Rightarrow> in_range (- (2 ^ 127)) (2 ^ 127 - 1) i | _ \<Rightarrow> False)"
  "good_scalar env k_float32 v = (case toFloat64 env v of Inr _ \<Rightarrow> True | _ \<Rightarrow> False)"
  "good_scalar env k_float64 v = (case toFloat64 env v of Inr _ \<Rightarrow> True | _ \<Rightarrow> False)"
  "good_scalar env k_bool v = (case v of GBool _ \<Rightarrow> True | _ \<Rightarrow> False)"
  "good_scalar env k_string v = (case v of GStr _ \<Rightarrow> True | _ \<Rightarrow> False)"
  "good_scalar env k_bytes v =
        (case encodeBytes env v of
           Inr (GStr s) \<Rightarrow> (case hex_decode s of None \<Rightarrow> False | Some bs \<Rightarrow> hex_encode bs = s)
         | _ \<Rightarrow> False)"
  by (simp_all add: good_scalar_def)

text \<open>A value encodes to wire form.\<close>

definition encodes :: "go_env \<Rightarrow> field_type \<Rightarrow> gval \<Rightarrow> bool" where
  "encodes env ft v \<longleftrightarrow>
     (\<exists>e j. encodeValue env ft v = Inr e \<and> json_of env e = Some j \<and> wire_val ft j)"

lemma good_intE:
  assumes "good_int w sg v" and "w \<le> 32"
  obtains i where "v = GInt i" "wire_int w sg (JNum (f64_of_int (sint i)))"
proof -
  from assms(1) obtain i where i: "v = GInt i" "in_range (int_lo w sg) (int_hi w sg) (sint i)"
    by (auto simp: good_int_def split: gval.splits)
  have "(2::int) ^ w \<le> 2 ^ 32" "(2::int) ^ (w - 1) \<le> 2 ^ 32"
    using assms(2) by (intro power_increasing; simp)+
  with i(2) have "\<bar>sint i\<bar> < 2 ^ 53" by (auto simp: in_range_def int_lo_def int_hi_def split: if_splits)
  then have t: "f64_trunc (f64_of_int (sint i)) = Some (sint i)" by (rule f64_trunc_of_int)
  have "wire_int w sg (JNum (f64_of_int (sint i)))"
    unfolding wire_int_def json.case t option.case using i(2) by blast
  with i(1) show ?thesis by (rule that)
qed

lemma wire_hex_le: "n = length bs \<Longrightarrow> wire_hex (Some n) (JStr (hex_encode bs))"
  by (simp add: wire_hex_def)

lemma wire_decimal_itoa: "in_range lo hi i \<Longrightarrow> wire_decimal lo hi (JStr (itoa i))"
  by (simp add: wire_decimal_def)

lemma wire_uint: "wire_decimal 0 (2 ^ 64 - 1) (JStr (itoa (uint (w :: 64 word))))"
  using uint_lt2p [of w] by (intro wire_decimal_itoa) (simp add: in_range_def)

lemma wire_sint: "wire_decimal (- (2 ^ 63)) (2 ^ 63 - 1) (JStr (itoa (sint (w :: 64 word))))"
  using sint_greater_eq [of w] sint_less [of w] by (intro wire_decimal_itoa) (simp add: in_range_def)

lemma good_bytesE:
  assumes "good_scalar env k_bytes v"
  obtains s where "encodeBytes env v = Inr (GStr s)" "wire_hex None (JStr s)"
  using assms by (auto simp: good_scalar_kinds wire_hex_def split: sum.split_asm gval.split_asm option.split_asm)

lemma encode_scalar_wire:
  assumes "b \<in> set Scalars" and "good_scalar env b v"
  shows "\<exists>e j. encodeValue env (base_ft b) v = Inr e \<and> json_of env e = Some j \<and> wire_scalar b j"
proof (cases "b = k_bytes")
  case True
  with assms(2) show ?thesis by (auto simp: encodeValue_kinds wire_scalar_kinds elim!: good_bytesE)
next
  case False
  note ints = wire_uint [simplified] wire_sint [simplified]
  show ?thesis using assms False unfolding Scalars_def list.set
    by (elim insertE emptyE; simp only: good_scalar_kinds encodeValue_kinds wire_scalar_kinds;
        (elim good_intE, simp)?;
        auto simp: wire_hex_le wire_decimal_itoa ints float32Hex_def float64Hex_def
          split: gval.splits sum.splits)
qed

lemma encodeValue_ctors:
  "encodeValue env (struct_ft fs) (GMap m) =
     rbind (build_map (\<lambda>f. case map_of m (FName f) of
               None \<Rightarrow> Inr None
             | Some fv \<Rightarrow> rbind (map_err (EncField (FName f)) (encodeValue env (FType f) fv))
                            (\<lambda>x. Inr (Some (FName f, x)))) [] fs)
           (\<lambda>m. Inr (GMap m))"
  "encodeValue env (elem_ft k_optional t) v = (if v = GNil then Inr GNil else encodeValue env t v)"
  "encodeValue env (elem_ft k_list t) (GList xs) =
     rbind (mapMi (\<lambda>i x. map_err (EncIndex i) (encodeValue env t x)) xs) (\<lambda>xs. Inr (GList xs))"
  "int (length xs) = n \<Longrightarrow> encodeValue env (array_ft t n) (GList xs) =
     rbind (mapMi (\<lambda>i x. map_err (EncIndex i) (encodeValue env t x)) xs) (\<lambda>xs. Inr (GList xs))"
  "encodeValue env (map_ft tk t) (GMap m) =
     rbind (mapM_vals (\<lambda>key x. map_err (EncKey key) (encodeValue env t x)) m) (\<lambda>m. Inr (GMap m))"
  "encodeValue env (enum_ft es) (GStr s) = Inr (GStr s)"
  "encodeValue env (sum_ft vrs) (GMap [(tag, p)]) =
     (case findVariant vrs tag of
        None \<Rightarrow> Inl (EncUnknownVariant tag)
      | Some vr \<Rightarrow>
          (case VType vr of
             None \<Rightarrow> Inr (GMap [(tag, GNil)])
           | Some t \<Rightarrow> rbind (map_err (EncVariant tag) (encodeValue env t p))
                         (\<lambda>x. Inr (GMap [(tag, x)]))))"
  by (simp_all add: encodeValue.simps ft_ctor_defs)

subsection \<open>Containers\<close>

lemma gval_single_entry:
  "(case v of GMap [(tag, p)] \<Rightarrow> F tag p | _ \<Rightarrow> False) \<longleftrightarrow> (\<exists>tag p. v = GMap [(tag, p)] \<and> F tag p)"
  by (auto split: gval.splits list.splits)

lemma json_of_list: "(\<And>x. x \<in> set xs \<Longrightarrow> json_of env (g x) = Some (j x)) \<Longrightarrow>
    json_of env (GList (map g xs)) = Some (JArr (map j xs))"
  using json_seq_map [of xs "\<lambda>x. json_of env (g x)" j] by (simp add: comp_def)

lemma json_of_map:
  assumes "\<And>k x. (k, x) \<in> set m \<Longrightarrow> json_of env (g x) = Some (j x)"
  shows "json_of env (GMap (map (\<lambda>(k, x). (k, g x)) m)) = Some (JObj (map (\<lambda>(k, x). (k, j x)) m))"
proof -
  have "json_seq (map (\<lambda>(k, x). json_of env (g x)) m) = Some (map (\<lambda>(k, x). j x) m)"
    using assms by (force intro: json_seq_map)
  then show ?thesis using zip_map_fst [of m "\<lambda>k. j"] by (simp add: comp_def case_prod_unfold)
qed

lemma encodes_choice:
  assumes "\<forall>x \<in> A. encodes env t x"
  obtains g j where "\<forall>x \<in> A. encodeValue env t x = Inr (g x)"
    "\<forall>x \<in> A. json_of env (g x) = Some (j x)" "\<forall>x \<in> A. wire_val t (j x)"
  using assms unfolding encodes_def by metis

lemma encodes_elems:
  assumes "\<And>x. x \<in> set xs \<Longrightarrow> encodes env t x"
  obtains es js where
    "mapMi (\<lambda>i x. map_err (EncIndex i) (encodeValue env t x)) xs = Inr es"
    "json_of env (GList es) = Some (JArr js)" "length js = length xs" "list_all (wire_val t) js"
proof -
  have "\<forall>x \<in> set xs. encodes env t x" using assms by blast
  then obtain g j where gj: "\<forall>x \<in> set xs. encodeValue env t x = Inr (g x)"
    "\<forall>x \<in> set xs. json_of env (g x) = Some (j x)" "\<forall>x \<in> set xs. wire_val t (j x)"
    by (rule encodes_choice)
  have "mapMi (\<lambda>i x. map_err (EncIndex i) (encodeValue env t x)) xs = Inr (map g xs)"
    using gj(1) by (intro mapMi_Inr_map) simp
  moreover have "json_of env (GList (map g xs)) = Some (JArr (map j xs))"
    using gj(2) by (intro json_of_list) simp
  moreover have "length (map j xs) = length xs" by simp
  moreover have "list_all (wire_val t) (map j xs)" using gj(3) by (simp add: list_all_iff)
  ultimately show ?thesis by (rule that)
qed

lemma encodes_vals:
  assumes "\<And>k x. (k, x) \<in> set m \<Longrightarrow> encodes env t x" and "map_wf m"
  obtains es jm where
    "mapM_vals (\<lambda>key x. map_err (EncKey key) (encodeValue env t x)) m = Inr es"
    "json_of env (GMap es) = Some (JObj jm)" "map_wf jm" "list_all (\<lambda>(key, x). wire_val t x) jm"
proof -
  have "\<forall>x \<in> snd ` set m. encodes env t x" using assms(1) by force
  then obtain g j where gj: "\<forall>x \<in> snd ` set m. encodeValue env t x = Inr (g x)"
    "\<forall>x \<in> snd ` set m. json_of env (g x) = Some (j x)" "\<forall>x \<in> snd ` set m. wire_val t (j x)"
    by (rule encodes_choice)
  have "mapM_vals (\<lambda>key x. map_err (EncKey key) (encodeValue env t x)) m =
      Inr (map (\<lambda>(k, x). (k, g x)) m)"
    using gj(1) by (intro mapM_vals_Inr_map) force
  moreover have "json_of env (GMap (map (\<lambda>(k, x). (k, g x)) m)) = Some (JObj (map (\<lambda>(k, x). (k, j x)) m))"
    using gj(2) by (intro json_of_map) force
  moreover have "map_wf (map (\<lambda>(k, x). (k, j x)) m)" using assms(2)
    by (simp add: map_wf_def comp_def case_prod_unfold)
  moreover have "list_all (\<lambda>(key, x). wire_val t x) (map (\<lambda>(k, x). (k, j x)) m)"
    using gj(3) by (force simp: list_all_iff)
  ultimately show ?thesis by (rule that)
qed

lemma encodes_fields:
  assumes d: "distinct (map FName fs)"
    and f: "\<And>f x. f \<in> set fs \<Longrightarrow> map_of m (FName f) = Some x \<Longrightarrow> encodes env (FType f) x"
  shows "encodes env (struct_ft fs) (GMap m)"
proof -
  let ?P = "\<lambda>f. map_of m (FName f) \<noteq> None" and ?x = "\<lambda>f. the (map_of m (FName f))"
  let ?ps = "filter ?P fs"
  have "\<forall>f \<in> set ?ps. encodes env (FType f) (?x f)" using f by auto
  then obtain g j where gj: "\<forall>f \<in> set ?ps. encodeValue env (FType f) (?x f) = Inr (g f)"
    "\<forall>f \<in> set ?ps. json_of env (g f) = Some (j f)" "\<forall>f \<in> set ?ps. wire_val (FType f) (j f)"
    unfolding encodes_def by metis
  let ?em = "map (\<lambda>f. (FName f, g f)) ?ps" and ?jm = "map (\<lambda>f. (FName f, j f)) ?ps"
  have dp: "distinct (map FName ?ps)" using d by (simp add: distinct_map_filter)
  have "encodeValue env (struct_ft fs) (GMap m) = Inr (GMap ?em)"
    unfolding encodeValue_ctors
  proof (subst build_map_present [OF d, where P = ?P and g = g])
    fix x assume "x \<in> set fs"
    with gj(1) show "(case map_of m (FName x) of None \<Rightarrow> Inr None
       | Some fv \<Rightarrow> rbind (map_err (EncField (FName x)) (encodeValue env (FType x) fv))
                      (\<lambda>y. Inr (Some (FName x, y)))) = Inr (if ?P x then Some (FName x, g x) else None)"
      by (auto split: option.splits)
  qed simp
  moreover have "json_seq (map (\<lambda>f. json_of env (g f)) ?ps) = Some (map j ?ps)"
    using gj(2) by (intro json_seq_map) auto
  then have "json_of env (GMap ?em) = Some (JObj ?jm)"
    by (simp add: comp_def zip_map_map zip_same_conv_map)
  moreover have "wire_val (struct_ft fs) (JObj ?jm)"
  proof -
    have "list_all (\<lambda>f. case map_of ?jm (FName f) of None \<Rightarrow> True | Some x \<Rightarrow> wire_val (FType f) x) fs"
      unfolding list_all_iff
    proof
      fix f assume "f \<in> set fs"
      show "case map_of ?jm (FName f) of None \<Rightarrow> True | Some x \<Rightarrow> wire_val (FType f) x"
      proof (cases "?P f")
        case True
        with \<open>f \<in> set fs\<close> have "f \<in> set ?ps" by simp
        with map_of_map_keys [OF dp, of f j] gj(3) show ?thesis by simp
      next
        case False
        have "map_of ?jm (FName f) = None"
        proof (rule ccontr)
          assume "map_of ?jm (FName f) \<noteq> None"
          then obtain y where "map_of ?jm (FName f) = Some y" by blast
          then have "(FName f, y) \<in> set ?jm" by (rule map_of_SomeD)
          then obtain f' where "FName f' = FName f" "?P f'" by auto
          with False show False by simp
        qed
        then show ?thesis by simp
      qed
    qed
    moreover have "map_wf ?jm" using dp by (simp add: map_wf_def comp_def)
    ultimately show ?thesis by (auto simp: wire_val_ctors list_all_iff)
  qed
  ultimately show ?thesis unfolding encodes_def by blast
qed

lemma encode_wire:
  "wf_ft ft \<Longrightarrow> supported ft \<Longrightarrow> good_val env ft v \<Longrightarrow> encodes env ft v"
proof (induction arbitrary: v rule: wf_ft_induct)
  case (scalar b)
  then show ?case using encode_scalar_wire [of b env v] by (simp add: encodes_def good_val_ctors wire_val_ctors)
next
  case (struct fs)
  from struct.prems(2) obtain m where m: "v = GMap m"
    "\<And>f x. f \<in> set fs \<Longrightarrow> map_of m (FName f) = Some x \<Longrightarrow> good_val env (FType f) x"
    by (fastforce simp: good_val_ctors list_all_iff split: gval.splits)
  have "distinct (map FName fs)" "\<And>f. f \<in> set fs \<Longrightarrow> supported (FType f)"
    using struct.prems(1) by (simp_all add: supported_ctors list_all_iff)
  with struct.IH m show ?case by (auto intro!: encodes_fields)
next
  case (optional t)
  show ?case
  proof (cases "v = GNil")
    case True
    then show ?thesis by (simp add: encodes_def encodeValue_ctors wire_val_ctors)
  next
    case False
    with optional have "encodes env t v" by (simp add: good_val_ctors supported_ctors)
    with False show ?thesis by (auto simp: encodes_def encodeValue_ctors wire_val_ctors)
  qed
next
  case (lst t)
  from lst.prems(2) obtain xs where xs: "v = GList xs" "\<And>x. x \<in> set xs \<Longrightarrow> good_val env t x"
    by (auto simp: good_val_ctors list_all_iff split: gval.splits)
  have "\<And>x. x \<in> set xs \<Longrightarrow> encodes env t x" using lst.IH lst.prems(1) xs(2) by (simp add: supported_ctors)
  then obtain es js where "mapMi (\<lambda>i x. map_err (EncIndex i) (encodeValue env t x)) xs = Inr es"
    "json_of env (GList es) = Some (JArr js)" "list_all (wire_val t) js"
    by (rule encodes_elems)
  then show ?case unfolding encodes_def xs(1) by (auto simp del: json_of.simps simp: encodeValue_ctors wire_val_ctors)
next
  case (array t n)
  from array.prems(2) obtain xs where xs: "v = GList xs" "int (length xs) = n"
    "\<And>x. x \<in> set xs \<Longrightarrow> good_val env t x"
    by (auto simp: good_val_ctors list_all_iff split: gval.splits)
  have "supported t" using array.prems(1) by (cases t) (simp add: supported_ctors supported.simps)
  then have "\<And>x. x \<in> set xs \<Longrightarrow> encodes env t x" using array.IH xs(3) by simp
  then obtain es js where "mapMi (\<lambda>i x. map_err (EncIndex i) (encodeValue env t x)) xs = Inr es"
    "json_of env (GList es) = Some (JArr js)" "length js = length xs" "list_all (wire_val t) js"
    by (rule encodes_elems)
  with xs(2) show ?case unfolding encodes_def xs(1) encodeValue_ctors(4) [OF xs(2)]
    by (auto simp del: json_of.simps simp: wire_val_ctors)
next
  case (map tk tv)
  from map.prems(2) obtain m where m: "v = GMap m" "map_wf m"
    "\<And>k x. (k, x) \<in> set m \<Longrightarrow> good_val env tv x"
    by (auto simp: good_val_ctors list_all_iff split: gval.splits)
  have "\<And>k x. (k, x) \<in> set m \<Longrightarrow> encodes env tv x" using map.IH(2) map.prems(1) m(3) by (auto simp: supported_ctors)
  then obtain es jm where "mapM_vals (\<lambda>key x. map_err (EncKey key) (encodeValue env tv x)) m = Inr es"
    "json_of env (GMap es) = Some (JObj jm)" "map_wf jm" "list_all (\<lambda>(key, x). wire_val tv x) jm"
    using m(2) by (rule encodes_vals)
  then show ?case unfolding encodes_def m(1) by (auto simp del: json_of.simps simp: encodeValue_ctors wire_val_ctors)
next
  case (enum es)
  from enum.prems(2) obtain s where "v = GStr s" "s \<in> set es" by (auto simp: good_val_ctors split: gval.splits)
  then show ?case by (simp add: encodes_def encodeValue_ctors wire_val_ctors)
next
  case (sum vrs)
  from sum.prems(2) obtain tag p vr where v: "v = GMap [(tag, p)]" "findVariant vrs tag = Some vr"
    "case VType vr of None \<Rightarrow> True | Some t \<Rightarrow> good_val env t p"
    by (auto simp: good_val_ctors gval_single_entry split: option.splits)
  show ?case
  proof (cases "VType vr")
    case None
    with v show ?thesis by (simp add: encodes_def encodeValue_ctors wire_val_ctors)
  next
    case (Some t)
    have vr: "vr \<in> set vrs" using v(2) by (simp add: findVariant_in)
    have "supported t" using sum.prems(1) vr Some by (force simp: supported_ctors list_all_iff)
    with sum.IH [OF vr Some] v(3) Some have "encodes env t p" by simp
    then obtain e j where "encodeValue env t p = Inr e" "json_of env e = Some j" "wire_val t j"
      by (auto simp: encodes_def)
    with v(1,2) Some show ?thesis by (simp add: encodes_def encodeValue_ctors wire_val_ctors)
  qed
qed

subsection \<open>A whole case\<close>

definition good_case :: "go_env \<Rightarrow> field list \<Rightarrow> gval gomap \<Rightarrow> bool" where
  "good_case env schema data \<longleftrightarrow>
     distinct (map FName schema) \<and> list_all (\<lambda>f. wf_ft (FType f) \<and> supported (FType f)) schema \<and>
     map_wf data \<and>
     list_all (\<lambda>(k, v). case field_named schema k of None \<Rightarrow> False | Some f \<Rightarrow> good_val env (FType f) v) data"

lemma field_named_distinct:
  assumes "distinct (map FName fs)" and "f \<in> set fs"
  shows "field_named fs (FName f) = Some f"
proof -
  have "field_named fs (FName f) \<noteq> None" using assms(2) by (auto simp: field_named_def find_None)
  then obtain g where g: "field_named fs (FName f) = Some g" by blast
  then have "g \<in> set fs" "FName g = FName f" by (auto dest: field_named_in)
  with assms have "g = f" by (auto simp: distinct_map inj_on_def)
  with g show ?thesis by simp
qed

text \<open>The data encodes entry by entry to wire values of the schema's types.\<close>

lemma EncodeData_wire:
  assumes "good_case env schema data"
  obtains enc jm where "EncodeData env data schema = Inr enc" "json_of env (GMap enc) = Some (JObj jm)"
    "map_wf jm" "map fst jm = map fst data" "map fst enc = map fst data"
    "\<And>k x f. (k, x) \<in> set jm \<Longrightarrow> field_named schema k = Some f \<Longrightarrow> wire_val (FType f) x"
proof -
  have g: "\<And>k v. (k, v) \<in> set data \<Longrightarrow> \<exists>f. field_named schema k = Some f \<and> encodes env (FType f) v"
    using assms by (fastforce simp: good_case_def list_all_iff split: option.splits dest: field_named_in intro: encode_wire)
  have "\<forall>kv \<in> set data. \<exists>e j. (case field_named schema (fst kv) of
         None \<Rightarrow> Inl (EncNotInSchema (fst kv))
       | Some f \<Rightarrow> map_err (EncField (fst kv)) (encodeValue env (FType f) (snd kv))) = Inr e \<and>
      json_of env e = Some j \<and> (\<forall>f. field_named schema (fst kv) = Some f \<longrightarrow> wire_val (FType f) j)"
    using g by (fastforce simp: encodes_def)
  then obtain e j where ej: "\<forall>kv \<in> set data. (case field_named schema (fst kv) of
         None \<Rightarrow> Inl (EncNotInSchema (fst kv))
       | Some f \<Rightarrow> map_err (EncField (fst kv)) (encodeValue env (FType f) (snd kv))) = Inr (e kv)"
    "\<forall>kv \<in> set data. json_of env (e kv) = Some (j kv)"
    "\<forall>kv \<in> set data. \<forall>f. field_named schema (fst kv) = Some f \<longrightarrow> wire_val (FType f) (j kv)" by metis
  let ?enc = "map (\<lambda>(k, v). (k, e (k, v))) data" and ?jm = "map (\<lambda>(k, v). (k, j (k, v))) data"
  have "EncodeData env data schema = Inr ?enc"
    unfolding EncodeData_def
    by (rule mapM_vals_Inr_map [where g = "\<lambda>k v. e (k, v)"]) (drule ej(1) [THEN bspec], simp only: fst_conv snd_conv)
  moreover have "json_seq (map (\<lambda>(k, v). json_of env (e (k, v))) data) = Some (map (\<lambda>(k, v). j (k, v)) data)"
    using ej(2) by (force intro: json_seq_map)
  then have "json_of env (GMap ?enc) = Some (JObj ?jm)"
    using zip_map_fst [of data "\<lambda>k v. j (k, v)"] by (simp add: comp_def case_prod_unfold)
  moreover have f: "map fst ?jm = map fst data" "map fst ?enc = map fst data" by (auto simp: case_prod_unfold)
  moreover have "map_wf ?jm" using assms unfolding map_wf_keys [OF f(1)] by (simp add: good_case_def)
  moreover have "\<And>k x f. (k, x) \<in> set ?jm \<Longrightarrow> field_named schema k = Some f \<Longrightarrow> wire_val (FType f) x"
    using ej(3) by force
  ultimately show ?thesis by (intro that)
qed

lemma case_round_trip:
  assumes "good_case env schema data"
  shows "\<exists>enc jm gs fm out jm'. EncodeData env data schema = Inr enc \<and>
    json_of env (GMap enc) = Some (JObj jm) \<and> SchemaFields schema = Inr gs \<and>
    DecodeFieldMap env jm gs = Inr fm \<and> EncodeFieldMap fm gs = Inr out \<and>
    fval_json other (FMap out) = Some (JObj jm') \<and> json_eq (JObj jm) (JObj jm') \<and>
    map_wf jm \<and> map_wf jm' \<and> map fst enc = map fst jm"
proof -
  from assms obtain enc jm where e: "EncodeData env data schema = Inr enc"
    "json_of env (GMap enc) = Some (JObj jm)" "map_wf jm" "map fst jm = map fst data" "map fst enc = map fst data"
    "\<And>k x f. (k, x) \<in> set jm \<Longrightarrow> field_named schema k = Some f \<Longrightarrow> wire_val (FType f) x"
    by (rule EncodeData_wire) blast
  have d: "distinct (map FName schema)" and ok: "\<And>f. f \<in> set schema \<Longrightarrow> wf_ft (FType f) \<and> supported (FType f)"
    using assms by (simp_all add: good_case_def list_all_iff)
  obtain gs where gs: "SchemaFields schema = Inr gs"
    using SchemaFields_total_if [of schema] schemaFieldOfType_total ok by blast
  have "scalar_rt env other k_struct gs (JObj jm)"
  proof (rule struct_rt)
    show "distinct (map sf_name gs)" using d SchemaFields_Inr(1) [OF gs] by simp
    show "map_wf jm" by fact
    show "k \<in> sf_name ` set gs" if "k \<in> fst ` set jm" for k
    proof -
      have "k \<in> fst ` set data" using that e(4) by (metis image_set)
      then obtain f where "field_named schema k = Some f"
        using assms by (force simp: good_case_def list_all_iff split: option.splits)
      then have "k \<in> set (map FName schema)" by (auto dest: field_named_in)
      then show ?thesis using SchemaFields_Inr(1) [OF gs] by (metis image_set)
    qed
    fix sf x assume s: "sf \<in> set gs" "map_of jm (sf_name sf) = Some x"
    from SchemaFields_Inr(2) [OF gs s(1)] obtain f sf' where f: "f \<in> set schema"
      "schemaFieldOfType (FName f) (FType f) = Inr sf'" "sf_name sf = FName f"
      "sf_type sf = sf_type sf'" "sf_fields sf = sf_fields sf'" "sf_variants sf = sf_variants sf'"
      by blast
    have "wire_val (FType f) x"
      using e(6) [of "FName f" x f] field_named_distinct [OF d f(1)] map_of_SomeD [OF s(2)] f(3) by simp
    with ok [OF f(1)] f(2) have "field_rt env other sf' x" by (blast intro: field_round_trip)
    then show "field_rt env other sf x" unfolding field_rt_shape [OF f(4-6)] .
  qed
  then obtain v w j' where r: "decodeScalar env k_struct gs (JObj jm) = Inr v"
    "encodeScalar k_struct gs v = Inr w" "fval_json other w = Some j'" "json_eq (JObj jm) j'"
    unfolding scalar_rt_def by blast
  from r(1) obtain fm where fm: "DecodeFieldMap env jm gs = Inr fm" "v = FFM (Some fm)"
    by (auto simp: decodeScalar_kinds map_res_eq_Inr)
  from r(2) fm(2) obtain out where out: "EncodeFieldMap fm gs = Inr out" "w = FMap out"
    by (auto simp: encodeScalar_kinds map_res_eq_Inr)
  from r(3) out(2) obtain js where js: "j' = JObj (zip (map fst out) js)"
    "json_seq (map (\<lambda>(k, v). fval_json other v) out) = Some js" by auto
  have "map_wf out" using out(1) by (auto simp: EncodeFieldMap.simps intro: build_map_wf)
  moreover have "length js = length out"
    using js(2) by (induction "map (\<lambda>(k, v). fval_json other v) out" arbitrary: out js) (auto split: option.splits)
  ultimately have "map_wf (zip (map fst out) js)" by (simp add: map_wf_def)
  with e gs fm out r(3,4) js(1) show ?thesis by (metis (no_types, lifting))
qed

subsection \<open>Properties\<close>

lemma decode_exact_kinds:
  assumes "y_alias y n = None" and "\<not> y_null y n"
  shows
  "decodeDataValue y (base_ft k_uint64) n = exact_int y k_uint64 0 (2 ^ 64 - 1) (\<lambda>i. GU64 (word_of_int i)) n"
  "decodeDataValue y (base_ft k_int64) n = exact_int y k_int64 (- (2 ^ 63)) (2 ^ 63 - 1) (\<lambda>i. GI64 (word_of_int i)) n"
  "decodeDataValue y (base_ft k_uint128) n = exact_int y k_uint128 0 (2 ^ 128 - 1) GBig n"
  "decodeDataValue y (base_ft k_int128) n = exact_int y k_int128 (- (2 ^ 127)) (2 ^ 127 - 1) GBig n"
  using assms
  by (simp_all add: decodeDataValue.simps base_ft_def maxUint128_def maxInt128_def minInt128_def)

lemma uint_of_in_range: "in_range 0 (2 ^ 64 - 1) i \<Longrightarrow> uint (word_of_int i :: 64 word) = i"
  by (simp add: in_range_def unsigned_of_int take_bit_int_eq_self)

lemma sint_of_in_range: "in_range (- (2 ^ 63)) (2 ^ 63 - 1) i \<Longrightarrow> sint (word_of_int i :: 64 word) = i"
  by (simp add: in_range_def signed_of_int signed_take_bit_int_eq_self)

text \<open>C36. A 64- or 128-bit integer goes from the case file to the wire without loss: when the case
  decodes, the value encoded is the decimal text of the very integer the file holds, and it is in
  the range of its kind.\<close>

theorem exact_integers_survive:
  assumes "b \<in> {k_uint64, k_int64, k_uint128, k_int128}"
    and "y_alias y n = None" and "\<not> y_null y n"
    and "decodeDataValue y (base_ft b) n = Inr v"
  shows "\<exists>i. y_bigint y n = Some i \<and> encodeValue env (base_ft b) v = Inr (GStr (itoa i)) \<and>
    wire_scalar b (JStr (itoa i))"
proof -
  note k = decode_exact_kinds [OF assms(2,3)]
  have "b = k_uint64 \<or> b = k_int64 \<or> b = k_uint128 \<or> b = k_int128" using assms(1) by simp
  then show ?thesis
  proof (elim disjE)
    assume b: "b = k_uint64"
    from exact_int_Inr [OF assms(4) [unfolded b k]] obtain i where i: "y_bigint y n = Some i"
      "in_range 0 (2 ^ 64 - 1) i" "v = GU64 (word_of_int i)" by blast
    show ?thesis unfolding b encodeValue_kinds wire_scalar_kinds i(3) fmt_v.simps uint_of_in_range [OF i(2)]
      using i(1) wire_decimal_itoa [OF i(2)] by blast
  next
    assume b: "b = k_int64"
    from exact_int_Inr [OF assms(4) [unfolded b k]] obtain i where i: "y_bigint y n = Some i"
      "in_range (- (2 ^ 63)) (2 ^ 63 - 1) i" "v = GI64 (word_of_int i)" by blast
    show ?thesis unfolding b encodeValue_kinds wire_scalar_kinds i(3) fmt_v.simps sint_of_in_range [OF i(2)]
      using i(1) wire_decimal_itoa [OF i(2)] by blast
  next
    assume b: "b = k_uint128"
    from exact_int_Inr [OF assms(4) [unfolded b k]] obtain i where i: "y_bigint y n = Some i"
      "in_range 0 (2 ^ 128 - 1) i" "v = GBig i" by blast
    show ?thesis unfolding b encodeValue_kinds wire_scalar_kinds i(3) fmt_v.simps
      using i(1) wire_decimal_itoa [OF i(2)] by blast
  next
    assume b: "b = k_int128"
    from exact_int_Inr [OF assms(4) [unfolded b k]] obtain i where i: "y_bigint y n = Some i"
      "in_range (- (2 ^ 127)) (2 ^ 127 - 1) i" "v = GBig i" by blast
    show ?thesis unfolding b encodeValue_kinds wire_scalar_kinds i(3) fmt_v.simps
      using i(1) wire_decimal_itoa [OF i(2)] by blast
  qed
qed

theorem exact_integers_survive_witness:
  "\<exists>i. y_bigint decimal_yaml ''-12'' = Some i \<and>
     encodeValue plain_env (base_ft k_int64) (GI64 (- 12)) = Inr (GStr (itoa i)) \<and>
     wire_scalar k_int64 (JStr (itoa i))"
proof (rule exact_integers_survive)
  have "read_int ''-12'' = Some (- 12)"
    by (simp add: read_int_def read_nat_def is_digit_def digit_val_def)
  then have "exact_int decimal_yaml k_int64 (- (2 ^ 63)) (2 ^ 63 - 1) (\<lambda>i. GI64 (word_of_int i)) ''-12'' =
      Inr (GI64 (- 12))"
    by (simp add: exact_int_def decodeExactInt_def decimal_yaml_def in_range_def)
  moreover have "y_alias decimal_yaml ''-12'' = None" "\<not> y_null decimal_yaml ''-12''"
    by (simp_all add: decimal_yaml_def)
  ultimately show "decodeDataValue decimal_yaml (base_ft k_int64) ''-12'' = Inr (GI64 (- 12))"
    using decode_exact_kinds(2) [of decimal_yaml "''-12''"] by (rule_tac trans)
qed (simp_all add: decimal_yaml_def)

end
