(* ===== verification/AppWire.thy ===== *)
theory AppWire
  imports Wire "HOL-Library.Sublist"
begin

section \<open>The reference worker's binary layout (examples/appdata/go/wire.go)\<close>

text \<open>
  The Go worker of the example suite is its \<open>--ref\<close> worker: the bytes its types marshal to are the layout
  every other language has to reproduce. A reader takes the bytes left and returns a value and what it
  left, or an error. Signed integers are words of their width, floats their bits. What a reader must
  do with the bytes of a value is \<open>reads\<close>: give it back whatever follows, and call every shorter input
  truncated; the locale \<open>wire_codec\<close> is that contract for a pair of writer and reader.
\<close>

datatype app_error =
    Truncated
  | UnknownName string
  | UnknownOrdinal nat
  | NoChannel "32 word"
  | UnknownTag nat
  | Unhandled

type_synonym 'a reader = "bytes \<Rightarrow> app_error + 'a \<times> bytes"

subsection \<open>Reading in sequence\<close>

definition seq :: "'a reader \<Rightarrow> ('a \<Rightarrow> 'b reader) \<Rightarrow> 'b reader" where
  "seq d k b = rbind (d b) (\<lambda>(x, b'). k x b')"

definition finish :: "'a \<Rightarrow> 'a reader" where
  "finish x b = Inr (x, b)"

text \<open>\<open>if len(b) < n { return errTruncated }\<close>, then the first \<open>n\<close> bytes.\<close>

definition read_block :: "nat \<Rightarrow> (bytes \<Rightarrow> 'a) \<Rightarrow> 'a reader" where
  "read_block n f b = (if length b < n then Inl Truncated else Inr (f (take n b), drop n b))"

text \<open>A loop of \<open>n\<close> reads.\<close>

fun read_n :: "'a reader \<Rightarrow> nat \<Rightarrow> 'a list reader" where
  "read_n d 0 = finish []"
| "read_n d (Suc n) = seq d (\<lambda>x. seq (read_n d n) (\<lambda>xs. finish (x # xs)))"

text \<open>A list of elements of width \<open>w\<close>, its length checked once.\<close>

definition read_fixed :: "nat \<Rightarrow> (bytes \<Rightarrow> 'a) \<Rightarrow> nat \<Rightarrow> 'a list reader" where
  "read_fixed w f n = read_block (n * w) (\<lambda>b. map (\<lambda>i. f (take w (drop (i * w) b))) [0..<n])"

subsection \<open>Numbers, strings, counts\<close>

definition put16 :: "16 word \<Rightarrow> bytes" where "put16 w = le_bytes 2 (unat w)"
definition put32 :: "32 word \<Rightarrow> bytes" where "put32 w = le_bytes 4 (unat w)"
definition put64 :: "64 word \<Rightarrow> bytes" where "put64 w = le_bytes 8 (unat w)"

text \<open>Reading the number that starts a block.\<close>

definition get16 :: "bytes \<Rightarrow> 16 word" where "get16 b = word_of_nat (le_num (take 2 b))"
definition get32 :: "bytes \<Rightarrow> 32 word" where "get32 b = word_of_nat (le_num (take 4 b))"
definition get64 :: "bytes \<Rightarrow> 64 word" where "get64 b = word_of_nat (le_num (take 8 b))"

definition put_bool :: "bool \<Rightarrow> bytes" where
  "put_bool x = (if x then [1] else [0])"

definition get_bool :: "bytes \<Rightarrow> bool" where
  "get_bool b \<longleftrightarrow> hd b \<noteq> 0"

definition str_bytes :: "string \<Rightarrow> bytes" where
  "str_bytes s = map (\<lambda>c. word_of_nat (of_char c)) s"

definition bytes_str :: "bytes \<Rightarrow> string" where
  "bytes_str b = map (\<lambda>x. char_of (unat x)) b"

definition appendCount :: "'a list \<Rightarrow> bytes" where
  "appendCount xs = put32 (word_of_nat (length xs))"

definition readCount :: "nat reader" where
  "readCount = read_block 4 le_num"

definition counted :: "(nat \<Rightarrow> 'a reader) \<Rightarrow> 'a reader" where
  "counted d = seq readCount d"

definition put_list :: "('a \<Rightarrow> bytes) \<Rightarrow> 'a list \<Rightarrow> bytes" where
  "put_list enc xs = appendCount xs @ concat (map enc xs)"

definition appendLenBytes :: "bytes \<Rightarrow> bytes" where
  "appendLenBytes v = put32 (word_of_nat (length v)) @ v"

definition readLenBytes :: "bytes reader" where
  "readLenBytes = counted (\<lambda>n. read_block n (\<lambda>b. b))"

definition appendLenStr :: "string \<Rightarrow> bytes" where
  "appendLenStr s = put32 (word_of_nat (length s)) @ str_bytes s"

definition readLenStr :: "string reader" where
  "readLenStr = counted (\<lambda>n. read_block n bytes_str)"

definition put_optional :: "('a \<Rightarrow> bytes) \<Rightarrow> 'a option \<Rightarrow> bytes" where
  "put_optional enc v = (case v of None \<Rightarrow> [0] | Some x \<Rightarrow> 1 # enc x)"

definition optional_after :: "'a reader \<Rightarrow> bool \<Rightarrow> 'a option reader" where
  "optional_after d present = (if present then seq d (\<lambda>x. finish (Some x)) else finish None)"

definition read_optional :: "'a reader \<Rightarrow> 'a option reader" where
  "read_optional d = seq (read_block 1 get_bool) (optional_after d)"

text \<open>An enum is the position of its name in the case file.\<close>

fun index_of :: "string \<Rightarrow> string list \<Rightarrow> nat option" where
  "index_of s [] = None"
| "index_of s (x # xs) = (if x = s then Some 0 else map_option Suc (index_of s xs))"

definition read_ordinal :: "string list \<Rightarrow> string reader" where
  "read_ordinal names b =
     (if length b < 1 then Inl Truncated
      else if length names \<le> unat (hd b) then Inl (UnknownOrdinal (unat (hd b)))
      else Inr (names ! unat (hd b), drop 1 b))"

text \<open>Two's complement in 16 bytes (examples/appdata/go/ledger.go); a nil number is written as 0.\<close>

definition appendInt128 :: "int option \<Rightarrow> bytes" where
  "appendInt128 n = le_bytes 16 (nat ((case n of None \<Rightarrow> 0 | Some i \<Rightarrow> i) mod 2 ^ 128))"

definition sign128 :: "nat \<Rightarrow> int" where
  "sign128 n = (if 2 ^ 127 \<le> n then int n - 2 ^ 128 else int n)"

definition readInt128 :: "int option reader" where
  "readInt128 = read_block 16 (\<lambda>b. Some (sign128 (le_num b)))"

text \<open>An entry of a map read in a loop; the last value of a key stays.\<close>

definition read_entries :: "'a reader \<Rightarrow> nat \<Rightarrow> 'a gomap reader" where
  "read_entries d n =
     seq (read_n (seq readLenStr (\<lambda>k. seq d (\<lambda>v. finish (k, v)))) n)
       (\<lambda>kvs. finish (fold (\<lambda>(k, v) m. AList.update k v m) kvs []))"

definition put_entries :: "('a \<Rightarrow> bytes) \<Rightarrow> string list \<Rightarrow> 'a gomap \<Rightarrow> bytes" where
  "put_entries enc keys m =
     put32 (word_of_nat (length keys)) @ concat (map (\<lambda>k. appendLenStr k @ enc (the (map_of m k))) keys)"

subsection \<open>What a reader must do\<close>

definition reads :: "'a reader \<Rightarrow> bytes \<Rightarrow> 'a \<Rightarrow> bool" where
  "reads d e x \<longleftrightarrow> (\<forall>r. d (e @ r) = Inr (x, r)) \<and> (\<forall>p. strict_prefix p e \<longrightarrow> d p = Inl Truncated)"

named_theorems readers

lemma reads_finish: "reads (finish x) [] x"
  by (simp add: reads_def finish_def)

lemma reads_seq [readers]:
  assumes "reads d e x" "reads (k x) e' y"
  shows "reads (seq d k) (e @ e') y"
proof -
  have "seq d k p = Inl Truncated" if "strict_prefix p (e @ e')" for p
  proof (cases "strict_prefix p e")
    case True
    then show ?thesis using assms by (simp add: reads_def seq_def)
  next
    case False
    obtain us where "e @ e' = p @ us" "us \<noteq> []"
      using \<open>strict_prefix p (e @ e')\<close> by (metis prefixE strict_prefix_def append_Nil2)
    then obtain p' where "p = e @ p'" "e' = p' @ us"
      using False by (auto simp: append_eq_append_conv2 strict_prefix_def)
    moreover from this \<open>us \<noteq> []\<close> have "strict_prefix p' e'" by (simp add: strict_prefix_def)
    ultimately show ?thesis using assms by (simp add: reads_def seq_def)
  qed
  then show ?thesis using assms by (simp add: reads_def seq_def)
qed

lemma reads_last: "reads d e x \<Longrightarrow> reads (seq d (\<lambda>x. finish (g x))) e (g x)"
  using reads_seq [of d e x "\<lambda>x. finish (g x)" "[]" "g x"] by (simp add: reads_finish)

lemma reads_block: "length e = n \<Longrightarrow> f e = x \<Longrightarrow> reads (read_block n f) e x"
  by (auto simp: reads_def read_block_def dest: prefix_length_less)

lemma reads_read_n:
  "(\<And>x. x \<in> set xs \<Longrightarrow> reads d (enc x) x) \<Longrightarrow> reads (read_n d (length xs)) (concat (map enc xs)) xs"
proof (induction xs)
  case (Cons x xs)
  then show ?case by (auto intro!: reads_seq reads_last)
qed (simp add: reads_finish)

lemma blocks_nth:
  assumes "\<And>x. x \<in> set xs \<Longrightarrow> length (enc x) = w" "i < length xs"
  shows "take w (drop (i * w) (concat (map enc xs))) = enc (xs ! i)"
  using assms
proof (induction xs arbitrary: i)
  case (Cons x xs)
  then show ?case by (cases i) (auto simp: drop_append)
qed simp

lemma reads_fixed:
  assumes "\<And>x. x \<in> set xs \<Longrightarrow> length (enc x) = w \<and> f (enc x) = x"
  shows "reads (read_fixed w f (length xs)) (concat (map enc xs)) xs"
  unfolding read_fixed_def
proof (rule reads_block)
  show "length (concat (map enc xs)) = length xs * w"
    using assms by (induction xs) auto
  show "map (\<lambda>i. f (take w (drop (i * w) (concat (map enc xs))))) [0..<length xs] = xs"
    using assms by (intro nth_equalityI) (auto simp: blocks_nth)
qed

lemma le_num_word: "2 ^ LENGTH('a) = (256 :: nat) ^ n \<Longrightarrow> word_of_nat (le_num (take n (le_bytes n (unat w)))) = w"
  for w :: "'a::len word"
proof -
  assume "2 ^ LENGTH('a) = (256 :: nat) ^ n"
  moreover have "unat w < 2 ^ LENGTH('a)" by (rule unsigned_less)
  ultimately have "unat w < 256 ^ n" by metis
  then show ?thesis by (simp add: le_num_bytes)
qed

lemma reads_num:
  "reads (read_block 2 get16) (put16 a) a" "reads (read_block 4 get32) (put32 b) b"
  "reads (read_block 8 get64) (put64 c) c"
  unfolding get16_def get32_def get64_def put16_def put32_def put64_def
  by (rule reads_block; (rule length_le_bytes | (rule le_num_word, simp)))+

definition fits :: "'a list \<Rightarrow> bool" where
  "fits xs \<longleftrightarrow> length xs < 2 ^ 32"

lemma reads_count: "fits xs \<Longrightarrow> reads readCount (appendCount xs) (length xs)"
  unfolding readCount_def appendCount_def
  by (rule reads_block) (simp_all add: put32_def fits_def unat_word_of_nat le_num_bytes)

lemma reads_counted:
  "fits xs \<Longrightarrow> reads (d (length xs)) e y \<Longrightarrow> reads (counted d) (appendCount xs @ e) y"
  unfolding counted_def by (rule reads_seq [OF reads_count])

subsection \<open>Writers and readers that belong together\<close>

locale wire_codec =
  fixes enc :: "'a \<Rightarrow> bytes" and dec :: "'a reader" and ok :: "'a \<Rightarrow> bool"
  assumes reads_enc: "ok x \<Longrightarrow> reads dec (enc x) x"
begin

lemma decoded: "ok x \<Longrightarrow> dec (enc x @ r) = Inr (x, r)"
  using reads_enc by (simp add: reads_def)

lemma prefix_free: "ok x \<Longrightarrow> ok y \<Longrightarrow> enc x @ r = enc y @ s \<Longrightarrow> x = y \<and> r = s"
  by (metis decoded Inr_inject prod.inject)

lemma reads_all: "list_all ok xs \<Longrightarrow> reads (read_n dec (length xs)) (concat (map enc xs)) xs"
  by (rule reads_read_n) (auto simp: list_all_iff reads_enc)

lemma reads_list: "list_all ok xs \<Longrightarrow> fits xs \<Longrightarrow> reads (counted (read_n dec)) (put_list enc xs) xs"
  unfolding put_list_def by (intro reads_counted reads_all)

lemma reads_optional_after:
  "pred_option ok v \<Longrightarrow> reads (optional_after dec (v \<noteq> None)) (case v of None \<Rightarrow> [] | Some x \<Rightarrow> enc x) v"
  by (cases v) (simp_all add: optional_after_def reads_finish reads_last reads_enc)

lemma reads_option: "pred_option ok v \<Longrightarrow> reads (read_optional dec) (put_optional enc v) v"
proof (cases v)
  case None
  then show ?thesis
    unfolding read_optional_def put_optional_def
    using reads_seq [of "read_block 1 get_bool" "[0]" False "optional_after dec" "[]" None]
    by (simp add: reads_block get_bool_def optional_after_def reads_finish)
next
  case (Some x)
  moreover assume "pred_option ok v"
  ultimately show ?thesis
    unfolding read_optional_def put_optional_def
    using reads_seq [of "read_block 1 get_bool" "[1]" True "optional_after dec" "enc x" "Some x"]
    by (simp add: reads_block get_bool_def optional_after_def reads_last reads_enc)
qed

end

lemma bytes_str_bytes [simp]: "bytes_str (str_bytes s) = s"
  by (induction s) (simp_all add: bytes_str_def str_bytes_def unsigned_of_nat take_bit_eq_mod)

lemma length_str_bytes [simp]: "length (str_bytes s) = length s"
  by (simp add: str_bytes_def)

interpretation len_bytes: wire_codec appendLenBytes readLenBytes fits
  by unfold_locales (auto simp: appendLenBytes_def readLenBytes_def appendCount_def [symmetric]
      intro!: reads_counted reads_block)

interpretation len_str: wire_codec appendLenStr readLenStr fits
  by unfold_locales (auto simp: appendLenStr_def readLenStr_def appendCount_def [symmetric]
      intro!: reads_counted reads_block)

interpretation word16: wire_codec put16 "read_block 2 get16" "\<lambda>_. True"
  by unfold_locales (rule reads_num)

interpretation word32: wire_codec put32 "read_block 4 get32" "\<lambda>_. True"
  by unfold_locales (rule reads_num)

interpretation word64: wire_codec put64 "read_block 8 get64" "\<lambda>_. True"
  by unfold_locales (rule reads_num)

text \<open>128-bit integers: the value of a field that is set and in range.\<close>

definition int128_ok :: "int option \<Rightarrow> bool" where
  "int128_ok v \<longleftrightarrow> (case v of None \<Rightarrow> False | Some i \<Rightarrow> - (2 ^ 127) \<le> i \<and> i < 2 ^ 127)"

lemma sign128_mod: "- (2 ^ 127) \<le> i \<Longrightarrow> i < 2 ^ 127 \<Longrightarrow> sign128 (nat (i mod 2 ^ 128)) = i"
proof -
  assume i: "- (2 ^ 127) \<le> i" "i < 2 ^ 127"
  have "i mod 2 ^ 128 = (if i < 0 then i + 2 ^ 128 else i)"
  proof (cases "i < 0")
    case True
    have "i mod 2 ^ 128 = (i + 2 ^ 128) mod 2 ^ 128" by simp
    also have "\<dots> = i + 2 ^ 128" using i True by (intro mod_pos_pos_trivial) auto
    finally show ?thesis using True by simp
  qed (use i in auto)
  then show ?thesis using i by (auto simp: sign128_def nat_le_iff le_nat_iff)
qed

interpretation int128: wire_codec appendInt128 readInt128 int128_ok
proof
  fix v assume "int128_ok v"
  then obtain i where i: "v = Some i" "- (2 ^ 127) \<le> i" "i < 2 ^ 127" by (auto simp: int128_ok_def split: option.splits)
  have "nat (i mod 2 ^ 128) < 256 ^ 16" by (simp add: nat_less_iff)
  moreover have "sign128 (nat (i mod 2 ^ 128)) = i" by (rule sign128_mod [OF i(2,3)])
  ultimately show "reads readInt128 (appendInt128 v) v"
    unfolding readInt128_def using i
    by (intro reads_block) (simp_all add: appendInt128_def le_num_bytes)
qed

text \<open>The entries of a map, written in any order of its keys.\<close>

lemma reads_entries:
  assumes "\<And>k. k \<in> set keys \<Longrightarrow> fits k \<and> reads d (enc (the (map_of m k))) (the (map_of m k))"
    and "fits keys" and "distinct keys"
  shows "reads (counted (read_entries d)) (put_entries enc keys m) (map (\<lambda>k. (k, the (map_of m k))) keys)"
proof -
  let ?kvs = "map (\<lambda>k. (k, the (map_of m k))) keys"
  have "reads (read_n (seq readLenStr (\<lambda>k. seq d (\<lambda>v. finish (k, v)))) (length ?kvs))
      (concat (map (\<lambda>(k, v). appendLenStr k @ enc v) ?kvs)) ?kvs"
    by (rule reads_read_n) (use assms(1) len_str.reads_enc in \<open>auto intro!: reads_seq reads_last\<close>)
  then have "reads (read_entries d (length keys)) (concat (map (\<lambda>k. appendLenStr k @ enc (the (map_of m k))) keys))
      (fold (\<lambda>(k, v) m. AList.update k v m) ?kvs [])"
    unfolding read_entries_def by (intro reads_last) (simp add: comp_def)
  moreover have "fold (\<lambda>(k, v) m. AList.update k v m) ?kvs [] = ?kvs"
    using assms(3) fold_update_fresh [of "[]" ?kvs] by (simp add: comp_def)
  ultimately show ?thesis
    using reads_counted [OF assms(2)] by (simp add: put_entries_def appendCount_def)
qed

subsection \<open>Pieces of a message\<close>

lemma reads_last': "reads d e x \<Longrightarrow> g x = y \<Longrightarrow> reads (seq d (\<lambda>x. finish (g x))) e y"
  by (drule reads_last [where g = g]) simp

lemma reads_list_fixed:
  "fits xs \<Longrightarrow> (\<And>x. length (enc x) = w \<and> f (enc x) = x) \<Longrightarrow> reads (counted (read_fixed w f)) (put_list enc xs) xs"
  unfolding put_list_def by (intro reads_counted reads_fixed) auto

lemma word_pieces:
  "length (put16 a) = 2 \<and> get16 (put16 a) = a" "length (put32 b) = 4 \<and> get32 (put32 b) = b"
  "length (put64 c) = 8 \<and> get64 (put64 c) = c" "length (put_bool x) = 1 \<and> get_bool (put_bool x) = x"
  "length [y] = 1 \<and> hd [y] = (y :: byte)"
proof -
  show "length (put16 a) = 2 \<and> get16 (put16 a) = a" unfolding put16_def get16_def
    by (intro conjI length_le_bytes le_num_word) simp
  show "length (put32 b) = 4 \<and> get32 (put32 b) = b" unfolding put32_def get32_def
    by (intro conjI length_le_bytes le_num_word) simp
  show "length (put64 c) = 8 \<and> get64 (put64 c) = c" unfolding put64_def get64_def
    by (intro conjI length_le_bytes le_num_word) simp
qed (simp_all add: put_bool_def get_bool_def)

lemmas reads_lists =
  reads_list_fixed [OF _ word_pieces(1)] reads_list_fixed [OF _ word_pieces(2)] reads_list_fixed [OF _ word_pieces(3)]
  reads_list_fixed [OF _ word_pieces(4)] reads_list_fixed [OF _ word_pieces(5)]

lemma index_of_nth: "index_of s xs = Some i \<Longrightarrow> i < length xs \<and> xs ! i = s"
  by (induction xs arbitrary: i) (auto split: if_splits)

lemma reads_ordinal:
  assumes "index_of s names = Some i" "length names \<le> 256"
  shows "reads (read_ordinal names) [word_of_nat i] s"
proof -
  have "i < length names" "names ! i = s" using index_of_nth [OF assms(1)] by auto
  moreover from this assms(2) have "unat (word_of_nat i :: byte) = i" by (intro unat_word_of_nat) simp
  ultimately show ?thesis by (auto simp: reads_def read_ordinal_def strict_prefix_def prefix_Cons)
qed

lemma put_optional_split:
  "put_optional enc v = put_bool (v \<noteq> None) @ (case v of None \<Rightarrow> [] | Some x \<Rightarrow> enc x)"
  by (cases v) (simp_all add: put_optional_def put_bool_def)

end
