(* ===== verification/AppSignals.thy ===== *)
theory AppSignals
  imports AppWire
begin

section \<open>Signal captures and ledger entries (examples/appdata/go/signals.go, ledger.go)\<close>

text \<open>
  Two records of the reference worker: \<open>SignalCapture\<close>, which has a list of every scalar type, and
  \<open>LedgerEntry\<close> with its 128-bit amounts. A successful \<open>UnmarshalBinary\<close> sets every field, so it is modelled
  as a function of the bytes; bytes after the record are ignored, as in the code.
\<close>

subsection \<open>Signal captures\<close>

record signal_capture =
  CaptureID :: "64 word"
  Flags :: "bool list"
  RawFrame :: bytes
  PortNumbers :: "16 word list"
  SampleCounts :: "32 word list"
  ByteTotals :: "64 word list"
  TrimOffsets :: bytes
  DriftDeltas :: "16 word list"
  TemperaturesC :: "32 word list"
  TimestampsNs :: "64 word list"
  Counters :: "int option list"
  Balances :: "int option list"
  Gains :: "f32 list"
  Voltages :: "f64 list"
  ChannelNames :: "string list"
  Payloads :: "bytes list"
  Checksum :: bytes
  Window :: "16 word list"
  DroppedFrames :: "32 word option"
  Mode :: string

definition signalModes :: "string list" where
  "signalModes = [''idle'', ''active'', ''fault'', ''calibrating'']"

definition signals_MarshalBinary :: "signal_capture \<Rightarrow> app_error + bytes" where
  "signals_MarshalBinary s =
     (case index_of (Mode s) signalModes of
        None \<Rightarrow> Inl (UnknownName (Mode s))
      | Some i \<Rightarrow> Inr (
          put64 (CaptureID s) @
          put_list put_bool (Flags s) @
          appendLenBytes (RawFrame s) @
          put_list put16 (PortNumbers s) @
          put_list put32 (SampleCounts s) @
          put_list put64 (ByteTotals s) @
          put_list (\<lambda>v. [v]) (TrimOffsets s) @
          put_list put16 (DriftDeltas s) @
          put_list put32 (TemperaturesC s) @
          put_list put64 (TimestampsNs s) @
          put_list appendInt128 (Counters s) @
          put_list appendInt128 (Balances s) @
          put_list put32 (Gains s) @
          put_list put64 (Voltages s) @
          put_list appendLenStr (ChannelNames s) @
          put_list appendLenBytes (Payloads s) @
          (Checksum s @ concat (map put16 (Window s))) @
          put_optional put32 (DroppedFrames s) @
          [word_of_nat i]))"

text \<open>\<open>normalizeCounters\<close>: a counter is unsigned.\<close>

definition unsigned128 :: "int option \<Rightarrow> int option" where
  "unsigned128 v = (case v of Some i \<Rightarrow> Some (if i < 0 then i + 2 ^ 128 else i) | None \<Rightarrow> None)"

definition normalizeCounters :: "int option list \<Rightarrow> int option list" where
  "normalizeCounters vs = map unsigned128 vs"

definition read_signals :: "signal_capture reader" where
  "read_signals =
     seq (read_block 8 get64) (\<lambda>i.
     seq (counted (read_fixed 1 get_bool)) (\<lambda>flags.
     seq readLenBytes (\<lambda>raw.
     seq (counted (read_fixed 2 get16)) (\<lambda>ports.
     seq (counted (read_fixed 4 get32)) (\<lambda>samples.
     seq (counted (read_fixed 8 get64)) (\<lambda>totals.
     seq (counted (read_fixed 1 hd)) (\<lambda>trims.
     seq (counted (read_fixed 2 get16)) (\<lambda>drifts.
     seq (counted (read_fixed 4 get32)) (\<lambda>temps.
     seq (counted (read_fixed 8 get64)) (\<lambda>times.
     seq (counted (read_n readInt128)) (\<lambda>counters.
     seq (counted (read_n readInt128)) (\<lambda>balances.
     seq (counted (read_fixed 4 get32)) (\<lambda>gains.
     seq (counted (read_fixed 8 get64)) (\<lambda>volts.
     seq (counted (read_n readLenStr)) (\<lambda>names.
     seq (counted (read_n readLenBytes)) (\<lambda>payloads.
     seq (read_block 10 (\<lambda>b. (take 4 b, map (\<lambda>i. get16 (drop (i * 2) (drop 4 b))) [0..<3]))) (\<lambda>(sum, window).
     seq (read_optional (read_block 4 get32)) (\<lambda>dropped.
     seq (read_ordinal signalModes) (\<lambda>mode.
     finish
       \<lparr>CaptureID = i, Flags = flags, RawFrame = raw, PortNumbers = ports, SampleCounts = samples,
        ByteTotals = totals, TrimOffsets = trims, DriftDeltas = drifts, TemperaturesC = temps,
        TimestampsNs = times, Counters = normalizeCounters counters, Balances = balances, Gains = gains,
        Voltages = volts, ChannelNames = names, Payloads = payloads, Checksum = sum, Window = window,
        DroppedFrames = dropped, Mode = mode\<rparr>)))))))))))))))))))"

definition signals_UnmarshalBinary :: "bytes \<Rightarrow> app_error + signal_capture" where
  "signals_UnmarshalBinary b = map_res fst (read_signals b)"

text \<open>The captures Go can hold and the layout can carry: arrays of their length, lists and strings whose
  length is a \<open>uint32\<close>, numbers in the range of their schema type, a mode of the enum.\<close>

definition uint128_ok :: "int option \<Rightarrow> bool" where
  "uint128_ok v \<longleftrightarrow> (case v of None \<Rightarrow> False | Some i \<Rightarrow> 0 \<le> i \<and> i < 2 ^ 128)"

definition signals_ok :: "signal_capture \<Rightarrow> bool" where
  "signals_ok s \<longleftrightarrow>
     fits (Flags s) \<and> fits (RawFrame s) \<and> fits (PortNumbers s) \<and> fits (SampleCounts s) \<and> fits (ByteTotals s) \<and>
     fits (TrimOffsets s) \<and> fits (DriftDeltas s) \<and> fits (TemperaturesC s) \<and> fits (TimestampsNs s) \<and>
     fits (Counters s) \<and> list_all uint128_ok (Counters s) \<and> fits (Balances s) \<and> list_all int128_ok (Balances s) \<and>
     fits (Gains s) \<and> fits (Voltages s) \<and> fits (ChannelNames s) \<and> list_all fits (ChannelNames s) \<and>
     fits (Payloads s) \<and> list_all fits (Payloads s) \<and> length (Checksum s) = 4 \<and> length (Window s) = 3 \<and>
     Mode s \<in> set signalModes"

lemma uint128_roundtrip:
  assumes "uint128_ok v"
  shows "reads readInt128 (appendInt128 v) (Some (sign128 (nat (the v))))"
    and "unsigned128 (Some (sign128 (nat (the v)))) = v"
proof -
  obtain i where i: "v = Some i" "0 \<le> i" "i < 2 ^ 128" using assms by (auto simp: uint128_ok_def split: option.splits)
  have "nat i < 256 ^ 16" using i by (simp add: nat_less_iff)
  then show "reads readInt128 (appendInt128 v) (Some (sign128 (nat (the v))))"
    unfolding readInt128_def using i by (intro reads_block) (simp_all add: appendInt128_def le_num_bytes)
  show "unsigned128 (Some (sign128 (nat (the v)))) = v"
    using i by (auto simp: unsigned128_def sign128_def le_nat_iff)
qed

lemma reads_counters:
  assumes "list_all uint128_ok vs" "fits vs"
  shows "\<exists>ws. reads (counted (read_n readInt128)) (put_list appendInt128 vs) ws \<and> normalizeCounters ws = vs"
proof -
  let ?f = "\<lambda>v. Some (sign128 (nat (the v)))"
  have "reads (read_n readInt128 (length vs)) (concat (map appendInt128 vs)) (map ?f vs)"
    using assms(1)
  proof (induction vs)
    case (Cons v vs)
    then show ?case by (auto intro!: reads_seq reads_last uint128_roundtrip)
  qed (simp add: reads_finish)
  moreover have "map unsigned128 (map ?f vs) = vs"
    using assms(1) by (induction vs) (auto simp: uint128_roundtrip(2))
  ultimately show ?thesis
    using assms(2) by (auto simp: put_list_def normalizeCounters_def intro!: exI reads_counted)
qed

lemma window_block:
  assumes "length c = 4" "length w = 3"
  shows "reads (read_block 10 (\<lambda>b. (take 4 b, map (\<lambda>i. get16 (drop (i * 2) (drop 4 b))) [0..<3])))
    (c @ concat (map put16 w)) (c, w)"
proof (rule reads_block)
  obtain x y z where w: "w = [x, y, z]" using assms(2) by (auto simp: numeral_3_eq_3 length_Suc_conv)
  have l: "length (put16 v) = 2" for v using word_pieces(1) [of v] by simp
  have g: "get16 (put16 v @ r) = v" for v r using word_pieces(1) [of v] l [of v] by (simp add: get16_def)
  show "length (c @ concat (map put16 w)) = 10" using assms(1) w l by simp
  show "(\<lambda>b. (take 4 b, map (\<lambda>i. get16 (drop (i * 2) (drop 4 b))) [0..<3])) (c @ concat (map put16 w)) = (c, w)"
    using assms(1) g [of z "[]"] by (simp add: w upt_conv_Cons g l)
qed

lemma signals_pieces:
  assumes "signals_ok s" "index_of (Mode s) signalModes = Some i"
  shows "\<exists>e. signals_MarshalBinary s = Inr e \<and> reads read_signals e s"
proof -
  note ok = assms(1) [unfolded signals_ok_def]
  obtain ws where ws: "reads (counted (read_n readInt128)) (put_list appendInt128 (Counters s)) ws"
    "normalizeCounters ws = Counters s" using reads_counters [of "Counters s"] ok by auto
  have lists: "reads (counted (read_n readInt128)) (put_list appendInt128 (Balances s)) (Balances s)"
    "reads (counted (read_n readLenStr)) (put_list appendLenStr (ChannelNames s)) (ChannelNames s)"
    "reads (counted (read_n readLenBytes)) (put_list appendLenBytes (Payloads s)) (Payloads s)"
    using ok int128.reads_list len_str.reads_list len_bytes.reads_list by blast+
  have opt: "reads (read_optional (read_block 4 get32)) (put_optional put32 (DroppedFrames s)) (DroppedFrames s)"
    by (rule word32.reads_option) (simp add: option.pred_True)
  have raw: "reads readLenBytes (appendLenBytes (RawFrame s)) (RawFrame s)" using ok len_bytes.reads_enc by blast
  have win: "reads (read_block 10 (\<lambda>b. (take 4 b, map (\<lambda>i. get16 (drop (i * 2) (drop 4 b))) [0..<3])))
      (Checksum s @ concat (map put16 (Window s))) (Checksum s, Window s)"
    using ok window_block by blast
  have mode: "reads (read_ordinal signalModes) [word_of_nat i] (Mode s)"
    by (rule reads_ordinal [OF assms(2)]) (simp add: signalModes_def)
  have fixed: "reads (counted (read_fixed 1 get_bool)) (put_list put_bool (Flags s)) (Flags s)"
    "reads (counted (read_fixed 2 get16)) (put_list put16 (PortNumbers s)) (PortNumbers s)"
    "reads (counted (read_fixed 4 get32)) (put_list put32 (SampleCounts s)) (SampleCounts s)"
    "reads (counted (read_fixed 8 get64)) (put_list put64 (ByteTotals s)) (ByteTotals s)"
    "reads (counted (read_fixed 1 hd)) (put_list (\<lambda>v. [v]) (TrimOffsets s)) (TrimOffsets s)"
    "reads (counted (read_fixed 2 get16)) (put_list put16 (DriftDeltas s)) (DriftDeltas s)"
    "reads (counted (read_fixed 4 get32)) (put_list put32 (TemperaturesC s)) (TemperaturesC s)"
    "reads (counted (read_fixed 8 get64)) (put_list put64 (TimestampsNs s)) (TimestampsNs s)"
    "reads (counted (read_fixed 4 get32)) (put_list put32 (Gains s)) (Gains s)"
    "reads (counted (read_fixed 8 get64)) (put_list put64 (Voltages s)) (Voltages s)"
    by (rule reads_lists, simp add: ok)+
  have "reads read_signals (put64 (CaptureID s) @
      put_list put_bool (Flags s) @ appendLenBytes (RawFrame s) @ put_list put16 (PortNumbers s) @
      put_list put32 (SampleCounts s) @ put_list put64 (ByteTotals s) @ put_list (\<lambda>v. [v]) (TrimOffsets s) @
      put_list put16 (DriftDeltas s) @ put_list put32 (TemperaturesC s) @ put_list put64 (TimestampsNs s) @
      put_list appendInt128 (Counters s) @ put_list appendInt128 (Balances s) @ put_list put32 (Gains s) @
      put_list put64 (Voltages s) @ put_list appendLenStr (ChannelNames s) @ put_list appendLenBytes (Payloads s) @
      (Checksum s @ concat (map put16 (Window s))) @ put_optional put32 (DroppedFrames s) @ [word_of_nat i]) s"
    unfolding read_signals_def
    by ((rule reads_seq, rule reads_num fixed raw lists ws(1) win opt, (simp only: prod.case)?)+,
        rule reads_last' [OF mode], simp add: ws(2))
  then show ?thesis
    by (simp add: signals_MarshalBinary_def assms(2))
qed

text \<open>A signal capture survives its bytes: every capture the layout can
  carry marshals; unmarshalling its bytes, with whatever follows them, gives the capture back with every
  one of its twenty fields; and every shorter prefix is refused as truncated.\<close>

theorem signals_roundtrip:
  assumes "signals_ok s"
  shows "\<exists>e. signals_MarshalBinary s = Inr e \<and>
    (\<forall>rest. signals_UnmarshalBinary (e @ rest) = Inr s) \<and>
    (\<forall>p. strict_prefix p e \<longrightarrow> signals_UnmarshalBinary p = Inl Truncated)"
proof -
  obtain i where "index_of (Mode s) signalModes = Some i"
    using assms by (auto simp: signals_ok_def signalModes_def)
  from signals_pieces [OF assms this] show ?thesis
    by (auto simp: signals_UnmarshalBinary_def reads_def)
qed

definition example_capture :: signal_capture where
  "example_capture =
     \<lparr>CaptureID = 7, Flags = [True, False], RawFrame = [255], PortNumbers = [8080], SampleCounts = [], ByteTotals = [1],
      TrimOffsets = [254], DriftDeltas = [-3], TemperaturesC = [-40], TimestampsNs = [-1],
      Counters = [Some (2 ^ 127 + 5)], Balances = [Some (- (2 ^ 127))], Gains = [1069547520], Voltages = [],
      ChannelNames = [''a'', ''''], Payloads = [[1, 2], []], Checksum = [1, 2, 3, 4], Window = [1, 2, 3],
      DroppedFrames = Some 9, Mode = ''fault''\<rparr>"

lemma signals_roundtrip_witness:
  "\<exists>e. signals_MarshalBinary example_capture = Inr e \<and>
    (\<forall>rest. signals_UnmarshalBinary (e @ rest) = Inr example_capture) \<and>
    (\<forall>p. strict_prefix p e \<longrightarrow> signals_UnmarshalBinary p = Inl Truncated)"
  by (rule signals_roundtrip)
    (simp add: example_capture_def signals_ok_def fits_def uint128_ok_def int128_ok_def signalModes_def)

subsection \<open>Ledger entries\<close>

record ledger_entry =
  EntryID :: "64 word"
  BlockNumber :: "64 word"
  BlockTime :: "64 word"
  TxHash :: bytes
  Account :: string
  Asset :: string
  AmountBaseUnits :: "int option"
  BalanceAfter :: "int option"
  Confirmed :: bool
  Memo :: "string option"

definition ledger_MarshalBinary :: "ledger_entry \<Rightarrow> bytes" where
  "ledger_MarshalBinary l =
     put64 (EntryID l) @ put64 (BlockNumber l) @ put64 (BlockTime l) @
     appendLenBytes (TxHash l) @
     appendLenStr (Account l) @
     appendLenStr (Asset l) @
     appendInt128 (AmountBaseUnits l) @
     appendInt128 (BalanceAfter l) @
     put_bool (Confirmed l) @
     put_optional appendLenStr (Memo l)"

definition read_ledger :: "ledger_entry reader" where
  "read_ledger =
     seq (read_block 24 (\<lambda>b. (get64 b, get64 (drop 8 b), get64 (drop 16 b)))) (\<lambda>(i, block, time).
     seq readLenBytes (\<lambda>hash.
     seq readLenStr (\<lambda>account.
     seq readLenStr (\<lambda>asset.
     seq readInt128 (\<lambda>amount.
     seq readInt128 (\<lambda>balance.
     seq (read_block 2 (\<lambda>b. (get_bool b, get_bool (drop 1 b)))) (\<lambda>(confirmed, hasMemo).
     seq (optional_after readLenStr hasMemo) (\<lambda>memo.
     finish
       \<lparr>EntryID = i, BlockNumber = block, BlockTime = time, TxHash = hash, Account = account, Asset = asset,
        AmountBaseUnits = amount, BalanceAfter = balance, Confirmed = confirmed, Memo = memo\<rparr>))))))))"

definition ledger_UnmarshalBinary :: "bytes \<Rightarrow> app_error + ledger_entry" where
  "ledger_UnmarshalBinary b = map_res fst (read_ledger b)"

definition ledger_ok :: "ledger_entry \<Rightarrow> bool" where
  "ledger_ok l \<longleftrightarrow> fits (TxHash l) \<and> fits (Account l) \<and> fits (Asset l) \<and> int128_ok (AmountBaseUnits l) \<and>
     int128_ok (BalanceAfter l) \<and> pred_option fits (Memo l)"

lemma get64_append: "get64 (put64 v @ r) = v"
  using word_pieces(3) [of v] by (simp add: get64_def put64_def)

lemma three_numbers:
  "reads (read_block 24 (\<lambda>b. (get64 b, get64 (drop 8 b), get64 (drop 16 b)))) (put64 x @ put64 y @ put64 z) (x, y, z)"
proof (rule reads_block)
  have l: "length (put64 v) = 8" for v by (simp add: put64_def)
  then show "length (put64 x @ put64 y @ put64 z) = 24" by simp
  show "(\<lambda>b. (get64 b, get64 (drop 8 b), get64 (drop 16 b))) (put64 x @ put64 y @ put64 z) = (x, y, z)"
    using get64_append [of z "[]"] by (simp add: l get64_append)
qed

lemma two_bools: "reads (read_block 2 (\<lambda>b. (get_bool b, get_bool (drop 1 b)))) (put_bool x @ put_bool y) (x, y)"
  by (rule reads_block) (simp_all add: put_bool_def get_bool_def)

interpretation ledger: wire_codec ledger_MarshalBinary read_ledger ledger_ok
proof
  fix l assume ok: "ledger_ok l"
  have opt: "reads (optional_after readLenStr (Memo l \<noteq> None)) (case Memo l of None \<Rightarrow> [] | Some x \<Rightarrow> appendLenStr x) (Memo l)"
    using ok by (intro len_str.reads_optional_after) (simp add: ledger_ok_def)
  have pieces: "reads readLenBytes (appendLenBytes (TxHash l)) (TxHash l)"
    "reads readLenStr (appendLenStr (Account l)) (Account l)" "reads readLenStr (appendLenStr (Asset l)) (Asset l)"
    "reads readInt128 (appendInt128 (AmountBaseUnits l)) (AmountBaseUnits l)"
    "reads readInt128 (appendInt128 (BalanceAfter l)) (BalanceAfter l)"
    using ok len_bytes.reads_enc len_str.reads_enc int128.reads_enc by (simp_all add: ledger_ok_def)
  have "reads read_ledger ((put64 (EntryID l) @ put64 (BlockNumber l) @ put64 (BlockTime l)) @
      appendLenBytes (TxHash l) @ appendLenStr (Account l) @ appendLenStr (Asset l) @ appendInt128 (AmountBaseUnits l) @
      appendInt128 (BalanceAfter l) @ (put_bool (Confirmed l) @ put_bool (Memo l \<noteq> None)) @
      (case Memo l of None \<Rightarrow> [] | Some x \<Rightarrow> appendLenStr x)) l"
    unfolding read_ledger_def
    by ((rule reads_seq, rule three_numbers two_bools pieces, (simp only: prod.case)?)+,
        rule reads_last' [OF opt], simp)
  then show "reads read_ledger (ledger_MarshalBinary l) l"
    by (simp add: ledger_MarshalBinary_def put_optional_split)
qed

text \<open>A ledger entry survives its bytes with its 128-bit amounts, negative ones included: unmarshalling
  what was marshalled gives the entry back, and every shorter prefix is refused as truncated.\<close>

theorem ledger_roundtrip:
  assumes "ledger_ok l"
  shows "ledger_UnmarshalBinary (ledger_MarshalBinary l @ rest) = Inr l \<and>
    (strict_prefix p (ledger_MarshalBinary l) \<longrightarrow> ledger_UnmarshalBinary p = Inl Truncated)"
  using ledger.reads_enc [OF assms] by (simp add: ledger_UnmarshalBinary_def reads_def)

lemma ledger_roundtrip_witness:
  "\<exists>l. BalanceAfter l = Some (- (2 ^ 127)) \<and> ledger_UnmarshalBinary (ledger_MarshalBinary l @ [1]) = Inr l \<and>
    (strict_prefix [] (ledger_MarshalBinary l) \<longrightarrow> ledger_UnmarshalBinary [] = Inl Truncated)"
proof -
  let ?l = "\<lparr>EntryID = 1, BlockNumber = 2, BlockTime = -3, TxHash = [0], Account = ''acc'', Asset = ''eur'',
    AmountBaseUnits = Some (-5), BalanceAfter = Some (- (2 ^ 127)), Confirmed = True, Memo = Some ''m''\<rparr>"
  have "ledger_ok ?l" by (simp add: ledger_ok_def fits_def int128_ok_def)
  from ledger_roundtrip [OF this, of "[1]" "[]"] show ?thesis by (intro exI [of _ ?l]) simp
qed

end
