(* ===== verification/AppRecords.thy ===== *)
theory AppRecords
  imports AppSignals "HOL-Library.Multiset"
begin

section \<open>Customers, orders and telemetry (examples/appdata/go/customer.go, order.go, telemetry.go)\<close>

text \<open>
  The three records with maps. Go gives the keys of a map in a different order at each run, and the worker
  writes them in that order on purpose; \<open>ord\<close> is that order, for each map of the record by its name. What
  is read back is the same record with its maps in the order written, the same map to Go.
\<close>

type_synonym key_order = "string \<Rightarrow> string list \<Rightarrow> string list"

definition permutes_keys :: "key_order \<Rightarrow> bool" where
  "permutes_keys ord \<longleftrightarrow> (\<forall>n ks. mset (ord n ks) = mset ks)"

definition mapKeys :: "key_order \<Rightarrow> string \<Rightarrow> 'a gomap \<Rightarrow> string list" where
  "mapKeys ord n m = ord n (map fst m)"

definition put_map :: "key_order \<Rightarrow> string \<Rightarrow> ('a \<Rightarrow> bytes) \<Rightarrow> 'a gomap \<Rightarrow> bytes" where
  "put_map ord n enc m = put_entries enc (mapKeys ord n m) m"

definition reordered :: "key_order \<Rightarrow> string \<Rightarrow> 'a gomap \<Rightarrow> 'a gomap" where
  "reordered ord n m = map (\<lambda>k. (k, the (map_of m k))) (mapKeys ord n m)"

definition map_ok :: "('a \<Rightarrow> bool) \<Rightarrow> 'a gomap \<Rightarrow> bool" where
  "map_ok ok m \<longleftrightarrow> map_wf m \<and> fits m \<and> list_all (\<lambda>(k, v). fits k \<and> ok v) m"

lemma mapKeys_set:
  assumes "permutes_keys ord"
  shows "set (mapKeys ord n m) = fst ` set m" "length (mapKeys ord n m) = length m"
    and "map_wf m \<Longrightarrow> distinct (mapKeys ord n m)"
proof -
  have e: "mset (mapKeys ord n m) = mset (map fst m)" using assms by (simp add: permutes_keys_def mapKeys_def)
  from mset_eq_setD [OF e] show "set (mapKeys ord n m) = fst ` set m" by simp
  from mset_eq_length [OF e] show "length (mapKeys ord n m) = length m" by simp
  show "map_wf m \<Longrightarrow> distinct (mapKeys ord n m)"
    using mset_eq_imp_distinct_iff [OF e] by (simp add: map_wf_def)
qed

lemma reordered_same:
  assumes "permutes_keys ord" "map_wf m"
  shows "map_of (reordered ord n m) = map_of m"
proof
  fix k
  show "map_of (reordered ord n m) k = map_of m k"
  proof (cases "k \<in> fst ` set m")
    case True
    then obtain v where "map_of m k = Some v" by (metis map_of_eq_None_iff option.exhaust)
    then show ?thesis using True mapKeys_set(1) [OF assms(1), where n = n and m = m]
      by (simp add: reordered_def map_of_map_restrict restrict_map_def)
  next
    case False
    then have "map_of m k = None" by (simp add: map_of_eq_None_iff)
    then show ?thesis using False mapKeys_set(1) [OF assms(1), where n = n and m = m]
      by (simp add: reordered_def map_of_map_restrict restrict_map_def)
  qed
qed

lemma reads_map:
  assumes "permutes_keys ord" "map_ok ok m" "\<And>v. ok v \<Longrightarrow> reads d (enc v) v"
  shows "reads (counted (read_entries d)) (put_map ord n enc m) (reordered ord n m)"
  unfolding put_map_def reordered_def
proof (rule reads_entries)
  note keys = mapKeys_set [OF assms(1), where n = n and m = m]
  show "fits (mapKeys ord n m)" "distinct (mapKeys ord n m)"
    using assms(2) keys by (simp_all add: map_ok_def fits_def)
  fix k assume "k \<in> set (mapKeys ord n m)"
  then obtain v where "(k, v) \<in> set m" using keys(1) by force
  moreover from this have "map_of m k = Some v" using assms(2) by (simp add: map_ok_def map_of_mem)
  ultimately show "fits k \<and> reads d (enc (the (map_of m k))) (the (map_of m k))"
    using assms(2,3) by (auto simp: map_ok_def list_all_iff)
qed

subsection \<open>Addresses and money\<close>

record address =
  Recipient :: string
  Street :: string
  City :: string
  Country :: string
  PostalCode :: string

record money =
  Currency :: string
  AmountMinor :: "64 word"

definition appendAddress :: "address \<Rightarrow> bytes" where
  "appendAddress a = appendLenStr (Recipient a) @ appendLenStr (Street a) @ appendLenStr (City a) @
     appendLenStr (Country a) @ appendLenStr (PostalCode a)"

definition readAddress :: "address reader" where
  "readAddress =
     seq readLenStr (\<lambda>r. seq readLenStr (\<lambda>s. seq readLenStr (\<lambda>c. seq readLenStr (\<lambda>n. seq readLenStr (\<lambda>p.
       finish \<lparr>Recipient = r, Street = s, City = c, Country = n, PostalCode = p\<rparr>)))))"

definition appendMoney :: "money \<Rightarrow> bytes" where
  "appendMoney m = appendLenStr (Currency m) @ put64 (AmountMinor m)"

definition readMoney :: "money reader" where
  "readMoney = seq readLenStr (\<lambda>c. seq (read_block 8 get64) (\<lambda>a. finish \<lparr>Currency = c, AmountMinor = a\<rparr>))"

definition address_ok :: "address \<Rightarrow> bool" where
  "address_ok a \<longleftrightarrow> fits (Recipient a) \<and> fits (Street a) \<and> fits (City a) \<and> fits (Country a) \<and> fits (PostalCode a)"

definition money_ok :: "money \<Rightarrow> bool" where
  "money_ok m \<longleftrightarrow> fits (Currency m)"

interpretation addresses: wire_codec appendAddress readAddress address_ok
proof
  fix a assume "address_ok a"
  then have p: "reads readLenStr (appendLenStr (Recipient a)) (Recipient a)" "reads readLenStr (appendLenStr (Street a)) (Street a)"
    "reads readLenStr (appendLenStr (City a)) (City a)" "reads readLenStr (appendLenStr (Country a)) (Country a)"
    "reads readLenStr (appendLenStr (PostalCode a)) (PostalCode a)"
    by (simp_all add: address_ok_def len_str.reads_enc)
  show "reads readAddress (appendAddress a) a"
    unfolding readAddress_def appendAddress_def
    by ((rule reads_seq, rule p)+, rule reads_last' [OF p(5)], simp)
qed

interpretation moneys: wire_codec appendMoney readMoney money_ok
proof
  fix m assume "money_ok m"
  then have p: "reads readLenStr (appendLenStr (Currency m)) (Currency m)" by (simp add: money_ok_def len_str.reads_enc)
  show "reads readMoney (appendMoney m) m"
    unfolding readMoney_def appendMoney_def
    by (rule reads_seq, rule p, rule reads_last' [OF reads_num(3)], simp)
qed

subsection \<open>Customers\<close>

record customer_record =
  CustomerID :: "64 word"
  Email :: string
  DisplayName :: string
  Age :: byte
  EmailVerified :: bool
  FraudScore :: f32
  LoyaltyPoints :: "32 word"
  SignupTS :: "64 word"
  AvatarSHA256 :: bytes
  Pin :: bytes
  ReferralCode :: "string option"
  StoreCredit :: money
  ShippingAddresses :: "address list"
  AddressBook :: "address gomap"
  WishlistSKUs :: "string list"
  Preferences :: "string gomap"

definition customer_MarshalBinary :: "key_order \<Rightarrow> customer_record \<Rightarrow> bytes" where
  "customer_MarshalBinary ord c =
     put64 (CustomerID c) @
     appendLenStr (Email c) @
     appendLenStr (DisplayName c) @
     ([Age c] @ put_bool (EmailVerified c)) @
     (put32 (FraudScore c) @ put32 (LoyaltyPoints c) @ put64 (SignupTS c)) @
     appendLenBytes (AvatarSHA256 c) @
     Pin c @
     put_optional appendLenStr (ReferralCode c) @
     appendMoney (StoreCredit c) @
     put_list appendAddress (ShippingAddresses c) @
     put_map ord ''address_book'' appendAddress (AddressBook c) @
     put_list appendLenStr (WishlistSKUs c) @
     put_map ord ''preferences'' appendLenStr (Preferences c)"

definition read_customer :: "customer_record reader" where
  "read_customer =
     seq (read_block 8 get64) (\<lambda>i.
     seq readLenStr (\<lambda>email.
     seq readLenStr (\<lambda>display.
     seq (read_block 2 (\<lambda>b. (hd b, get_bool (drop 1 b)))) (\<lambda>(age, verified).
     seq (read_block 16 (\<lambda>b. (get32 b, get32 (drop 4 b), get64 (drop 8 b)))) (\<lambda>(fraud, points, signup).
     seq readLenBytes (\<lambda>avatar.
     seq (read_block 4 (\<lambda>b. b)) (\<lambda>pin.
     seq (read_optional readLenStr) (\<lambda>referral.
     seq readMoney (\<lambda>credit.
     seq (counted (read_n readAddress)) (\<lambda>shipping.
     seq (counted (read_entries readAddress)) (\<lambda>book.
     seq (counted (read_n readLenStr)) (\<lambda>skus.
     seq (counted (read_entries readLenStr)) (\<lambda>prefs.
     finish
       \<lparr>CustomerID = i, Email = email, DisplayName = display, Age = age, EmailVerified = verified,
        FraudScore = fraud, LoyaltyPoints = points, SignupTS = signup, AvatarSHA256 = avatar, Pin = pin,
        ReferralCode = referral, StoreCredit = credit, ShippingAddresses = shipping, AddressBook = book,
        WishlistSKUs = skus, Preferences = prefs\<rparr>)))))))))))))"

definition customer_UnmarshalBinary :: "bytes \<Rightarrow> app_error + customer_record" where
  "customer_UnmarshalBinary b = map_res fst (read_customer b)"

definition customer_ok :: "customer_record \<Rightarrow> bool" where
  "customer_ok c \<longleftrightarrow> fits (Email c) \<and> fits (DisplayName c) \<and> fits (AvatarSHA256 c) \<and> length (Pin c) = 4 \<and>
     pred_option fits (ReferralCode c) \<and> money_ok (StoreCredit c) \<and> fits (ShippingAddresses c) \<and>
     list_all address_ok (ShippingAddresses c) \<and> map_ok address_ok (AddressBook c) \<and> fits (WishlistSKUs c) \<and>
     list_all fits (WishlistSKUs c) \<and> map_ok fits (Preferences c)"

lemma get32_append: "get32 (put32 v @ r) = v"
  using word_pieces(2) [of v] by (simp add: get32_def put32_def)

lemma byte_bool: "reads (read_block 2 (\<lambda>b. (hd b, get_bool (drop 1 b)))) ([x] @ put_bool y) (x, y)"
  by (rule reads_block) (simp_all add: put_bool_def get_bool_def)

lemma customer_numbers:
  "reads (read_block 16 (\<lambda>b. (get32 b, get32 (drop 4 b), get64 (drop 8 b)))) (put32 x @ put32 y @ put64 z) (x, y, z)"
proof (rule reads_block)
  have l: "length (put32 v) = 4" "length (put64 w) = 8" for v w by (simp_all add: put32_def put64_def)
  then show "length (put32 x @ put32 y @ put64 z) = 16" by simp
  show "(\<lambda>b. (get32 b, get32 (drop 4 b), get64 (drop 8 b))) (put32 x @ put32 y @ put64 z) = (x, y, z)"
    using get64_append [of z "[]"] by (simp add: l get32_append)
qed

text \<open>The customer as read back: the same but for the order of its maps.\<close>

definition customer_read_back :: "key_order \<Rightarrow> customer_record \<Rightarrow> customer_record" where
  "customer_read_back ord c = c\<lparr>AddressBook := reordered ord ''address_book'' (AddressBook c),
     Preferences := reordered ord ''preferences'' (Preferences c)\<rparr>"

lemma reads_customer:
  assumes ord: "permutes_keys ord" and ok: "customer_ok c"
  shows "reads read_customer (customer_MarshalBinary ord c) (customer_read_back ord c)"
proof -
  have p: "reads readLenStr (appendLenStr (Email c)) (Email c)" "reads readLenStr (appendLenStr (DisplayName c)) (DisplayName c)"
    "reads readLenBytes (appendLenBytes (AvatarSHA256 c)) (AvatarSHA256 c)" "reads (read_block 4 (\<lambda>b. b)) (Pin c) (Pin c)"
    "reads (read_optional readLenStr) (put_optional appendLenStr (ReferralCode c)) (ReferralCode c)"
    "reads readMoney (appendMoney (StoreCredit c)) (StoreCredit c)"
    "reads (counted (read_n readAddress)) (put_list appendAddress (ShippingAddresses c)) (ShippingAddresses c)"
    "reads (counted (read_n readLenStr)) (put_list appendLenStr (WishlistSKUs c)) (WishlistSKUs c)"
    using ok by (simp_all add: customer_ok_def len_str.reads_enc len_bytes.reads_enc reads_block len_str.reads_option
        moneys.reads_enc addresses.reads_list len_str.reads_list)
  have book: "reads (counted (read_entries readAddress)) (put_map ord ''address_book'' appendAddress (AddressBook c))
      (reordered ord ''address_book'' (AddressBook c))"
    by (rule reads_map [OF ord, of address_ok]) (use ok in \<open>simp_all add: customer_ok_def addresses.reads_enc\<close>)
  have prefs: "reads (counted (read_entries readLenStr)) (put_map ord ''preferences'' appendLenStr (Preferences c))
      (reordered ord ''preferences'' (Preferences c))"
    by (rule reads_map [OF ord, of fits]) (use ok in \<open>simp_all add: customer_ok_def len_str.reads_enc\<close>)
  show ?thesis
    unfolding read_customer_def customer_MarshalBinary_def
    by ((rule reads_seq, rule reads_num p byte_bool customer_numbers book, (simp only: prod.case)?)+,
        rule reads_last' [OF prefs], simp add: customer_read_back_def)
qed

text \<open>C24. A customer survives its bytes whatever order its maps are written in: what is unmarshalled is the
  customer that was marshalled, its maps equal as maps; and every shorter prefix is refused as truncated.\<close>

theorem customer_roundtrip:
  assumes "permutes_keys ord" and "customer_ok c"
  shows "\<exists>c'. customer_UnmarshalBinary (customer_MarshalBinary ord c @ rest) = Inr c' \<and>
    c'\<lparr>AddressBook := AddressBook c, Preferences := Preferences c\<rparr> = c \<and>
    map_of (AddressBook c') = map_of (AddressBook c) \<and> map_of (Preferences c') = map_of (Preferences c) \<and>
    (strict_prefix p (customer_MarshalBinary ord c) \<longrightarrow> customer_UnmarshalBinary p = Inl Truncated)"
  using reads_customer [OF assms] assms
  by (intro exI [of _ "customer_read_back ord c"])
    (simp add: customer_UnmarshalBinary_def reads_def customer_read_back_def reordered_same customer_ok_def map_ok_def)

definition example_customer :: customer_record where
  "example_customer =
     \<lparr>CustomerID = 1, Email = ''a@b'', DisplayName = ''A'', Age = 30, EmailVerified = True, FraudScore = 2143289344,
      LoyaltyPoints = 5, SignupTS = -1, AvatarSHA256 = [9], Pin = [1, 2, 3, 4], ReferralCode = None,
      StoreCredit = \<lparr>Currency = ''eur'', AmountMinor = -250\<rparr>, ShippingAddresses = [],
      AddressBook = [(''home'', \<lparr>Recipient = ''A'', Street = ''s'', City = ''c'', Country = ''d'', PostalCode = ''1''\<rparr>)],
      WishlistSKUs = [''x''], Preferences = [(''lang'', ''de''), (''theme'', ''dark'')]\<rparr>"

lemma customer_roundtrip_witness:
  "\<exists>c'. customer_UnmarshalBinary (customer_MarshalBinary (\<lambda>n. rev) example_customer @ [7]) = Inr c' \<and>
    c'\<lparr>AddressBook := AddressBook example_customer, Preferences := Preferences example_customer\<rparr> = example_customer \<and>
    map_of (AddressBook c') = map_of (AddressBook example_customer) \<and>
    map_of (Preferences c') = map_of (Preferences example_customer) \<and>
    (strict_prefix [1] (customer_MarshalBinary (\<lambda>n. rev) example_customer) \<longrightarrow> customer_UnmarshalBinary [1] = Inl Truncated)"
  by (rule customer_roundtrip)
    (simp_all add: permutes_keys_def customer_ok_def example_customer_def fits_def money_ok_def address_ok_def map_ok_def)

subsection \<open>Orders\<close>

record line_item =
  SKU :: string
  ProductName :: string
  Quantity :: "16 word"
  UnitPrice :: money
  DiscountPct :: byte
  GiftWrap :: bool

definition orderStatuses :: "string list" where
  "orderStatuses = [''pending'', ''paid'', ''shipped'', ''delivered'', ''cancelled'']"

record order_record =
  OrderID :: "64 word"
  OrderCustomerID :: "64 word"
  CreatedAt :: "64 word"
  OrderStatus :: string
  Items :: "line_item list"
  Subtotal :: money
  Adjustments :: "money gomap"
  Total :: money
  ShippingAddress :: address
  BillingAddress :: "address option"
  CouponCodes :: "string list"
  TrackingNumber :: "string option"

definition appendItem :: "line_item \<Rightarrow> bytes" where
  "appendItem it = appendLenStr (SKU it) @ appendLenStr (ProductName it) @ put16 (Quantity it) @
     appendMoney (UnitPrice it) @ [DiscountPct it] @ put_bool (GiftWrap it)"

definition readItem :: "line_item reader" where
  "readItem =
     seq readLenStr (\<lambda>sku. seq readLenStr (\<lambda>nm. seq (read_block 2 get16) (\<lambda>q. seq readMoney (\<lambda>price.
     seq (read_block 2 (\<lambda>b. (hd b, get_bool (drop 1 b)))) (\<lambda>(discount, gift).
       finish \<lparr>SKU = sku, ProductName = nm, Quantity = q, UnitPrice = price, DiscountPct = discount, GiftWrap = gift\<rparr>)))))"

definition order_MarshalBinary :: "key_order \<Rightarrow> order_record \<Rightarrow> app_error + bytes" where
  "order_MarshalBinary ord o1 =
     (case index_of (OrderStatus o1) orderStatuses of
        None \<Rightarrow> Inl (UnknownName (OrderStatus o1))
      | Some i \<Rightarrow> Inr (
          (put64 (OrderID o1) @ put64 (OrderCustomerID o1) @ put64 (CreatedAt o1)) @
          [word_of_nat i] @
          put_list appendItem (Items o1) @
          appendMoney (Subtotal o1) @
          put_map ord ''adjustments'' appendMoney (Adjustments o1) @
          appendMoney (Total o1) @
          appendAddress (ShippingAddress o1) @
          put_optional appendAddress (BillingAddress o1) @
          put_list appendLenStr (CouponCodes o1) @
          put_optional appendLenStr (TrackingNumber o1)))"

text \<open>The numbers and the status stand behind one length check in the code; a status that is missing is
  truncated input either way.\<close>

definition read_order :: "order_record reader" where
  "read_order =
     seq (read_block 24 (\<lambda>b. (get64 b, get64 (drop 8 b), get64 (drop 16 b)))) (\<lambda>(i, customer, created).
     seq (read_ordinal orderStatuses) (\<lambda>status.
     seq (counted (read_n readItem)) (\<lambda>items.
     seq readMoney (\<lambda>subtotal.
     seq (counted (read_entries readMoney)) (\<lambda>adjustments.
     seq readMoney (\<lambda>total.
     seq readAddress (\<lambda>shipping.
     seq (read_optional readAddress) (\<lambda>billing.
     seq (counted (read_n readLenStr)) (\<lambda>coupons.
     seq (read_optional readLenStr) (\<lambda>tracking.
     finish
       \<lparr>OrderID = i, OrderCustomerID = customer, CreatedAt = created, OrderStatus = status, Items = items,
        Subtotal = subtotal, Adjustments = adjustments, Total = total, ShippingAddress = shipping,
        BillingAddress = billing, CouponCodes = coupons, TrackingNumber = tracking\<rparr>))))))))))"

definition order_UnmarshalBinary :: "bytes \<Rightarrow> app_error + order_record" where
  "order_UnmarshalBinary b = map_res fst (read_order b)"

definition item_ok :: "line_item \<Rightarrow> bool" where
  "item_ok it \<longleftrightarrow> fits (SKU it) \<and> fits (ProductName it) \<and> money_ok (UnitPrice it)"

definition order_ok :: "order_record \<Rightarrow> bool" where
  "order_ok o1 \<longleftrightarrow> OrderStatus o1 \<in> set orderStatuses \<and> fits (Items o1) \<and> list_all item_ok (Items o1) \<and>
     money_ok (Subtotal o1) \<and> map_ok money_ok (Adjustments o1) \<and> money_ok (Total o1) \<and> address_ok (ShippingAddress o1) \<and>
     pred_option address_ok (BillingAddress o1) \<and> fits (CouponCodes o1) \<and> list_all fits (CouponCodes o1) \<and>
     pred_option fits (TrackingNumber o1)"

lemma reads_last_pair:
  "reads d e (x, y) \<Longrightarrow> g x y = z \<Longrightarrow> reads (seq d (\<lambda>(x, y). finish (g x y))) e z"
  using reads_last [of d e "(x, y)" "\<lambda>(x, y). g x y"] by (simp add: split_def)

interpretation items: wire_codec appendItem readItem item_ok
proof
  fix it assume "item_ok it"
  then have p: "reads readLenStr (appendLenStr (SKU it)) (SKU it)"
    "reads readLenStr (appendLenStr (ProductName it)) (ProductName it)" "reads readMoney (appendMoney (UnitPrice it)) (UnitPrice it)"
    by (simp_all add: item_ok_def len_str.reads_enc moneys.reads_enc)
  show "reads readItem (appendItem it) it"
    unfolding readItem_def appendItem_def
    by ((rule reads_seq, rule reads_num p)+, rule reads_last_pair [OF byte_bool], simp)
qed

lemma reads_order:
  assumes ord: "permutes_keys ord" and ok: "order_ok o1"
  shows "\<exists>e. order_MarshalBinary ord o1 = Inr e \<and>
    reads read_order e (o1\<lparr>Adjustments := reordered ord ''adjustments'' (Adjustments o1)\<rparr>)"
proof -
  obtain i where i: "index_of (OrderStatus o1) orderStatuses = Some i"
    using ok by (auto simp: order_ok_def orderStatuses_def)
  have status: "reads (read_ordinal orderStatuses) [word_of_nat i] (OrderStatus o1)"
    by (rule reads_ordinal [OF i]) (simp add: orderStatuses_def)
  have p: "reads (counted (read_n readItem)) (put_list appendItem (Items o1)) (Items o1)"
    "reads readMoney (appendMoney (Subtotal o1)) (Subtotal o1)" "reads readMoney (appendMoney (Total o1)) (Total o1)"
    "reads readAddress (appendAddress (ShippingAddress o1)) (ShippingAddress o1)"
    "reads (read_optional readAddress) (put_optional appendAddress (BillingAddress o1)) (BillingAddress o1)"
    "reads (counted (read_n readLenStr)) (put_list appendLenStr (CouponCodes o1)) (CouponCodes o1)"
    using ok by (simp_all add: order_ok_def items.reads_list moneys.reads_enc addresses.reads_enc addresses.reads_option
        len_str.reads_list)
  have tracking: "reads (read_optional readLenStr) (put_optional appendLenStr (TrackingNumber o1)) (TrackingNumber o1)"
    using ok by (simp add: order_ok_def len_str.reads_option)
  have adj: "reads (counted (read_entries readMoney)) (put_map ord ''adjustments'' appendMoney (Adjustments o1))
      (reordered ord ''adjustments'' (Adjustments o1))"
    by (rule reads_map [OF ord, of money_ok]) (use ok in \<open>simp_all add: order_ok_def moneys.reads_enc\<close>)
  have "reads read_order ((put64 (OrderID o1) @ put64 (OrderCustomerID o1) @ put64 (CreatedAt o1)) @
      [word_of_nat i] @ put_list appendItem (Items o1) @ appendMoney (Subtotal o1) @
      put_map ord ''adjustments'' appendMoney (Adjustments o1) @ appendMoney (Total o1) @
      appendAddress (ShippingAddress o1) @ put_optional appendAddress (BillingAddress o1) @
      put_list appendLenStr (CouponCodes o1) @ put_optional appendLenStr (TrackingNumber o1))
      (o1\<lparr>Adjustments := reordered ord ''adjustments'' (Adjustments o1)\<rparr>)"
    unfolding read_order_def
    by ((rule reads_seq, rule three_numbers status p adj, (simp only: prod.case)?)+,
        rule reads_last' [OF tracking], simp)
  then show ?thesis by (simp add: order_MarshalBinary_def i)
qed

text \<open>An order survives its bytes: every order whose status is one of the enum marshals, whatever order
  its map is written in; what is unmarshalled is the order, its adjustments equal as a map; every
  shorter prefix is refused as truncated.\<close>

theorem order_roundtrip:
  assumes "permutes_keys ord" and "order_ok o1"
  shows "\<exists>e o2. order_MarshalBinary ord o1 = Inr e \<and> (\<forall>rest. order_UnmarshalBinary (e @ rest) = Inr o2) \<and>
    o2\<lparr>Adjustments := Adjustments o1\<rparr> = o1 \<and> map_of (Adjustments o2) = map_of (Adjustments o1) \<and>
    (\<forall>p. strict_prefix p e \<longrightarrow> order_UnmarshalBinary p = Inl Truncated)"
proof -
  obtain e where e: "order_MarshalBinary ord o1 = Inr e"
    "reads read_order e (o1\<lparr>Adjustments := reordered ord ''adjustments'' (Adjustments o1)\<rparr>)"
    using reads_order [OF assms] by blast
  then show ?thesis using assms
    by (intro exI [of _ e] exI [of _ "o1\<lparr>Adjustments := reordered ord ''adjustments'' (Adjustments o1)\<rparr>"])
      (simp add: order_UnmarshalBinary_def reads_def reordered_same order_ok_def map_ok_def)
qed

subsection \<open>Telemetry\<close>

record telemetry_frame =
  DeviceID :: "64 word"
  IPv6 :: "int option"
  LocalIP :: bytes
  Firmware :: string
  BootCount :: "16 word"
  RSSIdBm :: byte
  TemperatureDC :: "16 word"
  ClockDriftMS :: "32 word"
  BatteryVolts :: f32
  Latitude :: f64
  Longitude :: f64
  HumidityPct :: "f32 option"
  AccelMg :: "16 word list"
  VisibleCells :: "32 word list"
  PacketCounts :: "64 word gomap"
  GPSFix :: bool
  Signature :: bytes

definition telemetry_MarshalBinary :: "key_order \<Rightarrow> telemetry_frame \<Rightarrow> bytes" where
  "telemetry_MarshalBinary ord t =
     put64 (DeviceID t) @
     appendInt128 (IPv6 t) @
     LocalIP t @
     appendLenStr (Firmware t) @
     (put16 (BootCount t) @ [RSSIdBm t] @ put16 (TemperatureDC t) @ put32 (ClockDriftMS t) @ put32 (BatteryVolts t) @
      put64 (Latitude t) @ put64 (Longitude t) @ put_bool (HumidityPct t \<noteq> None)) @
     (case HumidityPct t of None \<Rightarrow> [] | Some v \<Rightarrow> put32 v) @
     concat (map put16 (AccelMg t)) @
     put_list put32 (VisibleCells t) @
     put_map ord ''packet_counts'' put64 (PacketCounts t) @
     put_bool (GPSFix t) @
     appendLenBytes (Signature t)"

definition telemetry_numbers ::
  "bytes \<Rightarrow> 16 word \<times> byte \<times> 16 word \<times> 32 word \<times> f32 \<times> f64 \<times> f64 \<times> bool" where
  "telemetry_numbers b = (get16 b, b ! 2, get16 (drop 3 b), get32 (drop 5 b), get32 (drop 9 b), get64 (drop 13 b),
     get64 (drop 21 b), get_bool (drop 29 b))"

definition read_telemetry :: "telemetry_frame reader" where
  "read_telemetry =
     seq (read_block 8 get64) (\<lambda>i.
     seq readInt128 (\<lambda>ip6.
     seq (read_block 4 (\<lambda>b. b)) (\<lambda>ip.
     seq readLenStr (\<lambda>firmware.
     seq (read_block 30 telemetry_numbers) (\<lambda>(boot, rssi, temp, drift, volts, lat, long, present).
     seq (optional_after (read_block 4 get32) present) (\<lambda>humidity.
     seq (read_fixed 2 get16 3) (\<lambda>accel.
     seq (counted (read_fixed 4 get32)) (\<lambda>cells.
     seq (counted (read_entries (read_block 8 get64))) (\<lambda>packets.
     seq (read_block 1 get_bool) (\<lambda>fix.
     seq readLenBytes (\<lambda>sig.
     finish
       \<lparr>DeviceID = i, IPv6 = unsigned128 ip6, LocalIP = ip, Firmware = firmware, BootCount = boot, RSSIdBm = rssi,
        TemperatureDC = temp, ClockDriftMS = drift, BatteryVolts = volts, Latitude = lat, Longitude = long,
        HumidityPct = humidity, AccelMg = accel, VisibleCells = cells, PacketCounts = packets, GPSFix = fix,
        Signature = sig\<rparr>)))))))))))"

definition telemetry_UnmarshalBinary :: "bytes \<Rightarrow> app_error + telemetry_frame" where
  "telemetry_UnmarshalBinary b = map_res fst (read_telemetry b)"

definition telemetry_ok :: "telemetry_frame \<Rightarrow> bool" where
  "telemetry_ok t \<longleftrightarrow> uint128_ok (IPv6 t) \<and> length (LocalIP t) = 4 \<and> fits (Firmware t) \<and> length (AccelMg t) = 3 \<and>
     fits (VisibleCells t) \<and> map_ok (\<lambda>_. True) (PacketCounts t) \<and> fits (Signature t)"

lemma get16_append: "get16 (put16 v @ r) = v"
  using word_pieces(1) [of v] by (simp add: get16_def put16_def)

lemma telemetry_block:
  "reads (read_block 30 telemetry_numbers)
     (put16 a @ [b] @ put16 c @ put32 d @ put32 e @ put64 f @ put64 g @ put_bool h) (a, b, c, d, e, f, g, h)"
proof (rule reads_block)
  have l: "length (put16 u) = 2" "length (put32 v) = 4" "length (put64 w) = 8" for u v w
    by (simp_all add: put16_def put32_def put64_def)
  then show "length (put16 a @ [b] @ put16 c @ put32 d @ put32 e @ put64 f @ put64 g @ put_bool h) = 30"
    by (simp add: put_bool_def)
  show "telemetry_numbers (put16 a @ [b] @ put16 c @ put32 d @ put32 e @ put64 f @ put64 g @ put_bool h) =
      (a, b, c, d, e, f, g, h)"
    by (simp add: telemetry_numbers_def l get16_append get32_append get64_append nth_append put_bool_def get_bool_def)
qed

lemma reads_telemetry:
  assumes ord: "permutes_keys ord" and ok: "telemetry_ok t"
  shows "reads read_telemetry (telemetry_MarshalBinary ord t)
    (t\<lparr>PacketCounts := reordered ord ''packet_counts'' (PacketCounts t)\<rparr>)"
proof -
  have ip6: "reads readInt128 (appendInt128 (IPv6 t)) (Some (sign128 (nat (the (IPv6 t)))))"
    "unsigned128 (Some (sign128 (nat (the (IPv6 t))))) = IPv6 t"
    using ok uint128_roundtrip by (auto simp: telemetry_ok_def)
  have accel: "reads (read_fixed 2 get16 3) (concat (map put16 (AccelMg t))) (AccelMg t)"
    using reads_fixed [of "AccelMg t" put16 2 get16] word_pieces(1) ok by (simp add: telemetry_ok_def)
  have p: "reads (read_block 4 (\<lambda>b. b)) (LocalIP t) (LocalIP t)" "reads readLenStr (appendLenStr (Firmware t)) (Firmware t)"
    "reads (counted (read_fixed 4 get32)) (put_list put32 (VisibleCells t)) (VisibleCells t)"
    "reads (read_block 1 get_bool) (put_bool (GPSFix t)) (GPSFix t)"
    using ok reads_lists(2) by (auto simp: telemetry_ok_def len_str.reads_enc put_bool_def get_bool_def intro!: reads_block)
  have sig: "reads readLenBytes (appendLenBytes (Signature t)) (Signature t)"
    using ok by (simp add: telemetry_ok_def len_bytes.reads_enc)
  have humidity: "reads (optional_after (read_block 4 get32) (HumidityPct t \<noteq> None))
      (case HumidityPct t of None \<Rightarrow> [] | Some v \<Rightarrow> put32 v) (HumidityPct t)"
    by (rule word32.reads_optional_after) (simp add: option.pred_True)
  have packets: "reads (counted (read_entries (read_block 8 get64))) (put_map ord ''packet_counts'' put64 (PacketCounts t))
      (reordered ord ''packet_counts'' (PacketCounts t))"
    by (rule reads_map [OF ord, of "\<lambda>_. True"]) (use ok in \<open>simp_all add: telemetry_ok_def reads_num\<close>)
  show ?thesis
    unfolding read_telemetry_def telemetry_MarshalBinary_def
    by ((rule reads_seq, rule reads_num(3) ip6(1) p telemetry_block humidity accel packets, (simp only: prod.case)?)+,
        rule reads_last' [OF sig], simp add: ip6(2))
qed

text \<open>A telemetry frame survives its bytes, with the bits of its floats (NaN included), its unsigned
  128-bit address and its map, whatever order that is written in; every shorter prefix is refused as
  truncated.\<close>

theorem telemetry_roundtrip:
  assumes "permutes_keys ord" and "telemetry_ok t"
  shows "\<exists>t'. telemetry_UnmarshalBinary (telemetry_MarshalBinary ord t @ rest) = Inr t' \<and>
    t'\<lparr>PacketCounts := PacketCounts t\<rparr> = t \<and> map_of (PacketCounts t') = map_of (PacketCounts t) \<and>
    (strict_prefix p (telemetry_MarshalBinary ord t) \<longrightarrow> telemetry_UnmarshalBinary p = Inl Truncated)"
  using reads_telemetry [OF assms] assms
  by (intro exI [of _ "t\<lparr>PacketCounts := reordered ord ''packet_counts'' (PacketCounts t)\<rparr>"])
    (simp add: telemetry_UnmarshalBinary_def reads_def reordered_same telemetry_ok_def map_ok_def)

end
