(* ===== verification/Reflect.thy ===== *)
theory Reflect
  imports FieldMap
begin

section \<open>Structs and FieldMaps (lib/go/serify/reflect.go)\<close>

text \<open>
  A worker keeps its data in Go structs; the library fills one from a FieldMap before it serializes and
  extracts one to a FieldMap after it deserialized. \<open>gty\<close> is a Go type of a field: a type the accessors
  know (\<open>YVal\<close>: the scalars, \<open>[]byte\<close>, \<open>*big.Int\<close>), slices, arrays, pointers, maps keyed by strings,
  structs, and \<open>YOther\<close> for all others, named types that are not structs among them. \<open>[]byte\<close> is
  \<open>YVal TBytes\<close>, never a \<open>YSlice\<close>. Recursive types have no \<open>gty\<close>. A field is exported, as reflection
  requires.

  \<open>gv\<close> is a value of such a type; nil and empty slices are one. The library stores slices and pointees
  without looking at them; \<open>rf_any\<close> names a stored value \<open>fval\<close> has no constructor for (\<open>FOther\<close>), \<open>rf_assign\<close>
  gives it back when it is assignable, \<open>rf_elems\<close> lists its elements if it is a slice. Go's conversions
  between integers, and between bytes and strings, are written out; \<open>rf_convert\<close> is the others.
\<close>

datatype gty =
    YVal gtype
  | YSlice gty
  | YArray nat gty
  | YPtr gty
  | YMap gty
  | YStruct string "gfield list"
  | YOther string
and gfield = GField (gf_name: string) (gf_tag: string) (gf_anonymous: bool) (gf_type: gty)

datatype gv =
    XVal fval
  | XList "gv list"
  | XArr "gv list"
  | XPtr "gv option"
  | XMap "gv gomap"
  | XStruct "gv list"
  | XOther string

datatype reflect_error =
    RGet fm_error
  | RConvertFrom string
  | RNotAssignable
  | RNotAStruct fm_error
  | RNullStruct
  | RNotASlice
  | RLength nat
  | RNotAMap
  | RDecodedAs
  | RUnsupported
  | RCannotAssign
  | RIn string reflect_error
  | RPanic

text \<open>A \<open>Converter\<close>: the Go type of what \<open>from\<close> returns, \<open>from\<close> with its error text, and \<open>to\<close>, which
  panics (\<open>None\<close>) on a value of another type.\<close>

record converter =
  cv_type :: gty
  cv_from :: "fval \<Rightarrow> string + gv"
  cv_to :: "gv \<Rightarrow> fval option"

record reflect_env =
  rf_snake :: "string \<Rightarrow> string"
  rf_conv :: "gty \<Rightarrow> converter option"
  rf_any :: "gty \<Rightarrow> gv \<Rightarrow> string"
  rf_assign :: "string \<Rightarrow> gty \<Rightarrow> gv option"
  rf_elems :: "string \<Rightarrow> fval list option"
  rf_convert :: "fval \<Rightarrow> gty \<Rightarrow> gv option"

text \<open>\<open>NewConverter\<close>, for the type assertion and constructor of the carrier and the type \<open>T\<close>.\<close>

definition NewConverter ::
  "gty \<Rightarrow> (fval \<Rightarrow> 'c option) \<Rightarrow> ('c \<Rightarrow> fval) \<Rightarrow> (gv \<Rightarrow> 't option) \<Rightarrow> ('t \<Rightarrow> gv)
    \<Rightarrow> ('c \<Rightarrow> string + 't) \<Rightarrow> ('t \<Rightarrow> 'c) \<Rightarrow> converter" where
  "NewConverter ty asCarrier carrier asT ofT from to =
     \<lparr>cv_type = ty,
      cv_from = (\<lambda>v. case asCarrier v of
         None \<Rightarrow> Inl ''serify: converter carrier has another type'' | Some c \<Rightarrow> map_res ofT (from c)),
      cv_to = (\<lambda>x. map_option (carrier \<circ> to) (asT x))\<rparr>"

subsection \<open>Fields\<close>

definition is_struct :: "gty \<Rightarrow> bool" where
  "is_struct t \<longleftrightarrow> (case t of YStruct n fs \<Rightarrow> True | _ \<Rightarrow> False)"

definition reflectKey :: "reflect_env \<Rightarrow> gfield \<Rightarrow> string" where
  "reflectKey R f = (if gf_tag f \<noteq> [] then gf_tag f else rf_snake R (gf_name f))"

definition promotable :: "reflect_env \<Rightarrow> gfield \<Rightarrow> bool" where
  "promotable R f \<longleftrightarrow>
     gf_anonymous f \<and> gf_tag f = [] \<and>
     (let ft = (case gf_type f of YPtr t \<Rightarrow> t | t \<Rightarrow> t) in is_struct ft \<and> rf_conv R ft = None)"

subsection \<open>Values of stored data\<close>

text \<open>\<open>reflect.Zero\<close>.\<close>

definition zero_fval :: "gtype \<Rightarrow> fval" where
  "zero_fval g = (case g of
     TU8 \<Rightarrow> FU8 0 | TU16 \<Rightarrow> FU16 0 | TU32 \<Rightarrow> FU32 0 | TU64 \<Rightarrow> FU64 0
   | TI8 \<Rightarrow> FI8 0 | TI16 \<Rightarrow> FI16 0 | TI32 \<Rightarrow> FI32 0 | TI64 \<Rightarrow> FI64 0
   | TBig \<Rightarrow> FBig None | TF32 \<Rightarrow> FF32 0 | TF64 \<Rightarrow> FF64 0 | TBool \<Rightarrow> FBool False
   | TStr \<Rightarrow> FStr [] | TBytes \<Rightarrow> FBytes [] | TFM \<Rightarrow> FFM None)"

fun zero_of :: "gty \<Rightarrow> gv" and zero_fields :: "gfield list \<Rightarrow> gv list" where
  "zero_of (YVal g) = XVal (zero_fval g)"
| "zero_of (YSlice t) = XList []"
| "zero_of (YArray n t) = XArr (replicate n (zero_of t))"
| "zero_of (YPtr t) = XPtr None"
| "zero_of (YMap t) = XMap []"
| "zero_of (YStruct n fs) = XStruct (zero_fields fs)"
| "zero_of (YOther n) = XOther []"
| "zero_fields [] = []"
| "zero_fields (GField n tag a t # fs) = zero_of t # zero_fields fs"

text \<open>\<open>x.Interface()\<close> of a slice, array element or pointee, as the FieldMap holds it.\<close>

definition val_of :: "gv \<Rightarrow> fval" where
  "val_of x = (case x of XVal v \<Rightarrow> v | _ \<Rightarrow> FNil)"

definition slice_any :: "reflect_env \<Rightarrow> gty \<Rightarrow> gv list \<Rightarrow> fval" where
  "slice_any R t xs =
     (case t of YVal g \<Rightarrow> mk_slice g (map val_of xs) | _ \<Rightarrow> FOther (rf_any R (YSlice t) (XList xs)))"

definition to_any :: "reflect_env \<Rightarrow> gty \<Rightarrow> gv \<Rightarrow> fval" where
  "to_any R t x =
     (case (t, x) of
        (YVal g, XVal v) \<Rightarrow> v
      | (YSlice e, XList xs) \<Rightarrow> slice_any R e xs
      | (YPtr (YVal TStr), XPtr p) \<Rightarrow> FStrPtr (case p of Some (XVal (FStr s)) \<Rightarrow> Some s | _ \<Rightarrow> None)
      | (YArray n (YVal g), XArr xs) \<Rightarrow> FArr g (map val_of xs)
      | _ \<Rightarrow> FOther (rf_any R t x))"

text \<open>The value of type \<open>t\<close> a stored value is assignable as.\<close>

definition assign :: "reflect_env \<Rightarrow> fval \<Rightarrow> gty \<Rightarrow> gv option" where
  "assign R v t =
     (case (v, t) of
        (FOther s, _) \<Rightarrow> rf_assign R s t
      | (FStrPtr p, YPtr (YVal TStr)) \<Rightarrow> Some (XPtr (map_option (XVal \<circ> FStr) p))
      | (FArr g vs, YArray n (YVal g')) \<Rightarrow> if g = g' \<and> length vs = n then Some (XArr (map XVal vs)) else None
      | (_, YSlice (YVal g)) \<Rightarrow> map_option (XList \<circ> map XVal) (as_slice g v)
      | (_, YVal g) \<Rightarrow> if has_gtype g v then Some (XVal v) else None
      | _ \<Rightarrow> None)"

text \<open>Go's conversions \<open>T(v)\<close>: integers wrap around to the width of the target.\<close>

definition int_value :: "fval \<Rightarrow> int option" where
  "int_value v = (case v of
     FU8 w \<Rightarrow> Some (uint w) | FU16 w \<Rightarrow> Some (uint w) | FU32 w \<Rightarrow> Some (uint w) | FU64 w \<Rightarrow> Some (uint w)
   | FI8 w \<Rightarrow> Some (sint w) | FI16 w \<Rightarrow> Some (sint w) | FI32 w \<Rightarrow> Some (sint w) | FI64 w \<Rightarrow> Some (sint w)
   | _ \<Rightarrow> None)"

definition of_int_value :: "gtype \<Rightarrow> int \<Rightarrow> fval option" where
  "of_int_value g i = (case g of
     TU8 \<Rightarrow> Some (FU8 (word_of_int i)) | TU16 \<Rightarrow> Some (FU16 (word_of_int i))
   | TU32 \<Rightarrow> Some (FU32 (word_of_int i)) | TU64 \<Rightarrow> Some (FU64 (word_of_int i))
   | TI8 \<Rightarrow> Some (FI8 (word_of_int i)) | TI16 \<Rightarrow> Some (FI16 (word_of_int i))
   | TI32 \<Rightarrow> Some (FI32 (word_of_int i)) | TI64 \<Rightarrow> Some (FI64 (word_of_int i))
   | _ \<Rightarrow> None)"

definition convert :: "reflect_env \<Rightarrow> fval \<Rightarrow> gty \<Rightarrow> gv option" where
  "convert R v t =
     (case assign R v t of
        Some x \<Rightarrow> Some x
      | None \<Rightarrow>
          (case (int_value v, case t of YVal g \<Rightarrow> of_int_value g 0 | _ \<Rightarrow> None, t) of
             (Some i, Some _, YVal g) \<Rightarrow> map_option XVal (of_int_value g i)
           | _ \<Rightarrow>
               (case (v, t) of
                  (FBytes bs, YVal TStr) \<Rightarrow> Some (XVal (FStr (map (\<lambda>b. char_of (unat b)) bs)))
                | (FStr s, YVal TBytes) \<Rightarrow> Some (XVal (FBytes (map (\<lambda>c. of_nat (of_char c)) s)))
                | _ \<Rightarrow> rf_convert R v t)))"

text \<open>The elements of a slice held in an \<open>any\<close>.\<close>

definition slice_elems :: "reflect_env \<Rightarrow> fval \<Rightarrow> fval list option" where
  "slice_elems R v = (case v of
     FBytes bs \<Rightarrow> Some (map FU8 bs) | FSlice t vs \<Rightarrow> Some vs | FAnys vs \<Rightarrow> Some vs
   | FOther s \<Rightarrow> rf_elems R s | _ \<Rightarrow> None)"

text \<open>The getter of a scalar field's type.\<close>

definition get_value :: "gtype \<Rightarrow> field_map \<Rightarrow> string \<Rightarrow> fm_error + fval" where
  "get_value g m key = (case g of
     TU8 \<Rightarrow> map_res FU8 (GetU8 m key) | TU16 \<Rightarrow> map_res FU16 (GetU16 m key)
   | TU32 \<Rightarrow> map_res FU32 (GetU32 m key) | TU64 \<Rightarrow> map_res FU64 (GetU64 m key)
   | TI8 \<Rightarrow> map_res FI8 (GetI8 m key) | TI16 \<Rightarrow> map_res FI16 (GetI16 m key)
   | TI32 \<Rightarrow> map_res FI32 (GetI32 m key) | TI64 \<Rightarrow> map_res FI64 (GetI64 m key)
   | TF32 \<Rightarrow> map_res FF32 (GetF32 m key) | TF64 \<Rightarrow> map_res FF64 (GetF64 m key)
   | TBool \<Rightarrow> map_res FBool (GetBool m key) | TStr \<Rightarrow> map_res FStr (GetString m key)
   | TBytes \<Rightarrow> map_res FBytes (GetBytes m key) | TBig \<Rightarrow> map_res FBig (GetBig m key)
   | TFM \<Rightarrow> map_res FFM (GetStruct m key))"

subsection \<open>From a FieldMap to a struct\<close>

text \<open>What a converter makes of a stored value, and its assignment to a field of type \<open>t\<close>.\<close>

definition convert_from :: "converter \<Rightarrow> gty \<Rightarrow> fval \<Rightarrow> reflect_error + gv" where
  "convert_from c t v =
     (case cv_from c v of
        Inl e \<Rightarrow> Inl (RConvertFrom e)
      | Inr x \<Rightarrow> if cv_type c = t then Inr x else Inl RNotAssignable)"

text \<open>
  \<open>fill\<close>: \<open>x\<close> is what the struct holds before, \<open>fm\<close> the FieldMap (\<open>None\<close>: a nil pointer, which panics
  when a field is looked up). \<open>fill_value\<close> is the switch over the field's type, \<open>fill_list\<close> the elements
  of a list of structs, \<open>fill_array\<close> the loop over \<open>setArrayElem\<close>, \<open>fill_entries\<close> the loop over a map.
\<close>

function fill :: "reflect_env \<Rightarrow> gty \<Rightarrow> gv \<Rightarrow> field_map option \<Rightarrow> reflect_error + gv"
  and fill_fields :: "reflect_env \<Rightarrow> gfield list \<Rightarrow> gv list \<Rightarrow> field_map option \<Rightarrow> reflect_error + gv list"
  and fill_field :: "reflect_env \<Rightarrow> gfield \<Rightarrow> gv \<Rightarrow> field_map option \<Rightarrow> reflect_error + gv"
  and fill_value :: "reflect_env \<Rightarrow> gty \<Rightarrow> gv \<Rightarrow> field_map \<Rightarrow> string \<Rightarrow> fval \<Rightarrow> reflect_error + gv"
  and fill_list :: "reflect_env \<Rightarrow> gty \<Rightarrow> field_map option list \<Rightarrow> reflect_error + gv list"
  and setArrayElem :: "reflect_env \<Rightarrow> gty \<Rightarrow> gv \<Rightarrow> fval \<Rightarrow> reflect_error + gv"
  and fill_array :: "reflect_env \<Rightarrow> gty \<Rightarrow> gv list \<Rightarrow> fval list \<Rightarrow> reflect_error + gv list"
  and fill_entries :: "reflect_env \<Rightarrow> gty \<Rightarrow> fval gomap \<Rightarrow> gv gomap \<Rightarrow> reflect_error + gv gomap"
  where
  "fill R t x fm =
     (case rf_conv R t of
        Some c \<Rightarrow> convert_from c t (FFM fm)
      | None \<Rightarrow>
          (case (t, x) of
             (YStruct n fs, XStruct xs) \<Rightarrow> map_res XStruct (fill_fields R fs xs fm)
           | _ \<Rightarrow> Inl RPanic))"
| "fill_fields R [] xs fm = Inr []"
| "fill_fields R (f # fs) xs fm =
     (case xs of
        [] \<Rightarrow> Inl RPanic
      | x # xs' \<Rightarrow> rbind (fill_field R f x fm) (\<lambda>y. map_res ((#) y) (fill_fields R fs xs' fm)))"
| "fill_field R (GField nm tag anon t) x fm =
     (if promotable R (GField nm tag anon t) then
        (case t of
           YPtr s \<Rightarrow>
             map_res (XPtr \<circ> Some) (fill R s (case x of XPtr (Some y) \<Rightarrow> y | _ \<Rightarrow> zero_of s) fm)
         | _ \<Rightarrow> fill R t x fm)
      else
        (case fm of
           None \<Rightarrow> Inl RPanic
         | Some m \<Rightarrow>
             let key = reflectKey R (GField nm tag anon t) in
             (case map_of m key of
                None \<Rightarrow> Inr x
              | Some raw \<Rightarrow>
                  (case rf_conv R t of
                     Some c \<Rightarrow> map_err (RIn key) (convert_from c t raw)
                   | None \<Rightarrow> fill_value R t x m key raw))))"
| "fill_value R t x m key raw =
     (case t of
        YVal g \<Rightarrow> if g = TFM then Inl (RIn key RUnsupported) else map_res XVal (map_err RGet (get_value g m key))
      | YStruct n fs \<Rightarrow>
          (case GetStruct m key of
             Inl e \<Rightarrow> Inl (RIn key (RNotAStruct e))
           | Inr None \<Rightarrow> Inl (RIn key RNullStruct)
           | Inr (Some nested) \<Rightarrow> map_err (RIn key) (fill R (YStruct n fs) x (Some nested)))
      | YArray n e \<Rightarrow>
          (case slice_elems R raw of
             None \<Rightarrow> Inl (RIn key RNotASlice)
           | Some vs \<Rightarrow>
               if length vs \<noteq> n then Inl (RIn key (RLength (length vs)))
               else map_res XArr (map_err (RIn key) (fill_array R e (case x of XArr xs \<Rightarrow> xs | _ \<Rightarrow> []) vs)))
      | YSlice e \<Rightarrow>
          if e = YVal TStr then
            map_res (XList \<circ> map (XVal \<circ> FStr)) (map_err RGet (GetListString m key))
          else if e = YVal TBig then
            map_res (XList \<circ> map (XVal \<circ> FBig)) (map_err RGet (GetListBig m key))
          else if is_struct e then
            (case GetListStruct m key of
               Inl err \<Rightarrow> Inl (RIn key (RGet err))
             | Inr ms \<Rightarrow> map_res XList (map_err (RIn key) (fill_list R e ms)))
          else
            (case assign R raw t of None \<Rightarrow> Inl (RIn key RDecodedAs) | Some y \<Rightarrow> Inr y)
      | YMap e \<Rightarrow>
          (case GetMap m key of
             None \<Rightarrow> Inl (RIn key RNotAMap)
           | Some kvs \<Rightarrow> map_res XMap (map_err (RIn key) (fill_entries R e kvs [])))
      | YPtr e \<Rightarrow>
          if e = YVal TStr then
            map_res (XPtr \<circ> map_option (XVal \<circ> FStr)) (map_err RGet (GetOptionalString m key))
          else if raw = FNil then Inr (XPtr None)
          else
            (case (if is_struct e then (case raw of FFM nested \<Rightarrow> Some nested | _ \<Rightarrow> None) else None) of
               Some nested \<Rightarrow> map_res (XPtr \<circ> Some) (map_err (RIn key) (fill R e (zero_of e) nested))
             | None \<Rightarrow>
                 (case rf_conv R e of
                    Some c \<Rightarrow> map_res (XPtr \<circ> Some) (map_err (RIn key) (convert_from c e raw))
                  | None \<Rightarrow>
                      (case assign R raw e of
                         None \<Rightarrow> Inl (RIn key RDecodedAs) | Some y \<Rightarrow> Inr (XPtr (Some y)))))
      | YOther n \<Rightarrow> Inl (RIn key RUnsupported))"
| "fill_list R e [] = Inr []"
| "fill_list R e (m # ms) =
     rbind (fill R e (zero_of e) m) (\<lambda>y. map_res ((#) y) (fill_list R e ms))"
| "setArrayElem R e x v =
     (if is_struct e then
        (case v of FFM (Some nested) \<Rightarrow> fill R e x (Some nested) | _ \<Rightarrow> Inr x)
      else if v = FNil then Inr x
      else (case convert R v e of Some y \<Rightarrow> Inr y | None \<Rightarrow> Inl RCannotAssign))"
| "fill_array R e xs [] = Inr []"
| "fill_array R e xs (v # vs) =
     (case xs of
        [] \<Rightarrow> Inl RPanic
      | x # xs' \<Rightarrow> rbind (setArrayElem R e x v) (\<lambda>y. map_res ((#) y) (fill_array R e xs' vs)))"
| "fill_entries R e [] out = Inr out"
| "fill_entries R e ((k, v) # kvs) out =
     (if is_struct e then
        (case v of
           FFM nested \<Rightarrow> rbind (fill R e (zero_of e) nested) (\<lambda>y. fill_entries R e kvs (AList.update k y out))
         | _ \<Rightarrow> fill_entries R e kvs out)
      else
        (case (if v = FNil then None else convert R v e) of
           None \<Rightarrow> fill_entries R e kvs out
         | Some y \<Rightarrow> fill_entries R e kvs (AList.update k y out)))"
  by pat_completeness auto

termination
  by (relation "measures
      [case_sum
         (case_sum (case_sum (\<lambda>(R, t, x, fm). 3 * size t) (\<lambda>(R, fs, xs, fm). 3 * size_list size fs + 1))
            (case_sum (\<lambda>(R, f, x, fm). 3 * size f) (\<lambda>(R, t, x, m, key, raw). 3 * size t + 1)))
         (case_sum (case_sum (\<lambda>(R, e, ms). 3 * size e + 1) (\<lambda>(R, e, x, v). 3 * size e + 1))
            (case_sum (\<lambda>(R, e, xs, vs). 3 * size e + 2) (\<lambda>(R, e, kvs, out). 3 * size e + 1))),
       case_sum (\<lambda>_. 0)
         (case_sum (case_sum (\<lambda>(R, e, ms). length ms) (\<lambda>_. 0))
            (case_sum (\<lambda>(R, e, xs, vs). length vs) (\<lambda>(R, e, kvs, out). length kvs)))]") auto

declare fill.simps [simp del] fill_field.simps [simp del] fill_value.simps [simp del] setArrayElem.simps [simp del]

definition reflectFill :: "reflect_env \<Rightarrow> gty \<Rightarrow> gv \<Rightarrow> field_map \<Rightarrow> reflect_error + gv" where
  "reflectFill R t x fm = fill (R\<lparr>rf_conv := \<lambda>_. None\<rparr>) t x (Some fm)"

subsection \<open>From a struct to a FieldMap\<close>

text \<open>What a converter renders is stored as the value it is; any other carrier panics.\<close>

definition storeNative :: "field_map \<Rightarrow> string \<Rightarrow> fval \<Rightarrow> reflect_error + field_map" where
  "storeNative fm key v =
     (case setScalar fm key v of
        (fm', True) \<Rightarrow> Inr fm'
      | (_, False) \<Rightarrow>
          (case v of
             FFM m \<Rightarrow> Inr (SetStruct fm key m)
           | FSlice t vs \<Rightarrow> if t = TFM then Inr (set_field fm key (FSlice TFM vs)) else Inl RPanic
           | FVariant x \<Rightarrow> Inr (set_field fm key (FVariant x))
           | _ \<Rightarrow> Inl RPanic))"

definition convert_to :: "converter \<Rightarrow> gv \<Rightarrow> reflect_error + fval" where
  "convert_to c x = (case cv_to c x of None \<Rightarrow> Inl RPanic | Some v \<Rightarrow> Inr v)"

text \<open>\<open>maps.Copy\<close>.\<close>

definition copy_map :: "field_map \<Rightarrow> field_map \<Rightarrow> field_map" where
  "copy_map dst src = fold (\<lambda>(k, v) m. AList.update k v m) src dst"

text \<open>The type switch on the value of a scalar field.\<close>

definition set_value :: "field_map \<Rightarrow> string \<Rightarrow> fval \<Rightarrow> field_map" where
  "set_value fm key v = (case v of
     FU8 x \<Rightarrow> SetU8 fm key x | FU16 x \<Rightarrow> SetU16 fm key x | FU32 x \<Rightarrow> SetU32 fm key x | FU64 x \<Rightarrow> SetU64 fm key x
   | FI8 x \<Rightarrow> SetI8 fm key x | FI16 x \<Rightarrow> SetI16 fm key x | FI32 x \<Rightarrow> SetI32 fm key x | FI64 x \<Rightarrow> SetI64 fm key x
   | FF32 x \<Rightarrow> SetF32 fm key x | FF64 x \<Rightarrow> SetF64 fm key x | FBool x \<Rightarrow> SetBool fm key x
   | FStr x \<Rightarrow> SetString fm key x | FBytes x \<Rightarrow> SetBytes fm key x | FBig x \<Rightarrow> SetBig fm key x | _ \<Rightarrow> fm)"

function extract_to :: "reflect_env \<Rightarrow> gty \<Rightarrow> gv \<Rightarrow> field_map \<Rightarrow> reflect_error + field_map"
  and extract_fields :: "reflect_env \<Rightarrow> gfield list \<Rightarrow> gv list \<Rightarrow> field_map \<Rightarrow> reflect_error + field_map"
  and extract_field :: "reflect_env \<Rightarrow> gfield \<Rightarrow> gv \<Rightarrow> field_map \<Rightarrow> reflect_error + field_map"
  and extract_value :: "reflect_env \<Rightarrow> gty \<Rightarrow> gv \<Rightarrow> string \<Rightarrow> field_map \<Rightarrow> reflect_error + field_map"
  and extractElems :: "reflect_env \<Rightarrow> gty \<Rightarrow> gv list \<Rightarrow> reflect_error + field_map option list"
  and extract_entries :: "reflect_env \<Rightarrow> gty \<Rightarrow> gv gomap \<Rightarrow> fval gomap \<Rightarrow> reflect_error + fval gomap"
  where
  "extract_to R t x fm =
     (case rf_conv R t of
        Some c \<Rightarrow>
          rbind (convert_to c x) (\<lambda>v.
            case v of FFM (Some m) \<Rightarrow> Inr (copy_map fm m) | _ \<Rightarrow> Inl RPanic)
      | None \<Rightarrow>
          (case (t, x) of
             (YStruct n fs, XStruct xs) \<Rightarrow> extract_fields R fs xs fm
           | _ \<Rightarrow> Inl RPanic))"
| "extract_fields R [] xs fm = Inr fm"
| "extract_fields R (f # fs) xs fm =
     (case xs of
        [] \<Rightarrow> Inl RPanic
      | x # xs' \<Rightarrow> rbind (extract_field R f x fm) (extract_fields R fs xs'))"
| "extract_field R (GField nm tag anon t) x fm =
     (if promotable R (GField nm tag anon t) then
        (case t of
           YPtr s \<Rightarrow> (case x of XPtr (Some y) \<Rightarrow> extract_to R s y fm | _ \<Rightarrow> Inr fm)
         | _ \<Rightarrow> extract_to R t x fm)
      else
        let key = reflectKey R (GField nm tag anon t) in
        (case rf_conv R t of
           Some c \<Rightarrow> rbind (convert_to c x) (storeNative fm key)
         | None \<Rightarrow> extract_value R t x key fm))"
| "extract_value R t x key fm =
     (case (t, x) of
        (YVal g, XVal v) \<Rightarrow> Inr (set_value fm key v)
      | (YStruct n fs, _) \<Rightarrow>
          map_res (\<lambda>m. SetStruct fm key (Some m)) (extract_to R (YStruct n fs) x NewFieldMap)
      | (YArray n e, XArr xs) \<Rightarrow>
          if is_struct e then map_res (\<lambda>ms. set_field fm key (mk_slice TFM (map FFM ms))) (extractElems R e xs)
          else Inr (set_field fm key (slice_any R e xs))
      | (YSlice e, XList xs) \<Rightarrow>
          if is_struct e then map_res (SetListStruct fm key) (extractElems R e xs)
          else Inr (set_field fm key (slice_any R e xs))
      | (YPtr e, XPtr p) \<Rightarrow>
          if e = YVal TStr then
            Inr (SetOptionalString fm key (case p of Some (XVal (FStr s)) \<Rightarrow> Some s | _ \<Rightarrow> None))
          else
            (case p of
               None \<Rightarrow> Inr (set_field fm key FNil)
             | Some y \<Rightarrow>
                 if is_struct e then
                   map_res (\<lambda>m. set_field fm key (FFM (Some m))) (extract_to R e y NewFieldMap)
                 else
                   (case rf_conv R e of
                      Some c \<Rightarrow> rbind (convert_to c y) (storeNative fm key)
                    | None \<Rightarrow> Inr (set_field fm key (to_any R e y))))
      | (YMap e, XMap kvs) \<Rightarrow> map_res (SetMap fm key) (extract_entries R e kvs [])
      | _ \<Rightarrow> Inr fm)"
| "extractElems R e [] = Inr []"
| "extractElems R e (x # xs) =
     rbind (extract_to R e x NewFieldMap) (\<lambda>m. map_res ((#) (Some m)) (extractElems R e xs))"
| "extract_entries R e [] out = Inr out"
| "extract_entries R e ((k, x) # kvs) out =
     (if is_struct e then
        rbind (extract_to R e x NewFieldMap) (\<lambda>m. extract_entries R e kvs (AList.update k (FFM (Some m)) out))
      else extract_entries R e kvs (AList.update k (to_any R e x) out))"
  by pat_completeness auto

termination
  by (relation "measures
      [case_sum
         (case_sum (\<lambda>(R, t, x, fm). 3 * size t) (case_sum (\<lambda>(R, fs, xs, fm). 3 * size_list size fs + 1) (\<lambda>(R, f, x, fm). 3 * size f)))
         (case_sum (\<lambda>(R, t, x, key, fm). 3 * size t + 1)
            (case_sum (\<lambda>(R, e, xs). 3 * size e + 1) (\<lambda>(R, e, kvs, out). 3 * size e + 1))),
       case_sum (\<lambda>_. 0)
         (case_sum (\<lambda>_. 0) (case_sum (\<lambda>(R, e, xs). length xs) (\<lambda>(R, e, kvs, out). length kvs)))]") auto

declare extract_to.simps [simp del] extract_field.simps [simp del] extract_value.simps [simp del]

definition reflectExtract :: "reflect_env \<Rightarrow> gty \<Rightarrow> gv \<Rightarrow> field_map \<Rightarrow> reflect_error + field_map" where
  "reflectExtract R t x fm = extract_to (R\<lparr>rf_conv := \<lambda>_. None\<rparr>) t x fm"

end
