(* ===== verification/ReflectFacts.thy ===== *)
theory ReflectFacts
  imports Reflect
begin

section \<open>A struct survives its FieldMap\<close>

text \<open>
  The reflection codec loses nothing on the types it supports: filling a struct from what was extracted
  from another makes it equal to that one, at any nesting, with converters that keep their contract.
\<close>

subsection \<open>Typed values and supported models\<close>

fun has_ty :: "gty \<Rightarrow> gv \<Rightarrow> bool" and fields_ty :: "gfield list \<Rightarrow> gv list \<Rightarrow> bool" where
  "has_ty (YVal g) x = (case x of XVal v \<Rightarrow> has_gtype g v | _ \<Rightarrow> False)"
| "has_ty (YSlice e) x = (case x of XList xs \<Rightarrow> list_all (has_ty e) xs | _ \<Rightarrow> False)"
| "has_ty (YArray n e) x = (case x of XArr xs \<Rightarrow> length xs = n \<and> list_all (has_ty e) xs | _ \<Rightarrow> False)"
| "has_ty (YPtr e) x = (case x of XPtr p \<Rightarrow> (case p of None \<Rightarrow> True | Some y \<Rightarrow> has_ty e y) | _ \<Rightarrow> False)"
| "has_ty (YMap e) x = (case x of XMap kvs \<Rightarrow> map_wf kvs \<and> list_all (\<lambda>kv. has_ty e (snd kv)) kvs | _ \<Rightarrow> False)"
| "has_ty (YStruct n fs) x = (case x of XStruct xs \<Rightarrow> fields_ty fs xs | _ \<Rightarrow> False)"
| "has_ty (YOther n) x = (case x of XOther s \<Rightarrow> True | _ \<Rightarrow> False)"
| "fields_ty [] xs = (xs = [])"
| "fields_ty (GField nm tag a t # fs) xs = (case xs of [] \<Rightarrow> False | x # xs' \<Rightarrow> has_ty t x \<and> fields_ty fs xs')"

lemma has_gtype_zero: "has_gtype g (zero_fval g)"
  by (cases g) (simp_all add: has_gtype_def zero_fval_def)

lemma zero_typed: "has_ty t (zero_of t)" "fields_ty fs (zero_fields fs)"
  by (induction t and fs rule: zero_of_zero_fields.induct) (simp_all add: has_gtype_zero list_all_iff)

text \<open>A converter of a struct type whose carrier is always a FieldMap.\<close>

definition renders_maps :: "reflect_env \<Rightarrow> gty \<Rightarrow> bool" where
  "renders_maps R t \<longleftrightarrow> (\<forall>c x. rf_conv R t = Some c \<longrightarrow> has_ty t x \<longrightarrow>
     (\<exists>m. cv_to c x = Some (FFM (Some m)) \<and> map_wf m))"

text \<open>The keys of a struct, those of embedded structs included.\<close>

fun flat_keys :: "reflect_env \<Rightarrow> gfield list \<Rightarrow> string list" where
  "flat_keys R [] = []"
| "flat_keys R (GField nm tag a t # fs) =
     (if promotable R (GField nm tag a t) then (case t of YStruct n gs \<Rightarrow> flat_keys R gs | _ \<Rightarrow> [])
      else [reflectKey R (GField nm tag a t)]) @ flat_keys R fs"

text \<open>The models that survive: fields of any type the code handles or a converter is registered for,
  elements of slices, arrays and maps scalars or structs, no embedded pointers, no two fields with
  one key.\<close>

function model_ty :: "reflect_env \<Rightarrow> gty \<Rightarrow> bool" and elem_ok :: "reflect_env \<Rightarrow> gty \<Rightarrow> bool"
  and fields_ok :: "reflect_env \<Rightarrow> gfield list \<Rightarrow> bool" where
  "model_ty R (YVal g) = (g \<noteq> TFM)"
| "model_ty R (YSlice e) = (e \<noteq> YVal TU8 \<and> elem_ok R e)"
| "model_ty R (YArray n e) = elem_ok R e"
| "model_ty R (YPtr e) = (rf_conv R e \<noteq> None \<and> \<not> is_struct e \<or> elem_ok R e)"
| "model_ty R (YMap e) = elem_ok R e"
| "model_ty R (YStruct n fs) = (fields_ok R fs \<and> distinct (flat_keys R fs))"
| "model_ty R (YOther n) = False"
| "elem_ok R e =
     (case e of
        YVal g \<Rightarrow> g \<noteq> TFM
      | YStruct n fs \<Rightarrow> (if rf_conv R e = None then model_ty R e else renders_maps R e)
      | _ \<Rightarrow> False)"
| "fields_ok R [] = True"
| "fields_ok R (GField nm tag a t # fs) =
     ((if promotable R (GField nm tag a t) then (case t of YStruct n gs \<Rightarrow> fields_ok R gs | _ \<Rightarrow> False)
       else rf_conv R t \<noteq> None \<or> model_ty R t) \<and> fields_ok R fs)"
  by pat_completeness auto
termination
  by (relation "measure (case_sum (\<lambda>(R, t). 2 * size t)
       (case_sum (\<lambda>(R, t). 2 * size t + 1) (\<lambda>(R, fs). 2 * size_list size fs)))") auto

declare elem_ok.simps [simp del]

subsection \<open>Lists of scalars\<close>

lemma vals_of_typed:
  "list_all (has_ty (YVal g)) xs \<Longrightarrow> map XVal (map val_of xs) = xs \<and> list_all (has_gtype g) (map val_of xs)"
  by (induction xs) (auto simp: val_of_def split: gv.splits)

lemma slice_roundtrip:
  assumes "list_all (has_ty (YVal g)) xs"
  shows "as_slice g (mk_slice g (map val_of xs)) = Some (map val_of xs)"
    and "map XVal (map val_of xs) = xs"
  using vals_of_typed [OF assms] as_slice_mk_slice [of "map val_of xs" g] by (auto simp: list_all_iff)

lemma slice_elems_mk_slice:
  "list_all (has_gtype g) vs \<Longrightarrow> slice_elems R (mk_slice g vs) = Some vs"
  using as_slice_mk_slice [of vs g] by (auto simp: list_all_iff mk_slice_def as_slice_def slice_elems_def split: if_splits)

lemma assign_typed: "has_gtype g v \<Longrightarrow> assign R v (YVal g) = Some (XVal v)"
  by (cases v) (auto simp: assign_def has_gtype_def)

lemma assign_slice: "list_all (has_ty (YVal g)) xs \<Longrightarrow>
    assign R (mk_slice g (map val_of xs)) (YSlice (YVal g)) = Some (XList xs)"
  using slice_roundtrip [of g xs] by (auto simp: assign_def mk_slice_def)

lemma convert_typed: "has_gtype g v \<Longrightarrow> convert R v (YVal g) = Some (XVal v)"
  by (simp add: convert_def assign_typed)

lemma typed_not_nil: "has_gtype g v \<Longrightarrow> v \<noteq> FNil"
  by (auto simp: has_gtype_def)

lemma array_roundtrip:
  "list_all (has_ty (YVal g)) xs \<Longrightarrow> length ys = length xs \<Longrightarrow> fill_array R (YVal g) ys (map val_of xs) = Inr xs"
proof (induction xs arbitrary: ys)
  case (Cons x xs)
  then obtain y ys' where [simp]: "ys = y # ys'" by (cases ys) auto
  obtain v where v: "x = XVal v" "has_gtype g v" using Cons.prems(1) by (cases x) auto
  then have "setArrayElem R (YVal g) y v = Inr x"
    by (simp add: setArrayElem.simps is_struct_def typed_not_nil convert_typed)
  then show ?case using Cons v(1) by (simp add: val_of_def)
qed simp

text \<open>A scalar field.\<close>

lemma scalar_roundtrip:
  assumes "has_gtype g v" "g \<noteq> TFM"
  shows "set_value fm k v = set_field fm k v"
    and "map_of m k = Some v \<Longrightarrow> get_value g m k = Inr v"
  using assms by (cases v; simp add: has_gtype_def set_value_def get_value_def accessor_defs getTyped_def
      asU8_def asU16_def asU32_def asU64_def asI8_def asI16_def asI32_def asI64_def asF32_def asF64_def
      asBool_def asBig_def asStr_def asBytes_def)+

subsection \<open>Structs, elements and fields\<close>

lemma copy_map_Nil [simp]: "copy_map fm [] = fm"
  and copy_map_append: "copy_map fm (a @ b) = copy_map (copy_map fm a) b"
  and copy_map_single: "copy_map fm [(k, v)] = set_field fm k v"
  by (simp_all add: copy_map_def set_field_def)

text \<open>The struct \<open>x\<close> of type \<open>t\<close> is rendered as the entries \<open>kvs\<close>, from which any struct is filled to \<open>x\<close>.\<close>

definition rendered_fields :: "reflect_env \<Rightarrow> gfield list \<Rightarrow> gv list \<Rightarrow> field_map \<Rightarrow> bool" where
  "rendered_fields R fs xs kvs \<longleftrightarrow> map fst kvs = flat_keys R fs \<and>
     (\<forall>fm. extract_fields R fs xs fm = Inr (copy_map fm kvs)) \<and>
     (\<forall>m ys. fields_ty fs ys \<longrightarrow> (\<forall>(k, v) \<in> set kvs. map_of m k = Some v) \<longrightarrow> fill_fields R fs ys (Some m) = Inr xs)"

definition rendered_value :: "reflect_env \<Rightarrow> gty \<Rightarrow> gv \<Rightarrow> string \<Rightarrow> fval \<Rightarrow> bool" where
  "rendered_value R t x k v \<longleftrightarrow>
     (\<forall>fm. extract_value R t x k fm = Inr (set_field fm k v)) \<and>
     (\<forall>m y. has_ty t y \<longrightarrow> map_of m k = Some v \<longrightarrow> fill_value R t y m k v = Inr x)"

definition rendered_map :: "reflect_env \<Rightarrow> gty \<Rightarrow> gv \<Rightarrow> field_map \<Rightarrow> bool" where
  "rendered_map R t x m \<longleftrightarrow> extract_to R t x NewFieldMap = Inr m \<and>
     (\<forall>y. has_ty t y \<longrightarrow> fill R t y (Some m) = Inr x)"

text \<open>A stored element: a FieldMap of a struct, or the scalar itself.\<close>

definition rendered_elem :: "reflect_env \<Rightarrow> gty \<Rightarrow> gv \<Rightarrow> bool" where
  "rendered_elem R e x \<longleftrightarrow>
     (if is_struct e then \<exists>m. rendered_map R e x m
      else \<exists>g v. e = YVal g \<and> g \<noteq> TFM \<and> x = XVal v \<and> has_gtype g v)"

lemma rendered_struct:
  assumes "rendered_fields R fs xs kvs" "distinct (flat_keys R fs)" "rf_conv R (YStruct n fs) = None"
  shows "rendered_map R (YStruct n fs) (XStruct xs) kvs"
proof -
  have d: "distinct (map fst kvs)" using assms(1,2) by (simp add: rendered_fields_def)
  then have "copy_map NewFieldMap kvs = kvs"
    using fold_update_fresh [of "[]" kvs] by (simp add: copy_map_def NewFieldMap_def)
  moreover have "\<forall>(k, v) \<in> set kvs. map_of kvs k = Some v" using d by auto
  ultimately show ?thesis
    using assms(1,3) by (auto simp: rendered_map_def rendered_fields_def extract_to.simps fill.simps split: gv.splits)
qed

lemma extractElems_length: "extractElems R e xs = Inr ms \<Longrightarrow> length ms = length xs"
  by (induction xs arbitrary: ms) (auto simp: res_inv)

lemma rendered_list:
  assumes "\<forall>x \<in> set xs. \<exists>m. rendered_map R e x m" "is_struct e"
  shows "\<exists>ms. extractElems R e xs = Inr (map Some ms) \<and> fill_list R e (map Some ms) = Inr xs \<and>
    (\<forall>ys. list_all (has_ty e) ys \<longrightarrow> length ys = length xs \<longrightarrow>
      fill_array R e ys (map (\<lambda>m. FFM (Some m)) ms) = Inr xs)"
  using assms(1)
proof (induction xs)
  case (Cons x xs)
  obtain m where m: "rendered_map R e x m" using Cons.prems by auto
  obtain ms where ms: "extractElems R e xs = Inr (map Some ms)" "fill_list R e (map Some ms) = Inr xs"
    "\<And>ys. list_all (has_ty e) ys \<Longrightarrow> length ys = length xs \<Longrightarrow>
       fill_array R e ys (map (\<lambda>m. FFM (Some m)) ms) = Inr xs"
    using Cons by auto
  have "fill_array R e ys (map (\<lambda>m. FFM (Some m)) (m # ms)) = Inr (x # xs)"
    if "list_all (has_ty e) ys" "length ys = length (x # xs)" for ys
    using that ms(3) m assms(2) by (cases ys) (auto simp: setArrayElem.simps rendered_map_def)
  moreover have "extractElems R e (x # xs) = Inr (map Some (m # ms))" "fill_list R e (map Some (m # ms)) = Inr (x # xs)"
    using m ms(1,2) zero_typed(1) [of e] by (auto simp: rendered_map_def)
  ultimately show ?case by blast
qed simp

lemma rendered_entries:
  assumes "\<forall>(k, x) \<in> set kvs. rendered_elem R e x" "map_wf (kvs0 @ kvs)"
  shows "\<exists>ms. map fst ms = map fst kvs \<and>
    (\<forall>out. map fst out = map fst kvs0 \<longrightarrow> extract_entries R e kvs out = Inr (out @ ms)) \<and>
    fill_entries R e ms kvs0 = Inr (kvs0 @ kvs)"
  using assms
proof (induction kvs arbitrary: kvs0)
  case (Cons p kvs)
  obtain k x where p: "p = (k, x)" by (cases p)
  have fresh: "k \<notin> fst ` set kvs0" using Cons.prems(2) p by (auto simp: map_wf_def)
  obtain v where v: "\<And>out. extract_entries R e (p # kvs) out = extract_entries R e kvs (AList.update k v out)"
    "\<And>ms out. fill_entries R e ((k, v) # ms) out = fill_entries R e ms (AList.update k x out)"
  proof (cases "is_struct e")
    case True
    then obtain m where "rendered_map R e x m" using Cons.prems(1) p by (auto simp: rendered_elem_def)
    then show thesis using that [of "FFM (Some m)"] True zero_typed(1) [of e]
      by (auto simp: p rendered_map_def)
  next
    case False
    then obtain g v where "e = YVal g" "x = XVal v" "has_gtype g v"
      using Cons.prems(1) p by (auto simp: rendered_elem_def)
    then show thesis using that [of v] False
      by (simp add: p to_any_def typed_not_nil convert_typed)
  qed
  obtain ms where ms: "map fst ms = map fst kvs" 
    "\<And>out. map fst out = map fst (kvs0 @ [p]) \<Longrightarrow> extract_entries R e kvs out = Inr (out @ ms)"
    "fill_entries R e ms (kvs0 @ [p]) = Inr ((kvs0 @ [p]) @ kvs)"
    using Cons.IH [of "kvs0 @ [p]"] Cons.prems by auto
  have "extract_entries R e (p # kvs) out = Inr (out @ (k, v) # ms)" if "map fst out = map fst kvs0" for out
  proof -
    have "k \<notin> fst ` set out" using fresh that by (metis list.set_map)
    then show ?thesis unfolding v(1) using ms(2) [of "out @ [(k, v)]"] that by (simp add: update_fresh p)
  qed
  moreover have "fill_entries R e ((k, v) # ms) kvs0 = Inr (kvs0 @ p # kvs)"
    unfolding v(2) using ms(3) fresh by (simp add: update_fresh p)
  ultimately show ?case using ms(1) p by (intro exI [of _ "(k, v) # ms"]) auto
qed simp

lemma pointer_to_string:
  assumes "has_ty (YPtr (YVal TStr)) x"
  shows "\<exists>v. rendered_value R (YPtr (YVal TStr)) x k v"
proof -
  obtain p where x: "x = XPtr p" using assms by (auto split: gv.splits)
  obtain s where s: "p = map_option (XVal \<circ> FStr) s"
    using assms x that [of None] that [of "Some _"]
    by (cases p) (auto simp: has_gtype_def split: gv.splits fval.splits)
  show ?thesis
    by (intro exI [of _ "case s of None \<Rightarrow> FNil | Some z \<Rightarrow> FStr z"])
      (auto simp: x s rendered_value_def extract_value.simps fill_value.simps SetOptionalString_def
        GetOptionalString_def split: option.splits)
qed

lemma native_list:
  assumes "list_all (has_ty (YVal g)) xs" "\<And>v. has_gtype g v \<Longrightarrow> \<exists>y. v = con y \<and> as v = Some y"
    and "map_of m k = Some (mk_slice g (map val_of xs))"
  shows "map_res (map (XVal \<circ> con)) (getTyped (as_list g as) m k) = Inr xs"
proof -
  have "map (XVal \<circ> con) (List.map_filter as (map val_of xs)) = xs"
    using assms(1)
  proof (induction xs)
    case (Cons x xs)
    then obtain v where "x = XVal v" "has_gtype g v" by (cases x) auto
    with assms(2) [of v] Cons show ?case by (auto simp: val_of_def List.map_filter_simps)
  qed simp
  then show ?thesis
    using slice_roundtrip(1) [OF assms(1)] assms(3) by (simp add: getTyped_def as_list_def)
qed

lemma list_of_strings:
  "list_all (has_ty (YVal TStr)) xs \<Longrightarrow> map_of m k = Some (mk_slice TStr (map val_of xs)) \<Longrightarrow>
     map_res (map (XVal \<circ> FStr)) (GetListString m k) = Inr xs"
  unfolding GetListString_def
  by (rule native_list) (auto simp: has_gtype_def asStr_def split: fval.splits)

lemma list_of_bigs:
  "list_all (has_ty (YVal TBig)) xs \<Longrightarrow> map_of m k = Some (mk_slice TBig (map val_of xs)) \<Longrightarrow>
     map_res (map (XVal \<circ> FBig)) (GetListBig m k) = Inr xs"
  unfolding GetListBig_def
  by (rule native_list) (auto simp: has_gtype_def asBig_def split: fval.splits)

text \<open>The values of the types that hold others.\<close>

lemma map_res_list: "map_res f r = Inr xs \<Longrightarrow> map_res (XList \<circ> f) (map_err h r) = Inr (XList xs)"
  by (cases r) simp_all

lemma rendered_slice:
  assumes "has_ty (YSlice e) x" "\<And>xs. x = XList xs \<Longrightarrow> \<forall>y \<in> set xs. rendered_elem R e y"
    and "is_struct e \<or> (\<exists>g. e = YVal g)"
  shows "\<exists>v. rendered_value R (YSlice e) x k v"
proof -
  obtain xs where x: "x = XList xs" and xs: "list_all (has_ty e) xs" using assms(1) by (auto split: gv.splits)
  show ?thesis
  proof (cases "is_struct e")
    case True
    then obtain ms where ms: "extractElems R e xs = Inr (map Some ms)" "fill_list R e (map Some ms) = Inr xs"
      using rendered_list [of xs R e] assms(2) [OF x] by (auto simp: rendered_elem_def)
    moreover have "e \<noteq> YVal TStr" "e \<noteq> YVal TBig" using True by (auto simp: is_struct_def)
    moreover have "GetListStruct m k = Inr (map Some ms)" if "map_of m k = Some (mk_slice TFM (map FFM (map Some ms)))" for m
      using that accListStruct.as_con [of "map Some ms"] by (simp add: GetListStruct_def getTyped_def)
    ultimately show ?thesis
      by (intro exI [of _ "mk_slice TFM (map FFM (map Some ms))"])
        (simp add: rendered_value_def extract_value.simps fill_value.simps x True SetListStruct_def del: map_map)
  next
    case False
    then obtain g where e: "e = YVal g" using assms(3) by auto
    have "fill_value R (YSlice e) y m k (mk_slice g (map val_of xs)) = Inr (XList xs)"
      if "map_of m k = Some (mk_slice g (map val_of xs))" for m y
    proof -
      have "fill_value R (YSlice (YVal g)) y m k (mk_slice g (map val_of xs)) =
          (if g = TStr then map_res (XList \<circ> map (XVal \<circ> FStr)) (map_err RGet (GetListString m k))
           else if g = TBig then map_res (XList \<circ> map (XVal \<circ> FBig)) (map_err RGet (GetListBig m k))
           else case assign R (mk_slice g (map val_of xs)) (YSlice (YVal g)) of
             None \<Rightarrow> Inl (RIn k RDecodedAs) | Some y \<Rightarrow> Inr y)"
        by (simp add: fill_value.simps is_struct_def)
      also have "\<dots> = Inr (XList xs)"
        using map_res_list [OF list_of_strings, of xs m k RGet] map_res_list [OF list_of_bigs, of xs m k RGet]
          assign_slice [of g xs R] xs that unfolding e by auto
      finally show ?thesis by (simp add: e)
    qed
    then show ?thesis
      by (intro exI [of _ "mk_slice g (map val_of xs)"])
        (simp add: rendered_value_def extract_value.simps x e slice_any_def is_struct_def)
  qed
qed

lemma rendered_array:
  assumes "has_ty (YArray n e) x" "\<And>xs. x = XArr xs \<Longrightarrow> \<forall>y \<in> set xs. rendered_elem R e y"
    and "is_struct e \<or> (\<exists>g. e = YVal g)"
  shows "\<exists>v. rendered_value R (YArray n e) x k v"
proof -
  obtain xs where x: "x = XArr xs" and xs: "list_all (has_ty e) xs" "length xs = n"
    using assms(1) by (auto split: gv.splits)
  show ?thesis
  proof (cases "is_struct e")
    case True
    then obtain ms where ms: "extractElems R e xs = Inr (map Some ms)"
      "\<And>ys. list_all (has_ty e) ys \<Longrightarrow> length ys = length xs \<Longrightarrow>
         fill_array R e ys (map (\<lambda>m. FFM (Some m)) ms) = Inr xs"
      using rendered_list [of xs R e] assms(2) [OF x] by (auto simp: rendered_elem_def)
    have "length ms = n" using ms(2) [of xs] xs extractElems_length [OF ms(1)] by simp
    then show ?thesis using ms xs(2) True
      by (intro exI [of _ "FSlice TFM (map (\<lambda>m. FFM (Some m)) ms)"])
        (auto simp: rendered_value_def extract_value.simps fill_value.simps x mk_slice_def slice_elems_def comp_def
          split: gv.splits)
  next
    case False
    then obtain g where e: "e = YVal g" using assms(3) by auto
    have "slice_elems R (mk_slice g (map val_of xs)) = Some (map val_of xs)"
      using slice_elems_mk_slice vals_of_typed xs(1) e by blast
    then show ?thesis using xs array_roundtrip [of g xs]
      by (intro exI [of _ "mk_slice g (map val_of xs)"])
        (auto simp: rendered_value_def extract_value.simps fill_value.simps x e slice_any_def is_struct_def
          split: gv.splits)
  qed
qed

lemma rendered_mapping:
  assumes "has_ty (YMap e) x" "\<And>kvs. x = XMap kvs \<Longrightarrow> \<forall>(k, y) \<in> set kvs. rendered_elem R e y"
  shows "\<exists>v. rendered_value R (YMap e) x k v"
proof -
  obtain kvs where x: "x = XMap kvs" and "map_wf kvs" using assms(1) by (auto split: gv.splits)
  then obtain ms where "extract_entries R e kvs [] = Inr ms" "fill_entries R e ms [] = Inr kvs"
    using rendered_entries [of kvs R e "[]"] assms(2) [OF x] by auto
  then show ?thesis
    by (intro exI [of _ "FMap ms"])
      (simp add: rendered_value_def extract_value.simps fill_value.simps x SetMap_def GetMap_def)
qed

subsection \<open>The contract of the converters\<close>

definition storable :: "fval \<Rightarrow> bool" where
  "storable v \<longleftrightarrow> is_scalar_value v \<or>
     (case v of FFM m \<Rightarrow> True | FSlice t vs \<Rightarrow> t = TFM | FVariant x \<Rightarrow> True | _ \<Rightarrow> False)"

lemma storeNative_storable: "storable v \<Longrightarrow> storeNative fm k v = Inr (set_field fm k v)"
  by (auto simp: storable_def storeNative_def setScalar_def SetStruct_def split: fval.splits)

locale lawful_converters =
  fixes R :: reflect_env
  assumes lawful: "rf_conv R t = Some c \<Longrightarrow> has_ty t x \<Longrightarrow>
    \<exists>v. cv_to c x = Some v \<and> storable v \<and> cv_type c = t \<and> cv_from c v = Inr x"
begin

lemma converted:
  assumes "rf_conv R t = Some c" "has_ty t x"
  obtains v where "convert_to c x = Inr v" "storable v" "convert_from c t v = Inr x"
  using lawful [OF assms] by (auto simp: convert_to_def convert_from_def)

text \<open>A field with a converter holds what the converter renders.\<close>

lemma converted_field:
  assumes "rf_conv R t = Some c" "has_ty t x" "\<not> promotable R (GField nm tag a t)"
  shows "\<exists>v. (\<forall>fm. extract_field R (GField nm tag a t) x fm = Inr (set_field fm (reflectKey R (GField nm tag a t)) v)) \<and>
    (\<forall>m y. map_of m (reflectKey R (GField nm tag a t)) = Some v \<longrightarrow>
      fill_field R (GField nm tag a t) y (Some m) = Inr x)"
proof -
  obtain v where v: "convert_to c x = Inr v" "storable v" "convert_from c t v = Inr x"
    using converted [OF assms(1,2)] .
  then show ?thesis using assms
    by (auto simp: extract_field.simps fill_field.simps Let_def storeNative_storable)
qed

text \<open>A struct type with a converter for FieldMaps, as an element.\<close>

lemma converted_struct:
  assumes "rf_conv R t = Some c" "has_ty t x" "renders_maps R t"
  shows "\<exists>m. rendered_map R t x m"
proof -
  obtain v where v: "convert_to c x = Inr v" "convert_from c t v = Inr x"
    using converted [OF assms(1,2)] by metis
  obtain m where m: "cv_to c x = Some (FFM (Some m))" "map_wf m"
    using assms by (auto simp: renders_maps_def)
  then have "copy_map NewFieldMap m = m"
    using fold_update_fresh [of "[]" m] by (simp add: copy_map_def NewFieldMap_def map_wf_def)
  with v m assms(1) show ?thesis
    by (auto simp: rendered_map_def extract_to.simps fill.simps convert_to_def)
qed

lemma rendered_pointer:
  assumes "has_ty (YPtr e) x" "e \<noteq> YVal TStr"
    and "\<And>y. x = XPtr (Some y) \<Longrightarrow> rf_conv R e \<noteq> None \<and> \<not> is_struct e \<or> rendered_elem R e y \<and> (is_struct e \<or> rf_conv R e = None)"
  shows "\<exists>v. rendered_value R (YPtr e) x k v"
proof -
  obtain p where x: "x = XPtr p" using assms(1) by (auto split: gv.splits)
  show ?thesis
  proof (cases p)
    case None
    then show ?thesis using x assms(2)
      by (intro exI [of _ FNil]) (simp add: rendered_value_def extract_value.simps fill_value.simps)
  next
    case (Some y)
    have ty: "has_ty e y" using assms(1) x Some by simp
    consider (conv) c where "rf_conv R e = Some c" "\<not> is_struct e"
      | (struct) m where "is_struct e" "rendered_map R e y m"
      | (val) g v where "e = YVal g" "y = XVal v" "has_gtype g v" "rf_conv R e = None"
      using assms(3) [of y] x Some by (auto simp: rendered_elem_def split: if_splits)
    then show ?thesis
    proof cases
      case conv
      obtain v where v: "convert_to c y = Inr v" "storable v" "convert_from c e v = Inr y"
        using converted [OF conv(1) ty] .
      have "v \<noteq> FNil" using v(2) by (auto simp: storable_def is_scalar_value_def)
      then show ?thesis using v conv assms(2) x Some
        by (intro exI [of _ v]) (simp add: rendered_value_def extract_value.simps fill_value.simps storeNative_storable)
    next
      case struct
      then show ?thesis using assms(2) x Some zero_typed(1) [of e]
        by (intro exI [of _ "FFM (Some m)"])
          (simp add: rendered_value_def rendered_map_def extract_value.simps fill_value.simps)
    next
      case val
      then show ?thesis using assms(2) x Some
        by (intro exI [of _ v])
          (simp add: rendered_value_def extract_value.simps fill_value.simps to_any_def typed_not_nil
            assign_typed is_struct_def)
    qed
  qed
qed

lemma rendered_scalar:
  assumes "has_ty (YVal g) x" "g \<noteq> TFM"
  shows "\<exists>v. rendered_value R (YVal g) x k v"
proof -
  obtain v where "x = XVal v" "has_gtype g v" using assms(1) by (auto split: gv.splits)
  then show ?thesis using scalar_roundtrip [of g v] assms(2)
    by (intro exI [of _ v]) (simp add: rendered_value_def extract_value.simps fill_value.simps)
qed

lemma rendered_struct_value:
  "rendered_map R (YStruct n fs) x m \<Longrightarrow> rendered_value R (YStruct n fs) x k (FFM (Some m))"
  by (auto simp: rendered_map_def rendered_value_def extract_value.simps fill_value.simps SetStruct_def GetStruct_def
      simp del: has_ty.simps)

lemma rendered_cons:
  assumes "rendered_fields R fs xs kvs" "map fst fkvs = flat_keys R [f]"
    and "\<And>fm. extract_field R f x fm = Inr (copy_map fm fkvs)"
    and "\<And>m y. has_ty (gf_type f) y \<Longrightarrow> \<forall>(k, v) \<in> set fkvs. map_of m k = Some v \<Longrightarrow> fill_field R f y (Some m) = Inr x"
  shows "rendered_fields R (f # fs) (x # xs) (fkvs @ kvs)"
proof -
  obtain nm tag a t where f: "f = GField nm tag a t" by (cases f)
  have "flat_keys R (f # fs) = flat_keys R [f] @ flat_keys R fs" by (simp add: f)
  moreover have "fill_fields R (f # fs) ys (Some m) = Inr (x # xs)"
    if "fields_ty (f # fs) ys" "\<forall>(k, v) \<in> set (fkvs @ kvs). map_of m k = Some v" for m ys
    using that assms(1,4) by (cases ys) (auto simp: f rendered_fields_def)
  ultimately show ?thesis
    using assms(1-3) by (auto simp: rendered_fields_def copy_map_append)
qed

lemma model_rendered:
  "model_ty R0 t \<Longrightarrow> R0 = R \<Longrightarrow> has_ty t x \<Longrightarrow> rf_conv R t = None \<Longrightarrow>
     (\<exists>v. rendered_value R t x k v) \<and> (is_struct t \<longrightarrow> (\<exists>m. rendered_map R t x m))"
  "elem_ok R0 e \<Longrightarrow> R0 = R \<Longrightarrow> has_ty e x \<Longrightarrow> rendered_elem R e x"
  "fields_ok R0 fs \<Longrightarrow> R0 = R \<Longrightarrow> fields_ty fs xs \<Longrightarrow> \<exists>kvs. rendered_fields R fs xs kvs"
proof (induction R0 t and R0 e and R0 fs arbitrary: x k and x and xs rule: model_ty_elem_ok_fields_ok.induct)
  case (1 R0 g)
  then show ?case using rendered_scalar [of g x] by (auto simp: is_struct_def)
next
  case (2 R0 e)
  moreover have "is_struct e \<or> (\<exists>g. e = YVal g)"
    using 2 by (auto simp: elem_ok.simps is_struct_def split: gty.splits)
  moreover have "\<forall>y \<in> set xs. rendered_elem R e y" if "x = XList xs" for xs
    using 2 that by (auto simp: list_all_iff)
  ultimately show ?case using rendered_slice [of e x R k] by (auto simp: is_struct_def)
next
  case (3 R0 n e)
  moreover have "is_struct e \<or> (\<exists>g. e = YVal g)"
    using 3 by (auto simp: elem_ok.simps is_struct_def split: gty.splits)
  moreover have "\<forall>y \<in> set xs. rendered_elem R e y" if "x = XArr xs" for xs
    using 3 that by (auto simp: list_all_iff)
  ultimately show ?case using rendered_array [of n e x R k] by (auto simp: is_struct_def)
next
  case (4 R0 e)
  have "rf_conv R e \<noteq> None \<and> \<not> is_struct e \<or> rendered_elem R e y \<and> (is_struct e \<or> rf_conv R e = None)"
    if "x = XPtr (Some y)" for y
    using 4 that by (cases "rf_conv R e \<noteq> None \<and> \<not> is_struct e") auto
  then show ?case
    using 4 rendered_pointer [of e x k] pointer_to_string [of x R k]
    by (cases "e = YVal TStr") (auto simp: is_struct_def)
next
  case (5 R0 e)
  moreover have "\<forall>(k, y) \<in> set kvs. rendered_elem R e y" if "x = XMap kvs" for kvs
    using 5 that by (auto simp: list_all_iff)
  ultimately show ?case using rendered_mapping [of e x R k] by (auto simp: is_struct_def)
next
  case (6 R0 n fs)
  then obtain xs where xs: "x = XStruct xs" "fields_ty fs xs" by (auto split: gv.splits)
  then obtain kvs where "rendered_fields R fs xs kvs" using 6 by auto
  then have "rendered_map R (YStruct n fs) x kvs"
    using rendered_struct [of R fs xs kvs n] 6 xs(1) by simp
  then show ?case using rendered_struct_value by blast
next
  case (8 R0 e)
  show ?case
  proof (cases e)
    case (YVal g)
    then show ?thesis using 8 by (auto simp: elem_ok.simps rendered_elem_def is_struct_def split: gv.splits)
  next
    case (YStruct n fs)
    then show ?thesis
      using 8 converted_struct [of e _ x]
      by (cases "rf_conv R e") (auto simp: elem_ok.simps rendered_elem_def is_struct_def)
  qed (use 8 in \<open>auto simp: elem_ok.simps\<close>)
next
  case (9 R0)
  then show ?case by (intro exI [of _ "[]"]) (simp add: rendered_fields_def)
next
  case (10 R0 nm tag a t fs)
  let ?f = "GField nm tag a t"
  obtain x xs' where xs: "xs = x # xs'" "has_ty t x" "fields_ty fs xs'"
    using 10 by (cases xs) auto
  have ok: "fields_ok R fs" "if promotable R ?f then case t of YStruct n gs \<Rightarrow> fields_ok R gs | _ \<Rightarrow> False
      else rf_conv R t \<noteq> None \<or> model_ty R t"
    using 10(4,5) by (auto simp del: has_ty.simps)
  obtain kvs where kvs: "rendered_fields R fs xs' kvs" using 10(3) [of xs'] ok(1) 10(5) xs(3) by auto
  let ?key = "reflectKey R ?f"
  have "\<exists>fkvs. map fst fkvs = flat_keys R [?f] \<and> (\<forall>fm. extract_field R ?f x fm = Inr (copy_map fm fkvs)) \<and>
    (\<forall>m y. has_ty t y \<longrightarrow> (\<forall>(k, v) \<in> set fkvs. map_of m k = Some v) \<longrightarrow> fill_field R ?f y (Some m) = Inr x)"
  proof (cases "promotable R ?f")
    case True
    then obtain n gs where t: "t = YStruct n gs" "fields_ok R gs" using ok(2) by (auto split: gty.splits)
    obtain zs where zs: "x = XStruct zs" "fields_ty gs zs" using xs(2) t by (auto split: gv.splits)
    obtain fkvs where "rendered_fields R gs zs fkvs" using 10(1) [of n gs zs] True t zs(2) 10(5) by auto
    moreover have "rf_conv R t = None" using True t(1) by (simp add: promotable_def Let_def)
    ultimately show ?thesis using True t(1) zs(1)
      by (intro exI [of _ fkvs])
        (auto simp: rendered_fields_def extract_field.simps fill_field.simps extract_to.simps fill.simps split: gv.splits)
  next
    case False
    then consider (conv) c where "rf_conv R t = Some c" | (plain) "rf_conv R t = None" "model_ty R t"
      using ok(2) by (cases "rf_conv R t") auto
    then show ?thesis
    proof cases
      case conv
      from converted_field [OF conv xs(2) False] obtain v where
        "\<And>fm. extract_field R ?f x fm = Inr (set_field fm ?key v)"
        "\<And>m y. map_of m ?key = Some v \<Longrightarrow> fill_field R ?f y (Some m) = Inr x" by blast
      then show ?thesis using False
        by (intro exI [of _ "[(?key, v)]"]) (simp add: copy_map_single)
    next
      case plain
      then obtain v where "rendered_value R t x ?key v"
        using 10(2) [of x ?key] False 10(5) xs(2) by auto
      then show ?thesis using False plain(1)
        by (intro exI [of _ "[(?key, v)]"])
          (auto simp: rendered_value_def copy_map_single extract_field.simps fill_field.simps Let_def)
    qed
  qed
  then obtain fkvs where "map fst fkvs = flat_keys R [?f]" "\<And>fm. extract_field R ?f x fm = Inr (copy_map fm fkvs)"
    "\<And>m y. has_ty t y \<Longrightarrow> \<forall>(k, v) \<in> set fkvs. map_of m k = Some v \<Longrightarrow> fill_field R ?f y (Some m) = Inr x"
    by blast
  then show ?case using rendered_cons [OF kvs, of fkvs ?f x] xs(1) by auto
qed simp_all

text \<open>A whole model.\<close>

lemma round_trip:
  assumes "if rf_conv R t = None then is_struct t \<and> model_ty R t else renders_maps R t"
    and "has_ty t x" and "has_ty t y"
  shows "\<exists>m. extract_to R t x NewFieldMap = Inr m \<and> fill R t y (Some m) = Inr x"
proof (cases "rf_conv R t")
  case None
  then show ?thesis using model_rendered(1) [of R t x] assms by (auto simp: rendered_map_def)
next
  case (Some c)
  then show ?thesis using converted_struct [OF Some assms(2)] assms by (auto simp: rendered_map_def)
qed

end

text \<open>Without converters nothing is asked of anyone: the entry points \<open>reflectFill\<close> and \<open>reflectExtract\<close>.\<close>

interpretation plain_codec: lawful_converters "R\<lparr>rf_conv := \<lambda>_. None\<rparr>" for R
  by unfold_locales simp

text \<open>A converter built by \<open>NewConverter\<close> keeps the contract when its two functions are inverse on the
  values of the type and its carrier is one the library stores.\<close>

lemma NewConverter_lawful:
  assumes "\<And>x. has_ty ty x \<Longrightarrow> \<exists>t. asT x = Some t \<and> ofT t = x \<and> from (to t) = Inr t"
    and "\<And>c. asCarrier (carrier c) = Some c \<and> storable (carrier c)"
    and "\<And>t. t \<noteq> ty \<Longrightarrow> rf_conv R t = None"
    and "rf_conv R ty = Some (NewConverter ty asCarrier carrier asT ofT from to)"
  shows "lawful_converters R"
proof
  fix t c x
  assume c: "rf_conv R t = Some c" and x: "has_ty t x"
  then have t: "t = ty" using assms(3) by force
  then obtain z where "asT x = Some z" "ofT z = x" "from (to z) = Inr z" using assms(1) x by blast
  then show "\<exists>v. cv_to c x = Some v \<and> storable v \<and> cv_type c = t \<and> cv_from c v = Inr x"
    using c assms(2) [of "to z"] by (auto simp: t assms(4) NewConverter_def)
qed

subsection \<open>Properties\<close>

text \<open>C11. A struct survives its FieldMap. When every converter registered gives back what it rendered, for
  every model built from scalars, \<open>[]byte\<close>, 128-bit integers, structs, embedded structs, and slices,
  arrays, maps and optionals of scalars and structs, with no two fields of one key: extracting a
  value into a fresh FieldMap does not panic, and filling any struct of the type from it gives the
  value back.\<close>

theorem reflect_round_trip:
  assumes "\<And>t c x. rf_conv R t = Some c \<Longrightarrow> has_ty t x \<Longrightarrow>
      \<exists>v. cv_to c x = Some v \<and> storable v \<and> cv_type c = t \<and> cv_from c v = Inr x"
    and "rf_conv R (YStruct n fs) = None" and "model_ty R (YStruct n fs)"
    and "has_ty (YStruct n fs) x" and "has_ty (YStruct n fs) y"
  shows "\<exists>m. extract_to R (YStruct n fs) x NewFieldMap = Inr m \<and> fill R (YStruct n fs) y (Some m) = Inr x"
proof -
  have "lawful_converters R" by unfold_locales (rule assms(1))
  from lawful_converters.round_trip [OF this, of "YStruct n fs" x y] assms show ?thesis
    by (simp add: is_struct_def)
qed

text \<open>C19. An optional field whose struct type has a converter to something else than a FieldMap works in one
  direction only: filled from the carrier it gets the converted value, as the comment in \<open>fill\<close> asks;
  extracted it panics, because \<open>extract\<close> looks at the kind of the pointee before its converter.\<close>

theorem optional_converted_struct_panics:
  assumes "gf_type f = YPtr t" and "is_struct t" and "\<not> promotable R f"
    and "rf_conv R t = Some c" and "rf_conv R (YPtr t) = None"
    and "cv_to c y = Some v" and "cv_from c v = Inr y" and "cv_type c = t"
    and "is_scalar_value v" and "map_of m (reflectKey R f) = Some v"
  shows "fill_field R f (XPtr None) (Some m) = Inr (XPtr (Some y)) \<and>
    extract_field R f (XPtr (Some y)) fm = Inl RPanic"
proof -
  obtain nm tag a where f: "f = GField nm tag a (YPtr t)" using assms(1) by (cases f) auto
  have "t \<noteq> YVal TStr" using assms(2) by (auto simp: is_struct_def)
  moreover have "v \<noteq> FNil" "\<And>n. v \<noteq> FFM n" using assms(9) by (auto simp: is_scalar_value_def)
  ultimately show ?thesis
    using assms unfolding f
    by (auto simp: fill_field.simps fill_value.simps extract_field.simps extract_value.simps extract_to.simps
        convert_from_def convert_to_def Let_def split: fval.splits)
qed

subsection \<open>An example\<close>

text \<open>A model with an embedded struct, a converted field, a list of structs, an optional and a map.\<close>

definition id_converter :: converter where
  "id_converter = NewConverter (YOther ''ID'') asStr FStr (\<lambda>x. case x of XOther s \<Rightarrow> Some s | _ \<Rightarrow> None) XOther Inr (\<lambda>s. s)"

definition example_env :: reflect_env where
  "example_env = \<lparr>rf_snake = (\<lambda>s. s), rf_conv = (\<lambda>t. if t = YOther ''ID'' then Some id_converter else None),
     rf_any = (\<lambda>t x. []), rf_assign = (\<lambda>s t. None), rf_elems = (\<lambda>s. None), rf_convert = (\<lambda>v t. None)\<rparr>"

interpretation example_codec: lawful_converters example_env
  by (rule NewConverter_lawful [of "YOther ''ID''" "\<lambda>x. case x of XOther s \<Rightarrow> Some s | _ \<Rightarrow> None" XOther Inr "\<lambda>s. s" asStr FStr])
    (auto simp: example_env_def id_converter_def asStr_def storable_def is_scalar_value_def split: gv.splits)

definition example_point :: gty where
  "example_point = YStruct ''Point'' [GField ''x'' [] False (YVal TI32), GField ''y'' [] False (YVal TI32)]"

definition example_fields :: "gfield list" where
  "example_fields =
     [GField ''Base'' [] True (YStruct ''Base'' [GField ''version'' [] False (YVal TU8)]),
      GField ''Ident'' ''id'' False (YOther ''ID''),
      GField ''path'' [] False (YSlice example_point),
      GField ''size'' [] False (YPtr (YVal TU16)),
      GField ''marks'' [] False (YMap example_point)]"

definition example_value :: gv where
  "example_value = XStruct
     [XStruct [XVal (FU8 3)], XOther ''a-7'', XList [XStruct [XVal (FI32 1), XVal (FI32 (-2))]], XPtr (Some (XVal (FU16 9))),
      XMap [(''home'', XStruct [XVal (FI32 0), XVal (FI32 5)])]]"

lemma reflect_round_trip_witness:
  "\<exists>m. extract_to example_env (YStruct ''Trip'' example_fields) example_value NewFieldMap = Inr m \<and>
     fill example_env (YStruct ''Trip'' example_fields) (zero_of (YStruct ''Trip'' example_fields)) (Some m) = Inr example_value"
proof (rule reflect_round_trip)
  show "model_ty example_env (YStruct ''Trip'' example_fields)"
    by (simp add: example_fields_def example_point_def example_env_def promotable_def is_struct_def reflectKey_def
        elem_ok.simps)
  show "has_ty (YStruct ''Trip'' example_fields) example_value"
    by (simp add: example_fields_def example_point_def example_value_def has_gtype_def)
qed (auto intro: example_codec.lawful simp: zero_typed example_env_def)

definition point_converter :: converter where
  "point_converter = \<lparr>cv_type = example_point, cv_from = \<lambda>v. Inr (XStruct [XVal (FI32 1), XVal (FI32 2)]),
     cv_to = \<lambda>x. Some (FStr ''1,2'')\<rparr>"

definition point_env :: reflect_env where
  "point_env = example_env\<lparr>rf_conv := \<lambda>t. if t = example_point then Some point_converter else None\<rparr>"

lemma optional_converted_struct_panics_witness:
  "fill_field point_env (GField ''at'' [] False (YPtr example_point)) (XPtr None) (Some [(''at'', FStr ''1,2'')]) =
      Inr (XPtr (Some (XStruct [XVal (FI32 1), XVal (FI32 2)]))) \<and>
    extract_field point_env (GField ''at'' [] False (YPtr example_point)) (XPtr (Some (XStruct [XVal (FI32 1), XVal (FI32 2)]))) [] =
      Inl RPanic"
  by (rule optional_converted_struct_panics [where v = "FStr ''1,2''" and c = point_converter and t = example_point])
    (simp_all add: point_env_def point_converter_def example_env_def example_point_def is_struct_def promotable_def
      reflectKey_def is_scalar_value_def)

end
