(* ===== verification/AppNotification.thy ===== *)
theory AppNotification
  imports AppRecords ReflectFacts
begin

section \<open>Notifications and their sum type (examples/appdata/go/notification.go, main.go)\<close>

text \<open>
  Go has no sum type: the worker holds a sealed interface and bridges it to the schema's sum with a
  converter. \<open>Channel\<close> is the interface with its four implementations; a nil interface is \<open>None\<close>.
\<close>

datatype Channel =
    Silent
  | SMS string
  | Push "64 word"
  | Invoice money

record notification_record =
  NotificationID :: "32 word"
  ChannelOf :: "Channel option"
  Urgent :: bool

definition put_channel :: "Channel \<Rightarrow> bytes" where
  "put_channel ch = (case ch of
     Silent \<Rightarrow> [0]
   | SMS s \<Rightarrow> [1] @ appendLenStr s
   | Push n \<Rightarrow> [2] @ put64 n
   | Invoice m \<Rightarrow> [3] @ appendMoney m)"

definition notification_MarshalBinary :: "notification_record \<Rightarrow> app_error + bytes" where
  "notification_MarshalBinary n =
     (case ChannelOf n of
        None \<Rightarrow> Inl (NoChannel (NotificationID n))
      | Some ch \<Rightarrow> Inr (put32 (NotificationID n) @ put_channel ch @ put_bool (Urgent n)))"

definition read_channel :: "byte \<Rightarrow> Channel reader" where
  "read_channel ord =
     (if ord = 0 then finish Silent
      else if ord = 1 then seq readLenStr (\<lambda>s. finish (SMS s))
      else if ord = 2 then seq (read_block 8 get64) (\<lambda>n. finish (Push n))
      else if ord = 3 then seq readMoney (\<lambda>m. finish (Invoice m))
      else (\<lambda>b. Inl (UnknownOrdinal (unat ord))))"

definition read_notification :: "notification_record reader" where
  "read_notification =
     seq (read_block 5 (\<lambda>b. (get32 b, b ! 4))) (\<lambda>(i, ord).
     seq (read_channel ord) (\<lambda>ch.
     seq (read_block 1 get_bool) (\<lambda>urgent.
     finish \<lparr>NotificationID = i, ChannelOf = Some ch, Urgent = urgent\<rparr>)))"

definition notification_UnmarshalBinary :: "bytes \<Rightarrow> app_error + notification_record" where
  "notification_UnmarshalBinary b = map_res fst (read_notification b)"

definition channel_ok :: "Channel \<Rightarrow> bool" where
  "channel_ok ch \<longleftrightarrow> (case ch of SMS s \<Rightarrow> fits s | Invoice m \<Rightarrow> money_ok m | _ \<Rightarrow> True)"

text \<open>The tag is read with the id, the payload after it.\<close>

definition tag_of :: "Channel \<Rightarrow> byte" where
  "tag_of ch = (case ch of Silent \<Rightarrow> 0 | SMS s \<Rightarrow> 1 | Push n \<Rightarrow> 2 | Invoice m \<Rightarrow> 3)"

definition payload_of :: "Channel \<Rightarrow> bytes" where
  "payload_of ch = (case ch of Silent \<Rightarrow> [] | SMS s \<Rightarrow> appendLenStr s | Push n \<Rightarrow> put64 n | Invoice m \<Rightarrow> appendMoney m)"

lemma put_channel_parts: "put_channel ch = [tag_of ch] @ payload_of ch"
  by (cases ch) (simp_all add: put_channel_def tag_of_def payload_of_def)

lemma reads_channel: "channel_ok ch \<Longrightarrow> reads (read_channel (tag_of ch)) (payload_of ch) ch"
  by (cases ch) (auto simp: channel_ok_def read_channel_def tag_of_def payload_of_def
      intro: reads_last reads_finish reads_num len_str.reads_enc moneys.reads_enc)

text \<open>A notification survives its bytes, whichever of the four channels it has.\<close>

theorem notification_roundtrip:
  assumes "ChannelOf n = Some ch" and "channel_ok ch"
  shows "\<exists>e. notification_MarshalBinary n = Inr e \<and> (\<forall>rest. notification_UnmarshalBinary (e @ rest) = Inr n) \<and>
    (\<forall>p. strict_prefix p e \<longrightarrow> notification_UnmarshalBinary p = Inl Truncated)"
proof -
  have head: "reads (read_block 5 (\<lambda>b. (get32 b, b ! 4))) (put32 (NotificationID n) @ [tag_of ch])
      (NotificationID n, tag_of ch)"
    by (rule reads_block) (simp_all add: put32_def get32_append [unfolded put32_def] nth_append)
  have urgent: "reads (read_block 1 get_bool) (put_bool (Urgent n)) (Urgent n)"
    by (rule reads_block) (simp_all add: put_bool_def get_bool_def)
  have "reads read_notification ((put32 (NotificationID n) @ [tag_of ch]) @ payload_of ch @ put_bool (Urgent n)) n"
    unfolding read_notification_def
    by ((rule reads_seq, rule head reads_channel [OF assms(2)], (simp only: prod.case)?)+,
        rule reads_last' [OF urgent], simp add: assms(1) [symmetric])
  then show ?thesis
    by (auto simp: notification_MarshalBinary_def notification_UnmarshalBinary_def assms(1) put_channel_parts reads_def)
qed

subsection \<open>The converter\<close>

text \<open>The carrier is the schema's sum value, the tag with its payload; dereferencing a nil pointer panics.\<close>

definition channel_from :: "(string \<times> fval) option \<Rightarrow> string + Channel" where
  "channel_from v = (case v of
     None \<Rightarrow> Inl ''panic: nil variant''
   | Some (tag, x) \<Rightarrow>
       if tag = ''silent'' then Inr Silent
       else if tag = ''sms'' then (case x of FStr s \<Rightarrow> Inr (SMS s) | _ \<Rightarrow> Inl ''sms: expected string'')
       else if tag = ''push'' then (case x of FU64 n \<Rightarrow> Inr (Push n) | _ \<Rightarrow> Inl ''push: expected uint64'')
       else if tag = ''invoice'' then
         (case x of
            FFM None \<Rightarrow> Inl ''panic: nil FieldMap''
          | FFM (Some fm) \<Rightarrow>
              rbind (map_err (\<lambda>_. ''currency'') (GetString fm ''currency'')) (\<lambda>c.
              rbind (map_err (\<lambda>_. ''amount_minor'') (GetI64 fm ''amount_minor'')) (\<lambda>a.
                Inr (Invoice \<lparr>Currency = c, AmountMinor = a\<rparr>)))
          | _ \<Rightarrow> Inl ''invoice: expected a struct payload'')
       else Inl ''unknown channel variant'')"

definition channel_to :: "Channel \<Rightarrow> (string \<times> fval) option" where
  "channel_to ch = Some (case ch of
     Silent \<Rightarrow> (''silent'', FNil)
   | SMS s \<Rightarrow> (''sms'', FStr s)
   | Push n \<Rightarrow> (''push'', FU64 n)
   | Invoice m \<Rightarrow> (''invoice'',
       FFM (Some (SetI64 (SetString NewFieldMap ''currency'' (Currency m)) ''amount_minor'' (AmountMinor m)))))"

lemma channel_from_to: "channel_from (channel_to ch) = Inr ch"
  by (cases ch) (simp_all add: channel_from_def channel_to_def get_set_facts GetString_def SetString_def GetI64_def
      SetI64_def getTyped_def set_field_def asStr_def asI64_def)

text \<open>The library's contract for converters holds of it, for any way \<open>obj\<close> of holding a channel as a Go value.\<close>

definition asVariant :: "fval \<Rightarrow> (string \<times> fval) option option" where
  "asVariant v = (case v of FVariant x \<Rightarrow> Some x | _ \<Rightarrow> None)"

definition channelConverter :: "(gv \<Rightarrow> Channel option) \<Rightarrow> (Channel \<Rightarrow> gv) \<Rightarrow> converter" where
  "channelConverter asChannel obj =
     NewConverter (YOther ''Channel'') asVariant FVariant asChannel obj channel_from channel_to"

theorem channelConverter_lawful:
  assumes "\<And>x. has_ty (YOther ''Channel'') x \<Longrightarrow> \<exists>ch. asChannel x = Some ch \<and> obj ch = x"
    and "\<And>t. rf_conv R t = (if t = YOther ''Channel'' then Some (channelConverter asChannel obj) else None)"
  shows "lawful_converters R"
proof (rule NewConverter_lawful [of "YOther ''Channel''" asChannel obj channel_from channel_to asVariant FVariant])
  show "\<And>x. has_ty (YOther ''Channel'') x \<Longrightarrow>
      \<exists>t. asChannel x = Some t \<and> obj t = x \<and> channel_from (channel_to t) = Inr t"
    using assms(1) by (simp add: channel_from_to)
qed (simp_all add: assms(2) asVariant_def storable_def channelConverter_def)

end
