(* ===== verification/TaskApi.thy ===== *)
theory TaskApi
  imports AppWire
begin

section \<open>The protocol of the task store (examples/taskstore/go/api)\<close>

text \<open>
  The taskstore example is a server with its clients: requests and responses cross a socket as bytes,
  and the conformance worker tests exactly the functions the server calls. wire.go has the primitives,
  model.go the records, op.go and result.go the two sums, message.go the two messages. A writer here can
  fail, on an enum name it does not know and on a nil sum; the locale \<open>partial_codec\<close> is the contract of
  such a writer with its reader.
\<close>

subsection \<open>wire.go\<close>

definition appendString :: "string \<Rightarrow> bytes" where
  "appendString s = put32 (word_of_nat (length s)) @ str_bytes s"

definition readString :: "string reader" where
  "readString b =
     (if length b < 4 then Inl Truncated
      else let n = unat (get32 b); b = drop 4 b in
        if length b < n then Inl Truncated else Inr (bytes_str (take n b), drop n b))"

definition appendBool :: "bool \<Rightarrow> bytes" where
  "appendBool v = (if v then [1] else [0])"

definition readU8 :: "byte reader" where
  "readU8 b = (if length b < 1 then Inl Truncated else Inr (b ! 0, drop 1 b))"

definition readU32 :: "32 word reader" where
  "readU32 b = (if length b < 4 then Inl Truncated else Inr (get32 b, drop 4 b))"

definition readU64 :: "64 word reader" where
  "readU64 b = (if length b < 8 then Inl Truncated else Inr (get64 b, drop 8 b))"

definition appendEnum :: "string list \<Rightarrow> string \<Rightarrow> app_error + bytes" where
  "appendEnum variants name =
     (case index_of name variants of None \<Rightarrow> Inl (UnknownName name) | Some i \<Rightarrow> Inr [word_of_nat i])"

definition readEnum :: "string list \<Rightarrow> string reader" where
  "readEnum variants =
     seq readU8 (\<lambda>ord. if length variants \<le> unat ord then (\<lambda>_. Inl (UnknownOrdinal (unat ord)))
       else finish (variants ! unat ord))"

subsection \<open>model.go\<close>

definition priorityVariants :: "string list" where
  "priorityVariants = [''low'', ''normal'', ''high'']"

definition codeVariants :: "string list" where
  "codeVariants = [''not_found'', ''invalid'', ''conflict'']"

record task =
  ID :: "64 word"
  Title :: string
  Done :: bool
  Priority :: string
  Tags :: "string list"
  DueAt :: "64 word option"

record draft =
  DraftTitle :: string
  DraftPriority :: string
  DraftTags :: "string list"
  DraftDueAt :: "64 word option"

record task_page =
  PageItems :: "task list"
  PageTotal :: "32 word"

record api_failure =
  Code :: string
  Message :: string

definition appendTags :: "string list \<Rightarrow> bytes" where
  "appendTags tags = put32 (word_of_nat (length tags)) @ concat (map appendString tags)"

definition readTags :: "string list reader" where
  "readTags = seq readU32 (\<lambda>n. read_n readString (unat n))"

definition appendDueAt :: "64 word option \<Rightarrow> bytes" where
  "appendDueAt due = (case due of None \<Rightarrow> [0] | Some d \<Rightarrow> [1] @ put64 d)"

definition readDueAt :: "64 word option reader" where
  "readDueAt = seq readU8 (\<lambda>present. if present = 0 then finish None else seq readU64 (\<lambda>raw. finish (Some raw)))"

definition appendTask :: "task \<Rightarrow> app_error + bytes" where
  "appendTask t =
     rbind (appendEnum priorityVariants (Priority t)) (\<lambda>p.
       Inr (put64 (ID t) @ appendString (Title t) @ appendBool (Done t) @ p @ appendTags (Tags t) @ appendDueAt (DueAt t)))"

definition readTask :: "task reader" where
  "readTask =
     seq readU64 (\<lambda>i.
     seq readString (\<lambda>title.
     seq readU8 (\<lambda>d.
     seq (readEnum priorityVariants) (\<lambda>p.
     seq readTags (\<lambda>tags.
     seq readDueAt (\<lambda>due.
       finish \<lparr>ID = i, Title = title, Done = (d \<noteq> 0), Priority = p, Tags = tags, DueAt = due\<rparr>))))))"

definition appendDraft :: "draft \<Rightarrow> app_error + bytes" where
  "appendDraft d =
     rbind (appendEnum priorityVariants (DraftPriority d)) (\<lambda>p.
       Inr (appendString (DraftTitle d) @ p @ appendTags (DraftTags d) @ appendDueAt (DraftDueAt d)))"

definition readDraft :: "draft reader" where
  "readDraft =
     seq readString (\<lambda>title.
     seq (readEnum priorityVariants) (\<lambda>p.
     seq readTags (\<lambda>tags.
     seq readDueAt (\<lambda>due.
       finish \<lparr>DraftTitle = title, DraftPriority = p, DraftTags = tags, DraftDueAt = due\<rparr>))))"

definition appendPage :: "task_page \<Rightarrow> app_error + bytes" where
  "appendPage p =
     rbind (mapM appendTask (PageItems p)) (\<lambda>items.
       Inr (put32 (word_of_nat (length (PageItems p))) @ concat items @ put32 (PageTotal p)))"

definition readPage :: "task_page reader" where
  "readPage =
     seq readU32 (\<lambda>n.
     seq (read_n readTask (unat n)) (\<lambda>items.
     seq readU32 (\<lambda>total.
       finish \<lparr>PageItems = items, PageTotal = total\<rparr>)))"

definition appendAPIError :: "api_failure \<Rightarrow> app_error + bytes" where
  "appendAPIError e =
     rbind (appendEnum codeVariants (Code e)) (\<lambda>c. Inr (c @ appendString (Message e)))"

definition readAPIError :: "api_failure reader" where
  "readAPIError =
     seq (readEnum codeVariants) (\<lambda>c. seq readString (\<lambda>m. finish \<lparr>Code = c, Message = m\<rparr>))"

definition ValidPriority :: "string \<Rightarrow> bool" where
  "ValidPriority p \<longleftrightarrow> list_ex (\<lambda>v. v = p) priorityVariants"

subsection \<open>op.go, result.go, message.go\<close>

datatype op =
    ListAll
  | Create draft
  | Read "64 word"
  | Update task
  | Delete "64 word"

datatype result =
    Accepted
  | Found task
  | Listing task_page
  | Failed api_failure

text \<open>A nil interface is \<open>None\<close>: the \<open>default\<close> branches of the writers.\<close>

record task_request =
  ReqID :: "32 word"
  ReqOp :: "op option"

record task_response =
  RespReqID :: "32 word"
  RespResult :: "result option"

definition tagged :: "byte \<Rightarrow> app_error + bytes \<Rightarrow> app_error + bytes" where
  "tagged t p = map_res (\<lambda>b. [t] @ b) p"

definition appendOp :: "op option \<Rightarrow> app_error + bytes" where
  "appendOp v =
     (case v of
        Some ListAll \<Rightarrow> Inr [0]
      | Some (Create d) \<Rightarrow> tagged 1 (appendDraft d)
      | Some (Read i) \<Rightarrow> Inr ([2] @ put64 i)
      | Some (Update t) \<Rightarrow> tagged 3 (appendTask t)
      | Some (Delete i) \<Rightarrow> Inr ([4] @ put64 i)
      | None \<Rightarrow> Inl Unhandled)"

definition readOp :: "op reader" where
  "readOp =
     seq readU8 (\<lambda>tag.
       if tag = 0 then finish ListAll
       else if tag = 1 then seq readDraft (\<lambda>d. finish (Create d))
       else if tag = 2 then seq readU64 (\<lambda>i. finish (Read i))
       else if tag = 3 then seq readTask (\<lambda>t. finish (Update t))
       else if tag = 4 then seq readU64 (\<lambda>i. finish (Delete i))
       else (\<lambda>_. Inl (UnknownTag (unat tag))))"

definition appendResult :: "result option \<Rightarrow> app_error + bytes" where
  "appendResult v =
     (case v of
        Some Accepted \<Rightarrow> Inr [0]
      | Some (Found t) \<Rightarrow> tagged 1 (appendTask t)
      | Some (Listing p) \<Rightarrow> tagged 2 (appendPage p)
      | Some (Failed e) \<Rightarrow> tagged 3 (appendAPIError e)
      | None \<Rightarrow> Inl Unhandled)"

definition readResult :: "result reader" where
  "readResult =
     seq readU8 (\<lambda>tag.
       if tag = 0 then finish Accepted
       else if tag = 1 then seq readTask (\<lambda>t. finish (Found t))
       else if tag = 2 then seq readPage (\<lambda>p. finish (Listing p))
       else if tag = 3 then seq readAPIError (\<lambda>e. finish (Failed e))
       else (\<lambda>_. Inl (UnknownTag (unat tag))))"

definition request_MarshalBinary :: "task_request \<Rightarrow> app_error + bytes" where
  "request_MarshalBinary r = map_res (\<lambda>b. put32 (ReqID r) @ b) (appendOp (ReqOp r))"

definition request_UnmarshalBinary :: "bytes \<Rightarrow> app_error + task_request" where
  "request_UnmarshalBinary data =
     rbind (readU32 data) (\<lambda>(i, b). rbind (readOp b) (\<lambda>(v, _). Inr \<lparr>ReqID = i, ReqOp = Some v\<rparr>))"

definition response_MarshalBinary :: "task_response \<Rightarrow> app_error + bytes" where
  "response_MarshalBinary r = map_res (\<lambda>b. put32 (RespReqID r) @ b) (appendResult (RespResult r))"

definition response_UnmarshalBinary :: "bytes \<Rightarrow> app_error + task_response" where
  "response_UnmarshalBinary data =
     rbind (readU32 data) (\<lambda>(i, b). rbind (readResult b) (\<lambda>(v, _). Inr \<lparr>RespReqID = i, RespResult = Some v\<rparr>))"

end
