(* ===== verification/TaskCodec.thy ===== *)
theory TaskCodec
  imports TaskApi
begin

section \<open>What the task store writes can be read, and what it reads can be written\<close>

text \<open>
  \<open>partial_codec\<close>: a writer that may fail, with its reader. \<open>sound_codec\<close> adds that whatever the reader
  accepts is a value the writer can write, which the server needs: it answers with tasks that came in as
  bytes. Both are interpreted for every record and sum of the protocol; a \<open>wire_codec\<close> of the building
  blocks is a \<open>partial_codec\<close> whose writer never fails.
\<close>

subsection \<open>Values a reader gives\<close>

definition gives :: "'a reader \<Rightarrow> ('a \<Rightarrow> bool) \<Rightarrow> bool" where
  "gives d ok \<longleftrightarrow> (\<forall>b x r. d b = Inr (x, r) \<longrightarrow> ok x)"

lemma gives_finish: "ok x \<Longrightarrow> gives (finish x) ok"
  by (simp add: gives_def finish_def)

lemma gives_fail: "gives (\<lambda>b. Inl e) ok"
  by (simp add: gives_def)

lemma gives_seq:
  assumes "gives d ok" "\<And>x. ok x \<Longrightarrow> gives (k x) ok'"
  shows "gives (seq d k) ok'"
  using assms by (fastforce simp: gives_def seq_def rbind_eq_Inr)

lemma gives_any: "gives d (\<lambda>_. True)"
  by (simp add: gives_def)

lemma gives_read_n: "gives d ok \<Longrightarrow> gives (read_n d n) (\<lambda>xs. length xs = n \<and> list_all ok xs)"
  by (induction n) (auto intro!: gives_finish gives_seq [where ok = ok] elim!: gives_seq)

locale partial_codec =
  fixes enc :: "'a \<Rightarrow> app_error + bytes" and dec :: "'a reader" and ok :: "'a \<Rightarrow> bool"
  assumes writes: "ok x \<Longrightarrow> \<exists>e. enc x = Inr e \<and> reads dec e x"
begin

lemma reads_written: "ok x \<Longrightarrow> enc x = Inr e \<Longrightarrow> reads dec e x"
  using writes [of x] by auto

lemma decoded: "ok x \<Longrightarrow> enc x = Inr e \<Longrightarrow> dec (e @ r) = Inr (x, r)"
  using reads_written by (simp add: reads_def)

lemma writes_all: "list_all ok xs \<Longrightarrow> \<exists>es. mapM enc xs = Inr es \<and> reads (read_n dec (length xs)) (concat es) xs"
proof (induction xs)
  case (Cons x xs)
  then obtain e es where "enc x = Inr e" "reads dec e x" "mapM enc xs = Inr es"
    "reads (read_n dec (length xs)) (concat es) xs" using writes [of x] by auto
  then show ?case by (auto intro!: exI [of _ "e # es"] reads_seq reads_last)
qed (simp add: reads_finish)

end

locale sound_codec = partial_codec +
  assumes valid: "gives dec ok"
begin

lemma rewritable: "dec b = Inr (x, r) \<Longrightarrow> \<exists>e. enc x = Inr e \<and> dec e = Inr (x, [])"
  using valid writes [of x] by (auto simp: gives_def reads_def) (metis append_Nil2)

lemma valid_all: "gives (read_n dec n) (\<lambda>xs. length xs = n \<and> list_all ok xs)"
  by (rule gives_read_n [OF valid])

end

sublocale wire_codec \<subseteq> written: partial_codec "\<lambda>x. Inr (enc x)" dec ok
  by unfold_locales (auto intro: reads_enc)

subsection \<open>The building blocks\<close>

lemma unat_bound: "unat n < 2 ^ 32" for n :: "32 word"
proof -
  have "unat n < 2 ^ LENGTH(32)" by (rule unsigned_less)
  then show ?thesis by simp
qed

lemma readU8_block: "readU8 = read_block 1 (\<lambda>b. b ! 0)"
  by (auto simp: fun_eq_iff readU8_def read_block_def)

lemma readU32_block: "readU32 = read_block 4 get32"
  by (auto simp: fun_eq_iff readU32_def read_block_def get32_def)

lemma readU64_block: "readU64 = read_block 8 get64"
  by (auto simp: fun_eq_iff readU64_def read_block_def get64_def)

lemma reads_U8: "reads readU8 [x] x"
  by (simp add: readU8_block reads_block)

lemma reads_U32: "reads readU32 (put32 x) x"
  unfolding readU32_block by (rule reads_num)

lemma reads_U64: "reads readU64 (put64 x) x"
  unfolding readU64_block by (rule reads_num)

lemma appendBool_bytes: "appendBool v = [if v then 1 else 0]"
  by (simp add: appendBool_def)

lemma readString_seq: "readString = seq readU32 (\<lambda>n. read_block (unat n) bytes_str)"
  by (simp add: fun_eq_iff readString_def seq_def readU32_def read_block_def Let_def)

lemma reads_String: "fits s \<Longrightarrow> reads readString (appendString s) s"
  unfolding readString_seq appendString_def
  by (rule reads_seq [OF reads_U32], rule reads_block) (simp_all add: fits_def unat_word_of_nat)

lemma gives_String: "gives readString fits"
proof -
  have "length (bytes_str (take (unat n) b)) < 2 ^ 32" for n :: "32 word" and b
    using unat_bound [of n] by (simp add: bytes_str_def min_less_iff_disj)
  then show ?thesis by (auto simp: gives_def readString_def Let_def fits_def split: if_splits)
qed

lemma appendEnum_known:
  assumes "name \<in> set variants" "length variants \<le> 256"
  shows "\<exists>i. appendEnum variants name = Inr [i] \<and> reads (readEnum variants) [i] name"
proof -
  have "\<exists>i. index_of name variants = Some i"
    using assms(1) by (induction variants) auto
  then obtain i where i: "index_of name variants = Some i" ..
  then have n: "i < length variants" "variants ! i = name" by (simp_all add: index_of_nth)
  then have "unat (word_of_nat i :: byte) = i" using assms(2) by (intro unat_word_of_nat) simp
  then have "reads (readEnum variants) ([word_of_nat i] @ []) name"
    unfolding readEnum_def using n by (intro reads_seq [OF reads_U8]) (simp add: reads_finish)
  then show ?thesis by (simp add: appendEnum_def i)
qed

lemma gives_Enum: "gives (readEnum variants) (\<lambda>name. name \<in> set variants)"
  unfolding readEnum_def by (rule gives_seq [OF gives_any]) (auto intro: gives_fail gives_finish)

lemma reads_Tags: "fits tags \<Longrightarrow> list_all fits tags \<Longrightarrow> reads readTags (appendTags tags) tags"
  unfolding readTags_def appendTags_def
  by (rule reads_seq [OF reads_U32])
    (auto simp: fits_def unat_word_of_nat list_all_iff intro!: reads_read_n reads_String)

lemma gives_Tags: "gives readTags (\<lambda>tags. fits tags \<and> list_all fits tags)"
  unfolding readTags_def
proof (rule gives_seq [OF gives_any])
  fix n :: "32 word"
  show "gives (read_n readString (unat n)) (\<lambda>tags. fits tags \<and> list_all fits tags)"
    using gives_read_n [OF gives_String, of "unat n"] unat_bound [of n] by (auto simp: gives_def fits_def)
qed

lemma reads_DueAt: "reads readDueAt (appendDueAt due) due"
proof (cases due)
  case None
  have "reads readDueAt ([0] @ []) None"
    unfolding readDueAt_def by (rule reads_seq [OF reads_U8]) (simp add: reads_finish)
  then show ?thesis using None by (simp add: appendDueAt_def)
next
  case (Some d)
  have "reads readDueAt ([1] @ put64 d) (Some d)"
    unfolding readDueAt_def by (rule reads_seq [OF reads_U8]) (simp add: reads_last reads_U64)
  then show ?thesis using Some by (simp add: appendDueAt_def)
qed

subsection \<open>Records\<close>

definition task_ok :: "task \<Rightarrow> bool" where
  "task_ok t \<longleftrightarrow> fits (Title t) \<and> Priority t \<in> set priorityVariants \<and> fits (Tags t) \<and> list_all fits (Tags t)"

definition draft_ok :: "draft \<Rightarrow> bool" where
  "draft_ok d \<longleftrightarrow> fits (DraftTitle d) \<and> DraftPriority d \<in> set priorityVariants \<and> fits (DraftTags d) \<and>
     list_all fits (DraftTags d)"

definition page_ok :: "task_page \<Rightarrow> bool" where
  "page_ok p \<longleftrightarrow> fits (PageItems p) \<and> list_all task_ok (PageItems p)"

definition failure_ok :: "api_failure \<Rightarrow> bool" where
  "failure_ok e \<longleftrightarrow> Code e \<in> set codeVariants \<and> fits (Message e)"

interpretation tasks: sound_codec appendTask readTask task_ok
proof
  fix t assume ok: "task_ok t"
  obtain i where i: "appendEnum priorityVariants (Priority t) = Inr [i]" "reads (readEnum priorityVariants) [i] (Priority t)"
    using appendEnum_known [of "Priority t" priorityVariants] ok by (auto simp: task_ok_def priorityVariants_def)
  have p: "reads readString (appendString (Title t)) (Title t)" "reads readTags (appendTags (Tags t)) (Tags t)"
    using ok by (simp_all add: task_ok_def reads_String reads_Tags)
  have "reads readTask (put64 (ID t) @ appendString (Title t) @ [if Done t then 1 else 0] @ [i] @ appendTags (Tags t) @
      appendDueAt (DueAt t)) t"
    unfolding readTask_def
    by ((rule reads_seq, rule reads_U64 reads_U8 i(2) p)+, rule reads_last' [OF reads_DueAt], simp)
  then show "\<exists>e. appendTask t = Inr e \<and> reads readTask e t"
    by (simp add: appendTask_def i(1) appendBool_bytes)
next
  show "gives readTask task_ok"
    unfolding readTask_def
    by (rule gives_seq [OF gives_any], rule gives_seq [OF gives_String], rule gives_seq [OF gives_any],
        rule gives_seq [OF gives_Enum], rule gives_seq [OF gives_Tags], rule gives_seq [OF gives_any], rule gives_finish,
        simp add: task_ok_def)
qed

interpretation drafts: sound_codec appendDraft readDraft draft_ok
proof
  fix d assume ok: "draft_ok d"
  obtain i where i: "appendEnum priorityVariants (DraftPriority d) = Inr [i]"
    "reads (readEnum priorityVariants) [i] (DraftPriority d)"
    using appendEnum_known [of "DraftPriority d" priorityVariants] ok by (auto simp: draft_ok_def priorityVariants_def)
  have p: "reads readString (appendString (DraftTitle d)) (DraftTitle d)"
    "reads readTags (appendTags (DraftTags d)) (DraftTags d)"
    using ok by (simp_all add: draft_ok_def reads_String reads_Tags)
  have "reads readDraft (appendString (DraftTitle d) @ [i] @ appendTags (DraftTags d) @ appendDueAt (DraftDueAt d)) d"
    unfolding readDraft_def
    by ((rule reads_seq, rule i(2) p)+, rule reads_last' [OF reads_DueAt], simp)
  then show "\<exists>e. appendDraft d = Inr e \<and> reads readDraft e d"
    by (simp add: appendDraft_def i(1))
next
  show "gives readDraft draft_ok"
    unfolding readDraft_def
    by (rule gives_seq [OF gives_String], rule gives_seq [OF gives_Enum], rule gives_seq [OF gives_Tags],
        rule gives_seq [OF gives_any], rule gives_finish, simp add: draft_ok_def)
qed

interpretation pages: sound_codec appendPage readPage page_ok
proof
  fix p assume ok: "page_ok p"
  obtain es where es: "mapM appendTask (PageItems p) = Inr es"
    "reads (read_n readTask (length (PageItems p))) (concat es) (PageItems p)"
    using tasks.writes_all [of "PageItems p"] ok by (auto simp: page_ok_def)
  have "unat (word_of_nat (length (PageItems p)) :: 32 word) = length (PageItems p)"
    using ok by (simp add: page_ok_def fits_def unat_word_of_nat)
  then have "reads readPage (put32 (word_of_nat (length (PageItems p))) @ concat es @ put32 (PageTotal p)) p"
    unfolding readPage_def
    by (intro reads_seq [OF reads_U32], simp) (rule reads_seq [OF es(2)], rule reads_last' [OF reads_U32], simp)
  then show "\<exists>e. appendPage p = Inr e \<and> reads readPage e p"
    by (simp add: appendPage_def es(1))
next
  show "gives readPage page_ok"
    unfolding readPage_def
    by (rule gives_seq [OF gives_any], rule gives_seq [OF tasks.valid_all], rule gives_seq [OF gives_any],
        rule gives_finish) (simp add: page_ok_def fits_def unat_bound [simplified])
qed

interpretation failures: sound_codec appendAPIError readAPIError failure_ok
proof
  fix e assume ok: "failure_ok e"
  obtain i where i: "appendEnum codeVariants (Code e) = Inr [i]" "reads (readEnum codeVariants) [i] (Code e)"
    using appendEnum_known [of "Code e" codeVariants] ok by (auto simp: failure_ok_def codeVariants_def)
  have m: "reads readString (appendString (Message e)) (Message e)"
    using ok by (simp add: failure_ok_def reads_String)
  have "reads readAPIError ([i] @ appendString (Message e)) e"
    unfolding readAPIError_def by (rule reads_seq [OF i(2)], rule reads_last' [OF m], simp)
  then show "\<exists>b. appendAPIError e = Inr b \<and> reads readAPIError b e"
    by (simp add: appendAPIError_def i(1))
next
  show "gives readAPIError failure_ok"
    unfolding readAPIError_def
    by (rule gives_seq [OF gives_Enum], rule gives_seq [OF gives_String], rule gives_finish, simp add: failure_ok_def)
qed

subsection \<open>Sums and messages\<close>

definition op_ok :: "op \<Rightarrow> bool" where
  "op_ok v \<longleftrightarrow> (case v of Create d \<Rightarrow> draft_ok d | Update t \<Rightarrow> task_ok t | _ \<Rightarrow> True)"

definition result_ok :: "result \<Rightarrow> bool" where
  "result_ok v \<longleftrightarrow> (case v of Found t \<Rightarrow> task_ok t | Listing p \<Rightarrow> page_ok p | Failed e \<Rightarrow> failure_ok e | _ \<Rightarrow> True)"

lemma reads_tagged: "reads (k t) e x \<Longrightarrow> reads (seq readU8 k) ([t] @ e) x"
  by (rule reads_seq [OF reads_U8])

text \<open>A variant: its tag, then what its payload's writer gives.\<close>

lemma writes_tagged:
  assumes "\<exists>e. p = Inr e \<and> reads d e x" and "k t = seq d (\<lambda>x. finish (g x))"
  shows "\<exists>e. tagged t p = Inr e \<and> reads (seq readU8 k) e (g x)"
  using assms(1) by (auto simp: tagged_def assms(2) intro!: reads_tagged [simplified] reads_last)

interpretation ops: sound_codec "\<lambda>v. appendOp (Some v)" readOp op_ok
proof
  fix v assume ok: "op_ok v"
  show "\<exists>e. appendOp (Some v) = Inr e \<and> reads readOp e v"
  proof (cases v)
    case ListAll
    then show ?thesis by (auto simp: appendOp_def readOp_def intro!: reads_tagged [of _ _ "[]", simplified] reads_finish)
  next
    case (Create d)
    then show ?thesis using drafts.writes [of d] ok
      unfolding readOp_def by (simp add: appendOp_def op_ok_def writes_tagged [of _ readDraft])
  next
    case (Read i)
    then show ?thesis by (auto simp: appendOp_def readOp_def intro!: reads_tagged [simplified] reads_last reads_U64)
  next
    case (Update t)
    then show ?thesis using tasks.writes [of t] ok
      unfolding readOp_def by (simp add: appendOp_def op_ok_def writes_tagged [of _ readTask])
  next
    case (Delete i)
    then show ?thesis by (auto simp: appendOp_def readOp_def intro!: reads_tagged [simplified] reads_last reads_U64)
  qed
next
  show "gives readOp op_ok"
    unfolding readOp_def
    by (rule gives_seq [OF gives_any])
      (auto intro!: gives_finish gives_fail gives_seq [OF drafts.valid] gives_seq [OF tasks.valid]
        gives_seq [OF gives_any, of _ op_ok readU64] simp: op_ok_def)
qed

interpretation results: sound_codec "\<lambda>v. appendResult (Some v)" readResult result_ok
proof
  fix v assume ok: "result_ok v"
  show "\<exists>e. appendResult (Some v) = Inr e \<and> reads readResult e v"
  proof (cases v)
    case Accepted
    then show ?thesis by (auto simp: appendResult_def readResult_def intro!: reads_tagged [of _ _ "[]", simplified] reads_finish)
  next
    case (Found t)
    then show ?thesis using tasks.writes [of t] ok
      unfolding readResult_def by (simp add: appendResult_def result_ok_def writes_tagged [of _ readTask])
  next
    case (Listing p)
    then show ?thesis using pages.writes [of p] ok
      unfolding readResult_def by (simp add: appendResult_def result_ok_def writes_tagged [of _ readPage])
  next
    case (Failed e)
    then show ?thesis using failures.writes [of e] ok
      unfolding readResult_def by (simp add: appendResult_def result_ok_def writes_tagged [of _ readAPIError])
  qed
next
  show "gives readResult result_ok"
    unfolding readResult_def
    by (rule gives_seq [OF gives_any])
      (auto intro!: gives_finish gives_fail gives_seq [OF failures.valid] gives_seq [OF tasks.valid] gives_seq [OF pages.valid]
        simp: result_ok_def)
qed

definition request_ok :: "task_request \<Rightarrow> bool" where
  "request_ok r \<longleftrightarrow> (case ReqOp r of None \<Rightarrow> False | Some v \<Rightarrow> op_ok v)"

definition response_ok :: "task_response \<Rightarrow> bool" where
  "response_ok r \<longleftrightarrow> (case RespResult r of None \<Rightarrow> False | Some v \<Rightarrow> result_ok v)"

definition read_request :: "task_request reader" where
  "read_request = seq readU32 (\<lambda>i. seq readOp (\<lambda>v. finish \<lparr>ReqID = i, ReqOp = Some v\<rparr>))"

definition read_response :: "task_response reader" where
  "read_response = seq readU32 (\<lambda>i. seq readResult (\<lambda>v. finish \<lparr>RespReqID = i, RespResult = Some v\<rparr>))"

lemma request_Unmarshal: "request_UnmarshalBinary b = map_res fst (read_request b)"
  by (auto simp: request_UnmarshalBinary_def read_request_def seq_def finish_def rbind_def map_res_def split: sum.splits)

lemma response_Unmarshal: "response_UnmarshalBinary b = map_res fst (read_response b)"
  by (auto simp: response_UnmarshalBinary_def read_response_def seq_def finish_def rbind_def map_res_def split: sum.splits)

interpretation requests: sound_codec request_MarshalBinary read_request request_ok
proof
  fix r assume "request_ok r"
  then obtain v e where v: "ReqOp r = Some v" "appendOp (Some v) = Inr e" "reads readOp e v"
    using ops.writes by (auto simp: request_ok_def split: option.splits)
  have "reads read_request (put32 (ReqID r) @ e) r"
    unfolding read_request_def by (rule reads_seq [OF reads_U32], rule reads_last' [OF v(3)]) (simp add: v(1) [symmetric])
  then show "\<exists>e. request_MarshalBinary r = Inr e \<and> reads read_request e r"
    by (simp add: request_MarshalBinary_def v)
next
  show "gives read_request request_ok"
    unfolding read_request_def
    by (rule gives_seq [OF gives_any], rule gives_seq [OF ops.valid], rule gives_finish, simp add: request_ok_def)
qed

interpretation responses: sound_codec response_MarshalBinary read_response response_ok
proof
  fix r assume "response_ok r"
  then obtain v e where v: "RespResult r = Some v" "appendResult (Some v) = Inr e" "reads readResult e v"
    using results.writes by (auto simp: response_ok_def split: option.splits)
  have "reads read_response (put32 (RespReqID r) @ e) r"
    unfolding read_response_def by (rule reads_seq [OF reads_U32], rule reads_last' [OF v(3)]) (simp add: v(1) [symmetric])
  then show "\<exists>e. response_MarshalBinary r = Inr e \<and> reads read_response e r"
    by (simp add: response_MarshalBinary_def v)
next
  show "gives read_response response_ok"
    unfolding read_response_def
    by (rule gives_seq [OF gives_any], rule gives_seq [OF results.valid], rule gives_finish, simp add: response_ok_def)
qed

lemma request_valid: "request_UnmarshalBinary b = Inr r \<Longrightarrow> request_ok r"
  using requests.valid by (auto simp: request_Unmarshal gives_def map_res_eq_Inr)

text \<open>C23. The two messages of the protocol survive their bytes: a request and a response with values the
  layout can carry marshal; unmarshalling their bytes gives them back, and every shorter prefix is
  refused as truncated.\<close>

theorem messages_roundtrip:
  assumes "request_ok q" and "response_ok r"
  shows "\<exists>eq er. request_MarshalBinary q = Inr eq \<and> response_MarshalBinary r = Inr er \<and>
    (\<forall>rest. request_UnmarshalBinary (eq @ rest) = Inr q \<and> response_UnmarshalBinary (er @ rest) = Inr r) \<and>
    (\<forall>p. strict_prefix p eq \<longrightarrow> request_UnmarshalBinary p = Inl Truncated) \<and>
    (\<forall>p. strict_prefix p er \<longrightarrow> response_UnmarshalBinary p = Inl Truncated)"
proof -
  obtain eq er where "request_MarshalBinary q = Inr eq" "reads read_request eq q"
    "response_MarshalBinary r = Inr er" "reads read_response er r"
    using requests.writes [OF assms(1)] responses.writes [OF assms(2)] by auto
  then show ?thesis
    by (intro exI [of _ eq] exI [of _ er]) (simp add: request_Unmarshal response_Unmarshal reads_def)
qed

definition example_task :: task where
  "example_task = \<lparr>ID = 1001, Title = ''milk'', Done = False, Priority = ''high'', Tags = [''errand''], DueAt = Some 9\<rparr>"

lemma messages_roundtrip_witness:
  "\<exists>eq er. request_MarshalBinary \<lparr>ReqID = 1, ReqOp = Some (Update example_task)\<rparr> = Inr eq \<and>
    response_MarshalBinary \<lparr>RespReqID = 1, RespResult = Some (Listing \<lparr>PageItems = [example_task], PageTotal = 1\<rparr>)\<rparr> = Inr er \<and>
    (\<forall>rest. request_UnmarshalBinary (eq @ rest) = Inr \<lparr>ReqID = 1, ReqOp = Some (Update example_task)\<rparr> \<and>
      response_UnmarshalBinary (er @ rest) =
        Inr \<lparr>RespReqID = 1, RespResult = Some (Listing \<lparr>PageItems = [example_task], PageTotal = 1\<rparr>)\<rparr>) \<and>
    (\<forall>p. strict_prefix p eq \<longrightarrow> request_UnmarshalBinary p = Inl Truncated) \<and>
    (\<forall>p. strict_prefix p er \<longrightarrow> response_UnmarshalBinary p = Inl Truncated)"
  by (rule messages_roundtrip)
    (simp_all add: request_ok_def response_ok_def op_ok_def result_ok_def page_ok_def task_ok_def example_task_def
      fits_def priorityVariants_def)

end
