(* ===== verification/TaskStore.thy ===== *)
theory TaskStore
  imports TaskCodec
begin

section \<open>The task store (examples/taskstore/go/store/store.go)\<close>

text \<open>
  The state of the server: the tasks by id, the order they were created in, the next id. \<open>Apply\<close> runs one
  request under the store's mutex. \<open>spec_apply\<close> is what a client may rely on: the tasks are one list in
  the order of their creation. \<open>store_inv\<close> relates the two.
\<close>

subsection \<open>The code\<close>

definition PageLimit :: nat where "PageLimit = 50"

definition FirstID :: "64 word" where "FirstID = 1001"

record task_store =
  store_tasks :: "64 word \<Rightarrow> task option"
  store_order :: "64 word list"
  store_nextID :: "64 word"

definition NewStore :: task_store where
  "NewStore = \<lparr>store_tasks = (\<lambda>_. None), store_order = [], store_nextID = FirstID\<rparr>"

definition reply_to :: "task_request \<Rightarrow> result \<Rightarrow> task_response" where
  "reply_to req r = \<lparr>RespReqID = ReqID req, RespResult = Some r\<rparr>"

definition failed_with :: "string \<Rightarrow> string \<Rightarrow> result" where
  "failed_with code msg = Failed \<lparr>Code = code, Message = msg\<rparr>"

definition no_task :: "64 word \<Rightarrow> result" where
  "no_task i = failed_with ''not_found'' (''no task with id '' @ show_nat (unat i))"

definition needs_title :: result where
  "needs_title = failed_with ''invalid'' ''a task needs a title''"

text \<open>\<open>s.tasks[id]\<close>: the zero \<open>Task\<close> for an id that is not there.\<close>

definition zero_task :: task where
  "zero_task = \<lparr>ID = 0, Title = [], Done = False, Priority = [], Tags = [], DueAt = None\<rparr>"

definition task_at :: "task_store \<Rightarrow> 64 word \<Rightarrow> task" where
  "task_at s i = (case store_tasks s i of None \<Rightarrow> zero_task | Some t \<Rightarrow> t)"

definition new_task :: "64 word \<Rightarrow> draft \<Rightarrow> task" where
  "new_task i d =
     \<lparr>ID = i, Title = DraftTitle d, Done = False, Priority = DraftPriority d, Tags = DraftTags d, DueAt = DraftDueAt d\<rparr>"

definition Apply :: "task_store \<Rightarrow> task_request \<Rightarrow> task_store \<times> task_response" where
  "Apply s req =
     (case ReqOp req of
        Some ListAll \<Rightarrow>
          (s, reply_to req (Listing
             \<lparr>PageItems = map (task_at s) (take PageLimit (store_order s)),
              PageTotal = word_of_nat (length (store_order s))\<rparr>))
      | Some (Create d) \<Rightarrow>
          if DraftTitle d = [] then (s, reply_to req needs_title)
          else let t = new_task (store_nextID s) d in
            (s\<lparr>store_nextID := store_nextID s + 1, store_tasks := (store_tasks s)(ID t \<mapsto> t),
               store_order := store_order s @ [ID t]\<rparr>, reply_to req (Found t))
      | Some (Read i) \<Rightarrow>
          (case store_tasks s i of
             None \<Rightarrow> (s, reply_to req (no_task i))
           | Some t \<Rightarrow> (s, reply_to req (Found t)))
      | Some (Update t) \<Rightarrow>
          if store_tasks s (ID t) = None then (s, reply_to req (no_task (ID t)))
          else if Title t = [] then (s, reply_to req needs_title)
          else (s\<lparr>store_tasks := (store_tasks s)(ID t \<mapsto> t)\<rparr>, reply_to req (Found t))
      | Some (Delete i) \<Rightarrow>
          if store_tasks s i = None then (s, reply_to req (no_task i))
          else (s\<lparr>store_tasks := (store_tasks s)(i := None), store_order := remove1 i (store_order s)\<rparr>,
                reply_to req Accepted)
      | None \<Rightarrow> (s, reply_to req (failed_with ''invalid'' ''unsupported operation <nil>'')))"

text \<open>A sequence of requests, in the order they got the mutex.\<close>

fun apply_all :: "task_store \<Rightarrow> task_request list \<Rightarrow> task_store \<times> task_response list" where
  "apply_all s [] = (s, [])"
| "apply_all s (q # qs) = (let (s', r) = Apply s q; (s'', rs) = apply_all s' qs in (s'', r # rs))"

lemma apply_all_append:
  "apply_all s (ps @ qs) =
     (let (s', rs) = apply_all s ps; (s'', rs') = apply_all s' qs in (s'', rs @ rs'))"
  by (induction ps arbitrary: s) (auto simp: split_def Let_def)

subsection \<open>What it promises\<close>

definition spec_apply :: "task list \<Rightarrow> 64 word \<Rightarrow> op \<Rightarrow> task list \<times> 64 word \<times> result" where
  "spec_apply ts n v =
     (case v of
        ListAll \<Rightarrow> (ts, n, Listing \<lparr>PageItems = take PageLimit ts, PageTotal = word_of_nat (length ts)\<rparr>)
      | Create d \<Rightarrow>
          if DraftTitle d = [] then (ts, n, needs_title) else (ts @ [new_task n d], n + 1, Found (new_task n d))
      | Read i \<Rightarrow> (case find (\<lambda>t. ID t = i) ts of None \<Rightarrow> (ts, n, no_task i) | Some t \<Rightarrow> (ts, n, Found t))
      | Update u \<Rightarrow>
          if \<not> list_ex (\<lambda>t. ID t = ID u) ts then (ts, n, no_task (ID u))
          else if Title u = [] then (ts, n, needs_title)
          else (map (\<lambda>t. if ID t = ID u then u else t) ts, n, Found u)
      | Delete i \<Rightarrow>
          if \<not> list_ex (\<lambda>t. ID t = i) ts then (ts, n, no_task i)
          else (filter (\<lambda>t. ID t \<noteq> i) ts, n, Accepted))"

definition stored_list :: "task_store \<Rightarrow> task list" where
  "stored_list s = map (task_at s) (store_order s)"

definition stored_ok :: "64 word \<Rightarrow> task \<Rightarrow> bool" where
  "stored_ok i t \<longleftrightarrow> ID t = i \<and> Title t \<noteq> [] \<and> task_ok t"

definition store_inv :: "task_store \<Rightarrow> bool" where
  "store_inv s \<longleftrightarrow> distinct (store_order s) \<and> set (store_order s) = dom (store_tasks s) \<and>
     (\<forall>i t. store_tasks s i = Some t \<longrightarrow> stored_ok i t) \<and>
     (\<forall>i\<in>set (store_order s). FirstID \<le> i \<and> i < store_nextID s) \<and> FirstID \<le> store_nextID s"

lemma store_invI:
  assumes "distinct (store_order s)" "set (store_order s) = dom (store_tasks s)"
    "\<And>i t. store_tasks s i = Some t \<Longrightarrow> stored_ok i t"
    "\<And>i. i \<in> set (store_order s) \<Longrightarrow> FirstID \<le> i \<and> i < store_nextID s" "FirstID \<le> store_nextID s"
  shows "store_inv s"
  using assms by (simp add: store_inv_def)

lemma store_invD:
  assumes "store_inv s"
  shows "distinct (store_order s)" "set (store_order s) = dom (store_tasks s)"
    "\<And>i t. store_tasks s i = Some t \<Longrightarrow> stored_ok i t"
    "\<And>i. i \<in> set (store_order s) \<Longrightarrow> FirstID \<le> i \<and> i < store_nextID s" "FirstID \<le> store_nextID s"
  using assms unfolding store_inv_def by auto

lemma NewStore_inv: "store_inv NewStore"
  by (simp add: store_inv_def NewStore_def)

lemma in_order: "store_inv s \<Longrightarrow> i \<in> set (store_order s) \<longleftrightarrow> store_tasks s i \<noteq> None"
  by (auto simp: store_invD(2))

lemma task_at_stored:
  "store_inv s \<Longrightarrow> i \<in> set (store_order s) \<Longrightarrow> store_tasks s i = Some (task_at s i) \<and> stored_ok i (task_at s i)"
  using store_invD(3) by (auto simp: in_order task_at_def)

lemma ids_stored_list: "store_inv s \<Longrightarrow> map ID (stored_list s) = store_order s"
  using task_at_stored by (auto simp: stored_list_def stored_ok_def intro!: map_idI)

lemma list_ex_stored: "store_inv s \<Longrightarrow> list_ex (\<lambda>t. ID t = i) (stored_list s) \<longleftrightarrow> store_tasks s i \<noteq> None"
  using task_at_stored [of s] in_order [of s] by (auto simp: stored_list_def list_ex_iff stored_ok_def)

lemma find_stored: "store_inv s \<Longrightarrow> find (\<lambda>t. ID t = i) (stored_list s) = store_tasks s i"
proof (cases "store_tasks s i")
  case None
  assume "store_inv s"
  then have "\<not> list_ex (\<lambda>t. ID t = i) (stored_list s)" using None by (simp add: list_ex_stored)
  then show ?thesis using None by (auto simp: find_None_iff list_ex_iff)
next
  case (Some t)
  assume inv: "store_inv s"
  have "find (\<lambda>t. ID t = i) (map (task_at s) is) = Some (task_at s i)"
    if "i \<in> set is" "set is \<subseteq> set (store_order s)" for "is"
    using that task_at_stored [OF inv] by (induction "is") (auto simp: stored_ok_def)
  then show ?thesis using Some in_order [OF inv, of i] task_at_stored [OF inv, of i] by (simp add: stored_list_def)
qed

subsection \<open>The code does what the list does\<close>

text \<open>Everything \<open>Apply\<close> does to the state, and its answer, seen as a list.\<close>

definition refines :: "task_store \<Rightarrow> task_request \<Rightarrow> op \<Rightarrow> bool" where
  "refines s req v \<longleftrightarrow>
     (let (s', resp) = Apply s req; (ts, n, r) = spec_apply (stored_list s) (store_nextID s) v in
       store_inv s' \<and> stored_list s' = ts \<and> store_nextID s' = n \<and> resp = reply_to req r)"

lemma refines_unchanged:
  assumes "store_inv s" "Apply s req = (s, reply_to req r)"
    "spec_apply (stored_list s) (store_nextID s) v = (stored_list s, store_nextID s, r)"
  shows "refines s req v"
  using assms by (simp add: refines_def)

lemma next_above:
  fixes n :: "64 word"
  assumes "n \<noteq> - 1"
  shows "i \<le> n \<Longrightarrow> i < n + 1"
proof -
  have "1 + n \<noteq> 0" using assms by (metis add.commute eq_neg_iff_add_eq_0)
  then have "unat (n + 1) = Suc (unat n)" using unatSuc [of n] by (simp add: add.commute)
  then show "i \<le> n \<Longrightarrow> i < n + 1" by (simp add: word_le_nat_alt word_less_nat_alt)
qed

lemma Create_refines:
  assumes inv: "store_inv s" and d: "draft_ok d" and n: "store_nextID s \<noteq> - 1" and q: "ReqOp req = Some (Create d)"
  shows "refines s req (Create d)"
proof (cases "DraftTitle d = []")
  case True
  then show ?thesis using inv q by (intro refines_unchanged) (simp_all add: Apply_def spec_apply_def)
next
  case False
  let ?n = "store_nextID s" let ?t = "new_task ?n d"
  let ?s = "s\<lparr>store_nextID := ?n + 1, store_tasks := (store_tasks s)(?n \<mapsto> ?t), store_order := store_order s @ [?n]\<rparr>"
  have new: "?n \<notin> set (store_order s)" using store_invD(4) [OF inv, of ?n] by auto
  have "stored_ok ?n ?t" using d False by (simp add: stored_ok_def new_task_def task_ok_def draft_ok_def)
  moreover have "FirstID \<le> ?n" by (rule store_invD(5) [OF inv])
  moreover from this have "FirstID \<le> ?n + 1" using next_above [OF n, of FirstID] by simp
  moreover have "FirstID \<le> i \<and> i < ?n + 1" if "i \<in> set (store_order s)" for i
    using store_invD(4) [OF inv that] next_above [OF n, of i] by auto
  ultimately have "store_inv ?s"
    using new store_invD(1-3,5) [OF inv] next_above [OF n, of ?n] by (intro store_invI) (auto split: if_splits)
  moreover have "stored_list ?s = stored_list s @ [?t]"
    using new by (auto simp: stored_list_def task_at_def)
  ultimately show ?thesis using False q
    by (simp add: refines_def Apply_def spec_apply_def Let_def) (simp add: new_task_def)
qed

lemma Update_refines:
  assumes inv: "store_inv s" and u: "task_ok u" and q: "ReqOp req = Some (Update u)"
  shows "refines s req (Update u)"
proof -
  consider "store_tasks s (ID u) = None" | "store_tasks s (ID u) \<noteq> None" "Title u = []"
    | "store_tasks s (ID u) \<noteq> None" "Title u \<noteq> []" by blast
  then show ?thesis
  proof cases
    case 1
    then show ?thesis using inv q by (intro refines_unchanged) (simp_all add: Apply_def spec_apply_def list_ex_stored)
  next
    case 2
    then show ?thesis using inv q
      by (intro refines_unchanged [where r = needs_title]) (auto simp: Apply_def spec_apply_def list_ex_stored)
  next
    case 3
    let ?s = "s\<lparr>store_tasks := (store_tasks s)(ID u \<mapsto> u)\<rparr>"
    have "stored_ok (ID u) u" using u 3 by (simp add: stored_ok_def)
    then have "store_inv ?s" using 3 store_invD [OF inv] by (intro store_invI) (auto split: if_splits)
    moreover have "stored_list ?s = map (\<lambda>t. if ID t = ID u then u else t) (stored_list s)"
      using task_at_stored [OF inv] by (auto simp: stored_list_def task_at_def stored_ok_def)
    ultimately show ?thesis using 3 q
      by (auto simp: refines_def Apply_def spec_apply_def list_ex_stored [OF inv])
  qed
qed

lemma Delete_refines:
  assumes inv: "store_inv s" and q: "ReqOp req = Some (Delete i)"
  shows "refines s req (Delete i)"
proof (cases "store_tasks s i = None")
  case True
  then show ?thesis using inv q
    by (intro refines_unchanged) (simp_all add: Apply_def spec_apply_def list_ex_stored)
next
  case False
  let ?s = "s\<lparr>store_tasks := (store_tasks s)(i := None), store_order := remove1 i (store_order s)\<rparr>"
  have r: "remove1 i (store_order s) = filter (\<lambda>j. j \<noteq> i) (store_order s)"
    using store_invD(1) [OF inv] by (simp add: distinct_remove1_removeAll removeAll_filter_not_eq neq_commute)
  have "store_inv ?s" using store_invD [OF inv] unfolding r by (intro store_invI) (auto split: if_splits)
  moreover have "stored_list ?s = filter (\<lambda>t. ID t \<noteq> i) (stored_list s)"
    using task_at_stored [OF inv]
    by (auto simp: r stored_list_def task_at_def stored_ok_def filter_map comp_def cong: filter_cong)
  moreover obtain t where "store_tasks s i = Some t" using False by auto
  ultimately show ?thesis using q
    by (simp add: refines_def Apply_def spec_apply_def list_ex_stored [OF inv])
qed

lemma Apply_refines:
  assumes inv: "store_inv s" and ok: "op_ok v" and n: "store_nextID s \<noteq> - 1" and q: "ReqOp req = Some v"
  shows "refines s req v"
proof (cases v)
  case ListAll
  then show ?thesis using inv q
    by (intro refines_unchanged) (simp_all add: Apply_def spec_apply_def stored_list_def take_map)
next
  case (Create d)
  then show ?thesis using Create_refines [OF inv _ n] ok q by (simp add: op_ok_def)
next
  case (Read i)
  then show ?thesis using inv q
    by (cases "store_tasks s i"; intro refines_unchanged) (simp_all add: Apply_def spec_apply_def find_stored)
next
  case (Update u)
  then show ?thesis using Update_refines [OF inv] ok q by (simp add: op_ok_def)
next
  case (Delete i)
  then show ?thesis using Delete_refines [OF inv] q by simp
qed

subsection \<open>Sequences of requests\<close>

fun spec_run :: "task list \<Rightarrow> 64 word \<Rightarrow> op list \<Rightarrow> task list \<times> 64 word \<times> result list" where
  "spec_run ts n [] = (ts, n, [])"
| "spec_run ts n (v # vs) =
     (let (ts', n', r) = spec_apply ts n v; (ts'', n'', rs) = spec_run ts' n' vs in (ts'', n'', r # rs))"

lemma spec_next: "spec_apply ts n v = (ts', n', r) \<Longrightarrow> n' = n \<or> n' = n + 1"
  by (auto simp: spec_apply_def split: op.splits if_splits option.splits)

lemma next_bound:
  fixes n :: "64 word"
  assumes "unat n + Suc k < 2 ^ 64" and "n' = n \<or> n' = n + 1"
  shows "n \<noteq> - 1" "unat n' + k < 2 ^ 64"
proof -
  show n: "n \<noteq> - 1"
  proof
    assume "n = - 1"
    then have "unat n = 2 ^ 64 - 1" by (simp add: unsigned_minus_1_eq_mask mask_eq_exp_minus_1)
    then show False using assms(1) by simp
  qed
  then have "1 + n \<noteq> 0" by (metis add.commute eq_neg_iff_add_eq_0)
  then have "unat (n + 1) = Suc (unat n)" using unatSuc [of n] by (simp add: add.commute)
  then show "unat n' + k < 2 ^ 64" using assms by auto
qed

lemma apply_all_refines:
  assumes "store_inv s" "list_all request_ok qs" "unat (store_nextID s) + length qs < 2 ^ 64"
  shows "let (s', rs) = apply_all s qs; (ts, n, os) = spec_run (stored_list s) (store_nextID s) (map (\<lambda>q. the (ReqOp q)) qs)
    in store_inv s' \<and> stored_list s' = ts \<and> store_nextID s' = n \<and> rs = map2 reply_to qs os"
  using assms
proof (induction qs arbitrary: s)
  case (Cons q qs)
  obtain v where v: "ReqOp q = Some v" "op_ok v" using Cons.prems(2) by (auto simp: request_ok_def split: option.splits)
  obtain ts n r where sp: "spec_apply (stored_list s) (store_nextID s) v = (ts, n, r)" by (metis prod_cases3)
  obtain s' resp where ap: "Apply s q = (s', resp)" by (metis surj_pair)
  have "unat (store_nextID s) + Suc (length qs) < 2 ^ 64" using Cons.prems(3) by simp
  note nb = next_bound [OF this spec_next [OF sp]]
  have "refines s q v" by (rule Apply_refines [OF Cons.prems(1) v(2) nb(1) v(1)])
  then have st: "store_inv s'" "stored_list s' = ts" "store_nextID s' = n" "resp = reply_to q r"
    by (simp_all add: refines_def ap sp)
  show ?case
    using Cons.IH [OF st(1)] Cons.prems(2) nb(2) by (simp add: ap sp st v(1) split_def Let_def)
qed simp

lemma length_show_nat: "n < 10 ^ k \<Longrightarrow> 0 < k \<Longrightarrow> length (show_nat n) \<le> k"
proof (induction n arbitrary: k rule: show_nat.induct)
  case (1 n)
  show ?case
  proof (cases "n < 10")
    case False
    then obtain j where k: "k = Suc j" "0 < j" using "1.prems" by (cases k; cases "k - 1") auto
    then have "n div 10 < 10 ^ j" using "1.prems" by (simp add: less_mult_imp_div_less mult.commute)
    then show ?thesis using "1.IH" [OF False, of j] False k by (simp add: show_nat.simps [of n])
  qed (use "1.prems" in \<open>simp add: show_nat.simps [of n]\<close>)
qed

lemma no_task_ok: "result_ok (no_task i)"
proof -
  have "unat i < 2 ^ LENGTH(64)" by (rule unsigned_less)
  then have "unat i < 10 ^ 20" by simp
  then have "length (show_nat (unat i)) \<le> 20" by (rule length_show_nat) simp
  then show ?thesis
    by (simp add: no_task_def failed_with_def result_ok_def failure_ok_def codeVariants_def fits_def)
qed

text \<open>Every answer can be written.\<close>

lemma Apply_response_ok:
  assumes inv: "store_inv s" and ok: "request_ok q"
  shows "response_ok (snd (Apply s q))"
proof -
  obtain v where v: "ReqOp q = Some v" "op_ok v" using ok by (auto simp: request_ok_def split: option.splits)
  have title: "result_ok needs_title"
    by (simp add: needs_title_def failed_with_def result_ok_def failure_ok_def codeVariants_def fits_def)
  have "list_all task_ok (map (task_at s) (take PageLimit (store_order s)))"
    using task_at_stored [OF inv] by (auto simp: list_all_iff stored_ok_def dest: in_set_takeD)
  moreover have "length (take PageLimit (store_order s)) < 2 ^ 32" by (simp add: PageLimit_def)
  ultimately show ?thesis
    using v title no_task_ok store_invD(3) [OF inv]
    by (auto simp: Apply_def response_ok_def reply_to_def result_ok_def op_ok_def page_ok_def fits_def stored_ok_def
        Let_def task_ok_def draft_ok_def new_task_def split: op.splits option.splits)
qed

text \<open>C8. The store is the list of its tasks in the order of their creation: whatever requests are applied to
  a new store, in whatever order, as long as there are fewer than the ids that are left, the map and the
  order it keeps agree with each other, every task stored has a title and its own id, and the answers are
  the ones the list gives, each with the id of its request.\<close>

theorem store_refines_list:
  assumes "list_all request_ok qs" and "length qs < 2 ^ 64 - 1001"
  shows "let (s, rs) = apply_all NewStore qs; (ts, n, os) = spec_run [] FirstID (map (\<lambda>q. the (ReqOp q)) qs)
    in store_inv s \<and> stored_list s = ts \<and> store_nextID s = n \<and> rs = map2 reply_to qs os"
proof -
  have "unat (store_nextID NewStore) + length qs < 2 ^ 64"
    using assms(2) by (simp add: NewStore_def FirstID_def)
  from apply_all_refines [OF NewStore_inv assms(1) this] show ?thesis
    by (simp add: stored_list_def NewStore_def)
qed

definition example_requests :: "task_request list" where
  "example_requests =
     [\<lparr>ReqID = 1, ReqOp = Some (Create \<lparr>DraftTitle = ''a'', DraftPriority = ''low'', DraftTags = [], DraftDueAt = None\<rparr>)\<rparr>,
      \<lparr>ReqID = 2, ReqOp = Some (Delete 1001)\<rparr>, \<lparr>ReqID = 3, ReqOp = Some (Read 1001)\<rparr>, \<lparr>ReqID = 4, ReqOp = Some ListAll\<rparr>]"

lemma store_refines_list_witness:
  "let (s, rs) = apply_all NewStore example_requests;
     (ts, n, os) = spec_run [] FirstID (map (\<lambda>q. the (ReqOp q)) example_requests)
   in store_inv s \<and> stored_list s = ts \<and> store_nextID s = n \<and> rs = map2 reply_to example_requests os"
  by (rule store_refines_list)
    (simp_all add: example_requests_def request_ok_def op_ok_def draft_ok_def fits_def priorityVariants_def)

subsection \<open>Ids\<close>

text \<open>The ids of the tasks the \<open>Create\<close> requests among \<open>qs\<close> were answered with.\<close>

definition id_of :: "task_request \<Rightarrow> task_response \<Rightarrow> 64 word list" where
  "id_of q r = (case (ReqOp q, RespResult r) of (Some (Create d), Some (Found t)) \<Rightarrow> [ID t] | _ \<Rightarrow> [])"

definition created_ids :: "task_request list \<Rightarrow> task_response list \<Rightarrow> 64 word list" where
  "created_ids qs rs = concat (map2 id_of qs rs)"

lemma Apply_id:
  "id_of q (snd (Apply s q)) = [] \<and> store_nextID (fst (Apply s q)) = store_nextID s \<or>
   id_of q (snd (Apply s q)) = [store_nextID s] \<and> store_nextID (fst (Apply s q)) = store_nextID s + 1"
  by (auto simp: id_of_def Apply_def reply_to_def needs_title_def failed_with_def new_task_def Let_def
      split: option.splits op.splits)

lemma created_ids_consecutive:
  "\<exists>m \<le> length qs. created_ids qs (snd (apply_all s qs)) = map (\<lambda>k. store_nextID s + word_of_nat k) [0..<m]"
proof (induction qs arbitrary: s)
  case (Cons q qs)
  obtain s' r where ap: "Apply s q = (s', r)" by (metis surj_pair)
  obtain m where m: "m \<le> length qs"
    "created_ids qs (snd (apply_all s' qs)) = map (\<lambda>k. store_nextID s' + word_of_nat k) [0..<m]"
    using Cons.IH by blast
  have c: "created_ids (q # qs) (snd (apply_all s (q # qs))) = id_of q r @ created_ids qs (snd (apply_all s' qs))"
    by (simp add: created_ids_def ap split_def Let_def)
  from Apply_id [of q s] consider "id_of q r = []" "store_nextID s' = store_nextID s"
    | "id_of q r = [store_nextID s]" "store_nextID s' = store_nextID s + 1" by (auto simp: ap)
  then show ?case
  proof cases
    case 1
    then show ?thesis unfolding c using m by (intro exI [of _ m]) simp
  next
    case 2
    have "map (\<lambda>k. store_nextID s + word_of_nat k) [0..<Suc m] =
        [store_nextID s] @ map (\<lambda>k. store_nextID s + 1 + word_of_nat k) [0..<m]"
      by (simp add: upt_conv_Cons map_Suc_upt [symmetric] add.assoc del: upt_Suc)
    then show ?thesis unfolding c using m 2 by (intro exI [of _ "Suc m"]) (simp del: upt_Suc)
  qed
qed (simp add: created_ids_def)

text \<open>C22. No id is given out twice: in any sequence of at most \<open>2 ^ 64\<close> requests, deletions included, no two
  \<open>Create\<close> requests are answered with the same id.\<close>

theorem ids_never_reused:
  assumes "length qs \<le> 2 ^ 64"
  shows "distinct (created_ids qs (snd (apply_all NewStore qs)))"
proof -
  obtain m where m: "m \<le> length qs"
    "created_ids qs (snd (apply_all NewStore qs)) = map (\<lambda>k. store_nextID NewStore + word_of_nat k) [0..<m]"
    using created_ids_consecutive by blast
  have "inj_on (\<lambda>k. store_nextID NewStore + word_of_nat k :: 64 word) (set [0..<m])"
  proof (rule inj_onI)
    fix i j assume "i \<in> set [0..<m]" "j \<in> set [0..<m]"
      and "store_nextID NewStore + word_of_nat i = store_nextID NewStore + (word_of_nat j :: 64 word)"
    then have "unat (word_of_nat i :: 64 word) = unat (word_of_nat j :: 64 word)" "i < 2 ^ 64" "j < 2 ^ 64"
      using m(1) assms by auto
    then show "i = j" by (simp add: unat_word_of_nat)
  qed
  then show ?thesis by (simp add: m(2) distinct_map)
qed

lemma ids_never_reused_witness:
  "distinct (created_ids example_requests (snd (apply_all NewStore example_requests)))"
  by (rule ids_never_reused) (simp add: example_requests_def)

end
