(* ===== verification/TaskServer.thy ===== *)
theory TaskServer
  imports TaskStore
begin

section \<open>Frames, connections and the server (examples/taskstore/go/api/frame.go, cmd/server, cmd/client)\<close>

text \<open>
  A connection is the bytes its client sends before it hangs up, those of them not read yet, and the bytes
  the server has answered;
  \<open>serve_step\<close> is one turn of the loop in \<open>serve\<close>. Every connection has a goroutine of its own: \<open>server_step\<close>
  lets any open connection take its next turn, on a store that is shared and guarded by its mutex. Errors
  of the sockets themselves, other than the end of the stream, are not modelled.
\<close>

subsection \<open>Frames\<close>

definition MaxFrameLen :: nat where "MaxFrameLen = 2 ^ 20"

datatype frame_error =
    FrameEOF
  | FrameTruncated
  | FrameTooLong nat

definition WriteFrame :: "bytes \<Rightarrow> frame_error + bytes" where
  "WriteFrame payload =
     (if MaxFrameLen < length payload then Inl (FrameTooLong (length payload))
      else Inr (put32 (word_of_nat (length payload)) @ payload))"

definition ReadFrame :: "bytes \<Rightarrow> frame_error + bytes \<times> bytes" where
  "ReadFrame r =
     (if r = [] then Inl FrameEOF
      else if length r < 4 then Inl FrameTruncated
      else let n = unat (get32 r); r' = drop 4 r in
        if MaxFrameLen < n then Inl (FrameTooLong n)
        else if length r' < n then Inl FrameTruncated
        else Inr (take n r', drop n r'))"

lemma ReadFrame_shorter: "ReadFrame r = Inr (p, r') \<Longrightarrow> length r' < length r"
  by (auto simp: ReadFrame_def Let_def split: if_splits)

lemma get32_put32: "get32 (put32 w @ r) = w"
  using word_pieces(2) [of w] by (simp add: get32_def put32_def)

lemma length_put32 [simp]: "length (put32 w) = 4"
  by (simp add: put32_def)

lemma ReadFrame_WriteFrame: "WriteFrame p = Inr b \<Longrightarrow> ReadFrame (b @ rest) = Inr (p, rest)"
proof -
  assume w: "WriteFrame p = Inr b"
  then have n: "length p \<le> 2 ^ 20" "b = put32 (word_of_nat (length p)) @ p"
    by (simp_all add: WriteFrame_def MaxFrameLen_def split: if_splits)
  then have "unat (word_of_nat (length p) :: 32 word) = length p" by (intro unat_word_of_nat) simp
  moreover have "put32 (word_of_nat (length p)) \<noteq> []" by (metis length_put32 list.size(3) zero_neq_numeral)
  ultimately show ?thesis using n by (simp add: ReadFrame_def get32_put32 MaxFrameLen_def Let_def)
qed

subsection \<open>One turn of a connection\<close>

record conn =
  conn_sent :: bytes
  conn_in :: bytes
  conn_out :: bytes
  conn_open :: bool

definition accepted :: "bytes \<Rightarrow> conn" where
  "accepted b = \<lparr>conn_sent = b, conn_in = b, conn_out = [], conn_open = True\<rparr>"

definition hang_up :: "conn \<Rightarrow> conn" where
  "hang_up c = c\<lparr>conn_open := False\<rparr>"

definition answer :: "task_response \<Rightarrow> bytes option" where
  "answer resp =
     (case response_MarshalBinary resp of
        Inl _ \<Rightarrow> None
      | Inr payload \<Rightarrow> (case WriteFrame payload of Inl _ \<Rightarrow> None | Inr b \<Rightarrow> Some b))"

definition serve_step :: "task_store \<Rightarrow> conn \<Rightarrow> task_store \<times> conn" where
  "serve_step s c =
     (case ReadFrame (conn_in c) of
        Inl _ \<Rightarrow> (s, hang_up c)
      | Inr (frame, rest) \<Rightarrow>
          (case request_UnmarshalBinary frame of
             Inl _ \<Rightarrow> (s, hang_up (c\<lparr>conn_in := rest\<rparr>))
           | Inr req \<Rightarrow>
               let (s', resp) = Apply s req in
               (case answer resp of
                  None \<Rightarrow> (s', hang_up (c\<lparr>conn_in := rest\<rparr>))
                | Some b \<Rightarrow> (s', c\<lparr>conn_in := rest, conn_out := conn_out c @ b\<rparr>))))"

lemma serve_step_progress:
  "serve_step s c = (s', c') \<Longrightarrow> conn_open c \<Longrightarrow> conn_open c' \<Longrightarrow> length (conn_in c') < length (conn_in c)"
  by (auto simp: serve_step_def hang_up_def split_def Let_def split: sum.splits option.splits dest!: ReadFrame_shorter)

text \<open>\<open>serve\<close> alone, until it hangs up.\<close>

function serve :: "task_store \<Rightarrow> conn \<Rightarrow> task_store \<times> conn" where
  "serve s c =
     (if conn_open c then (let (s', c') = serve_step s c in serve s' c') else (s, c))"
  by pat_completeness auto

termination
proof (relation "measure (\<lambda>(s, c). length (conn_in c) + (if conn_open c then 1 else 0))")
  fix s c x s' c'
  assume "conn_open c" "x = serve_step s c" "(s', c') = x"
  then show "((s', c'), s, c) \<in> measure (\<lambda>(s, c). length (conn_in c) + (if conn_open c then 1 else 0))"
    using serve_step_progress [of s c s' c']
    by (cases "conn_open c'") (auto simp: serve_step_def hang_up_def split_def Let_def
        split: sum.splits option.splits dest!: ReadFrame_shorter)
qed simp

declare serve.simps [simp del]

lemma serve_closed: "\<not> conn_open c \<Longrightarrow> serve s c = (s, c)"
  by (simp add: serve.simps)

lemma serve_open: "conn_open c \<Longrightarrow> serve_step s c = (s', c') \<Longrightarrow> serve s c = serve s' c'"
  by (simp add: serve.simps)

subsection \<open>All connections\<close>

text \<open>The requests in the bytes of a connection, up to the first that is not one.\<close>

function requests_in :: "bytes \<Rightarrow> task_request list" where
  "requests_in b =
     (case ReadFrame b of
        Inl _ \<Rightarrow> []
      | Inr (frame, rest) \<Rightarrow>
          (case request_UnmarshalBinary frame of Inl _ \<Rightarrow> [] | Inr q \<Rightarrow> q # requests_in rest))"
  by pat_completeness auto

termination
  by (relation "measure length") (auto dest: ReadFrame_shorter)

declare requests_in.simps [simp del]

inductive server_step :: "task_store \<times> conn list \<Rightarrow> task_store \<times> conn list \<Rightarrow> bool" where
  accept_conn: "server_step (s, cs) (s, cs @ [accepted b])"
| turn: "i < length cs \<Longrightarrow> conn_open (cs ! i) \<Longrightarrow> serve_step s (cs ! i) = (s', c') \<Longrightarrow>
    server_step (s, cs) (s', cs[i := c'])"

inductive_cases server_stepE: "server_step (s, cs) (s', cs')"

abbreviation reachable_server :: "task_store \<Rightarrow> conn list \<Rightarrow> bool" where
  "reachable_server s cs \<equiv> server_step\<^sup>*\<^sup>* (NewStore, []) (s, cs)"

text \<open>The requests of connection \<open>i\<close> in a history, and the bytes of their answers.\<close>

definition requests_of :: "nat \<Rightarrow> (nat \<times> task_request) list \<Rightarrow> task_request list" where
  "requests_of i hist = map snd (filter (\<lambda>(j, q). j = i) hist)"

definition answers_of :: "nat \<Rightarrow> (nat \<times> task_request) list \<Rightarrow> task_response list \<Rightarrow> bytes" where
  "answers_of i hist rs =
     concat (map (\<lambda>((j, q), r). if j = i then (case answer r of None \<Rightarrow> [] | Some b \<Rightarrow> b) else []) (zip hist rs))"

text \<open>What a history explains of a connection.\<close>

definition explains :: "(nat \<times> task_request) list \<Rightarrow> nat \<Rightarrow> conn \<Rightarrow> bool" where
  "explains hist i c \<longleftrightarrow>
     prefix (requests_of i hist) (requests_in (conn_sent c)) \<and>
     (conn_open c \<longrightarrow> requests_in (conn_sent c) = requests_of i hist @ requests_in (conn_in c)) \<and>
     conn_out c = answers_of i hist (snd (apply_all NewStore (map snd hist)))"

lemma length_apply_all: "length (snd (apply_all s qs)) = length qs"
  by (induction qs arbitrary: s) (simp_all add: split_def Let_def)

lemma apply_all_snoc:
  "apply_all s (qs @ [q]) =
     (fst (Apply (fst (apply_all s qs)) q), snd (apply_all s qs) @ [snd (Apply (fst (apply_all s qs)) q)])"
  by (simp add: apply_all_append split_def Let_def)

lemma explains_other: "explains hist i c \<Longrightarrow> j \<noteq> i \<Longrightarrow> explains (hist @ [(j, q)]) i c"
  by (simp add: explains_def requests_of_def answers_of_def apply_all_snoc length_apply_all)

lemma explains_turn:
  assumes ex: "explains hist i c" and op: "conn_open c" and s: "s = fst (apply_all NewStore (map snd hist))"
    and step: "serve_step s c = (s', c')"
  shows "s' = s \<and> explains hist i c' \<or>
    (\<exists>q. request_ok q \<and> s' = fst (Apply s q) \<and> explains (hist @ [(i, q)]) i c')"
proof (cases "ReadFrame (conn_in c)")
  case (Inl e)
  then show ?thesis using ex step by (auto simp: serve_step_def hang_up_def explains_def)
next
  case (Inr p)
  obtain frame rest where p: "ReadFrame (conn_in c) = Inr (frame, rest)" using Inr by (metis surj_pair)
  show ?thesis
  proof (cases "request_UnmarshalBinary frame")
    case (Inl e)
    then show ?thesis using ex step by (auto simp: serve_step_def p hang_up_def explains_def)
  next
    case (Inr q)
    have "requests_in (conn_in c) = q # requests_in rest" by (simp add: requests_in.simps [of "conn_in c"] p Inr)
    then have "explains (hist @ [(i, q)]) i c'" "s' = fst (Apply s q)"
      using ex step op
      by (auto simp: explains_def requests_of_def answers_of_def apply_all_snoc length_apply_all serve_step_def p Inr
          s [symmetric] hang_up_def split_def Let_def prefix_def split: option.splits)
    then show ?thesis using request_valid [OF Inr] by blast
  qed
qed

lemma history_exists:
  assumes "server_step\<^sup>*\<^sup>* (NewStore, []) \<sigma>"
  shows "\<exists>hist. fst \<sigma> = fst (apply_all NewStore (map snd hist)) \<and> list_all (request_ok \<circ> snd) hist \<and>
    (\<forall>(i, q)\<in>set hist. i < length (snd \<sigma>)) \<and> (\<forall>i<length (snd \<sigma>). explains hist i (snd \<sigma> ! i))"
  using assms
proof (induction rule: rtranclp_induct)
  case base
  show ?case by (intro exI [of _ "[]"]) simp
next
  case (step \<sigma> \<tau>)
  then obtain hist where h: "fst \<sigma> = fst (apply_all NewStore (map snd hist))" "list_all (request_ok \<circ> snd) hist"
    "\<forall>(i, q)\<in>set hist. i < length (snd \<sigma>)" "\<forall>i<length (snd \<sigma>). explains hist i (snd \<sigma> ! i)" by blast
  from step.hyps(2) show ?case
  proof (cases rule: server_step.cases)
    case (accept_conn s cs b)
    have "requests_of (length cs) hist = []" "\<And>rs. answers_of (length cs) hist rs = []"
      using h(3) accept_conn by (auto simp: requests_of_def answers_of_def filter_empty_conv dest!: set_zip_leftD)
    then have "explains hist (length cs) (accepted b)" by (simp add: explains_def accepted_def)
    then show ?thesis using h accept_conn
      by (intro exI [of _ hist]) (auto simp: nth_append less_Suc_eq comp_def)
  next
    case (turn i cs s s' c')
    have ex: "explains hist i (cs ! i)" using h(4) turn by simp
    have s: "s = fst (apply_all NewStore (map snd hist))" using h(1) turn by simp
    from explains_turn [OF ex turn(4) s turn(5)] show ?thesis
    proof
      assume "s' = s \<and> explains hist i c'"
      then show ?thesis using h turn by (intro exI [of _ hist]) (auto simp: nth_list_update comp_def)
    next
      assume "\<exists>q. request_ok q \<and> s' = fst (Apply s q) \<and> explains (hist @ [(i, q)]) i c'"
      then obtain q where q: "request_ok q" "s' = fst (Apply s q)" "explains (hist @ [(i, q)]) i c'" by blast
      then show ?thesis using h turn
        by (intro exI [of _ "hist @ [(i, q)]"])
          (auto simp: apply_all_snoc s [symmetric] nth_list_update comp_def intro: explains_other)
    qed
  qed
qed

text \<open>C7. The server is one store: whatever connections there are and however their turns interleave, there is
  one sequence of requests that explains everything. The store is what applying them in that order to a
  new store gives; what a connection has been sent is the answers to its own requests, in the order it
  sent them, none left out before the last; and a connection still open has had every request answered
  that the bytes read so far contain. Every request of the sequence has values the layout can carry.\<close>

theorem server_linearizable:
  assumes "reachable_server s cs"
  shows "\<exists>hist. s = fst (apply_all NewStore (map snd hist)) \<and> list_all (request_ok \<circ> snd) hist \<and>
    (\<forall>i<length cs.
       prefix (requests_of i hist) (requests_in (conn_sent (cs ! i))) \<and>
       (conn_open (cs ! i) \<longrightarrow>
          requests_in (conn_sent (cs ! i)) = requests_of i hist @ requests_in (conn_in (cs ! i))) \<and>
       conn_out (cs ! i) = answers_of i hist (snd (apply_all NewStore (map snd hist))))"
  using history_exists [OF assms] unfolding explains_def by auto

definition example_server :: "task_store \<times> conn list" where
  "example_server =
     (let (s, c) = serve_step NewStore (accepted (put32 13 @ put32 7 @ [2] @ put64 1001)) in (s, [c, accepted []]))"

lemma server_linearizable_witness:
  "\<exists>hist. fst example_server = fst (apply_all NewStore (map snd hist)) \<and> list_all (request_ok \<circ> snd) hist \<and>
    (\<forall>i<length (snd example_server).
       prefix (requests_of i hist) (requests_in (conn_sent (snd example_server ! i))) \<and>
       (conn_open (snd example_server ! i) \<longrightarrow>
          requests_in (conn_sent (snd example_server ! i)) =
            requests_of i hist @ requests_in (conn_in (snd example_server ! i))) \<and>
       conn_out (snd example_server ! i) = answers_of i hist (snd (apply_all NewStore (map snd hist))))"
proof (rule server_linearizable)
  let ?c = "accepted (put32 13 @ put32 7 @ [2] @ put64 1001)"
  obtain s c where st: "serve_step NewStore ?c = (s, c)" by (metis surj_pair)
  have 1: "server_step (NewStore, []) (NewStore, [?c])" using accept_conn [of NewStore "[]" "put32 13 @ put32 7 @ [2] @ put64 1001"] by simp
  have 2: "server_step (NewStore, [?c]) (s, [c])"
    using turn [of 0 "[?c]" NewStore s c] st by (simp add: accepted_def)
  have 3: "server_step (s, [c]) (s, [c, accepted []])" using accept_conn [of s "[c]" "[]"] by simp
  have e: "example_server = (s, [c, accepted []])" unfolding example_server_def st by simp
  show "reachable_server (fst example_server) (snd example_server)"
    unfolding e fst_conv snd_conv
    by (rule converse_rtranclp_into_rtranclp [of server_step], rule 1, rule converse_rtranclp_into_rtranclp [of server_step],
        rule 2, rule r_into_rtranclp [of server_step], rule 3)
qed

subsection \<open>A client\<close>

text \<open>\<open>send\<close> of cmd/client: one request, one answer. \<open>dial\<close> is the network, \<open>None\<close> when there is no server.\<close>

datatype send_error =
    MarshalRequest app_error
  | Dial
  | WriteRequest frame_error
  | ReadResponse frame_error
  | UnmarshalResponse app_error

definition send :: "(bytes \<Rightarrow> bytes) option \<Rightarrow> task_request \<Rightarrow> send_error + task_response" where
  "send dial req =
     rbind (map_err MarshalRequest (request_MarshalBinary req)) (\<lambda>payload.
     (case dial of
        None \<Rightarrow> Inl Dial
      | Some conn \<Rightarrow>
          rbind (map_err WriteRequest (WriteFrame payload)) (\<lambda>b.
          rbind (map_err ReadResponse (ReadFrame (conn b))) (\<lambda>(frame, _).
            map_err UnmarshalResponse (response_UnmarshalBinary frame)))))"

text \<open>A server with store \<open>s\<close> at the other end.\<close>

definition served_by :: "task_store \<Rightarrow> bytes \<Rightarrow> bytes" where
  "served_by s b = conn_out (snd (serve s (accepted b)))"

lemma open_conn: "conn_open (accepted b)"
  by (simp add: accepted_def)

lemma serve_one:
  assumes "request_ok q" "request_MarshalBinary q = Inr e" "length e \<le> MaxFrameLen"
  shows "\<exists>b c. WriteFrame e = Inr b \<and> serve s (accepted b) = (fst (Apply s q), c) \<and>
    conn_out c = (case answer (snd (Apply s q)) of None \<Rightarrow> [] | Some r \<Rightarrow> r)"
proof -
  obtain b where b: "WriteFrame e = Inr b" using assms(3) by (simp add: WriteFrame_def)
  have r: "ReadFrame b = Inr (e, [])" using ReadFrame_WriteFrame [OF b, of "[]"] by simp
  have u: "request_UnmarshalBinary e = Inr q"
    using requests.decoded [OF assms(1,2), of "[]"] by (simp add: request_Unmarshal)
  let ?s = "fst (Apply s q)"
  show ?thesis
  proof (cases "answer (snd (Apply s q))")
    case None
    let ?c = "hang_up ((accepted b)\<lparr>conn_in := []\<rparr>)"
    have "serve_step s (accepted b) = (?s, ?c)"
      by (simp add: serve_step_def accepted_def r u None split_def Let_def)
    then have "serve s (accepted b) = (?s, ?c)"
      using serve_open [OF open_conn, of s b] by (simp add: serve_closed hang_up_def)
    then show ?thesis using b None by (intro exI [of _ b] exI [of _ ?c]) (simp add: hang_up_def accepted_def)
  next
    case (Some a)
    let ?c = "(accepted b)\<lparr>conn_in := [], conn_out := a\<rparr>"
    have "serve_step s (accepted b) = (?s, ?c)"
      by (simp add: serve_step_def accepted_def r u Some split_def Let_def)
    moreover have "serve_step ?s ?c = (?s, hang_up ?c)" by (simp add: serve_step_def ReadFrame_def)
    moreover have "conn_open ?c" by (simp add: open_conn)
    ultimately have "serve s (accepted b) = (?s, hang_up ?c)"
      using serve_open [OF open_conn, of s b] serve_open [of ?c ?s] serve_closed [of "hang_up ?c" ?s]
      by (simp add: hang_up_def)
    then show ?thesis using b Some by (intro exI [of _ b] exI [of _ "hang_up ?c"]) (simp add: hang_up_def)
  qed
qed

lemma answer_read:
  "response_ok r \<Longrightarrow> answer r = Some b \<Longrightarrow> \<exists>frame. ReadFrame b = Inr (frame, []) \<and> response_UnmarshalBinary frame = Inr r"
  using responses.decoded [of r _ "[]"] ReadFrame_WriteFrame [of _ b "[]"]
  by (auto simp: answer_def response_Unmarshal split: sum.splits)

lemma send_one:
  assumes "store_inv s" "request_ok q" "request_MarshalBinary q = Inr e" "length e \<le> MaxFrameLen"
  shows "send (Some (served_by s)) q =
      (case answer (snd (Apply s q)) of None \<Rightarrow> Inl (ReadResponse FrameEOF) | Some _ \<Rightarrow> Inr (snd (Apply s q)))"
proof -
  obtain b c where b: "WriteFrame e = Inr b" "serve s (accepted b) = (fst (Apply s q), c)"
    "conn_out c = (case answer (snd (Apply s q)) of None \<Rightarrow> [] | Some r \<Rightarrow> r)"
    using serve_one [OF assms(2-4)] by blast
  show ?thesis
  proof (cases "answer (snd (Apply s q))")
    case None
    then show ?thesis by (simp add: send_def served_by_def assms(3) b ReadFrame_def)
  next
    case (Some r)
    then show ?thesis using answer_read [OF Apply_response_ok [OF assms(1,2)] Some]
      by (auto simp: send_def served_by_def assms(3) b)
  qed
qed

text \<open>What a client of the server sees is the store: a request that fits a frame is applied once, and the
  client gets exactly the answer of the store, unless that answer does not fit a frame: then the
  connection is closed and the client is told the stream ended, although the store has changed.\<close>

theorem client_sees_the_store:
  assumes "store_inv s" and "request_ok q" and "request_MarshalBinary q = Inr e" and "length e \<le> MaxFrameLen"
  shows "\<exists>b. WriteFrame e = Inr b \<and> fst (serve s (accepted b)) = fst (Apply s q) \<and>
    send (Some (served_by s)) q =
      (case answer (snd (Apply s q)) of None \<Rightarrow> Inl (ReadResponse FrameEOF) | Some _ \<Rightarrow> Inr (snd (Apply s q)))"
  using serve_one [OF assms(2-4), of s] send_one [OF assms] by force

lemma client_sees_the_store_witness:
  "\<exists>b. WriteFrame (put32 7 @ [2] @ put64 1001) = Inr b \<and>
    fst (serve NewStore (accepted b)) = fst (Apply NewStore \<lparr>ReqID = 7, ReqOp = Some (Read 1001)\<rparr>) \<and>
    send (Some (served_by NewStore)) \<lparr>ReqID = 7, ReqOp = Some (Read 1001)\<rparr> =
      (case answer (snd (Apply NewStore \<lparr>ReqID = 7, ReqOp = Some (Read 1001)\<rparr>)) of
         None \<Rightarrow> Inl (ReadResponse FrameEOF)
       | Some _ \<Rightarrow> Inr (snd (Apply NewStore \<lparr>ReqID = 7, ReqOp = Some (Read 1001)\<rparr>)))"
  by (rule client_sees_the_store)
    (simp_all add: NewStore_inv request_ok_def op_ok_def request_MarshalBinary_def appendOp_def MaxFrameLen_def put64_def)

subsection \<open>Answers that do not fit\<close>

lemma length_appendString [simp]: "length (appendString s) = 4 + length s"
  by (simp add: appendString_def)

lemma length_put64 [simp]: "length (put64 w) = 8"
  by (simp add: put64_def)

lemma appendEnum_priority: "p \<in> set priorityVariants \<Longrightarrow> \<exists>i. appendEnum priorityVariants p = Inr [i]"
  using appendEnum_known [of p priorityVariants] by (auto simp: priorityVariants_def)

text \<open>C20. A task can be created without its client learning it: a request to create a task whose title has
  between 1048553 and 1048561 bytes (no tags, no due date) fits a frame, but its answer, nine bytes longer,
  does not. The server stores the task under the next id and closes the connection without an answer.\<close>

theorem create_without_answer:
  assumes "store_inv s" and "p \<in> set priorityVariants"
    and "1048553 \<le> length title" and "length title \<le> 1048561"
    and "d = \<lparr>DraftTitle = title, DraftPriority = p, DraftTags = [], DraftDueAt = None\<rparr>"
  shows "send (Some (served_by s)) \<lparr>ReqID = i, ReqOp = Some (Create d)\<rparr> = Inl (ReadResponse FrameEOF) \<and>
    (\<exists>e b. request_MarshalBinary \<lparr>ReqID = i, ReqOp = Some (Create d)\<rparr> = Inr e \<and> WriteFrame e = Inr b \<and>
       store_tasks (fst (serve s (accepted b))) (store_nextID s) = Some (new_task (store_nextID s) d))"
proof -
  let ?q = "\<lparr>ReqID = i, ReqOp = Some (Create d)\<rparr>"
  obtain k where k: "appendEnum priorityVariants p = Inr [k]" using appendEnum_priority [OF assms(2)] ..
  let ?e = "put32 i @ [1] @ appendString title @ [k] @ appendTags [] @ appendDueAt None"
  have e: "request_MarshalBinary ?q = Inr ?e"
    by (simp add: request_MarshalBinary_def appendOp_def tagged_def appendDraft_def assms(5) k)
  have ok: "request_ok ?q" using assms(2,4) by (simp add: request_ok_def op_ok_def draft_ok_def assms(5) fits_def)
  have short: "length ?e \<le> MaxFrameLen" using assms(4) by (simp add: appendTags_def appendDueAt_def MaxFrameLen_def)
  have t: "title \<noteq> []" using assms(3) by auto
  have lost: "answer (snd (Apply s ?q)) = None"
    using t assms(3)
    by (simp add: Apply_def assms(5) Let_def answer_def reply_to_def response_MarshalBinary_def appendResult_def tagged_def
        appendTask_def new_task_def k WriteFrame_def MaxFrameLen_def appendTags_def appendDueAt_def appendBool_def)
  have "store_tasks (fst (Apply s ?q)) (store_nextID s) = Some (new_task (store_nextID s) d)"
    using t by (simp add: Apply_def assms(5) Let_def new_task_def)
  then show ?thesis
    using send_one [OF assms(1) ok e short] serve_one [OF ok e short, of s] e lost by force
qed

lemma create_without_answer_witness:
  "send (Some (served_by NewStore))
      \<lparr>ReqID = 1, ReqOp = Some (Create \<lparr>DraftTitle = replicate 1048560 CHR ''a'', DraftPriority = ''low'',
        DraftTags = [], DraftDueAt = None\<rparr>)\<rparr> = Inl (ReadResponse FrameEOF) \<and>
    (\<exists>e b. request_MarshalBinary
        \<lparr>ReqID = 1, ReqOp = Some (Create \<lparr>DraftTitle = replicate 1048560 CHR ''a'', DraftPriority = ''low'',
          DraftTags = [], DraftDueAt = None\<rparr>)\<rparr> = Inr e \<and> WriteFrame e = Inr b \<and>
       store_tasks (fst (serve NewStore (accepted b))) (store_nextID NewStore) =
         Some (new_task (store_nextID NewStore) \<lparr>DraftTitle = replicate 1048560 CHR ''a'', DraftPriority = ''low'',
          DraftTags = [], DraftDueAt = None\<rparr>))"
  by (rule create_without_answer [OF NewStore_inv, of "''low''" "replicate 1048560 CHR ''a''"])
    (simp_all only: length_replicate, simp_all add: priorityVariants_def)

lemma length_appendTask: "appendTask t = Inr e \<Longrightarrow> length (Title t) \<le> length e"
  by (auto simp: appendTask_def rbind_eq_Inr)

lemma length_tasks: "mapM appendTask ts = Inr es \<Longrightarrow> sum_list (map (\<lambda>t. length (Title t)) ts) \<le> length (concat es)"
  by (induction ts arbitrary: es) (fastforce simp: rbind_eq_Inr dest: length_appendTask)+

text \<open>C21. A store can be filled until it cannot be listed: once the titles of its first fifty tasks have
  together more bytes than a frame, every client that asks for the list has its connection closed without
  an answer, although every one of those tasks was accepted and can be read by its id.\<close>

theorem full_store_cannot_be_listed:
  assumes "store_inv s"
    and "MaxFrameLen < sum_list (map (\<lambda>t. length (Title t)) (take PageLimit (stored_list s)))"
  shows "send (Some (served_by s)) \<lparr>ReqID = i, ReqOp = Some ListAll\<rparr> = Inl (ReadResponse FrameEOF)"
proof -
  let ?q = "\<lparr>ReqID = i, ReqOp = Some ListAll\<rparr>"
  have e: "request_MarshalBinary ?q = Inr (put32 i @ [0])" by (simp add: request_MarshalBinary_def appendOp_def)
  have ok: "request_ok ?q" by (simp add: request_ok_def op_ok_def)
  have "answer (snd (Apply s ?q)) = None"
    using assms(2) length_tasks [of "take PageLimit (stored_list s)"]
    by (auto simp: Apply_def answer_def reply_to_def response_MarshalBinary_def appendResult_def tagged_def appendPage_def
        stored_list_def take_map WriteFrame_def split: sum.splits)
      (auto simp: map_res_eq_Inr rbind_eq_Inr)
  then show ?thesis using send_one [OF assms(1) ok e] by (simp add: MaxFrameLen_def)
qed

definition big_task :: "64 word \<Rightarrow> task" where
  "big_task i = \<lparr>ID = i, Title = replicate 600000 CHR ''a'', Done = False, Priority = ''low'', Tags = [], DueAt = None\<rparr>"

definition full_store :: task_store where
  "full_store =
     \<lparr>store_tasks = [1001 \<mapsto> big_task 1001, 1002 \<mapsto> big_task 1002], store_order = [1001, 1002], store_nextID = 1003\<rparr>"

lemma stored_big_task: "stored_ok i (big_task i)"
proof -
  have "replicate 600000 CHR ''a'' \<noteq> []" by (simp only: replicate_empty)
  then show ?thesis by (simp add: stored_ok_def big_task_def task_ok_def fits_def priorityVariants_def)
qed

lemma full_store_inv: "store_inv full_store"
proof (rule store_invI)
  show "\<And>i t. store_tasks full_store i = Some t \<Longrightarrow> stored_ok i t"
    using stored_big_task by (auto simp: full_store_def split: if_splits)
qed (auto simp: full_store_def FirstID_def split: if_splits)

lemma full_store_cannot_be_listed_witness:
  "send (Some (served_by full_store)) \<lparr>ReqID = 1, ReqOp = Some ListAll\<rparr> = Inl (ReadResponse FrameEOF)"
  by (rule full_store_cannot_be_listed [OF full_store_inv])
    (simp add: full_store_def stored_list_def task_at_def PageLimit_def MaxFrameLen_def big_task_def)

end
