(* ===== verification/TaskClient.thy ===== *)
theory TaskClient
  imports TaskServer GoStrings
begin

section \<open>The command line of the client (examples/taskstore/go/cmd/client)\<close>

text \<open>
  What the client makes of its arguments, up to the request it sends; \<open>send\<close> is in TaskServer. The lines it
  prints (\<open>render\<close>) are not modelled.
\<close>

datatype cli_error =
    NoCommand
  | NeedsArguments string
  | BadID string
  | BadDone string
  | NotAPriority string
  | UnknownCommand string

definition arg :: "string list \<Rightarrow> nat \<Rightarrow> string \<Rightarrow> string" where
  "arg args i fallback = (if i < length args \<and> args ! i \<noteq> [] then args ! i else fallback)"

definition parsePriority :: "string \<Rightarrow> cli_error + string" where
  "parsePriority s = (if ValidPriority s then Inr s else Inl (NotAPriority s))"

definition parseTags :: "string \<Rightarrow> string list" where
  "parseTags s = (if s = [] then [] else split_on CHR '','' s)"

definition parseDue :: "string \<Rightarrow> 64 word option" where
  "parseDue s = (if s = [] then None else map_option word_of_int (parse_int64 s))"

text \<open>\<open>strconv.ParseBool\<close>.\<close>

definition ParseBool :: "string \<Rightarrow> bool option" where
  "ParseBool s =
     (if s \<in> set [''1'', ''t'', ''T'', ''true'', ''TRUE'', ''True''] then Some True
      else if s \<in> set [''0'', ''f'', ''F'', ''false'', ''FALSE'', ''False''] then Some False else None)"

definition parseID :: "string \<Rightarrow> cli_error + 64 word" where
  "parseID s = (case parse_uint64 s of None \<Rightarrow> Inl (BadID s) | Some i \<Rightarrow> Inr (word_of_int i))"

definition parseOp :: "string list \<Rightarrow> cli_error + op" where
  "parseOp args = (case args of
     [] \<Rightarrow> Inl NoCommand
   | cmd # _ \<Rightarrow>
       if cmd = ''list'' then Inr ListAll
       else if cmd = ''create'' then
         if length args < 2 then Inl (NeedsArguments cmd)
         else rbind (parsePriority (arg args 2 ''normal'')) (\<lambda>p.
           Inr (Create \<lparr>DraftTitle = args ! 1, DraftPriority = p, DraftTags = parseTags (arg args 3 []),
             DraftDueAt = parseDue (arg args 4 [])\<rparr>))
       else if cmd = ''read'' \<or> cmd = ''delete'' then
         if length args < 2 then Inl (NeedsArguments cmd)
         else rbind (parseID (args ! 1)) (\<lambda>i. Inr (if cmd = ''read'' then Read i else Delete i))
       else if cmd = ''update'' then
         if length args < 4 then Inl (NeedsArguments cmd)
         else rbind (parseID (args ! 1)) (\<lambda>i.
           (case ParseBool (args ! 3) of
              None \<Rightarrow> Inl (BadDone (args ! 3))
            | Some d \<Rightarrow>
                rbind (parsePriority (arg args 4 ''normal'')) (\<lambda>p.
                  Inr (Update \<lparr>ID = i, Title = args ! 2, Done = d, Priority = p, Tags = parseTags (arg args 5 []),
                    DueAt = parseDue (arg args 6 [])\<rparr>))))
       else Inl (UnknownCommand cmd))"

definition run_client :: "(bytes \<Rightarrow> bytes) option \<Rightarrow> string list \<Rightarrow> cli_error + (send_error + task_response)" where
  "run_client dial args = map_res (\<lambda>v. send dial \<lparr>ReqID = 1, ReqOp = Some v\<rparr>) (parseOp args)"

text \<open>\<open>main\<close>'s exit code.\<close>

definition client_exit :: "cli_error + (send_error + task_response) \<Rightarrow> nat" where
  "client_exit r = (case r of
     Inl _ \<Rightarrow> 2
   | Inr (Inl _) \<Rightarrow> 1
   | Inr (Inr resp) \<Rightarrow> (case RespResult resp of Some (Failed _) \<Rightarrow> 1 | _ \<Rightarrow> 0))"

subsection \<open>What the client can send\<close>

lemma length_split_on: "length (split_on c s) \<le> Suc (length s)" "p \<in> set (split_on c s) \<Longrightarrow> length p \<le> length s"
proof -
  show "length (split_on c s) \<le> Suc (length s)"
    by (induction c s rule: split_on.induct) (auto split: list.splits)
  have "length p \<le> length (join [c] ps)" if "p \<in> set ps" for ps
    using that by (induction "[c]" ps rule: join.induct) auto
  then show "p \<in> set (split_on c s) \<Longrightarrow> length p \<le> length s"
    using join_split_on by metis
qed

definition short :: "string \<Rightarrow> bool" where
  "short s \<longleftrightarrow> length s < 2 ^ 32 - 1"

lemma parseTags_fit: "short s \<Longrightarrow> fits (parseTags s) \<and> list_all fits (parseTags s)"
  using length_split_on [where c = "CHR '',''" and s = s]
  by (fastforce simp: short_def fits_def parseTags_def list_all_iff)

lemma arg_short: "list_all short args \<Longrightarrow> short (arg args i [])"
  by (auto simp: arg_def list_all_length short_def)

lemma parsePriority_valid: "parsePriority s = Inr p \<Longrightarrow> p \<in> set priorityVariants"
  by (auto simp: parsePriority_def ValidPriority_def list_ex_iff split: if_splits)

lemma short_fits: "list_all short args \<Longrightarrow> i < length args \<Longrightarrow> fits (args ! i)"
  by (auto simp: list_all_length short_def fits_def less_trans)

lemma parse_create:
  assumes "parseOp args = Inr v" "list_all short args" "hd args = ''create''"
  shows "op_ok v"
proof (cases "length args < 2")
  case False
  then show ?thesis using assms short_fits [OF assms(2), of 1] parseTags_fit [OF arg_short [OF assms(2), of 3]]
    by (cases args) (auto simp: parseOp_def rbind_eq_Inr op_ok_def draft_ok_def parsePriority_valid)
qed (use assms in \<open>cases args; simp add: parseOp_def\<close>)

lemma parse_update:
  assumes "parseOp args = Inr v" "list_all short args" "hd args = ''update''"
  shows "op_ok v"
proof (cases "length args < 4")
  case False
  then show ?thesis using assms short_fits [OF assms(2), of 2] parseTags_fit [OF arg_short [OF assms(2), of 5]]
    by (cases args) (auto simp: parseOp_def rbind_eq_Inr op_ok_def task_ok_def parsePriority_valid split: option.splits)
qed (use assms in \<open>cases args; simp add: parseOp_def\<close>)

lemma parseOp_ok: "parseOp args = Inr v \<Longrightarrow> list_all short args \<Longrightarrow> op_ok v"
proof -
  assume p: "parseOp args = Inr v" and s: "list_all short args"
  show ?thesis
  proof (cases "hd args = ''create'' \<or> hd args = ''update''")
    case True
    then show ?thesis using parse_create [OF p s] parse_update [OF p s] by blast
  next
    case False
    show ?thesis
    proof (cases "hd args = ''list''")
      case True
      then show ?thesis using p by (cases args) (auto simp: parseOp_def op_ok_def)
    next
      case nl: False
      show ?thesis
      proof (cases "args \<noteq> [] \<and> (hd args = ''read'' \<or> hd args = ''delete'') \<and> 2 \<le> length args")
        case True
        then have "parseOp args = rbind (parseID (args ! 1)) (\<lambda>i. Inr (if hd args = ''read'' then Read i else Delete i))"
          by (cases args) (auto simp: parseOp_def)
        then obtain i where "v = Read i \<or> v = Delete i"
          using p by (cases "parseID (args ! 1)") (auto split: if_splits)
        then show ?thesis by (auto simp: op_ok_def)
      next
        case no: False
        show ?thesis
        proof (cases args)
          case Nil
          then show ?thesis using p by (simp add: parseOp_def)
        next
          case (Cons cmd rest)
          then show ?thesis using p no nl False by (simp add: parseOp_def Suc_le_eq split: if_splits)
        qed
      qed
    qed
  qed
qed

text \<open>C9. A command of the client that exits with 0 has been carried out: the arguments name an operation, the
  server's store has done to its list of tasks exactly what the operation specifies, and the operation
  did not fail. (The arguments are shorter than \<open>2 ^ 32 - 1\<close> bytes, and the store has an id left.)\<close>

theorem exit_zero_means_done:
  assumes "store_inv s" and "store_nextID s \<noteq> - 1" and "list_all short args"
    and "client_exit (run_client (Some (served_by s)) args) = 0"
  shows "\<exists>v ts n r e b. parseOp args = Inr v \<and>
    spec_apply (stored_list s) (store_nextID s) v = (ts, n, r) \<and> (\<forall>f. r \<noteq> Failed f) \<and>
    request_MarshalBinary \<lparr>ReqID = 1, ReqOp = Some v\<rparr> = Inr e \<and> WriteFrame e = Inr b \<and>
    stored_list (fst (serve s (accepted b))) = ts"
proof -
  obtain v where v: "parseOp args = Inr v"
    using assms(4) by (cases "parseOp args") (auto simp: client_exit_def run_client_def)
  let ?q = "\<lparr>ReqID = 1, ReqOp = Some v\<rparr>"
  have ok: "op_ok v" by (rule parseOp_ok [OF v assms(3)])
  then have q: "request_ok ?q" by (simp add: request_ok_def)
  obtain resp where sent: "send (Some (served_by s)) ?q = Inr resp" "\<forall>f. RespResult resp \<noteq> Some (Failed f)"
    using assms(4) by (cases "send (Some (served_by s)) ?q")
      (auto simp: client_exit_def run_client_def v split: option.splits result.splits)
  obtain e where e: "request_MarshalBinary ?q = Inr e" using requests.writes [OF q] by blast
  have len: "length e \<le> MaxFrameLen"
    using sent(1) by (simp add: send_def e WriteFrame_def split: if_splits)
  obtain b c where b: "WriteFrame e = Inr b" "serve s (accepted b) = (fst (Apply s ?q), c)"
    using serve_one [OF q e len] by blast
  have resp: "resp = snd (Apply s ?q)"
    using send_one [OF assms(1) q e len] sent(1) by (simp split: option.splits)
  obtain ts n r where sp: "spec_apply (stored_list s) (store_nextID s) v = (ts, n, r)" by (metis prod_cases3)
  have "refines s ?q v" by (rule Apply_refines [OF assms(1) ok assms(2)]) simp
  then have "stored_list (fst (Apply s ?q)) = ts" "resp = reply_to ?q r"
    by (simp_all add: refines_def sp resp split_def Let_def)
  then show ?thesis using v sp sent(2) e b by (auto simp: reply_to_def)
qed

lemma exit_zero_means_done_witness:
  "\<exists>v ts n r e b. parseOp [''list''] = Inr v \<and>
    spec_apply (stored_list NewStore) (store_nextID NewStore) v = (ts, n, r) \<and> (\<forall>f. r \<noteq> Failed f) \<and>
    request_MarshalBinary \<lparr>ReqID = 1, ReqOp = Some v\<rparr> = Inr e \<and> WriteFrame e = Inr b \<and>
    stored_list (fst (serve NewStore (accepted b))) = ts"
proof (rule exit_zero_means_done [OF NewStore_inv])
  let ?q = "\<lparr>ReqID = 1, ReqOp = Some ListAll\<rparr>"
  have e: "request_MarshalBinary ?q = Inr (put32 1 @ [0])" by (simp add: request_MarshalBinary_def appendOp_def)
  have "send (Some (served_by NewStore)) ?q =
      (case answer (snd (Apply NewStore ?q)) of None \<Rightarrow> Inl (ReadResponse FrameEOF) | Some _ \<Rightarrow> Inr (snd (Apply NewStore ?q)))"
    by (rule send_one [OF NewStore_inv _ e]) (simp_all add: request_ok_def op_ok_def MaxFrameLen_def)
  then show "client_exit (run_client (Some (served_by NewStore)) [''list'']) = 0"
    by (simp add: run_client_def parseOp_def client_exit_def Apply_def NewStore_def reply_to_def answer_def
        response_MarshalBinary_def appendResult_def tagged_def appendPage_def WriteFrame_def MaxFrameLen_def)
qed (simp_all add: NewStore_def FirstID_def short_def)

end
