(* ===== verification/TaskWorker.thy ===== *)
theory TaskWorker
  imports TaskCodec ReflectFacts
begin

section \<open>The conformance worker of the task store (examples/taskstore/go/main.go)\<close>

text \<open>
  The worker hands the library the server's own serializers, and two converters between the schema's sums
  and the sealed interfaces \<open>Op\<close> and \<open>Result\<close>. The payload structs are copied field by field. The text of
  an error is a parameter; dereferencing a nil variant or a nil FieldMap, a panic, is the error \<open>NilPayload\<close>.
\<close>

datatype conv_error =
    BadPayload string
  | BadField fm_error
  | UnknownVariant string
  | NilPayload

subsection \<open>The structs\<close>

definition taskToFieldMap :: "task \<Rightarrow> field_map" where
  "taskToFieldMap t =
     SetOptional FI64
       (SetListString (SetString (SetBool (SetString (SetU64 NewFieldMap ''id'' (ID t)) ''title'' (Title t))
         ''done'' (Done t)) ''priority'' (Priority t)) ''tags'' (Tags t))
       ''due_at'' (DueAt t)"

text \<open>No FieldMap value is a \<open>*int64\<close>.\<close>

definition GetOptionalI64 :: "field_map \<Rightarrow> string \<Rightarrow> fm_error + 64 word option" where
  "GetOptionalI64 = GetOptional asI64 (\<lambda>_. None)"

definition taskFromFieldMap :: "field_map \<Rightarrow> fm_error + task" where
  "taskFromFieldMap fm =
     rbind (GetU64 fm ''id'') (\<lambda>i.
     rbind (GetString fm ''title'') (\<lambda>title.
     rbind (GetBool fm ''done'') (\<lambda>d.
     rbind (GetString fm ''priority'') (\<lambda>p.
     rbind (GetListString fm ''tags'') (\<lambda>tags.
     rbind (GetOptionalI64 fm ''due_at'') (\<lambda>due.
       Inr \<lparr>ID = i, Title = title, Done = d, Priority = p, Tags = tags, DueAt = due\<rparr>))))))"

definition draftToFieldMap :: "draft \<Rightarrow> field_map" where
  "draftToFieldMap d =
     SetOptional FI64
       (SetListString (SetString (SetString NewFieldMap ''title'' (DraftTitle d)) ''priority'' (DraftPriority d))
         ''tags'' (DraftTags d))
       ''due_at'' (DraftDueAt d)"

definition draftFromFieldMap :: "field_map \<Rightarrow> fm_error + draft" where
  "draftFromFieldMap fm =
     rbind (GetString fm ''title'') (\<lambda>title.
     rbind (GetString fm ''priority'') (\<lambda>p.
     rbind (GetListString fm ''tags'') (\<lambda>tags.
     rbind (GetOptionalI64 fm ''due_at'') (\<lambda>due.
       Inr \<lparr>DraftTitle = title, DraftPriority = p, DraftTags = tags, DraftDueAt = due\<rparr>))))"

definition pageToFieldMap :: "task_page \<Rightarrow> field_map" where
  "pageToFieldMap p =
     SetU32 (SetListStruct NewFieldMap ''items'' (map (\<lambda>t. Some (taskToFieldMap t)) (PageItems p))) ''total'' (PageTotal p)"

definition pageFromFieldMap :: "field_map \<Rightarrow> conv_error + task_page" where
  "pageFromFieldMap fm =
     rbind (map_err BadField (GetListStruct fm ''items'')) (\<lambda>items.
     rbind (mapM (\<lambda>item. case item of None \<Rightarrow> Inl NilPayload | Some f \<Rightarrow> map_err BadField (taskFromFieldMap f)) items) (\<lambda>ts.
     rbind (map_err BadField (GetU32 fm ''total'')) (\<lambda>total.
       Inr \<lparr>PageItems = ts, PageTotal = total\<rparr>)))"

definition apiErrorToFieldMap :: "api_failure \<Rightarrow> field_map" where
  "apiErrorToFieldMap e = SetString (SetString NewFieldMap ''code'' (Code e)) ''message'' (Message e)"

definition apiErrorFromFieldMap :: "field_map \<Rightarrow> fm_error + api_failure" where
  "apiErrorFromFieldMap fm =
     rbind (GetString fm ''code'') (\<lambda>c. rbind (GetString fm ''message'') (\<lambda>m. Inr \<lparr>Code = c, Message = m\<rparr>))"

definition payload :: "string \<Rightarrow> fval \<Rightarrow> conv_error + field_map" where
  "payload tag v =
     (case v of FFM (Some fm) \<Rightarrow> Inr fm | FFM None \<Rightarrow> Inl NilPayload | _ \<Rightarrow> Inl (BadPayload tag))"

subsection \<open>The sums\<close>

definition op_from :: "(string \<times> fval) option \<Rightarrow> conv_error + op" where
  "op_from var = (case var of
     None \<Rightarrow> Inl NilPayload
   | Some (tag, v) \<Rightarrow>
       if tag = ''list_all'' then Inr ListAll
       else if tag = ''create'' then
         rbind (payload tag v) (\<lambda>fm. map_res Create (map_err BadField (draftFromFieldMap fm)))
       else if tag = ''read'' then (case v of FU64 i \<Rightarrow> Inr (Read i) | _ \<Rightarrow> Inl (BadPayload tag))
       else if tag = ''update'' then
         rbind (payload tag v) (\<lambda>fm. map_res Update (map_err BadField (taskFromFieldMap fm)))
       else if tag = ''delete'' then (case v of FU64 i \<Rightarrow> Inr (Delete i) | _ \<Rightarrow> Inl (BadPayload tag))
       else Inl (UnknownVariant tag))"

definition op_to :: "op \<Rightarrow> (string \<times> fval) option" where
  "op_to v = Some (case v of
     ListAll \<Rightarrow> (''list_all'', FNil)
   | Create d \<Rightarrow> (''create'', FFM (Some (draftToFieldMap d)))
   | Read i \<Rightarrow> (''read'', FU64 i)
   | Update t \<Rightarrow> (''update'', FFM (Some (taskToFieldMap t)))
   | Delete i \<Rightarrow> (''delete'', FU64 i))"

definition result_from :: "(string \<times> fval) option \<Rightarrow> conv_error + result" where
  "result_from var = (case var of
     None \<Rightarrow> Inl NilPayload
   | Some (tag, v) \<Rightarrow>
       if tag = ''accepted'' then Inr Accepted
       else if tag = ''found'' then
         rbind (payload tag v) (\<lambda>fm. map_res Found (map_err BadField (taskFromFieldMap fm)))
       else if tag = ''listing'' then
         rbind (payload tag v) (\<lambda>fm. map_res Listing (pageFromFieldMap fm))
       else if tag = ''failed'' then
         rbind (payload tag v) (\<lambda>fm. map_res Failed (map_err BadField (apiErrorFromFieldMap fm)))
       else Inl (UnknownVariant tag))"

definition result_to :: "result \<Rightarrow> (string \<times> fval) option" where
  "result_to r = Some (case r of
     Accepted \<Rightarrow> (''accepted'', FNil)
   | Found t \<Rightarrow> (''found'', FFM (Some (taskToFieldMap t)))
   | Listing p \<Rightarrow> (''listing'', FFM (Some (pageToFieldMap p)))
   | Failed e \<Rightarrow> (''failed'', FFM (Some (apiErrorToFieldMap e))))"

subsection \<open>Each direction undoes the other\<close>

lemma optional_i64:
  "GetOptionalI64 (SetOptional FI64 fm k v) k = Inr v"
  "k' \<noteq> k \<Longrightarrow> getTyped as (SetOptional FI64 fm k v) k' = getTyped as fm k'"
  by (cases v; simp add: GetOptionalI64_def GetOptional_def SetOptional_def set_field_def asI64_def)
    (simp add: getTyped_def SetOptional_def set_field_def update_conv')

lemmas fm_access = get_set_facts get_set_other accessor_defs optional_i64

lemma task_fieldmap: "taskFromFieldMap (taskToFieldMap t) = Inr t"
  unfolding taskFromFieldMap_def taskToFieldMap_def by (simp add: fm_access)

lemma draft_fieldmap: "draftFromFieldMap (draftToFieldMap d) = Inr d"
  unfolding draftFromFieldMap_def draftToFieldMap_def by (simp add: fm_access)

lemma page_fieldmap: "pageFromFieldMap (pageToFieldMap p) = Inr p"
proof -
  have "mapM (\<lambda>item. case item of None \<Rightarrow> Inl NilPayload | Some f \<Rightarrow> map_err BadField (taskFromFieldMap f))
      (map (\<lambda>t. Some (taskToFieldMap t)) ts) = Inr ts" for ts
    by (induction ts) (simp_all add: task_fieldmap)
  then show ?thesis unfolding pageFromFieldMap_def pageToFieldMap_def by (simp add: fm_access del: map_map)
qed

lemma failure_fieldmap: "apiErrorFromFieldMap (apiErrorToFieldMap e) = Inr e"
  unfolding apiErrorFromFieldMap_def apiErrorToFieldMap_def by (simp add: fm_access)

lemma op_from_to: "op_from (op_to v) = Inr v"
  by (cases v) (simp_all add: op_from_def op_to_def payload_def task_fieldmap draft_fieldmap)

lemma result_from_to: "result_from (result_to r) = Inr r"
  by (cases r) (simp_all add: result_from_def result_to_def payload_def task_fieldmap page_fieldmap failure_fieldmap)

subsection \<open>The converters as the library sees them\<close>

definition as_variant :: "fval \<Rightarrow> (string \<times> fval) option option" where
  "as_variant v = (case v of FVariant x \<Rightarrow> Some x | _ \<Rightarrow> None)"

text \<open>\<open>errtext\<close> gives the text of an error; \<open>asOp\<close>, \<open>asResult\<close> and the functions \<open>ofOp\<close>, \<open>ofResult\<close> hold an \<open>Op\<close> and a
  \<open>Result\<close> as Go values.\<close>

definition opConverter :: "(conv_error \<Rightarrow> string) \<Rightarrow> (gv \<Rightarrow> op option) \<Rightarrow> (op \<Rightarrow> gv) \<Rightarrow> converter" where
  "opConverter errtext asOp ofOp =
     NewConverter (YOther ''Op'') as_variant FVariant asOp ofOp (\<lambda>v. map_err errtext (op_from v)) op_to"

definition resultConverter :: "(conv_error \<Rightarrow> string) \<Rightarrow> (gv \<Rightarrow> result option) \<Rightarrow> (result \<Rightarrow> gv) \<Rightarrow> converter" where
  "resultConverter errtext asResult ofResult =
     NewConverter (YOther ''Result'') as_variant FVariant asResult ofResult (\<lambda>v. map_err errtext (result_from v)) result_to"

lemma NewConverter_law:
  assumes "asT x = Some t" "ofT t = x" "from (to t) = Inr t" "c = NewConverter ty as_variant FVariant asT ofT from to"
  shows "\<exists>v. cv_to c x = Some v \<and> storable v \<and> cv_type c = ty \<and> cv_from c v = Inr x"
  using assms by (simp add: NewConverter_def as_variant_def storable_def)

text \<open>Both converters meet the library's contract, so a request or a response survives its FieldMap.\<close>

theorem worker_converters_lawful:
  assumes "\<And>x. has_ty (YOther ''Op'') x \<Longrightarrow> \<exists>v. asOp x = Some v \<and> ofOp v = x"
    and "\<And>x. has_ty (YOther ''Result'') x \<Longrightarrow> \<exists>r. asResult x = Some r \<and> ofResult r = x"
    and "\<And>t. rf_conv R t =
      (if t = YOther ''Op'' then Some (opConverter errtext asOp ofOp)
       else if t = YOther ''Result'' then Some (resultConverter errtext asResult ofResult) else None)"
  shows "lawful_converters R"
proof
  fix t c x
  assume c: "rf_conv R t = Some c" and x: "has_ty t x"
  consider "t = YOther ''Op''" "c = opConverter errtext asOp ofOp"
    | "t = YOther ''Result''" "c = resultConverter errtext asResult ofResult"
    using c by (auto simp: assms(3) split: if_splits)
  then show "\<exists>v. cv_to c x = Some v \<and> storable v \<and> cv_type c = t \<and> cv_from c v = Inr x"
  proof cases
    case 1
    then obtain v where "asOp x = Some v" "ofOp v = x" using assms(1) x by blast
    then show ?thesis using 1 by (intro NewConverter_law) (simp_all add: opConverter_def op_from_to)
  next
    case 2
    then obtain r where "asResult x = Some r" "ofResult r = x" using assms(2) x by blast
    then show ?thesis using 2 by (intro NewConverter_law) (simp_all add: resultConverter_def result_from_to)
  qed
qed

end
