(* ===== verification/AuditExample.thy ===== *)
theory AuditExample
  imports AppWire AuditProofs
begin

section \<open>A worker made to be audited (examples/audit/go)\<close>

text \<open>
  One type and three codecs with the same bytes, which differ in what they do to memory: \<open>safe\<close> copies what
  it decodes, \<open>fast\<close> keeps windows into the input buffer, \<open>handoff\<close> wipes the payload it has written. The
  properties are about the library's audit of them. A decoded field is \<open>Owned\<close> bytes or a \<open>Window\<close>, and
  reads differently when the buffer changes.
\<close>

datatype mem =
    Owned bytes
  | Window nat nat

record 'm frame =
  StreamID :: "32 word"
  FrameTitle :: 'm
  FrameTags :: "'m list"
  FramePayload :: 'm

definition read_mem :: "bytes \<Rightarrow> mem \<Rightarrow> bytes" where
  "read_mem buf x = (case x of Owned b \<Rightarrow> b | Window i n \<Rightarrow> take n (drop i buf))"

definition frame_view :: "bytes \<Rightarrow> mem frame \<Rightarrow> bytes frame" where
  "frame_view buf f =
     \<lparr>StreamID = StreamID f, FrameTitle = read_mem buf (FrameTitle f), FrameTags = map (read_mem buf) (FrameTags f),
      FramePayload = read_mem buf (FramePayload f)\<rparr>"

subsection \<open>wire.go, codec.go\<close>

definition appendStr :: "bytes \<Rightarrow> bytes" where
  "appendStr s = put32 (word_of_nat (length s)) @ s"

text \<open>Number and position of a length-prefixed body.\<close>

definition readLen :: "bytes \<Rightarrow> nat \<Rightarrow> app_error + nat \<times> nat" where
  "readLen data pos =
     (if length data < pos + 4 then Inl Truncated
      else let n = unat (get32 (drop pos data)); body = pos + 4 in
        if length data < body + n then Inl Truncated else Inr (n, body))"

definition Marshal :: "bytes frame \<Rightarrow> bytes" where
  "Marshal f =
     put32 (StreamID f) @ appendStr (FrameTitle f) @ put32 (word_of_nat (length (FrameTags f))) @
     concat (map appendStr (FrameTags f)) @ appendStr (FramePayload f)"

definition takeString :: "bytes \<Rightarrow> nat \<Rightarrow> bool \<Rightarrow> app_error + mem \<times> nat" where
  "takeString data pos shared =
     rbind (readLen data pos) (\<lambda>(n, body).
       if n = 0 then Inr (Owned [], body)
       else if shared then Inr (Window body n, body + n)
       else Inr (Owned (take n (drop body data)), body + n))"

fun takeStrings :: "bytes \<Rightarrow> nat \<Rightarrow> bool \<Rightarrow> nat \<Rightarrow> app_error + mem list \<times> nat" where
  "takeStrings data pos shared 0 = Inr ([], pos)"
| "takeStrings data pos shared (Suc n) =
     rbind (takeString data pos shared) (\<lambda>(t, pos).
     rbind (takeStrings data pos shared n) (\<lambda>(ts, pos). Inr (t # ts, pos)))"

definition decode :: "bytes \<Rightarrow> bool \<Rightarrow> app_error + mem frame" where
  "decode data shared =
     (if length data < 4 then Inl Truncated
      else rbind (takeString data 4 shared) (\<lambda>(title, pos).
        if length data < pos + 4 then Inl Truncated
        else rbind (takeStrings data (pos + 4) shared (unat (get32 (drop pos data)))) (\<lambda>(tags, pos).
        rbind (readLen data pos) (\<lambda>(n, body).
          Inr \<lparr>StreamID = get32 data, FrameTitle = title, FrameTags = tags,
               FramePayload = (if shared then Window body n else Owned (take n (drop body data)))\<rparr>))))"

definition unmarshalSafe :: "bytes \<Rightarrow> app_error + mem frame" where
  "unmarshalSafe data = decode data False"

definition unmarshalFast :: "bytes \<Rightarrow> app_error + mem frame" where
  "unmarshalFast data = decode data True"

text \<open>The bytes, and the frame of the caller afterwards.\<close>

definition MarshalHandoff :: "bytes frame \<Rightarrow> bytes \<times> bytes frame" where
  "MarshalHandoff f = (Marshal f, f\<lparr>FramePayload := replicate (length (FramePayload f)) 0\<rparr>)"

text \<open>The FieldMap the library extracts; it shares the frame's memory.\<close>

definition frame_fields :: "bytes frame \<Rightarrow> field_map" where
  "frame_fields f =
     [(''stream_id'', FU32 (StreamID f)), (''title'', FStr (bytes_str (FrameTitle f))),
      (''tags'', FSlice TStr (map (\<lambda>t. FStr (bytes_str t)) (FrameTags f))), (''payload'', FBytes (FramePayload f))]"

subsection \<open>Both decoders read the same\<close>

definition frame_ok :: "bytes frame \<Rightarrow> bool" where
  "frame_ok f \<longleftrightarrow> fits (FrameTitle f) \<and> fits (FrameTags f) \<and> list_all fits (FrameTags f) \<and> fits (FramePayload f)"

lemma get32_at: "get32 (drop (length p) (p @ put32 w @ r)) = w"
  using word_pieces(2) [of w] by (simp add: get32_def put32_def)

lemma length_appendStr [simp]: "length (appendStr s) = 4 + length s"
  by (simp add: appendStr_def put32_def)

lemma readLen_at: "fits s \<Longrightarrow> readLen (p @ appendStr s @ r) (length p) = Inr (length s, length p + 4)"
proof -
  assume "fits s"
  then have "unat (word_of_nat (length s) :: 32 word) = length s" by (simp add: fits_def unat_word_of_nat)
  moreover have "get32 (drop (length p) (p @ appendStr s @ r)) = word_of_nat (length s)"
    unfolding appendStr_def append_assoc by (rule get32_at)
  ultimately show ?thesis by (simp add: readLen_def Let_def)
qed

lemma body_at: "take (length s) (drop (length p + 4) (p @ appendStr s @ r)) = s"
  by (simp add: appendStr_def put32_def)

lemma takeString_at:
  assumes "fits s"
  shows "\<exists>t. takeString (p @ appendStr s @ r) (length p) shared = Inr (t, length p + (4 + length s)) \<and>
    read_mem (p @ appendStr s @ r) t = s"
  using assms body_at [of s p r]
  by (cases "s = []") (auto simp: takeString_def readLen_at read_mem_def)

lemma takeStrings_at:
  assumes "list_all fits ss"
  shows "\<exists>ts. takeStrings (p @ concat (map appendStr ss) @ r) (length p) shared (length ss) =
      Inr (ts, length p + length (concat (map appendStr ss))) \<and>
    map (read_mem (p @ concat (map appendStr ss) @ r)) ts = ss"
  using assms
proof (induction ss arbitrary: p)
  case (Cons s ss)
  let ?r = "concat (map appendStr ss) @ r"
  obtain t where t: "takeString (p @ appendStr s @ ?r) (length p) shared = Inr (t, length p + (4 + length s))"
    "read_mem (p @ appendStr s @ ?r) t = s" using takeString_at [of s p ?r shared] Cons.prems by auto
  obtain ts where ts: "takeStrings ((p @ appendStr s) @ ?r) (length (p @ appendStr s)) shared (length ss) =
      Inr (ts, length (p @ appendStr s) + length (concat (map appendStr ss)))"
    "map (read_mem ((p @ appendStr s) @ ?r)) ts = ss" using Cons.IH [of "p @ appendStr s"] Cons.prems by auto
  show ?case using t ts by (intro exI [of _ "t # ts"]) (simp add: add.assoc)
qed simp

lemma decode_Marshal:
  assumes "frame_ok f"
  shows "\<exists>g. decode (Marshal f) shared = Inr g \<and> frame_view (Marshal f) g = f"
proof -
  let ?data = "Marshal f"
  define p1 where "p1 = put32 (StreamID f)"
  define p2 where "p2 = p1 @ appendStr (FrameTitle f)"
  define n :: "32 word" where "n = word_of_nat (length (FrameTags f))"
  define p3 where "p3 = p2 @ put32 n"
  define p4 where "p4 = p3 @ concat (map appendStr (FrameTags f))"
  have l: "length p1 = 4" "length p2 = 8 + length (FrameTitle f)" "length p3 = length p2 + 4"
    by (simp_all add: p1_def p2_def p3_def put32_def)
  have n: "unat n = length (FrameTags f)" using assms by (simp add: n_def frame_ok_def fits_def unat_word_of_nat)
  have d: "?data = p1 @ appendStr (FrameTitle f) @ put32 n @ concat (map appendStr (FrameTags f)) @ appendStr (FramePayload f)"
    "?data = p2 @ put32 n @ concat (map appendStr (FrameTags f)) @ appendStr (FramePayload f)"
    "?data = p3 @ concat (map appendStr (FrameTags f)) @ appendStr (FramePayload f)" "?data = p4 @ appendStr (FramePayload f) @ []"
    by (simp_all add: Marshal_def p1_def p2_def p3_def p4_def n_def)
  obtain t where t: "takeString ?data 4 shared = Inr (t, length p2)" "read_mem ?data t = FrameTitle f"
    using takeString_at [of "FrameTitle f" p1 "put32 n @ concat (map appendStr (FrameTags f)) @ appendStr (FramePayload f)" shared]
      assms unfolding d(1) [symmetric] by (auto simp: frame_ok_def l)
  obtain ts where ts: "takeStrings ?data (length p3) shared (length (FrameTags f)) = Inr (ts, length p4)"
    "map (read_mem ?data) ts = FrameTags f"
    using takeStrings_at [of "FrameTags f" p3 "appendStr (FramePayload f)" shared] assms
    unfolding d(3) [symmetric] by (auto simp: frame_ok_def p4_def)
  have body: "readLen ?data (length p4) = Inr (length (FramePayload f), length p4 + 4)"
    "take (length (FramePayload f)) (drop (length p4 + 4) ?data) = FramePayload f"
    unfolding d(4) using assms by (simp_all only: readLen_at frame_ok_def body_at)
  have g: "get32 (drop (length p2) ?data) = n" unfolding d(2) by (rule get32_at)
  have s: "get32 ?data = StreamID f" using get32_at [of "[]"] unfolding d(1) p1_def by simp
  have len: "\<not> length ?data < 4" "\<not> length ?data < length p2 + 4" unfolding d(2) by (simp_all add: put32_def)
  let ?pay = "if shared then Window (length p4 + 4) (length (FramePayload f)) else Owned (FramePayload f)"
  have "decode ?data shared = Inr \<lparr>StreamID = StreamID f, FrameTitle = t, FrameTags = ts, FramePayload = ?pay\<rparr>"
    by (simp add: decode_def t(1) g n ts(1) l(3) [symmetric] body s len len(2) [folded l(3)])
  moreover have "read_mem ?data ?pay = FramePayload f" using body(2) by (simp add: read_mem_def)
  ultimately show ?thesis by (auto simp: frame_view_def t(2) ts(2))
qed

subsection \<open>What the audit finds\<close>

definition nonempty_name :: "string \<Rightarrow> bool \<Rightarrow> string list" where
  "nonempty_name k b = (if b then [k] else [])"

text \<open>A piece of memory the fast decoder leaves: a window inside the buffer, or nothing.\<close>

definition inside :: "bytes \<Rightarrow> mem \<Rightarrow> bool" where
  "inside data x \<longleftrightarrow> (case x of Owned b \<Rightarrow> b = [] | Window i n \<Rightarrow> i + n \<le> length data)"

definition owned :: "mem \<Rightarrow> bool" where
  "owned x \<longleftrightarrow> (case x of Owned b \<Rightarrow> True | Window i n \<Rightarrow> False)"

definition memory_ok :: "bytes \<Rightarrow> bool \<Rightarrow> mem \<Rightarrow> bool" where
  "memory_ok data shared x \<longleftrightarrow> (if shared then inside data x else owned x)"

lemma takeString_memory: "takeString data pos shared = Inr (t, pos') \<Longrightarrow> memory_ok data shared t"
  by (auto simp: takeString_def readLen_def Let_def rbind_eq_Inr memory_ok_def inside_def owned_def split: if_splits)

lemma takeStrings_memory: "takeStrings data pos shared n = Inr (ts, pos') \<Longrightarrow> list_all (memory_ok data shared) ts"
  by (induction n arbitrary: pos ts pos') (fastforce simp: rbind_eq_Inr dest: takeString_memory)+

lemma decode_memory:
  "decode data shared = Inr g \<Longrightarrow> memory_ok data shared (FrameTitle g) \<and> list_all (memory_ok data shared) (FrameTags g) \<and>
    memory_ok data shared (FramePayload g)"
  by (auto simp: decode_def rbind_eq_Inr readLen_def Let_def memory_ok_def inside_def owned_def split: if_splits
      dest: takeString_memory takeStrings_memory)

lemma read_flipped:
  assumes "memory_ok data shared x"
  shows "read_mem (xorFlip data) x = read_mem data x \<longleftrightarrow> \<not> shared \<or> read_mem data x = []"
proof (cases x)
  case (Owned b)
  then show ?thesis using assms by (auto simp: read_mem_def memory_ok_def inside_def)
next
  case (Window i n)
  then show ?thesis using assms window_differs [of i data n]
    by (cases "n = 0") (auto simp: read_mem_def memory_ok_def inside_def owned_def)
qed

lemma bytes_str_eq: "bytes_str a = bytes_str b \<longleftrightarrow> a = b"
proof -
  have "unat x mod 256 = unat x" for x :: byte
  proof (rule mod_less)
    have "unat x < 2 ^ LENGTH(8)" by (rule unsigned_less)
    then show "unat x < 256" by simp
  qed
  then have "str_bytes (bytes_str b) = b" for b
    by (induction b) (simp_all add: str_bytes_def bytes_str_def)
  then show ?thesis by metis
qed

lemma deep_eq_strings: "deep_eq True (FSlice TStr (map FStr xs)) (FSlice TStr (map FStr ys)) \<longleftrightarrow> xs = ys"
proof -
  have e: "deep_eq True (FStr x) (FStr y) \<longleftrightarrow> x = y" for x y by (simp add: deep_eq.simps)
  have "list_all (\<lambda>(x, y). deep_eq True x y) (zip (map FStr xs) (map FStr ys)) \<longleftrightarrow> list_all2 (=) xs ys"
    if "length xs = length ys"
    using that by (induction rule: list_induct2) (simp_all add: e)
  then show ?thesis
    by (auto simp: deep_eq.simps [of _ "FSlice TStr _"] shared_slice_def list.rel_eq split: if_splits)
qed

lemma string_fields_equal:
  "valuesEqual True (FStr x) (FStr y) \<longleftrightarrow> x = y" "valuesEqual True (FBytes a) (FBytes b) \<longleftrightarrow> a = b"
  "valuesEqual True (FSlice TStr (map FStr xs)) (FSlice TStr (map FStr ys)) \<longleftrightarrow> xs = ys"
  "valuesEqual True (FU32 i) (FU32 j) \<longleftrightarrow> i = j"
  by (simp_all add: valuesEqual.simps deep_eq.simps [of _ "FStr _"] deep_eq.simps [of _ "FU32 _"] deep_eq_strings)

lemma frame_fields_strings:
  "frame_fields f =
     [(''stream_id'', FU32 (StreamID f)), (''title'', FStr (bytes_str (FrameTitle f))),
      (''tags'', FSlice TStr (map FStr (map bytes_str (FrameTags f)))), (''payload'', FBytes (FramePayload f))]"
  by (simp add: frame_fields_def)

lemma map_bytes_str_eq: "map bytes_str xs = map bytes_str ys \<longleftrightarrow> xs = ys"
  by (metis bytes_str_eq inj_def inj_map_eq_map)

lemma probe_frame:
  "probe_fields (frame_fields f) (frame_fields f') =
     (nonempty_name ''title'' (FrameTitle f' \<noteq> FrameTitle f) @ nonempty_name ''tags'' (FrameTags f' \<noteq> FrameTags f) @
      nonempty_name ''payload'' (FramePayload f' \<noteq> FramePayload f), frame_fields (f\<lparr>StreamID := StreamID f'\<rparr>))"
  by (simp add: frame_fields_strings snapped_def string_fields_equal bytes_str_eq map_bytes_str_eq Let_def nonempty_name_def
      del: map_map list.map_comp)

lemma tags_flipped:
  "list_all (memory_ok data shared) ts \<Longrightarrow>
    map (read_mem (xorFlip data)) ts = map (read_mem data) ts \<longleftrightarrow> \<not> shared \<or> list_all (\<lambda>t. read_mem data t = []) ts"
  unfolding list_all_iff map_eq_conv using read_flipped [of data shared] by blast

text \<open>C25. The audit finds exactly the memory a decoder shares: of a frame decoded with copies it reports no
  field, of a frame decoded in place the title, the tags and the payload, each exactly when it has a
  byte; and in both cases the FieldMap reads afterwards as it did before the buffer was overwritten.\<close>

theorem audit_finds_shared_memory:
  assumes "decode data shared = Inr g"
  shows "detectZeroCopy (\<lambda>b. frame_fields (frame_view b g)) data =
    (if shared then
       nonempty_name ''title'' (FrameTitle (frame_view data g) \<noteq> []) @
       nonempty_name ''tags'' (\<not> list_all (\<lambda>t. t = []) (FrameTags (frame_view data g))) @
       nonempty_name ''payload'' (FramePayload (frame_view data g) \<noteq> [])
     else [], frame_fields (frame_view data g))"
proof -
  have "data \<noteq> []" using assms by (auto simp: decode_def)
  moreover have "StreamID (frame_view (xorFlip data) g) = StreamID (frame_view data g)" by (simp add: frame_view_def)
  moreover note m = decode_memory [OF assms]
  moreover have "list_all (\<lambda>t. t = []) (FrameTags (frame_view data g)) \<longleftrightarrow> list_all (\<lambda>t. read_mem data t = []) (FrameTags g)"
    by (simp add: frame_view_def list_all_iff)
  moreover have "FrameTitle (frame_view (xorFlip data) g) = FrameTitle (frame_view data g) \<longleftrightarrow> \<not> shared \<or> FrameTitle (frame_view data g) = []"
    "FramePayload (frame_view (xorFlip data) g) = FramePayload (frame_view data g) \<longleftrightarrow> \<not> shared \<or> FramePayload (frame_view data g) = []"
    "FrameTags (frame_view (xorFlip data) g) = FrameTags (frame_view data g) \<longleftrightarrow>
       \<not> shared \<or> list_all (\<lambda>t. read_mem data t = []) (FrameTags g)"
    using m read_flipped [of data shared] tags_flipped [of data shared "FrameTags g"] by (simp_all add: frame_view_def)
  ultimately show ?thesis
    by (simp add: detectZeroCopy_def probe_frame nonempty_name_def)
qed

definition example_frame :: "bytes frame" where
  "example_frame = \<lparr>StreamID = 1, FrameTitle = [104, 105], FrameTags = [[]], FramePayload = [9]\<rparr>"

lemma audit_finds_shared_memory_witness:
  "\<exists>g. unmarshalFast (Marshal example_frame) = Inr g \<and>
    detectZeroCopy (\<lambda>b. frame_fields (frame_view b g)) (Marshal example_frame) =
      ([''title'', ''payload''], frame_fields example_frame)"
proof -
  obtain g where g: "decode (Marshal example_frame) True = Inr g" "frame_view (Marshal example_frame) g = example_frame"
    using decode_Marshal [of example_frame True] by (auto simp: frame_ok_def example_frame_def fits_def)
  then show ?thesis using audit_finds_shared_memory [OF g(1)]
    by (intro exI [of _ g]) (simp add: unmarshalFast_def nonempty_name_def example_frame_def)
qed

text \<open>Both decoders give the frame back that was marshalled; only the memory differs.\<close>

theorem frame_roundtrip:
  assumes "frame_ok f"
  shows "\<exists>g h. unmarshalSafe (Marshal f) = Inr g \<and> unmarshalFast (Marshal f) = Inr h \<and>
    frame_view (Marshal f) g = f \<and> frame_view (Marshal f) h = f"
  using decode_Marshal [OF assms, of False] decode_Marshal [OF assms, of True]
  by (auto simp: unmarshalSafe_def unmarshalFast_def)

text \<open>The serializer that wipes its input writes the right bytes and is reported, unless the payload was
  all zeros and nothing changed.\<close>

lemma zeros_iff: "replicate (length b) 0 = b \<longleftrightarrow> list_all (\<lambda>x. x = 0) b"
  by (induction b) auto

theorem handoff_reported:
  "fst (MarshalHandoff f) = Marshal f"
  "compareFieldMaps True
      (Some (snapshotFieldMap (frame_fields f) (frame_fields (snd (MarshalHandoff f)))))
      (Some (frame_fields (snd (MarshalHandoff f)))) =
    nonempty_name ''payload'' (\<not> list_all (\<lambda>x. x = 0) (FramePayload f))"
proof -
  show "fst (MarshalHandoff f) = Marshal f" by (simp add: MarshalHandoff_def)
  have z: "FramePayload f = replicate (length (FramePayload f)) 0 \<longleftrightarrow> list_all (\<lambda>x. x = 0) (FramePayload f)"
    using zeros_iff by metis
  show "compareFieldMaps True
      (Some (snapshotFieldMap (frame_fields f) (frame_fields (snd (MarshalHandoff f)))))
      (Some (frame_fields (snd (MarshalHandoff f)))) =
    nonempty_name ''payload'' (\<not> list_all (\<lambda>x. x = 0) (FramePayload f))"
    by (simp add: compareFieldMaps.simps frame_fields_strings MarshalHandoff_def changed_def string_fields_equal
        nonempty_name_def z del: map_map list.map_comp)
qed

end
