(* ===== verification/Spec2Isabelle.thy ===== *)
theory Spec2Isabelle
  imports Schedules Coverage LoopProcess CommandFacts CaseSchemaFacts CaseWire AppNotification TaskClient TaskWorker AuditExample
begin

text \<open>
  serify checks that implementations of one serialization format in several languages agree. A suite
  of type files (YAML) gives types and cases; the runner encodes each case by its schema, sends it to
  one worker process per language, compares the bytes every worker serializes with those of the
  reference worker, sends the reference bytes back to be deserialized, compares the data, and writes
  every verdict to a report whose failures decide the exit code. A Go worker is built on the library
  under lib/go/serify. This development follows the Go code of the runner (cmd/serify, internal/), of
  that library and of the Go programs under examples/; the theories stand in the order the program calls them.

  \<^bold>\<open>Shared.\<close> Prelude (result monad \<open>rbind\<close>/\<open>mapM\<close> on sums, Go maps as association lists with unique keys),
  GoStrings (the functions of package strings on byte strings, decimals, hex), Sorted (Go's order on
  strings), Floats (floats as bit patterns), Wire (\<open>gval\<close>: the values of an \<open>any\<close> on the runner's side;
  \<open>json\<close>).

  \<^bold>\<open>Types and case data.\<close> Kinds (internal/kind), FieldTypes (conf.FieldType and its printed form),
  Resolver (\<open>typeOf\<close> of internal/conf/schema.go), TypeFile (loaders, validation, suite configuration),
  CaseData (schema-directed decoding of YAML nodes). ResolverFacts: the resolver returns for every
  registry whose newtypes are over scalars, its types are well-formed, printing and resolving are
  inverse; and a cycle of transparent types has no finite resolution. TypeFileFacts: what loads
  has passed every check of the loader (\<open>checked_shape\<close> says which these are, value by value: scalars
  and nulls are not among them), imports are complete and end. CaseWire: 64/128-bit integers reach the wire unchanged.

  \<^bold>\<open>The wire.\<close> Proto (\<open>EncodeData\<close>, \<open>SchemaFields\<close>), Messages (requests, responses, their JSON), FieldMap
  (the library's typed accessors; their laws are the locale \<open>typed_access\<close>, interpreted for every type),
  Codec (the library's decoder and encoder). RoundTrip: what a worker decodes and encodes again is what
  was sent, and where it is not.

  \<^bold>\<open>A worker, from both ends.\<close> Worker (internal/worker: start, ping, bind, send, stop over an abstract
  process \<open>'s process\<close>); WorkerSuite and Loop (the function signatures and the protocol loop of the
  library over an abstract memory \<open>'m\<close>); AuditChecks and AuditProofs (the audit of mutation and
  aliasing); Reflect (filling a worker's struct from a FieldMap and extracting it again, with converters).
  ReflectFacts: a struct survives its FieldMap, and an optional struct with a converter does not.
  LoopFacts: one answer to each request, and exactly which
  requests crash the loop or get a blank line. LoopProcess puts the ends together: a process that
  runs the loop with answers that may be late, lost or cut off satisfies the contracts \<open>fifo_process\<close>
  and \<open>process_invariant\<close> of Worker, so a response the runner accepts is the answer to its request.

  \<^bold>\<open>A run.\<close> Cmp (HexDiff, DataDiff), Csv (the writer and reader of encoding/csv), Report (log, records, CSV, grid, JUnit), Orch (the rounds), Coverage
  (the expected-skips gate), Builder (language detection and builds), Command (run, validate, table,
  exit codes), CaseSchema (serify schema). OrchFacts: each row says what was observed; and two
  shortcomings of the matrix. SuiteFacts: no case is missing. Schedules: the goroutines of a round may
  run in any order. CommandFacts: what exit code 0 means, that no worker is left running, and that the runner does
  not panic. Two exits are not returns: \<open>PrintExit\<close>, the \<open>os.Exit\<close> of \<open>Print\<close> that skips the deferred stops, and \<open>Panicked\<close>,
  a nil dereference in a round, recorded by \<open>rs_panicked\<close>.
  CaseSchemaFacts: generated schemas are self-contained, modelines are stable.

  \<^bold>\<open>An example worker.\<close> The reference worker of examples/appdata/go fixes the bytes the other languages of
  that suite must produce. AppWire: its readers, the relation \<open>reads\<close> between a reader and the bytes of a
  value, and the locale \<open>wire_codec\<close> of writers and readers that belong together, interpreted for every
  building block. AppSignals, AppRecords, AppNotification: the six records with their \<open>MarshalBinary\<close> and
  \<open>UnmarshalBinary\<close>, inverse to each other for every value the layout can carry, and the converter of the
  channel sum, which satisfies the contract of Reflect. The order in which Go walks a map is the parameter
  \<open>key_order\<close>, any permutation of the keys.

  AuditExample (examples/audit/go): three codecs with the same bytes and different use of memory, and
  the proof that the audit of AuditChecks reports of each exactly the fields it shares.

  \<^bold>\<open>An example program.\<close> examples/taskstore/go is a server with its clients, tested by the harness through the
  very functions it runs. TaskApi (api/: primitives, records, the sums \<open>op\<close> and \<open>result\<close>, the two messages),
  TaskCodec (the locales \<open>partial_codec\<close> and \<open>sound_codec\<close>: what is written can be read, what is read can be
  written again; interpreted for every record and sum), TaskStore (store/: \<open>Apply\<close>, its invariant, and the
  list of tasks it implements), TaskServer (frames, the loop of a connection, all connections interleaved
  by \<open>server_step\<close>, a client's \<open>send\<close>), TaskClient (the command line), TaskWorker (the converters).
  \<open>server_linearizable\<close>: every interleaving is explained by one sequence of requests. \<open>store_refines_list\<close>: what
  that sequence does. \<open>exit_zero_means_done\<close> puts client and server together. Two theorems show requests
  that are carried out, or accepted, but never answered, because the answer exceeds the frame limit.

  \<^bold>\<open>Parameters.\<close> What the program only calls is an argument: JSON and YAML texts (the model starts at their
  trees), go-cmp's \<open>Diff\<close>, \<open>strconv.Quote\<close> and error texts, out-of-range float conversions (\<open>go_env\<close>), the
  file system (\<open>fsys\<close>, \<open>machine\<close>), processes and the clock (\<open>process\<close>: each wait for a line yields a line, a
  timeout, a cancelled context or an error), and the worker's own functions, which may do anything to
  their memory. Hypotheses on these are named in the theorems that need them (\<open>never_cancelled\<close>: no
  cancelled context) and have instances in the witnesses.

  \<^bold>\<open>Recursion.\<close> \<open>type_of\<close> and the import loader recurse through files, so they take a call depth and
  return \<open>None\<close> when it is used up; \<open>typeOf_terminates\<close> and \<open>imports_terminate\<close> give a depth that is enough
  (the number of types, of files), and \<open>typeOf_transparent_cycle_diverges\<close> shows where none is. All
  other functions are total.

  \<^bold>\<open>Concurrency.\<close> A round starts one goroutine per worker. Each touches its own worker and adds rows under
  the report's lock, so the model runs them one after the other in an order \<open>schedule\<close> chooses
  (what it returns is used where it is a permutation of the workers, so every goroutine runs once);
  \<open>Run_schedule_independent\<close> shows that the order does not matter. Sends to one worker within the matrix
  and the semantic oracle are serialized by the worker's mutex.

  \<^bold>\<open>Not modelled.\<close> Recursive and unexported Go types in a worker's models, terminal
  output and colours, the XML text of JUnit, log lines, the cobra wiring (cmd/serify/root.go and flag
  parsing), the collection of a worker's stderr, test helpers (internal/testutil), and the
  workers of the test suites, which are users of the library; of the appdata worker its JSON format and the wiring in
  main; of the task store the printed lines of its client and errors of sockets other than their end. The libraries and workers in other languages are
  outside this development.
\<close>

end
